(* ===== verification/Prelude.thy ===== *)
theory Prelude
  imports Complex_Main "HOL-Library.Word" "HOL-Library.Signed_Division"
begin

section \<open>Prelude: shared types, Go primitives and table lemmas\<close>

text \<open>
  Shared by every component:
  \<^item> type synonyms for identifiers and instants (nanoseconds since the epoch, as Go's
    \<^verbatim>\<open>time.Time\<close> and \<^verbatim>\<open>time.Duration\<close> count them; a \<^verbatim>\<open>*T\<close> that may be nil is an
    \<open>option\<close>);
  \<^item> the errors a store call can return (\<^verbatim>\<open>models.ErrNotFound\<close> and its siblings, and any
    other driver error), and the outcome of an HTTP handler;
  \<^item> the Go primitives the sources use: \<^verbatim>\<open>int32\<close> conversion, \<^verbatim>\<open>time.Time.Sub\<close> with its
    saturation, the order-preserving de-duplication loop with a \<open>seen\<close> map;
  \<^item> SQL tables as lists of rows: selection, conditional update and deletion, with the
    facts the component proofs share, collected in \<open>table_simps\<close>.
\<close>

named_theorems table_simps "rewriting of table selections, updates and deletions"
named_theorems handler_defs "the definitions a request handler unfolds to"
named_theorems inv_intros "introduction rules for the invariants"

type_synonym ident = string
type_synonym instant = int
type_synonym duration = int

subsection \<open>Errors and responses\<close>

text \<open>\<^verbatim>\<open>models/store.go\<close>: the sentinel errors; \<open>ErrOther\<close> stands for every other
  error value (a driver or network failure).\<close>

datatype store_error = ErrNotFound | ErrConflict | ErrSeatLimit | ErrMonitorLimit | ErrOther

text \<open>What a Gin handler writes: a success status with its body, or an error status with
  the fixed part of its message.\<close>

datatype 'a response = Ok nat 'a | Fail nat string

fun resp_status :: "'a response \<Rightarrow> nat" where
  "resp_status (Ok n _) = n"
| "resp_status (Fail n _) = n"

fun is_ok :: "'a response \<Rightarrow> bool" where
  "is_ok (Ok _ _) = True"
| "is_ok (Fail _ _) = False"

subsection \<open>Go arithmetic\<close>

definition int32 :: "int \<Rightarrow> int" where
  "int32 x = sint (word_of_int x :: 32 word)"

definition min_duration :: duration where
  "min_duration = - (2 ^ 63)"

definition max_duration :: duration where
  "max_duration = 2 ^ 63 - 1"

text \<open>\<^verbatim>\<open>time.Time.Sub\<close> saturates instead of overflowing.\<close>

definition time_sub :: "instant \<Rightarrow> instant \<Rightarrow> duration" where
  "time_sub t u = max min_duration (min max_duration (t - u))"

abbreviation (input) second :: duration where
  "second \<equiv> 1000000000"

abbreviation (input) hour :: duration where
  "hour \<equiv> 3600 * 1000000000"

text \<open>\<^verbatim>\<open>p != nil && P(*p)\<close>.\<close>

definition opt_any :: "'a option \<Rightarrow> ('a \<Rightarrow> bool) \<Rightarrow> bool" where
  "opt_any v P = (case v of None \<Rightarrow> False | Some x \<Rightarrow> P x)"

subsection \<open>De-duplication and tables\<close>

text \<open>The loop \<^verbatim>\<open>for _, x := range xs { if seen[x] { continue }; seen[x] = true; out = append(out, x) }\<close>.\<close>

fun dedup_loop :: "'a set \<Rightarrow> 'a list \<Rightarrow> 'a list \<Rightarrow> 'a list" where
  "dedup_loop seen out [] = out"
| "dedup_loop seen out (x # xs) =
     (if x \<in> seen then dedup_loop seen out xs
      else dedup_loop (insert x seen) (out @ [x]) xs)"

text \<open>What \<^verbatim>\<open>%d\<close> prints for a number that is not negative.\<close>

fun fmt_nat :: "nat \<Rightarrow> string" where
  "fmt_nat n = (if n < 10 then [char_of (48 + n)] else fmt_nat (n div 10) @ [char_of (48 + n mod 10)])"

declare fmt_nat.simps [simp del]

definition update_where :: "('r \<Rightarrow> bool) \<Rightarrow> ('r \<Rightarrow> 'r) \<Rightarrow> 'r list \<Rightarrow> 'r list" where
  "update_where P f tbl = map (\<lambda>r. if P r then f r else r) tbl"

definition delete_where :: "('r \<Rightarrow> bool) \<Rightarrow> 'r list \<Rightarrow> 'r list" where
  "delete_where P tbl = filter (\<lambda>r. \<not> P r) tbl"

definition count_where :: "('r \<Rightarrow> bool) \<Rightarrow> 'r list \<Rightarrow> int" where
  "count_where P tbl = int (length (filter P tbl))"

subsection \<open>Lemmas\<close>

lemma opt_any_simps [simp]: "opt_any None P = False" "opt_any (Some x) P = P x"
  by (simp_all add: opt_any_def)

lemma opt_any_iff: "opt_any v P \<longleftrightarrow> (\<exists>x. v = Some x \<and> P x)"
  by (cases v) simp_all

lemma time_sub_exact:
  "min_duration \<le> t - u \<Longrightarrow> t - u \<le> max_duration \<Longrightarrow> time_sub t u = t - u"
  by (simp add: time_sub_def)

lemma time_sub_bounds: "min_duration \<le> time_sub t u" "time_sub t u \<le> max_duration"
  by (simp_all add: time_sub_def min_duration_def max_duration_def)

lemma int32_id: "- (2 ^ 31) \<le> x \<Longrightarrow> x < 2 ^ 31 \<Longrightarrow> int32 x = x"
  by (simp add: int32_def sint_sbintrunc' signed_take_bit_int_eq_self)

lemma int32_range: "- (2 ^ 31) \<le> int32 x" "int32 x < 2 ^ 31"
  using sint_range_size [of "word_of_int x :: 32 word"]
  by (simp_all add: int32_def word_size)

lemma dedup_loop_set: "set (dedup_loop seen out xs) = set out \<union> (set xs - seen)"
  by (induction seen out xs rule: dedup_loop.induct) auto

lemma dedup_loop_distinct:
  "distinct out \<Longrightarrow> set out \<subseteq> seen \<Longrightarrow> distinct (dedup_loop seen out xs)"
  by (induction seen out xs rule: dedup_loop.induct) auto

lemma dedup_loop_filter:
  "dedup_loop seen out xs = out @ dedup_loop seen [] xs"
proof (induction xs arbitrary: seen out)
  case Nil
  then show ?case by simp
next
  case (Cons x xs)
  from Cons.IH [of "insert x seen" "out @ [x]"] Cons.IH [of "insert x seen" "[x]"]
  show ?case using Cons.IH [of seen out] by simp
qed

lemma dedup_loop_id:
  "distinct xs \<Longrightarrow> set xs \<inter> seen = {} \<Longrightarrow> dedup_loop seen out xs = out @ xs"
  by (induction seen out xs rule: dedup_loop.induct) auto

lemma update_where_Nil [table_simps]: "update_where P f [] = []"
  by (simp add: update_where_def)

lemma update_where_Cons [table_simps]:
  "update_where P f (r # tbl) = (if P r then f r else r) # update_where P f tbl"
  by (simp add: update_where_def)

lemma length_update_where [simp, table_simps]: "length (update_where P f tbl) = length tbl"
  by (simp add: update_where_def)

lemma set_update_where [table_simps]:
  "set (update_where P f tbl) = (\<lambda>r. if P r then f r else r) ` set tbl"
  by (auto simp: update_where_def)

lemma map_update_where:
  "(\<And>r. k (f r) = k r) \<Longrightarrow> map k (update_where P f tbl) = map k tbl"
  by (simp add: update_where_def)

lemma set_delete_where [table_simps]: "set (delete_where P tbl) = {r \<in> set tbl. \<not> P r}"
  by (auto simp: delete_where_def)

lemma distinct_map_delete_where:
  "distinct (map k tbl) \<Longrightarrow> distinct (map k (delete_where P tbl))"
  by (simp add: delete_where_def distinct_map_filter)

lemma count_where_Nil [table_simps]: "count_where P [] = 0"
  by (simp add: count_where_def)

lemma count_where_Cons [table_simps]:
  "count_where P (r # tbl) = (if P r then 1 else 0) + count_where P tbl"
  by (simp add: count_where_def)

lemma count_where_append [table_simps]:
  "count_where P (xs @ ys) = count_where P xs + count_where P ys"
  by (simp add: count_where_def)

lemma count_where_nonneg [simp]: "0 \<le> count_where P tbl"
  by (simp add: count_where_def)

lemma count_where_update:
  "(\<And>r. r \<in> set tbl \<Longrightarrow> P (if Q r then f r else r) = P r) \<Longrightarrow>
   count_where P (update_where Q f tbl) = count_where P tbl"
  by (induction tbl) (auto simp: table_simps)

lemma count_where_mono:
  "(\<And>r. r \<in> set tbl \<Longrightarrow> P r \<Longrightarrow> Q r) \<Longrightarrow> count_where P tbl \<le> count_where Q tbl"
  by (induction tbl) (auto simp: table_simps intro: add_mono order_trans)

lemma count_where_delete: "count_where P (delete_where Q tbl) \<le> count_where P tbl"
  by (induction tbl) (auto simp: table_simps delete_where_def count_where_def)

lemma find_SomeD: "find P xs = Some x \<Longrightarrow> x \<in> set xs \<and> P x"
  by (auto simp: find_Some_iff)

lemma find_None_D: "find P xs = None \<Longrightarrow> x \<in> set xs \<Longrightarrow> \<not> P x"
  by (auto simp: find_None_iff)

lemma find_unique:
  assumes "distinct (map k tbl)" "r \<in> set tbl"
  shows "find (\<lambda>x. k x = k r) tbl = Some r"
  using assms by (induction tbl) (auto simp: rev_image_eqI)

end
