(* ===== verification/Plans.thy ===== *)
theory Plans
  imports Prelude
begin

section \<open>Plans, roles, regions and expiry buckets\<close>

text \<open>
  The pure domain rules of \<^verbatim>\<open>internal/models\<close>: what each subscription plan allows
  (\<^verbatim>\<open>plan.go\<close>), the role order of an organization (\<^verbatim>\<open>organization.go\<close>), the region
  registry (\<^verbatim>\<open>region.go\<close>), the slow-response thresholds (\<^verbatim>\<open>monitor.go\<close>) and the
  certificate/domain expiry buckets (\<^verbatim>\<open>expiry.go\<close>). The Go string enumerations become
  datatypes whose last constructor carries every other string, because the code has
  default branches for them. Floating-point hours are exact rationals.
\<close>

subsection \<open>Enumerations\<close>

datatype monitor_type = HTTP | PORT | PING | OtherType string

datatype alert_channel = EMAIL | SMS | DISCORD | SLACK | TELEGRAM | OtherChannel string

datatype status = UP | DOWN | DEGRADED

datatype org_role = OWNER | ADMIN | MEMBER | VIEWER | OtherRole string

subsection \<open>Plan limits\<close>

definition Unlimited :: int where
  "Unlimited = - 1"

record plan_limits =
  MaxMonitors :: int
  MaxChannelsOfType :: "alert_channel \<rightharpoonup> int"
  MinInterval :: int
  MaxRegions :: int
  MaxLoginSeats :: int
  MaxAlertRecipients :: int
  CustomDegradedThreshold :: bool
  MaintenanceWindows :: bool
  MaxAlertRepeats :: int
  SSLMonitoring :: bool
  DomainMonitoring :: bool

definition freeChannelCaps :: "alert_channel \<rightharpoonup> int" where
  "freeChannelCaps = [EMAIL \<mapsto> 1, SMS \<mapsto> 1, DISCORD \<mapsto> 2]"

definition proChannelCaps :: "alert_channel \<rightharpoonup> int" where
  "proChannelCaps = [EMAIL \<mapsto> 1, SMS \<mapsto> 1, DISCORD \<mapsto> 5, SLACK \<mapsto> 5, TELEGRAM \<mapsto> 5]"

definition enterpriseChannelCaps :: "alert_channel \<rightharpoonup> int" where
  "enterpriseChannelCaps =
     [EMAIL \<mapsto> 1, SMS \<mapsto> 1, DISCORD \<mapsto> Unlimited, SLACK \<mapsto> Unlimited, TELEGRAM \<mapsto> Unlimited]"

definition LimitsForPlan :: "string \<Rightarrow> plan_limits" where
  "LimitsForPlan plan =
     (if plan = ''PRO'' then
        \<lparr>MaxMonitors = 20, MaxChannelsOfType = proChannelCaps, MinInterval = 60, MaxRegions = 3,
         MaxLoginSeats = 0, MaxAlertRecipients = 0, CustomDegradedThreshold = True,
         MaintenanceWindows = False, MaxAlertRepeats = 0, SSLMonitoring = False,
         DomainMonitoring = False\<rparr>
      else if plan = ''ENTERPRISE'' then
        \<lparr>MaxMonitors = 200, MaxChannelsOfType = enterpriseChannelCaps, MinInterval = 60,
         MaxRegions = Unlimited, MaxLoginSeats = 3, MaxAlertRecipients = 3,
         CustomDegradedThreshold = True, MaintenanceWindows = True, MaxAlertRepeats = 10,
         SSLMonitoring = True, DomainMonitoring = True\<rparr>
      else
        \<lparr>MaxMonitors = 5, MaxChannelsOfType = freeChannelCaps, MinInterval = 300, MaxRegions = 1,
         MaxLoginSeats = 0, MaxAlertRecipients = 0, CustomDegradedThreshold = False,
         MaintenanceWindows = False, MaxAlertRepeats = 0, SSLMonitoring = False,
         DomainMonitoring = False\<rparr>)"

definition ChannelAllowed :: "plan_limits \<Rightarrow> alert_channel \<Rightarrow> bool" where
  "ChannelAllowed l ch = (MaxChannelsOfType l ch \<noteq> None)"

text \<open>Go returns the pair (value, ok); the zero value comes with \<open>ok = False\<close>.\<close>

definition MaxChannelsFor :: "plan_limits \<Rightarrow> alert_channel \<Rightarrow> int \<times> bool" where
  "MaxChannelsFor l ch =
     (case MaxChannelsOfType l ch of Some m \<Rightarrow> (m, True) | None \<Rightarrow> (0, False))"

definition EffectiveInterval :: "int option \<Rightarrow> string \<Rightarrow> int \<Rightarrow> int" where
  "EffectiveInterval raw plan timeout =
     (case raw of
        Some v \<Rightarrow> v
      | None \<Rightarrow>
          (let floor = MinInterval (LimitsForPlan plan)
           in if timeout \<ge> floor then timeout + 1 else floor))"

subsection \<open>Slow-response thresholds\<close>

definition DefaultDegradedThresholdMs :: "monitor_type \<Rightarrow> int" where
  "DefaultDegradedThresholdMs t = (case t of PORT \<Rightarrow> 1000 | PING \<Rightarrow> 500 | _ \<Rightarrow> 2000)"

definition EffectiveDegradedThreshold :: "int option \<Rightarrow> monitor_type \<Rightarrow> int" where
  "EffectiveDegradedThreshold raw t =
     (case raw of Some v \<Rightarrow> v | None \<Rightarrow> DefaultDegradedThresholdMs t)"

subsection \<open>Roles\<close>

text \<open>A Go map lookup of an unknown role yields the zero weight.\<close>

definition roleWeight :: "org_role \<Rightarrow> int" where
  "roleWeight r = (case r of OWNER \<Rightarrow> 3 | ADMIN \<Rightarrow> 2 | MEMBER \<Rightarrow> 1 | VIEWER \<Rightarrow> 0 | OtherRole _ \<Rightarrow> 0)"

definition RoleAtLeast :: "org_role \<Rightarrow> org_role \<Rightarrow> bool" where
  "RoleAtLeast role minRole = (roleWeight role \<ge> roleWeight minRole)"

subsection \<open>Region registry\<close>

record region =
  regionID :: string
  regionName :: string

definition Regions :: "region list" where
  "Regions =
     [\<lparr>regionID = ''ca-east'', regionName = ''Canada (East)''\<rparr>,
      \<lparr>regionID = ''us-west'', regionName = ''US West''\<rparr>,
      \<lparr>regionID = ''eu-west-fr'', regionName = ''Europe (France)''\<rparr>,
      \<lparr>regionID = ''eu-west-de'', regionName = ''Europe (Germany)''\<rparr>]"

definition DefaultRegion :: string where
  "DefaultRegion = ''ca-east''"

fun region_scan :: "region list \<Rightarrow> string \<Rightarrow> region option" where
  "region_scan [] i = None"
| "region_scan (r # rs) i = (if regionID r = i then Some r else region_scan rs i)"

definition RegionByID :: "string \<Rightarrow> region option" where
  "RegionByID i = region_scan Regions i"

definition ValidRegion :: "string \<Rightarrow> bool" where
  "ValidRegion i = (RegionByID i \<noteq> None)"

definition RegionIDs :: "string list" where
  "RegionIDs = map regionID Regions"

definition RegionStaleMultiplier :: int where
  "RegionStaleMultiplier = 3"

subsection \<open>Expiry buckets\<close>

definition ExpiryAlertBucket :: "int \<Rightarrow> int \<Rightarrow> int option" where
  "ExpiryAlertBucket daysLeft thresholdDays =
     (if daysLeft < 0 then Some 0
      else if daysLeft \<le> 1 \<and> thresholdDays \<ge> 1 then Some 1
      else if daysLeft \<le> 3 \<and> thresholdDays \<ge> 3 then Some 3
      else if daysLeft \<le> thresholdDays then Some thresholdDays
      else None)"

text \<open>Go's conversion \<^verbatim>\<open>int(x)\<close> of a float truncates toward zero.\<close>

definition trunc_rat :: "rat \<Rightarrow> int" where
  "trunc_rat x = (if x < 0 then \<lceil>x\<rceil> else \<lfloor>x\<rfloor>)"

definition ExpiryDaysLeft :: "instant \<Rightarrow> instant \<Rightarrow> int" where
  "ExpiryDaysLeft expiresAt now =
     (let hours = rat_of_int (time_sub expiresAt now) / rat_of_int hour;
          days = trunc_rat (hours / 24)
      in if hours < 0 \<and> hours / 24 \<noteq> rat_of_int days then days - 1 else days)"

subsection \<open>Lemmas\<close>

lemma LimitsForPlan_cases:
  obtains "LimitsForPlan p = LimitsForPlan ''PRO''"
  | "LimitsForPlan p = LimitsForPlan ''ENTERPRISE''"
  | "LimitsForPlan p = LimitsForPlan ''FREE''"
  by (cases "p = ''PRO''"; cases "p = ''ENTERPRISE''") (auto simp: LimitsForPlan_def)

lemma limits_PRO [simp]:
  "MaxMonitors (LimitsForPlan ''PRO'') = 20" "MinInterval (LimitsForPlan ''PRO'') = 60"
  "MaxRegions (LimitsForPlan ''PRO'') = 3" "MaxLoginSeats (LimitsForPlan ''PRO'') = 0"
  "MaxAlertRecipients (LimitsForPlan ''PRO'') = 0" "CustomDegradedThreshold (LimitsForPlan ''PRO'')"
  "\<not> MaintenanceWindows (LimitsForPlan ''PRO'')" "MaxAlertRepeats (LimitsForPlan ''PRO'') = 0"
  "\<not> SSLMonitoring (LimitsForPlan ''PRO'')" "\<not> DomainMonitoring (LimitsForPlan ''PRO'')"
  "MaxChannelsOfType (LimitsForPlan ''PRO'') = proChannelCaps"
  by (simp_all add: LimitsForPlan_def)

lemma limits_ENTERPRISE [simp]:
  "MaxMonitors (LimitsForPlan ''ENTERPRISE'') = 200" "MinInterval (LimitsForPlan ''ENTERPRISE'') = 60"
  "MaxRegions (LimitsForPlan ''ENTERPRISE'') = Unlimited"
  "MaxLoginSeats (LimitsForPlan ''ENTERPRISE'') = 3"
  "MaxAlertRecipients (LimitsForPlan ''ENTERPRISE'') = 3"
  "CustomDegradedThreshold (LimitsForPlan ''ENTERPRISE'')"
  "MaintenanceWindows (LimitsForPlan ''ENTERPRISE'')"
  "MaxAlertRepeats (LimitsForPlan ''ENTERPRISE'') = 10"
  "SSLMonitoring (LimitsForPlan ''ENTERPRISE'')" "DomainMonitoring (LimitsForPlan ''ENTERPRISE'')"
  "MaxChannelsOfType (LimitsForPlan ''ENTERPRISE'') = enterpriseChannelCaps"
  by (simp_all add: LimitsForPlan_def)

lemma limits_FREE [simp]:
  "MaxMonitors (LimitsForPlan ''FREE'') = 5" "MinInterval (LimitsForPlan ''FREE'') = 300"
  "MaxRegions (LimitsForPlan ''FREE'') = 1" "MaxLoginSeats (LimitsForPlan ''FREE'') = 0"
  "MaxAlertRecipients (LimitsForPlan ''FREE'') = 0" "\<not> CustomDegradedThreshold (LimitsForPlan ''FREE'')"
  "\<not> MaintenanceWindows (LimitsForPlan ''FREE'')" "MaxAlertRepeats (LimitsForPlan ''FREE'') = 0"
  "\<not> SSLMonitoring (LimitsForPlan ''FREE'')" "\<not> DomainMonitoring (LimitsForPlan ''FREE'')"
  "MaxChannelsOfType (LimitsForPlan ''FREE'') = freeChannelCaps"
  by (simp_all add: LimitsForPlan_def)

lemma MinInterval_pos: "60 \<le> MinInterval (LimitsForPlan p)"
  by (rule LimitsForPlan_cases [of p]) simp_all

lemma MaxMonitors_limited: "MaxMonitors (LimitsForPlan p) \<noteq> Unlimited"
  by (rule LimitsForPlan_cases [of p]) (simp_all add: Unlimited_def)

lemma MaxMonitors_pos: "0 < MaxMonitors (LimitsForPlan p)"
  by (rule LimitsForPlan_cases [of p]) simp_all

lemma MaxLoginSeats_limited: "MaxLoginSeats (LimitsForPlan p) \<noteq> Unlimited"
  by (rule LimitsForPlan_cases [of p]) (simp_all add: Unlimited_def)

lemma MaxRegions_cases: "MaxRegions (LimitsForPlan p) = Unlimited \<or> 1 \<le> MaxRegions (LimitsForPlan p)"
  by (rule LimitsForPlan_cases [of p]) simp_all

lemma EffectiveInterval_None:
  "timeout < EffectiveInterval None plan timeout"
  "MinInterval (LimitsForPlan plan) \<le> EffectiveInterval None plan timeout"
  by (simp_all add: EffectiveInterval_def Let_def)

lemma region_scan_Some: "region_scan rs i = Some r \<Longrightarrow> r \<in> set rs \<and> regionID r = i"
  by (induction rs) (auto split: if_splits)

lemma region_scan_None: "region_scan rs i = None \<longleftrightarrow> i \<notin> regionID ` set rs"
  by (induction rs) auto

lemma ValidRegion_iff: "ValidRegion i \<longleftrightarrow> i \<in> set RegionIDs"
  by (auto simp: ValidRegion_def RegionByID_def region_scan_None RegionIDs_def)

lemma rat_quotient_eq_iff:
  assumes "0 < b"
  shows "rat_of_int a / rat_of_int b = rat_of_int c \<longleftrightarrow> a = b * c"
proof -
  have "rat_of_int a / rat_of_int b = rat_of_int c \<longleftrightarrow> rat_of_int a = rat_of_int (b * c)"
    using assms by (simp add: field_simps)
  then show ?thesis by (simp only: of_int_eq_iff)
qed

lemma trunc_rat_div:
  assumes "0 < b"
  shows "trunc_rat (rat_of_int a / rat_of_int b) = (if a < 0 then - ((- a) div b) else a div b)"
proof -
  have "\<lceil>rat_of_int a / rat_of_int b\<rceil> = - ((- a) div b)"
    using floor_divide_of_int_eq [of "- a" b, where ?'a = rat] by (simp add: ceiling_def)
  moreover have "rat_of_int a / rat_of_int b < 0 \<longleftrightarrow> a < 0"
    using assms by (simp add: divide_less_0_iff)
  ultimately show ?thesis
    by (simp add: trunc_rat_def floor_divide_of_int_eq)
qed

subsection \<open>Ordering of the tiers\<close>

text \<open>A cap allows at least what another allows; \<open>Unlimited\<close> is the top.\<close>

definition cap_le :: "int \<Rightarrow> int \<Rightarrow> bool" where
  "cap_le a b \<longleftrightarrow> b = Unlimited \<or> (a \<noteq> Unlimited \<and> a \<le> b)"

definition limits_le :: "plan_limits \<Rightarrow> plan_limits \<Rightarrow> bool" where
  "limits_le a b \<longleftrightarrow>
     cap_le (MaxMonitors a) (MaxMonitors b) \<and> MinInterval b \<le> MinInterval a \<and>
     cap_le (MaxRegions a) (MaxRegions b) \<and> cap_le (MaxLoginSeats a) (MaxLoginSeats b) \<and>
     cap_le (MaxAlertRecipients a) (MaxAlertRecipients b) \<and> MaxAlertRepeats a \<le> MaxAlertRepeats b \<and>
     (CustomDegradedThreshold a \<longrightarrow> CustomDegradedThreshold b) \<and>
     (MaintenanceWindows a \<longrightarrow> MaintenanceWindows b) \<and>
     (SSLMonitoring a \<longrightarrow> SSLMonitoring b) \<and> (DomainMonitoring a \<longrightarrow> DomainMonitoring b) \<and>
     (\<forall>ch m. MaxChannelsOfType a ch = Some m \<longrightarrow>
        (\<exists>m'. MaxChannelsOfType b ch = Some m' \<and> cap_le m m'))"

lemma cap_le_Unlimited [simp]: "cap_le a Unlimited"
  by (simp add: cap_le_def)

lemma cap_le_numeral:
  "0 \<le> a \<Longrightarrow> cap_le a b \<longleftrightarrow> b = Unlimited \<or> a \<le> b"
  by (auto simp: cap_le_def Unlimited_def)

lemma channel_caps_le:
  "freeChannelCaps ch = Some m \<Longrightarrow> \<exists>m'. proChannelCaps ch = Some m' \<and> cap_le m m'"
  "proChannelCaps ch = Some m \<Longrightarrow> \<exists>m'. enterpriseChannelCaps ch = Some m' \<and> cap_le m m'"
  by (auto simp: freeChannelCaps_def proChannelCaps_def enterpriseChannelCaps_def cap_le_numeral
      split: if_splits)

lemma limits_le_FREE_PRO: "limits_le (LimitsForPlan ''FREE'') (LimitsForPlan ''PRO'')"
  by (simp add: limits_le_def cap_le_numeral channel_caps_le)

lemma limits_le_PRO_ENTERPRISE: "limits_le (LimitsForPlan ''PRO'') (LimitsForPlan ''ENTERPRISE'')"
  by (simp add: limits_le_def cap_le_numeral channel_caps_le)

lemma cap_le_trans: "cap_le a b \<Longrightarrow> cap_le b c \<Longrightarrow> cap_le a c"
  by (auto simp: cap_le_def)

lemma limits_le_trans: "limits_le a b \<Longrightarrow> limits_le b c \<Longrightarrow> limits_le a c"
  unfolding limits_le_def by (blast intro: cap_le_trans order_trans)

lemma limits_le_refl: "limits_le a a"
  by (auto simp: limits_le_def cap_le_def)

text \<open>The tiers are ordered. Whatever plan name is stored, its limits lie between the
  FREE and the ENTERPRISE limits: every cap, the minimum interval, every feature flag and
  every channel of the allow-list, so an unrecognised plan never grants anything.\<close>

theorem plan_tiers_ordered:
  "limits_le (LimitsForPlan ''FREE'') (LimitsForPlan p) \<and>
   limits_le (LimitsForPlan p) (LimitsForPlan ''ENTERPRISE'')"
  by (rule LimitsForPlan_cases [of p])
    (auto intro: limits_le_FREE_PRO limits_le_PRO_ENTERPRISE limits_le_trans limits_le_refl)

text \<open>C24: \<^verbatim>\<open>ExpiryDaysLeft\<close> is the floor of the remaining time in days, for expired
  instants too: one nanosecond past the expiry already counts as day -1.\<close>

theorem ExpiryDaysLeft_floor:
  "ExpiryDaysLeft expiresAt now = time_sub expiresAt now div (24 * hour)"
proof -
  let ?d = "time_sub expiresAt now"
  have e: "rat_of_int ?d / rat_of_int hour / 24 = rat_of_int ?d / rat_of_int (24 * hour)"
    by simp
  have t: "trunc_rat (rat_of_int ?d / rat_of_int (24 * hour)) =
      (if ?d < 0 then - ((- ?d) div (24 * hour)) else ?d div (24 * hour))"
    by (rule trunc_rat_div) simp
  have q: "rat_of_int ?d / rat_of_int (24 * hour) = rat_of_int c \<longleftrightarrow> ?d = 24 * hour * c" for c
    by (rule rat_quotient_eq_iff) simp
  have n: "rat_of_int ?d / rat_of_int hour < 0 \<longleftrightarrow> ?d < 0"
    by (simp add: divide_less_0_iff)
  show ?thesis
    unfolding ExpiryDaysLeft_def Let_def e t n q
    by (auto split: if_splits)
qed

text \<open>The alert buckets escalate. As the days run down the bucket never grows, it is
  absent exactly while more than the threshold is left, and it is 0 exactly once the
  certificate or domain has expired.\<close>

theorem ExpiryAlertBucket_escalates:
  assumes "1 \<le> threshold" and "d' \<le> d"
  shows "(ExpiryAlertBucket d threshold = None \<longleftrightarrow> threshold < d)
    \<and> (ExpiryAlertBucket d threshold = Some 0 \<longleftrightarrow> d < 0)
    \<and> (\<forall>b. ExpiryAlertBucket d threshold = Some b \<longrightarrow>
        b \<in> {0, 1, 3, threshold} \<and> b \<le> threshold \<and>
        (\<exists>b'. ExpiryAlertBucket d' threshold = Some b' \<and> b' \<le> b))"
  using assms by (auto simp: ExpiryAlertBucket_def split: if_splits)

theorem ExpiryAlertBucket_escalates_witness:
  "ExpiryAlertBucket 10 14 = Some 14 \<and> ExpiryAlertBucket 2 14 = Some 3 \<and> (3::int) \<le> 14"
  using ExpiryAlertBucket_escalates [of 14 2 10] by (simp add: ExpiryAlertBucket_def)

end
