(* ===== verification/Requests.thy ===== *)
theory Requests
  imports Plans
begin

section \<open>Request validation\<close>

text \<open>
  The request types of \<^verbatim>\<open>internal/models/monitor.go\<close> and
  \<^verbatim>\<open>internal/models/maintenance_window.go\<close> with their \<^verbatim>\<open>SetDefaults\<close> and \<^verbatim>\<open>Validate\<close>
  methods. A validator returns \<open>None\<close> for a nil error and \<open>Some msg\<close> otherwise, with the
  fixed part of the message; the checks keep the order of the source. \<^verbatim>\<open>len\<close> of a Go
  string counts bytes, as \<open>length\<close> of a \<open>string\<close> does.
\<close>

definition "MonitorNameMaxLen = (255::int)"
definition "MonitorTargetMaxLen = (2048::int)"
definition "MonitorIntervalMin = (60::int)"
definition "MonitorIntervalMax = (86400::int)"
definition "MonitorTimeoutMin = (5::int)"
definition "MonitorTimeoutMax = (300::int)"
definition "DegradedThresholdMinMs = (100::int)"
definition "DegradedThresholdMaxMs = (60000::int)"
definition "RepeatAlertIntervalMinSecs = (300::int)"
definition "RepeatAlertIntervalMaxSecs = (86400::int)"
definition "ExpiryThresholdMinDays = (1::int)"
definition "ExpiryThresholdMaxDays = (90::int)"

lemmas bound_defs = MonitorNameMaxLen_def MonitorTargetMaxLen_def MonitorIntervalMin_def
  MonitorIntervalMax_def MonitorTimeoutMin_def MonitorTimeoutMax_def DegradedThresholdMinMs_def
  DegradedThresholdMaxMs_def RepeatAlertIntervalMinSecs_def RepeatAlertIntervalMaxSecs_def
  ExpiryThresholdMinDays_def ExpiryThresholdMaxDays_def

record create_monitor_request =
  crOrgID :: string
  crName :: string
  crType :: monitor_type
  crTarget :: string
  crInterval :: int
  crTimeout :: int
  crEnabled :: "bool option"
  crDegradedThresholdMs :: "int option"
  crRepeatAlertIntervalSecs :: "int option"
  crRepeatAlertMaxCount :: "int option"
  crCertCheckEnabled :: "bool option"
  crCertExpiryThresholdDays :: "int option"
  crDomainCheckEnabled :: "bool option"
  crDomainExpiryThresholdDays :: "int option"
  crRegions :: "string list"

record update_monitor_request =
  urName :: "string option"
  urType :: "monitor_type option"
  urTarget :: "string option"
  urInterval :: "int option"
  urTimeout :: "int option"
  urEnabled :: "bool option"
  urDegradedThresholdMs :: "int option"
  urRepeatAlertIntervalSecs :: "int option"
  urRepeatAlertMaxCount :: "int option"
  urCertCheckEnabled :: "bool option"
  urCertExpiryThresholdDays :: "int option"
  urDomainCheckEnabled :: "bool option"
  urDomainExpiryThresholdDays :: "int option"
  urRegions :: "string list option"

text \<open>The \<^verbatim>\<open>binding\<close> tags that gin's validator checks before the handler sees the request: a
  required string is not empty, and \<^verbatim>\<open>oneof\<close> admits the listed values only.\<close>

definition create_monitor_binding :: "create_monitor_request \<Rightarrow> bool" where
  "create_monitor_binding r \<longleftrightarrow>
     crName r \<noteq> [] \<and> crType r \<in> {HTTP, PORT, PING} \<and> crTarget r \<noteq> []"

definition update_monitor_binding :: "update_monitor_request \<Rightarrow> bool" where
  "update_monitor_binding r \<longleftrightarrow> \<not> opt_any (urType r) (\<lambda>t. t \<notin> {HTTP, PORT, PING})"

text \<open>The loop of \<^verbatim>\<open>NormalizeRegions\<close>: the \<open>seen\<close> map, the output so far.\<close>

fun normalize_loop :: "string set \<Rightarrow> string list \<Rightarrow> string list \<Rightarrow> string + string list" where
  "normalize_loop seen out [] = Inr out"
| "normalize_loop seen out (r # rs) =
     (if r \<in> seen then normalize_loop seen out rs
      else if \<not> ValidRegion r then Inl ''unknown region''
      else normalize_loop (insert r seen) (out @ [r]) rs)"

definition NormalizeRegions :: "string list \<Rightarrow> string + string list" where
  "NormalizeRegions regions =
     (case normalize_loop {} [] regions of
        Inl e \<Rightarrow> Inl e
      | Inr out \<Rightarrow> if out = [] then Inl ''at least one region is required'' else Inr out)"

definition SetDefaults :: "create_monitor_request \<Rightarrow> create_monitor_request" where
  "SetDefaults r =
     (let r1 = (if crTimeout r = 0 then r\<lparr>crTimeout := 30\<rparr> else r)
      in if crEnabled r1 = None then r1\<lparr>crEnabled := Some True\<rparr> else r1)"

definition validateDegradedThreshold :: "int option \<Rightarrow> string option" where
  "validateDegradedThreshold v =
     (case v of
        None \<Rightarrow> None
      | Some x \<Rightarrow>
          if x = 0 then None
          else if x < DegradedThresholdMinMs \<or> x > DegradedThresholdMaxMs
          then Some ''degraded threshold out of bounds'' else None)"

definition or0 :: "int option \<Rightarrow> int" where
  "or0 v = (case v of None \<Rightarrow> 0 | Some x \<Rightarrow> x)"

definition validateRepeatAlerts :: "int option \<Rightarrow> int option \<Rightarrow> string option" where
  "validateRepeatAlerts interval count =
     (let iv = or0 interval; cv = or0 count in
      if iv = 0 \<and> cv = 0 then None
      else if iv = 0 \<or> cv = 0 then Some ''must be set together''
      else if iv < RepeatAlertIntervalMinSecs \<or> iv > RepeatAlertIntervalMaxSecs
      then Some ''repeat alert interval out of bounds''
      else if cv < 1 then Some ''repeat alert count must be at least 1''
      else None)"

text \<open>The loop over the two threshold pointers.\<close>

fun validateExpiryThresholds :: "int option list \<Rightarrow> string option" where
  "validateExpiryThresholds [] = None"
| "validateExpiryThresholds (t # ts) =
     (case t of
        Some x \<Rightarrow>
          if x < ExpiryThresholdMinDays \<or> x > ExpiryThresholdMaxDays
          then Some ''expiry threshold out of bounds'' else validateExpiryThresholds ts
      | None \<Rightarrow> validateExpiryThresholds ts)"

definition validateCreate :: "create_monitor_request \<Rightarrow> string option" where
  "validateCreate r =
     (if int (length (crName r)) > MonitorNameMaxLen then Some ''name too long''
      else if int (length (crTarget r)) > MonitorTargetMaxLen then Some ''target too long''
      else if crInterval r \<noteq> 0 \<and> (crInterval r < MonitorIntervalMin \<or> crInterval r > MonitorIntervalMax)
      then Some ''interval out of bounds''
      else if crTimeout r < MonitorTimeoutMin \<or> crTimeout r > MonitorTimeoutMax
      then Some ''timeout out of bounds''
      else if crInterval r \<noteq> 0 \<and> crTimeout r \<ge> crInterval r
      then Some ''timeout must be less than interval''
      else case validateDegradedThreshold (crDegradedThresholdMs r) of
        Some e \<Rightarrow> Some e
      | None \<Rightarrow>
         (case validateRepeatAlerts (crRepeatAlertIntervalSecs r) (crRepeatAlertMaxCount r) of
            Some e \<Rightarrow> Some e
          | None \<Rightarrow> validateExpiryThresholds
                      [crCertExpiryThresholdDays r, crDomainExpiryThresholdDays r]))"

definition validateUpdate :: "update_monitor_request \<Rightarrow> string option" where
  "validateUpdate r =
     (if opt_any (urName r) (\<lambda>n. int (length n) > MonitorNameMaxLen) then Some ''name too long''
      else if opt_any (urTarget r) (\<lambda>t. int (length t) > MonitorTargetMaxLen)
      then Some ''target too long''
      else if opt_any (urInterval r)
                (\<lambda>i. i \<noteq> 0 \<and> (i < MonitorIntervalMin \<or> i > MonitorIntervalMax))
      then Some ''interval out of bounds''
      else if opt_any (urTimeout r) (\<lambda>t. t < MonitorTimeoutMin \<or> t > MonitorTimeoutMax)
      then Some ''timeout out of bounds''
      else case validateDegradedThreshold (urDegradedThresholdMs r) of
        Some e \<Rightarrow> Some e
      | None \<Rightarrow>
         (case validateExpiryThresholds
                 [urCertExpiryThresholdDays r, urDomainExpiryThresholdDays r] of
            Some e \<Rightarrow> Some e
          | None \<Rightarrow>
             if urRepeatAlertIntervalSecs r \<noteq> None \<or> urRepeatAlertMaxCount r \<noteq> None then
               (let iv = or0 (urRepeatAlertIntervalSecs r); cv = or0 (urRepeatAlertMaxCount r)
                in if iv \<noteq> 0 \<and> cv \<noteq> 0 then validateRepeatAlerts (Some iv) (Some cv) else None)
             else None))"

subsection \<open>Maintenance windows\<close>

datatype window_kind = ONE_OFF | WEEKLY | OtherKind string

record create_window_request =
  cwKind :: window_kind
  cwStartsAt :: "instant option"
  cwEndsAt :: "instant option"
  cwWeekday :: "int option"
  cwStartTime :: "string option"
  cwDurationMinutes :: "int option"
  cwTimezone :: "string option"

definition window_binding :: "create_window_request \<Rightarrow> bool" where
  "window_binding r \<longleftrightarrow> cwKind r \<in> {ONE_OFF, WEEKLY}"

text \<open>\<^verbatim>\<open>time.Parse("15:04", s)\<close> and \<^verbatim>\<open>time.Parse("15:04:05", s)\<close>: the hour field
  \<^verbatim>\<open>15\<close> takes one or two digits, minutes and seconds take exactly two, and a seconds
  field may be followed by a fraction (a dot or a comma and digits), which
  \<^verbatim>\<open>time.Parse\<close> accepts although the layout has none.\<close>

definition is_digit :: "char \<Rightarrow> bool" where
  "is_digit c \<longleftrightarrow> c \<in> set ''0123456789''"

definition digit_val :: "char \<Rightarrow> nat" where
  "digit_val c = of_char c - 48"

definition two_digits_below :: "nat \<Rightarrow> string \<Rightarrow> bool" where
  "two_digits_below n s \<longleftrightarrow>
     length s = 2 \<and> list_all is_digit s \<and> 10 * digit_val (s ! 0) + digit_val (s ! 1) < n"

definition hour_field :: "string \<Rightarrow> bool" where
  "hour_field s \<longleftrightarrow> (length s = 1 \<and> list_all is_digit s) \<or> two_digits_below 24 s"

fun split_colon :: "string \<Rightarrow> string list" where
  "split_colon [] = [[]]"
| "split_colon (c # cs) =
     (if c = CHR '':'' then [] # split_colon cs
      else case split_colon cs of f # fs \<Rightarrow> (c # f) # fs | [] \<Rightarrow> [[c]])"

definition fraction_or_empty :: "string \<Rightarrow> bool" where
  "fraction_or_empty s \<longleftrightarrow>
     (case s of [] \<Rightarrow> True
      | c # ds \<Rightarrow> (c = CHR ''.'' \<or> c = CHR '','') \<and> ds \<noteq> [] \<and> list_all is_digit ds)"

definition parses_hh_mm :: "string \<Rightarrow> bool" where
  "parses_hh_mm s \<longleftrightarrow>
     (case split_colon s of [h, m] \<Rightarrow> hour_field h \<and> two_digits_below 60 m | _ \<Rightarrow> False)"

definition parses_hh_mm_ss :: "string \<Rightarrow> bool" where
  "parses_hh_mm_ss s \<longleftrightarrow>
     (case split_colon s of
        [h, m, x] \<Rightarrow> hour_field h \<and> two_digits_below 60 m \<and>
                      two_digits_below 60 (take 2 x) \<and> fraction_or_empty (drop 2 x)
      | _ \<Rightarrow> False)"

definition validateWindow :: "create_window_request \<Rightarrow> string option" where
  "validateWindow r =
     (case cwKind r of
        ONE_OFF \<Rightarrow>
          (case (cwStartsAt r, cwEndsAt r) of
             (Some s, Some e) \<Rightarrow>
               if \<not> e > s then Some ''endsAt must be after startsAt''
               else if cwWeekday r \<noteq> None \<or> cwStartTime r \<noteq> None \<or> cwDurationMinutes r \<noteq> None
                       \<or> cwTimezone r \<noteq> None
               then Some ''one-off windows must not carry weekly fields'' else None
           | _ \<Rightarrow> Some ''one-off windows require startsAt and endsAt'')
      | WEEKLY \<Rightarrow>
          (case (cwWeekday r, cwStartTime r, cwDurationMinutes r, cwTimezone r) of
             (Some w, Some st, Some d, Some tz) \<Rightarrow>
               if w < 0 \<or> w > 6 then Some ''weekday out of range''
               else if \<not> parses_hh_mm st \<and> \<not> parses_hh_mm_ss st then Some ''startTime must be HH:MM''
               else if d < 1 \<or> d > 1440 then Some ''durationMinutes out of range''
               else if cwStartsAt r \<noteq> None \<or> cwEndsAt r \<noteq> None
               then Some ''weekly windows must not carry one-off fields'' else None
           | _ \<Rightarrow> Some ''weekly windows require weekday, startTime, durationMinutes and timezone'')
      | OtherKind _ \<Rightarrow> Some ''unknown window kind'')"

subsection \<open>Lemmas\<close>

lemma normalize_loop_Inr:
  "normalize_loop seen out rs = Inr out' \<Longrightarrow>
   out' = dedup_loop seen out rs \<and> (\<forall>r\<in>set rs. r \<in> seen \<or> ValidRegion r)"
  by (induction seen out rs rule: normalize_loop.induct) (auto split: if_splits)

lemma normalize_loop_valid:
  "\<forall>r\<in>set rs. r \<in> seen \<or> ValidRegion r \<Longrightarrow>
   normalize_loop seen out rs = Inr (dedup_loop seen out rs)"
  by (induction seen out rs rule: normalize_loop.induct) auto


lemma NormalizeRegions_Inr:
  assumes "NormalizeRegions rs = Inr out"
  shows "distinct out" "set out = set rs" "out \<noteq> []" "\<forall>r\<in>set out. ValidRegion r"
proof -
  from assms have l: "normalize_loop {} [] rs = Inr out" and ne: "out \<noteq> []"
    by (auto simp: NormalizeRegions_def split: sum.splits if_splits)
  from normalize_loop_Inr [OF l] have o: "out = dedup_loop {} [] rs" and v: "\<forall>r\<in>set rs. ValidRegion r"
    by auto
  show "distinct out" unfolding o by (rule dedup_loop_distinct) simp_all
  show "set out = set rs" unfolding o by (simp add: dedup_loop_set)
  then show "\<forall>r\<in>set out. ValidRegion r" using v by simp
  show "out \<noteq> []" by (rule ne)
qed

lemma validateRepeatAlerts_None:
  "validateRepeatAlerts iv cv = None \<longleftrightarrow>
   (or0 iv = 0 \<and> or0 cv = 0) \<or>
   (RepeatAlertIntervalMinSecs \<le> or0 iv \<and> or0 iv \<le> RepeatAlertIntervalMaxSecs \<and> 1 \<le> or0 cv)"
  by (auto simp: validateRepeatAlerts_def Let_def bound_defs)

lemma validateDegradedThreshold_None:
  "validateDegradedThreshold v = None \<longleftrightarrow>
   or0 v = 0 \<or> (DegradedThresholdMinMs \<le> or0 v \<and> or0 v \<le> DegradedThresholdMaxMs)"
  by (auto simp: validateDegradedThreshold_def or0_def bound_defs split: option.splits)

lemma validateExpiryThresholds_None:
  "validateExpiryThresholds ts = None \<longleftrightarrow>
   (\<forall>t. Some t \<in> set ts \<longrightarrow> ExpiryThresholdMinDays \<le> t \<and> t \<le> ExpiryThresholdMaxDays)"
  by (induction ts) (auto split: option.splits)

lemma SetDefaults_fields [simp]:
  "crEnabled (SetDefaults r) \<noteq> None" "crInterval (SetDefaults r) = crInterval r"
  "crRegions (SetDefaults r) = crRegions r" "crOrgID (SetDefaults r) = crOrgID r"
  "crTimeout (SetDefaults r) = (if crTimeout r = 0 then 30 else crTimeout r)"
  by (auto simp: SetDefaults_def Let_def)

text \<open>C19: \<^verbatim>\<open>NormalizeRegions\<close> accepts a list exactly when it is non-empty and every id
  is registered; the result has the same regions, each once, in the order of their first
  occurrence, and normalizing it again changes nothing.\<close>

theorem NormalizeRegions_spec:
  "(case NormalizeRegions rs of
      Inl e \<Rightarrow> rs = [] \<or> (\<exists>r\<in>set rs. r \<notin> set RegionIDs)
    | Inr out \<Rightarrow> rs \<noteq> [] \<and> set rs \<subseteq> set RegionIDs \<and> out = dedup_loop {} [] rs \<and>
                 distinct out \<and> set out = set rs \<and> NormalizeRegions out = Inr out)"
proof (cases "NormalizeRegions rs")
  case (Inl e)
  show ?thesis
  proof (cases "\<forall>r\<in>set rs. ValidRegion r")
    case True
    then have "normalize_loop {} [] rs = Inr (dedup_loop {} [] rs)"
      by (simp add: normalize_loop_valid)
    with Inl have "dedup_loop {} [] rs = []"
      by (simp add: NormalizeRegions_def split: if_splits)
    then have "set rs = {}" using dedup_loop_set [of "{}" "[]" rs] by simp
    with Inl show ?thesis by simp
  next
    case False
    with Inl show ?thesis by (auto simp: ValidRegion_iff)
  qed
next
  case (Inr out)
  note n = NormalizeRegions_Inr [OF Inr]
  have d: "dedup_loop {} [] out = out"
    using dedup_loop_id [of out "{}" "[]"] n(1) by simp
  have "normalize_loop {} [] out = Inr (dedup_loop {} [] out)"
    using n(4) by (simp add: normalize_loop_valid)
  then have "NormalizeRegions out = Inr out"
    using n(3) d by (simp add: NormalizeRegions_def)
  moreover have "out = dedup_loop {} [] rs"
    using Inr normalize_loop_Inr [of "{}" "[]" rs out]
    by (auto simp: NormalizeRegions_def split: sum.splits if_splits)
  ultimately show ?thesis
    using n Inr by (auto simp: ValidRegion_iff)
qed

text \<open>A create request that validates is in bounds: name and target length, the
  timeout, an explicit interval (which then exceeds the timeout), an explicit slow-response
  threshold, and the repeat-alert pair, which is either off on both sides or set on both.
  After \<^verbatim>\<open>SetDefaults\<close> the enabled flag is present.\<close>

theorem validateCreate_bounds:
  assumes "validateCreate (SetDefaults r) = None"
  shows "length (crName (SetDefaults r)) \<le> 255 \<and> length (crTarget (SetDefaults r)) \<le> 2048
    \<and> 5 \<le> crTimeout (SetDefaults r) \<and> crTimeout (SetDefaults r) \<le> 300
    \<and> (crInterval r = 0 \<or> 60 \<le> crInterval r \<and> crInterval r \<le> 86400
        \<and> crTimeout (SetDefaults r) < crInterval r)
    \<and> (let t = or0 (crDegradedThresholdMs (SetDefaults r)) in t = 0 \<or> 100 \<le> t \<and> t \<le> 60000)
    \<and> (let iv = or0 (crRepeatAlertIntervalSecs (SetDefaults r));
           cv = or0 (crRepeatAlertMaxCount (SetDefaults r))
       in iv = 0 \<and> cv = 0 \<or> 300 \<le> iv \<and> iv \<le> 86400 \<and> 1 \<le> cv)
    \<and> crEnabled (SetDefaults r) \<noteq> None"
  using assms
  by (auto simp: validateCreate_def validateDegradedThreshold_None validateRepeatAlerts_None
      bound_defs Let_def split: if_splits option.splits)

definition sample_create :: create_monitor_request where
  "sample_create =
     \<lparr>crOrgID = [], crName = ''site'', crType = HTTP, crTarget = ''https://example.com'',
      crInterval = 300, crTimeout = 0, crEnabled = None, crDegradedThresholdMs = None,
      crRepeatAlertIntervalSecs = None, crRepeatAlertMaxCount = None, crCertCheckEnabled = None,
      crCertExpiryThresholdDays = Some 14, crDomainCheckEnabled = None,
      crDomainExpiryThresholdDays = None, crRegions = []\<rparr>"

theorem validateCreate_bounds_witness:
  "validateCreate (SetDefaults sample_create) = None \<and>
   crTimeout (SetDefaults sample_create) < crInterval sample_create"
proof -
  have "validateCreate (SetDefaults sample_create) = None"
    by (simp add: sample_create_def SetDefaults_def validateCreate_def bound_defs
        validateDegradedThreshold_def validateRepeatAlerts_def or0_def)
  from this validateCreate_bounds [OF this] show ?thesis
    by (simp add: sample_create_def)
qed

text \<open>A maintenance window validates exactly in one of two shapes: a one-off range with
  a positive length and no weekly field, or a weekly occurrence with a weekday 0-6, a
  wall-clock start, a duration of at most one day, a timezone and no one-off field.\<close>

theorem validateWindow_shape:
  "validateWindow r = None \<longleftrightarrow>
     (cwKind r = ONE_OFF \<and> (\<exists>s e. cwStartsAt r = Some s \<and> cwEndsAt r = Some e \<and> s < e) \<and>
        cwWeekday r = None \<and> cwStartTime r = None \<and> cwDurationMinutes r = None \<and> cwTimezone r = None)
   \<or> (cwKind r = WEEKLY \<and> cwStartsAt r = None \<and> cwEndsAt r = None \<and>
        (\<exists>w st d tz. cwWeekday r = Some w \<and> 0 \<le> w \<and> w \<le> 6 \<and>
           cwStartTime r = Some st \<and> (parses_hh_mm st \<or> parses_hh_mm_ss st) \<and>
           cwDurationMinutes r = Some d \<and> 1 \<le> d \<and> d \<le> 1440 \<and> cwTimezone r = Some tz))"
  by (cases "cwKind r") (auto simp: validateWindow_def split: option.splits prod.splits)

end
