(* ===== verification/Store.thy ===== *)
theory Store
  imports Requests "HOL-Library.List_Lexorder" "HOL-Library.Char_ord"
begin

section \<open>The store: tables and their operations\<close>

text \<open>
  \<^verbatim>\<open>internal/database/bun/store.go\<close> with its row types (\<^verbatim>\<open>models.go\<close>) and conversions
  (\<^verbatim>\<open>conversions.go\<close>). The database is a record of tables, each a list of rows. A store
  method is a function of the database, of the instant the database reads as \<^verbatim>\<open>now()\<close> and
  of the fresh identifiers it draws; a method that writes returns the new database too, and
  a transaction that fails returns the old one. Constraint violations are the branches the
  schema gives them: a unique index yields \<open>ErrConflict\<close> (\<^verbatim>\<open>mapError\<close> on code 23505), a
  missing referenced row yields \<open>ErrOther\<close>, and foreign keys cascade or set null as the
  migrations declare. A failing driver is not part of a method: the handlers add it.
\<close>

subsection \<open>Rows\<close>

record monitor_row =
  mrID :: ident
  mrUserID :: ident
  mrOrgID :: "ident option"
  mrName :: string
  mrType :: monitor_type
  mrTarget :: string
  mrInterval :: "int option"
  mrTimeout :: int
  mrDegradedThresholdMs :: "int option"
  mrRepeatAlertIntervalSecs :: "int option"
  mrRepeatAlertMaxCount :: "int option"
  mrCertCheckEnabled :: bool
  mrCertExpiryThresholdDays :: int
  mrDomainCheckEnabled :: bool
  mrDomainExpiryThresholdDays :: int
  mrEnabled :: bool
  mrRegions :: "string list"
  mrCreatedAt :: instant
  mrUpdatedAt :: instant

record monitor =
  mID :: ident
  mOrgID :: "ident option"
  mPlan :: string
  mName :: string
  mType :: monitor_type
  mTarget :: string
  mInterval :: int
  mIntervalIsCustom :: bool
  mTimeout :: int
  mEnabled :: bool
  mDegradedThresholdMs :: int
  mDegradedThresholdIsCustom :: bool
  mRepeatAlertIntervalSecs :: "int option"
  mRepeatAlertMaxCount :: "int option"
  mCertCheckEnabled :: bool
  mCertExpiryThresholdDays :: int
  mDomainCheckEnabled :: bool
  mDomainExpiryThresholdDays :: int
  mRegions :: "string list"
  mCreatedAt :: instant
  mUpdatedAt :: instant

record organization =
  oID :: ident
  oName :: string
  oOwnerID :: ident
  oCreatedAt :: instant
  oUpdatedAt :: instant

record organization_member =
  omID :: ident
  omOrgID :: ident
  omUserID :: ident
  omRole :: org_role
  omCreatedAt :: instant

record org_alert_recipient =
  arID :: ident
  arOrgID :: ident
  arChannel :: alert_channel
  arTarget :: string
  arCreatedAt :: instant

datatype invitation_status = PENDING | ACCEPTED | REVOKED | EXPIRED

record invitation =
  invID :: ident
  invOrgID :: ident
  invEmail :: string
  invRole :: org_role
  invToken :: string
  invStatus :: invitation_status
  invInvitedBy :: ident
  invExpiresAt :: instant
  invCreatedAt :: instant

datatype sub_status = ACTIVE | CANCELED | PAST_DUE | TRIALING

record subscription =
  sID :: ident
  sUserID :: ident
  sPlan :: string
  sStatus :: sub_status
  sStripeCustomerID :: "string option"
  sStripeSubscriptionID :: "string option"
  sStripePriceID :: "string option"
  sCurrentPeriodStart :: "instant option"
  sCurrentPeriodEnd :: "instant option"
  sCancelAtPeriodEnd :: bool
  sCreatedAt :: instant
  sUpdatedAt :: instant

record notification_channel =
  ncID :: ident
  ncUserID :: ident
  ncChannel :: alert_channel
  ncTarget :: string
  ncEnabled :: bool
  ncCreatedAt :: instant
  ncUpdatedAt :: instant

record monitor_channel_setting =
  mcsID :: ident
  mcsMonitorID :: ident
  mcsChannelID :: ident
  mcsEnabled :: bool

record maintenance_window =
  mwID :: ident
  mwMonitorID :: ident
  mwKind :: window_kind
  mwStartsAt :: "instant option"
  mwEndsAt :: "instant option"
  mwWeekday :: "int option"
  mwStartTime :: "string option"
  mwDurationMinutes :: "int option"
  mwTimezone :: "string option"
  mwCreatedAt :: instant

record region_status_row =
  rsMonitorID :: ident
  rsRegion :: string
  rsStatus :: status
  rsLatency :: int
  rsStatusCode :: "int option"
  rsMessage :: "string option"
  rsCheckedAt :: instant

record db =
  monitors :: "monitor_row list"
  organizations :: "organization list"
  members :: "organization_member list"
  recipients :: "org_alert_recipient list"
  invitations :: "invitation list"
  subscriptions :: "subscription list"
  channels :: "notification_channel list"
  settings :: "monitor_channel_setting list"
  windows :: "maintenance_window list"
  region_status :: "region_status_row list"

definition empty_db :: db where
  "empty_db = \<lparr>monitors = [], organizations = [], members = [], recipients = [], invitations = [],
     subscriptions = [], channels = [], settings = [], windows = [], region_status = []\<rparr>"

subsection \<open>Scopes\<close>

text \<open>\<^verbatim>\<open>ownerPlanExpr\<close>: the plan of the organization owner, else of the user; a canceled
  subscription and a missing one are FREE.\<close>

definition org_owner :: "db \<Rightarrow> ident \<Rightarrow> ident option" where
  "org_owner d oid = map_option oOwnerID (find (\<lambda>og. oID og = oid) (organizations d))"

definition billed_user :: "db \<Rightarrow> monitor_row \<Rightarrow> ident" where
  "billed_user d m =
     (case Option.bind (mrOrgID m) (org_owner d) of Some u \<Rightarrow> u | None \<Rightarrow> mrUserID m)"

definition ownerPlanExpr :: "db \<Rightarrow> monitor_row \<Rightarrow> string" where
  "ownerPlanExpr d m =
     (case find (\<lambda>s. sUserID s = billed_user d m) (subscriptions d) of
        None \<Rightarrow> ''FREE''
      | Some s \<Rightarrow> if sStatus s = CANCELED then ''FREE'' else sPlan s)"

definition is_member :: "db \<Rightarrow> ident \<Rightarrow> ident \<Rightarrow> bool" where
  "is_member d oid u = list_ex (\<lambda>om. omOrgID om = oid \<and> omUserID om = u) (members d)"

definition owns_org :: "db \<Rightarrow> ident \<Rightarrow> ident \<Rightarrow> bool" where
  "owns_org d oid u = list_ex (\<lambda>og. oID og = oid \<and> oOwnerID og = u) (organizations d)"

definition monitorAccessClause :: "db \<Rightarrow> ident \<Rightarrow> monitor_row \<Rightarrow> bool" where
  "monitorAccessClause d u m =
     (case mrOrgID m of None \<Rightarrow> mrUserID m = u | Some oid \<Rightarrow> is_member d oid u)"

definition billingScopeClause :: "db \<Rightarrow> ident \<Rightarrow> monitor_row \<Rightarrow> bool" where
  "billingScopeClause d u m =
     (case mrOrgID m of None \<Rightarrow> mrUserID m = u | Some oid \<Rightarrow> owns_org d oid u)"

definition toModel :: "db \<Rightarrow> monitor_row \<Rightarrow> monitor" where
  "toModel d m =
     (let plan = ownerPlanExpr d m in
      \<lparr>mID = mrID m, mOrgID = mrOrgID m, mPlan = plan, mName = mrName m, mType = mrType m,
       mTarget = mrTarget m, mInterval = EffectiveInterval (mrInterval m) plan (mrTimeout m),
       mIntervalIsCustom = (mrInterval m \<noteq> None), mTimeout = mrTimeout m, mEnabled = mrEnabled m,
       mDegradedThresholdMs = EffectiveDegradedThreshold (mrDegradedThresholdMs m) (mrType m),
       mDegradedThresholdIsCustom = (mrDegradedThresholdMs m \<noteq> None),
       mRepeatAlertIntervalSecs = mrRepeatAlertIntervalSecs m,
       mRepeatAlertMaxCount = mrRepeatAlertMaxCount m, mCertCheckEnabled = mrCertCheckEnabled m,
       mCertExpiryThresholdDays = mrCertExpiryThresholdDays m,
       mDomainCheckEnabled = mrDomainCheckEnabled m,
       mDomainExpiryThresholdDays = mrDomainExpiryThresholdDays m, mRegions = mrRegions m,
       mCreatedAt = mrCreatedAt m, mUpdatedAt = mrUpdatedAt m\<rparr>)"

subsection \<open>Monitors\<close>

record create_monitor_params =
  cpUserID :: ident
  cpOrgID :: ident
  cpBillingOwnerID :: ident
  cpMaxMonitors :: int
  cpName :: string
  cpType :: monitor_type
  cpTarget :: string
  cpInterval :: "int option"
  cpTimeout :: int
  cpDegradedThresholdMs :: "int option"
  cpRepeatAlertIntervalSecs :: "int option"
  cpRepeatAlertMaxCount :: "int option"
  cpEnabled :: bool
  cpRegions :: "string list"

definition CountMonitorsForBillingOwner :: "db \<Rightarrow> ident \<Rightarrow> int" where
  "CountMonitorsForBillingOwner d owner = count_where (billingScopeClause d owner) (monitors d)"

text \<open>The row \<^verbatim>\<open>CreateMonitor\<close> inserts. The columns it leaves at their zero value take the
  column defaults.\<close>

definition new_monitor_row :: "instant \<Rightarrow> ident \<Rightarrow> create_monitor_params \<Rightarrow> monitor_row" where
  "new_monitor_row now newID p =
     \<lparr>mrID = newID, mrUserID = cpUserID p,
      mrOrgID = (if cpOrgID p = [] then None else Some (cpOrgID p)),
      mrName = cpName p, mrType = cpType p, mrTarget = cpTarget p, mrInterval = cpInterval p,
      mrTimeout = (if cpTimeout p = 0 then 30 else cpTimeout p),
      mrDegradedThresholdMs = cpDegradedThresholdMs p,
      mrRepeatAlertIntervalSecs = cpRepeatAlertIntervalSecs p,
      mrRepeatAlertMaxCount = cpRepeatAlertMaxCount p,
      mrCertCheckEnabled = False, mrCertExpiryThresholdDays = 14, mrDomainCheckEnabled = False,
      mrDomainExpiryThresholdDays = 14, mrEnabled = cpEnabled p,
      mrRegions = (if cpRegions p = [] then [DefaultRegion] else cpRegions p),
      mrCreatedAt = now, mrUpdatedAt = now\<rparr>"

definition CreateMonitor ::
    "db \<Rightarrow> instant \<Rightarrow> ident \<Rightarrow> create_monitor_params \<Rightarrow> (store_error + monitor) \<times> db" where
  "CreateMonitor d now newID p =
     (let m = new_monitor_row now newID p in
      if cpMaxMonitors p \<noteq> Unlimited \<and>
         CountMonitorsForBillingOwner d (cpBillingOwnerID p) \<ge> cpMaxMonitors p
      then (Inl ErrMonitorLimit, d)
      else if newID \<in> mrID ` set (monitors d) then (Inl ErrConflict, d)
      else if cpOrgID p \<noteq> [] \<and> org_owner d (cpOrgID p) = None then (Inl ErrOther, d)
      else (let d' = d\<lparr>monitors := monitors d @ [m]\<rparr> in (Inr (toModel d' m), d')))"

text \<open>\<^verbatim>\<open>ListMonitors\<close> orders by creation time, then id: two stable sorts.\<close>

definition ListMonitors :: "db \<Rightarrow> ident \<Rightarrow> ident \<Rightarrow> monitor list" where
  "ListMonitors d userId orgId =
     map (toModel d)
       (sort_key mrCreatedAt (sort_key mrID
         (filter (\<lambda>m. if orgId = [] then mrUserID m = userId \<and> mrOrgID m = None
                       else mrOrgID m = Some orgId) (monitors d))))"

definition select_monitor :: "db \<Rightarrow> ident \<Rightarrow> ident \<Rightarrow> monitor_row option" where
  "select_monitor d i u = find (\<lambda>m. mrID m = i \<and> monitorAccessClause d u m) (monitors d)"

definition GetMonitor :: "db \<Rightarrow> ident \<Rightarrow> ident \<Rightarrow> store_error + monitor" where
  "GetMonitor d i u =
     (case select_monitor d i u of None \<Rightarrow> Inl ErrNotFound | Some m \<Rightarrow> Inr (toModel d m))"

text \<open>The column assignments of \<^verbatim>\<open>UpdateMonitor\<close>; 0 in the interval, the threshold or one
  side of the repeat pair stores NULL.\<close>

definition upd :: "'a option \<Rightarrow> 'a \<Rightarrow> 'a" where
  "upd v old = (case v of None \<Rightarrow> old | Some x \<Rightarrow> x)"

definition null_if_0 :: "int \<Rightarrow> int option" where
  "null_if_0 v = (if v = 0 then None else Some v)"

definition hasUpdates :: "update_monitor_request \<Rightarrow> bool" where
  "hasUpdates r \<longleftrightarrow> urName r \<noteq> None \<or> urType r \<noteq> None \<or> urTarget r \<noteq> None \<or> urInterval r \<noteq> None \<or>
     urTimeout r \<noteq> None \<or> urEnabled r \<noteq> None \<or> urRegions r \<noteq> None \<or> urDegradedThresholdMs r \<noteq> None \<or>
     urRepeatAlertIntervalSecs r \<noteq> None \<or> urRepeatAlertMaxCount r \<noteq> None \<or>
     urCertCheckEnabled r \<noteq> None \<or> urCertExpiryThresholdDays r \<noteq> None \<or>
     urDomainCheckEnabled r \<noteq> None \<or> urDomainExpiryThresholdDays r \<noteq> None"

definition apply_update :: "instant \<Rightarrow> update_monitor_request \<Rightarrow> monitor_row \<Rightarrow> monitor_row" where
  "apply_update now r m =
     (let iv = or0 (urRepeatAlertIntervalSecs r); cv = or0 (urRepeatAlertMaxCount r);
          touch = urRepeatAlertIntervalSecs r \<noteq> None \<or> urRepeatAlertMaxCount r \<noteq> None;
          off = iv = 0 \<or> cv = 0
      in m\<lparr>mrName := upd (urName r) (mrName m),
           mrType := upd (urType r) (mrType m),
           mrTarget := upd (urTarget r) (mrTarget m),
           mrInterval := upd (map_option null_if_0 (urInterval r)) (mrInterval m),
           mrTimeout := upd (urTimeout r) (mrTimeout m),
           mrDegradedThresholdMs :=
             upd (map_option null_if_0 (urDegradedThresholdMs r)) (mrDegradedThresholdMs m),
           mrRepeatAlertIntervalSecs :=
             (if \<not> touch then mrRepeatAlertIntervalSecs m else if off then None else Some iv),
           mrRepeatAlertMaxCount :=
             (if \<not> touch then mrRepeatAlertMaxCount m else if off then None else Some cv),
           mrEnabled := upd (urEnabled r) (mrEnabled m),
           mrCertCheckEnabled := upd (urCertCheckEnabled r) (mrCertCheckEnabled m),
           mrCertExpiryThresholdDays :=
             upd (urCertExpiryThresholdDays r) (mrCertExpiryThresholdDays m),
           mrDomainCheckEnabled := upd (urDomainCheckEnabled r) (mrDomainCheckEnabled m),
           mrDomainExpiryThresholdDays :=
             upd (urDomainExpiryThresholdDays r) (mrDomainExpiryThresholdDays m),
           mrRegions := upd (urRegions r) (mrRegions m),
           mrUpdatedAt := (if hasUpdates r then now else mrUpdatedAt m)\<rparr>)"

definition UpdateMonitor ::
    "db \<Rightarrow> instant \<Rightarrow> ident \<Rightarrow> ident \<Rightarrow> update_monitor_request \<Rightarrow> (store_error + monitor) \<times> db" where
  "UpdateMonitor d now i u r =
     (case select_monitor d i u of
        None \<Rightarrow> (Inl ErrNotFound, d)
      | Some m \<Rightarrow>
          (let m' = apply_update now r m;
               d1 = d\<lparr>monitors := update_where (\<lambda>x. mrID x = i) (apply_update now r) (monitors d)\<rparr>;
               d2 = (if urRegions r \<noteq> None
                     then d1\<lparr>region_status := delete_where
                            (\<lambda>s. rsMonitorID s = i \<and> rsRegion s \<notin> set (mrRegions m'))
                            (region_status d1)\<rparr>
                     else d1)
           in (Inr (toModel d m'), d2)))"

text \<open>Deleting a monitor cascades to its windows, channel settings and region status.\<close>

definition DeleteMonitor :: "db \<Rightarrow> ident \<Rightarrow> ident \<Rightarrow> (store_error + unit) \<times> db" where
  "DeleteMonitor d i u =
     (case select_monitor d i u of
        None \<Rightarrow> (Inl ErrNotFound, d)
      | Some m \<Rightarrow>
          (Inr (), d\<lparr>monitors := delete_where (\<lambda>x. mrID x = i) (monitors d),
                     windows := delete_where (\<lambda>w. mwMonitorID w = i) (windows d),
                     settings := delete_where (\<lambda>s. mcsMonitorID s = i) (settings d),
                     region_status := delete_where (\<lambda>s. rsMonitorID s = i) (region_status d)\<rparr>))"

text \<open>\<^verbatim>\<open>ListMonitorRegionStatus\<close>: the rows of the monitor's configured regions, each marked stale
  when it was not refreshed within a multiple of the effective interval.\<close>

record monitor_region_status =
  vsRegion :: string
  vsStatus :: status
  vsLatency :: int
  vsStatusCode :: "int option"
  vsMessage :: "string option"
  vsCheckedAt :: instant
  vsStale :: bool

definition ListMonitorRegionStatus ::
    "db \<Rightarrow> instant \<Rightarrow> ident \<Rightarrow> ident \<Rightarrow> store_error + monitor_region_status list" where
  "ListMonitorRegionStatus d now monitorId userId =
     (case select_monitor d monitorId userId of
        None \<Rightarrow> Inl ErrNotFound
      | Some m \<Rightarrow>
          (let rows = sort_key rsRegion (filter (\<lambda>s. rsMonitorID s = monitorId) (region_status d));
               eff = EffectiveInterval (mrInterval m) (ownerPlanExpr d m) (mrTimeout m);
               staleAfter = eff * RegionStaleMultiplier * second
           in Inr (map (\<lambda>r. \<lparr>vsRegion = rsRegion r, vsStatus = rsStatus r, vsLatency = rsLatency r,
                             vsStatusCode = rsStatusCode r, vsMessage = rsMessage r,
                             vsCheckedAt = rsCheckedAt r,
                             vsStale = (time_sub now (rsCheckedAt r) > staleAfter)\<rparr>)
                   (filter (\<lambda>r. rsRegion r \<in> set (mrRegions m)) rows))))"

subsection \<open>Maintenance windows\<close>

definition ListMaintenanceWindows :: "db \<Rightarrow> ident \<Rightarrow> maintenance_window list" where
  "ListMaintenanceWindows d monitorId =
     sort_key mwCreatedAt (filter (\<lambda>w. mwMonitorID w = monitorId) (windows d))"

text \<open>The row's CHECK constraint \<^verbatim>\<open>maintenance_windows_shape_check\<close>: exactly the fields of its
  kind, within their ranges.\<close>

definition shape_check :: "maintenance_window \<Rightarrow> bool" where
  "shape_check w \<longleftrightarrow>
     (mwKind w = ONE_OFF \<and>
        (case (mwStartsAt w, mwEndsAt w) of (Some s, Some e) \<Rightarrow> s < e | _ \<Rightarrow> False) \<and>
        mwWeekday w = None \<and> mwStartTime w = None \<and> mwDurationMinutes w = None \<and>
        mwTimezone w = None) \<or>
     (mwKind w = WEEKLY \<and> opt_any (mwWeekday w) (\<lambda>n. 0 \<le> n \<and> n \<le> 6) \<and> mwStartTime w \<noteq> None \<and>
        opt_any (mwDurationMinutes w) (\<lambda>n. 1 \<le> n \<and> n \<le> 1440) \<and> mwTimezone w \<noteq> None \<and>
        mwStartsAt w = None \<and> mwEndsAt w = None)"

definition new_window :: "instant \<Rightarrow> ident \<Rightarrow> ident \<Rightarrow> create_window_request \<Rightarrow> maintenance_window" where
  "new_window now newID monitorId r =
     \<lparr>mwID = newID, mwMonitorID = monitorId, mwKind = cwKind r, mwStartsAt = cwStartsAt r,
      mwEndsAt = cwEndsAt r, mwWeekday = cwWeekday r, mwStartTime = cwStartTime r,
      mwDurationMinutes = cwDurationMinutes r, mwTimezone = cwTimezone r, mwCreatedAt = now\<rparr>"

definition CreateMaintenanceWindow ::
    "db \<Rightarrow> instant \<Rightarrow> ident \<Rightarrow> ident \<Rightarrow> create_window_request \<Rightarrow>
     (store_error + maintenance_window) \<times> db" where
  "CreateMaintenanceWindow d now newID monitorId r =
     (let w = new_window now newID monitorId r in
      if \<not> shape_check w then (Inl ErrOther, d)
      else if newID \<in> mwID ` set (windows d) then (Inl ErrConflict, d)
      else if monitorId \<notin> mrID ` set (monitors d) then (Inl ErrOther, d)
      else (Inr w, d\<lparr>windows := windows d @ [w]\<rparr>))"

definition DeleteMaintenanceWindow :: "db \<Rightarrow> ident \<Rightarrow> ident \<Rightarrow> (store_error + unit) \<times> db" where
  "DeleteMaintenanceWindow d monitorId windowId =
     (let sel = (\<lambda>w. mwID w = windowId \<and> mwMonitorID w = monitorId) in
      if list_ex sel (windows d) then (Inr (), d\<lparr>windows := delete_where sel (windows d)\<rparr>)
      else (Inl ErrNotFound, d))"

subsection \<open>Notification channels and per-monitor overrides\<close>

definition chan_key :: "notification_channel \<Rightarrow> ident \<times> alert_channel \<times> string" where
  "chan_key nc = (ncUserID nc, ncChannel nc, ncTarget nc)"

definition CreateNotificationChannel ::
    "db \<Rightarrow> instant \<Rightarrow> ident \<Rightarrow> ident \<Rightarrow> alert_channel \<Rightarrow> string \<Rightarrow> bool \<Rightarrow>
     (store_error + notification_channel) \<times> db" where
  "CreateNotificationChannel d now newID userId channel target enabled =
     (let nc = \<lparr>ncID = newID, ncUserID = userId, ncChannel = channel, ncTarget = target,
                ncEnabled = enabled, ncCreatedAt = now, ncUpdatedAt = now\<rparr>
      in if newID \<in> ncID ` set (channels d) \<or> chan_key nc \<in> chan_key ` set (channels d)
         then (Inl ErrConflict, d)
         else (Inr nc, d\<lparr>channels := channels d @ [nc]\<rparr>))"

definition ListNotificationChannels :: "db \<Rightarrow> ident \<Rightarrow> notification_channel list" where
  "ListNotificationChannels d userId =
     sort_key ncCreatedAt (filter (\<lambda>nc. ncUserID nc = userId) (channels d))"

definition select_channel :: "db \<Rightarrow> ident \<Rightarrow> ident \<Rightarrow> notification_channel option" where
  "select_channel d i userId = find (\<lambda>nc. ncID nc = i \<and> ncUserID nc = userId) (channels d)"

definition GetNotificationChannel :: "db \<Rightarrow> ident \<Rightarrow> ident \<Rightarrow> store_error + notification_channel" where
  "GetNotificationChannel d i userId =
     (case select_channel d i userId of None \<Rightarrow> Inl ErrNotFound | Some nc \<Rightarrow> Inr nc)"

record update_channel_request =
  ucChannel :: "alert_channel option"
  ucTarget :: "string option"
  ucEnabled :: "bool option"

definition apply_channel_update ::
    "instant \<Rightarrow> update_channel_request \<Rightarrow> notification_channel \<Rightarrow> notification_channel" where
  "apply_channel_update now r nc =
     nc\<lparr>ncChannel := upd (ucChannel r) (ncChannel nc), ncTarget := upd (ucTarget r) (ncTarget nc),
        ncEnabled := upd (ucEnabled r) (ncEnabled nc),
        ncUpdatedAt := (if ucChannel r \<noteq> None \<or> ucTarget r \<noteq> None \<or> ucEnabled r \<noteq> None
                        then now else ncUpdatedAt nc)\<rparr>"

text \<open>The update fails on the unique index when another channel of the account already has
  the new (channel, target).\<close>

definition UpdateNotificationChannel ::
    "db \<Rightarrow> instant \<Rightarrow> ident \<Rightarrow> ident \<Rightarrow> update_channel_request \<Rightarrow>
     (store_error + notification_channel) \<times> db" where
  "UpdateNotificationChannel d now i userId r =
     (case select_channel d i userId of
        None \<Rightarrow> (Inl ErrNotFound, d)
      | Some nc \<Rightarrow>
          (let nc' = apply_channel_update now r nc in
           if chan_key nc' \<in> chan_key ` {x \<in> set (channels d). ncID x \<noteq> i}
           then (Inl ErrConflict, d)
           else (Inr nc', d\<lparr>channels :=
                   update_where (\<lambda>x. ncID x = i) (\<lambda>_. nc') (channels d)\<rparr>)))"

definition DeleteNotificationChannel :: "db \<Rightarrow> ident \<Rightarrow> ident \<Rightarrow> (store_error + unit) \<times> db" where
  "DeleteNotificationChannel d i userId =
     (case select_channel d i userId of
        None \<Rightarrow> (Inl ErrNotFound, d)
      | Some nc \<Rightarrow> (Inr (), d\<lparr>channels := delete_where (\<lambda>x. ncID x = i) (channels d),
                             settings := delete_where (\<lambda>s. mcsChannelID s = i) (settings d)\<rparr>))"

definition ListMonitorChannelSettings :: "db \<Rightarrow> ident \<Rightarrow> monitor_channel_setting list" where
  "ListMonitorChannelSettings d monitorId = filter (\<lambda>s. mcsMonitorID s = monitorId) (settings d)"

definition setting_key :: "monitor_channel_setting \<Rightarrow> ident \<times> ident" where
  "setting_key s = (mcsMonitorID s, mcsChannelID s)"

definition UpsertMonitorChannelSetting ::
    "db \<Rightarrow> ident \<Rightarrow> ident \<Rightarrow> ident \<Rightarrow> bool \<Rightarrow> (store_error + monitor_channel_setting) \<times> db" where
  "UpsertMonitorChannelSetting d newID monitorId channelId enabled =
     (case find (\<lambda>s. setting_key s = (monitorId, channelId)) (settings d) of
        Some s \<Rightarrow>
          (Inr (s\<lparr>mcsEnabled := enabled\<rparr>),
           d\<lparr>settings := update_where (\<lambda>x. setting_key x = (monitorId, channelId))
                          (\<lambda>x. x\<lparr>mcsEnabled := enabled\<rparr>) (settings d)\<rparr>)
      | None \<Rightarrow>
          (if newID \<in> mcsID ` set (settings d) then (Inl ErrConflict, d)
           else if monitorId \<notin> mrID ` set (monitors d) \<or> channelId \<notin> ncID ` set (channels d)
           then (Inl ErrOther, d)
           else (let s = \<lparr>mcsID = newID, mcsMonitorID = monitorId, mcsChannelID = channelId,
                         mcsEnabled = enabled\<rparr>
                 in (Inr s, d\<lparr>settings := settings d @ [s]\<rparr>))))"

definition DeleteMonitorChannelSetting :: "db \<Rightarrow> ident \<Rightarrow> ident \<Rightarrow> (store_error + unit) \<times> db" where
  "DeleteMonitorChannelSetting d monitorId channelId =
     (Inr (), d\<lparr>settings := delete_where (\<lambda>s. setting_key s = (monitorId, channelId)) (settings d)\<rparr>)"

end
