(* ===== verification/Accounts.thy ===== *)
theory Accounts
  imports Store
begin

section \<open>The store: organizations, members, invitations and subscriptions\<close>

text \<open>
  The second half of \<^verbatim>\<open>internal/database/bun/store.go\<close>: organizations, members, alert
  recipients, invitations (with the accept transaction) and subscriptions (with the upsert
  that merges the nullable Stripe columns, and the reconciliation of monitors to a plan).
\<close>

subsection \<open>Organizations\<close>

definition CreateOrganization ::
    "db \<Rightarrow> instant \<Rightarrow> ident \<Rightarrow> ident \<Rightarrow> ident \<Rightarrow> string \<Rightarrow> (store_error + organization) \<times> db" where
  "CreateOrganization d now newOrg newMember userId name =
     (let og = \<lparr>oID = newOrg, oName = name, oOwnerID = userId, oCreatedAt = now, oUpdatedAt = now\<rparr>;
          om = \<lparr>omID = newMember, omOrgID = newOrg, omUserID = userId, omRole = OWNER,
                omCreatedAt = now\<rparr>
      in if newOrg \<in> oID ` set (organizations d) \<or> name \<in> oName ` set (organizations d)
         then (Inl ErrConflict, d)
         else if newMember \<in> omID ` set (members d) \<or> userId \<in> omUserID ` set (members d)
         then (Inl ErrConflict, d)
         else (Inr og, d\<lparr>organizations := organizations d @ [og], members := members d @ [om]\<rparr>))"

definition GetOrganization :: "db \<Rightarrow> ident \<Rightarrow> store_error + organization" where
  "GetOrganization d i =
     (case find (\<lambda>og. oID og = i) (organizations d) of
        None \<Rightarrow> Inl ErrNotFound | Some og \<Rightarrow> Inr og)"

definition ListOrganizations :: "db \<Rightarrow> ident \<Rightarrow> organization list" where
  "ListOrganizations d userId = filter (\<lambda>og. is_member d (oID og) userId) (organizations d)"

definition UpdateOrganization ::
    "db \<Rightarrow> instant \<Rightarrow> ident \<Rightarrow> string option \<Rightarrow> (store_error + organization) \<times> db" where
  "UpdateOrganization d now i req =
     (case req of
        None \<Rightarrow> (Inl ErrNotFound, d)
      | Some name \<Rightarrow>
          (case find (\<lambda>og. oID og = i) (organizations d) of
             None \<Rightarrow> (Inl ErrNotFound, d)
           | Some og \<Rightarrow>
               (let og' = og\<lparr>oName := name, oUpdatedAt := now\<rparr> in
                if name \<in> oName ` {x \<in> set (organizations d). oID x \<noteq> i} then (Inl ErrConflict, d)
                else (Inr og', d\<lparr>organizations :=
                        update_where (\<lambda>x. oID x = i) (\<lambda>_. og') (organizations d)\<rparr>))))"

text \<open>Deleting an organization cascades to its members, invitations and recipients; its
  monitors stay, with \<^verbatim>\<open>org_id\<close> set to NULL.\<close>

definition DeleteOrganization :: "db \<Rightarrow> ident \<Rightarrow> (store_error + unit) \<times> db" where
  "DeleteOrganization d i =
     (if i \<in> oID ` set (organizations d) then
        (Inr (), d\<lparr>organizations := delete_where (\<lambda>og. oID og = i) (organizations d),
                   members := delete_where (\<lambda>om. omOrgID om = i) (members d),
                   invitations := delete_where (\<lambda>v. invOrgID v = i) (invitations d),
                   recipients := delete_where (\<lambda>r. arOrgID r = i) (recipients d),
                   monitors := update_where (\<lambda>m. mrOrgID m = Some i)
                                 (\<lambda>m. m\<lparr>mrOrgID := None\<rparr>) (monitors d)\<rparr>)
      else (Inl ErrNotFound, d))"

subsection \<open>Members\<close>

definition select_member :: "db \<Rightarrow> ident \<Rightarrow> ident \<Rightarrow> organization_member option" where
  "select_member d orgId userId =
     find (\<lambda>om. omOrgID om = orgId \<and> omUserID om = userId) (members d)"

definition GetMembership :: "db \<Rightarrow> ident \<Rightarrow> ident \<Rightarrow> store_error + organization_member" where
  "GetMembership d orgId userId =
     (case select_member d orgId userId of None \<Rightarrow> Inl ErrNotFound | Some om \<Rightarrow> Inr om)"

definition ListMembers :: "db \<Rightarrow> ident \<Rightarrow> organization_member list" where
  "ListMembers d orgId = sort_key omCreatedAt (filter (\<lambda>om. omOrgID om = orgId) (members d))"

definition UpdateMemberRole ::
    "db \<Rightarrow> ident \<Rightarrow> ident \<Rightarrow> org_role \<Rightarrow> (store_error + organization_member) \<times> db" where
  "UpdateMemberRole d orgId userId role =
     (case select_member d orgId userId of
        None \<Rightarrow> (Inl ErrNotFound, d)
      | Some om \<Rightarrow>
          (Inr (om\<lparr>omRole := role\<rparr>),
           d\<lparr>members := update_where (\<lambda>x. omID x = omID om) (\<lambda>_. om\<lparr>omRole := role\<rparr>) (members d)\<rparr>))"

definition RemoveMember :: "db \<Rightarrow> ident \<Rightarrow> ident \<Rightarrow> (store_error + unit) \<times> db" where
  "RemoveMember d orgId userId =
     (case select_member d orgId userId of
        None \<Rightarrow> (Inl ErrNotFound, d)
      | Some om \<Rightarrow> (Inr (), d\<lparr>members := delete_where (\<lambda>x. omID x = omID om) (members d)\<rparr>))"

definition CountNonOwnerMembers :: "db \<Rightarrow> ident \<Rightarrow> int" where
  "CountNonOwnerMembers d orgId =
     count_where (\<lambda>om. omOrgID om = orgId \<and> omRole om \<noteq> OWNER) (members d)"

subsection \<open>Alert recipients\<close>

definition recip_key :: "org_alert_recipient \<Rightarrow> ident \<times> alert_channel \<times> string" where
  "recip_key r = (arOrgID r, arChannel r, arTarget r)"

definition CreateOrgAlertRecipient ::
    "db \<Rightarrow> instant \<Rightarrow> ident \<Rightarrow> ident \<Rightarrow> alert_channel \<Rightarrow> string \<Rightarrow>
     (store_error + org_alert_recipient) \<times> db" where
  "CreateOrgAlertRecipient d now newID orgId channel target =
     (let r = \<lparr>arID = newID, arOrgID = orgId, arChannel = channel, arTarget = target,
               arCreatedAt = now\<rparr>
      in if channel \<notin> {EMAIL, SMS} then (Inl ErrOther, d)
         else if newID \<in> arID ` set (recipients d) \<or> recip_key r \<in> recip_key ` set (recipients d)
         then (Inl ErrConflict, d)
         else if orgId \<notin> oID ` set (organizations d) then (Inl ErrOther, d)
         else (Inr r, d\<lparr>recipients := recipients d @ [r]\<rparr>))"

definition ListOrgAlertRecipients :: "db \<Rightarrow> ident \<Rightarrow> org_alert_recipient list" where
  "ListOrgAlertRecipients d orgId =
     sort_key arCreatedAt (filter (\<lambda>r. arOrgID r = orgId) (recipients d))"

definition CountOrgAlertRecipients :: "db \<Rightarrow> ident \<Rightarrow> int" where
  "CountOrgAlertRecipients d orgId = count_where (\<lambda>r. arOrgID r = orgId) (recipients d)"

definition DeleteOrgAlertRecipient :: "db \<Rightarrow> ident \<Rightarrow> ident \<Rightarrow> (store_error + unit) \<times> db" where
  "DeleteOrgAlertRecipient d orgId i =
     (let sel = (\<lambda>r. arID r = i \<and> arOrgID r = orgId) in
      if list_ex sel (recipients d) then (Inr (), d\<lparr>recipients := delete_where sel (recipients d)\<rparr>)
      else (Inl ErrNotFound, d))"

subsection \<open>Invitations\<close>

definition CreateInvitation ::
    "db \<Rightarrow> instant \<Rightarrow> ident \<Rightarrow> ident \<Rightarrow> string \<Rightarrow> ident \<Rightarrow> org_role \<Rightarrow> string \<Rightarrow> instant \<Rightarrow>
     (store_error + invitation) \<times> db" where
  "CreateInvitation d now newID orgId email invitedBy role token expiresAt =
     (let v = \<lparr>invID = newID, invOrgID = orgId, invEmail = email, invRole = role, invToken = token,
               invStatus = PENDING, invInvitedBy = invitedBy, invExpiresAt = expiresAt,
               invCreatedAt = now\<rparr>
      in if newID \<in> invID ` set (invitations d) \<or> token \<in> invToken ` set (invitations d)
         then (Inl ErrConflict, d)
         else if orgId \<notin> oID ` set (organizations d) then (Inl ErrOther, d)
         else (Inr v, d\<lparr>invitations := invitations d @ [v]\<rparr>))"

definition GetInvitationByToken :: "db \<Rightarrow> string \<Rightarrow> store_error + invitation" where
  "GetInvitationByToken d token =
     (case find (\<lambda>v. invToken v = token) (invitations d) of
        None \<Rightarrow> Inl ErrNotFound | Some v \<Rightarrow> Inr v)"

definition GetInvitationByID :: "db \<Rightarrow> ident \<Rightarrow> store_error + invitation" where
  "GetInvitationByID d i =
     (case find (\<lambda>v. invID v = i) (invitations d) of None \<Rightarrow> Inl ErrNotFound | Some v \<Rightarrow> Inr v)"

definition ListInvitations :: "db \<Rightarrow> ident \<Rightarrow> invitation list" where
  "ListInvitations d orgId =
     sort_key (\<lambda>v. - invCreatedAt v) (filter (\<lambda>v. invOrgID v = orgId) (invitations d))"

definition pending :: "instant \<Rightarrow> invitation \<Rightarrow> bool" where
  "pending now v \<longleftrightarrow> invStatus v = PENDING \<and> now < invExpiresAt v"

definition CountPendingInvitations :: "db \<Rightarrow> instant \<Rightarrow> ident \<Rightarrow> int" where
  "CountPendingInvitations d now orgId =
     count_where (\<lambda>v. invOrgID v = orgId \<and> pending now v) (invitations d)"

text \<open>The accept transaction: the invitation must still be pending, the seats in use (this
  invitation's own left out) must be below the cap, the new membership must not violate the
  one-organization index, and only then does the invitation become ACCEPTED.\<close>

definition AcceptInvitation ::
    "db \<Rightarrow> instant \<Rightarrow> ident \<Rightarrow> string \<Rightarrow> ident \<Rightarrow> int \<Rightarrow>
     (store_error + organization_member) \<times> db" where
  "AcceptInvitation d now newID token userId maxLoginSeats =
     (case find (\<lambda>v. invToken v = token \<and> pending now v) (invitations d) of
        None \<Rightarrow> (Inl ErrNotFound, d)
      | Some v \<Rightarrow>
          (let org = invOrgID v;
               seatsUsed = CountNonOwnerMembers d org
                 + count_where (\<lambda>x. invOrgID x = org \<and> pending now x \<and> invID x \<noteq> invID v)
                     (invitations d);
               om = \<lparr>omID = newID, omOrgID = org, omUserID = userId, omRole = invRole v,
                     omCreatedAt = now\<rparr>
           in if maxLoginSeats \<noteq> Unlimited \<and> org \<notin> oID ` set (organizations d)
              then (Inl ErrNotFound, d)
              else if maxLoginSeats \<noteq> Unlimited \<and> seatsUsed \<ge> maxLoginSeats
              then (Inl ErrSeatLimit, d)
              else if newID \<in> omID ` set (members d) \<or> userId \<in> omUserID ` set (members d)
              then (Inl ErrConflict, d)
              else (Inr om, d\<lparr>members := members d @ [om],
                              invitations := update_where (\<lambda>x. invID x = invID v)
                                (\<lambda>x. x\<lparr>invStatus := ACCEPTED\<rparr>) (invitations d)\<rparr>)))"

definition RevokeInvitation :: "db \<Rightarrow> ident \<Rightarrow> (store_error + unit) \<times> db" where
  "RevokeInvitation d i =
     (if i \<in> invID ` set (invitations d) then
        (Inr (), d\<lparr>invitations := update_where (\<lambda>v. invID v = i \<and> invStatus v = PENDING)
                     (\<lambda>v. v\<lparr>invStatus := REVOKED\<rparr>) (invitations d)\<rparr>)
      else (Inl ErrNotFound, d))"

definition ExpireInvitation :: "db \<Rightarrow> ident \<Rightarrow> (store_error + unit) \<times> db" where
  "ExpireInvitation d i =
     (Inr (), d\<lparr>invitations := update_where (\<lambda>v. invID v = i \<and> invStatus v = PENDING)
                  (\<lambda>v. v\<lparr>invStatus := EXPIRED\<rparr>) (invitations d)\<rparr>)"

subsection \<open>Subscriptions\<close>

definition GetSubscriptionByUser :: "db \<Rightarrow> ident \<Rightarrow> store_error + subscription" where
  "GetSubscriptionByUser d userId =
     (case find (\<lambda>s. sUserID s = userId) (subscriptions d) of
        None \<Rightarrow> Inl ErrNotFound | Some s \<Rightarrow> Inr s)"

definition GetSubscriptionByCustomerID :: "db \<Rightarrow> string \<Rightarrow> store_error + subscription" where
  "GetSubscriptionByCustomerID d customerID =
     (case find (\<lambda>s. sStripeCustomerID s = Some customerID) (subscriptions d) of
        None \<Rightarrow> Inl ErrNotFound | Some s \<Rightarrow> Inr s)"

record upsert_params =
  upUserID :: ident
  upPlan :: string
  upStatus :: sub_status
  upStripeCustomerID :: "string option"
  upStripeSubscriptionID :: "string option"
  upStripePriceID :: "string option"
  upCurrentPeriodStart :: "instant option"
  upCurrentPeriodEnd :: "instant option"
  upCancelAtPeriodEnd :: bool

definition coalesce :: "'a option \<Rightarrow> 'a option \<Rightarrow> 'a option" where
  "coalesce a b = (case a of None \<Rightarrow> b | Some _ \<Rightarrow> a)"

definition new_subscription :: "instant \<Rightarrow> ident \<Rightarrow> upsert_params \<Rightarrow> subscription" where
  "new_subscription now newID p =
     \<lparr>sID = newID, sUserID = upUserID p, sPlan = upPlan p, sStatus = upStatus p,
      sStripeCustomerID = upStripeCustomerID p, sStripeSubscriptionID = upStripeSubscriptionID p,
      sStripePriceID = upStripePriceID p, sCurrentPeriodStart = upCurrentPeriodStart p,
      sCurrentPeriodEnd = upCurrentPeriodEnd p, sCancelAtPeriodEnd = upCancelAtPeriodEnd p,
      sCreatedAt = now, sUpdatedAt = now\<rparr>"

definition merge_subscription :: "instant \<Rightarrow> upsert_params \<Rightarrow> subscription \<Rightarrow> subscription" where
  "merge_subscription now p s =
     s\<lparr>sPlan := upPlan p, sStatus := upStatus p,
       sStripeCustomerID := coalesce (upStripeCustomerID p) (sStripeCustomerID s),
       sStripeSubscriptionID := coalesce (upStripeSubscriptionID p) (sStripeSubscriptionID s),
       sStripePriceID := coalesce (upStripePriceID p) (sStripePriceID s),
       sCurrentPeriodStart := coalesce (upCurrentPeriodStart p) (sCurrentPeriodStart s),
       sCurrentPeriodEnd := coalesce (upCurrentPeriodEnd p) (sCurrentPeriodEnd s),
       sCancelAtPeriodEnd := upCancelAtPeriodEnd p, sUpdatedAt := now\<rparr>"

text \<open>\<^verbatim>\<open>subscriptions_stripe_customer_id_key\<close> is unique over the non-null customer ids.\<close>

definition customer_taken :: "db \<Rightarrow> ident \<Rightarrow> string option \<Rightarrow> bool" where
  "customer_taken d userId c \<longleftrightarrow>
     c \<noteq> None \<and> list_ex (\<lambda>s. sUserID s \<noteq> userId \<and> sStripeCustomerID s = c) (subscriptions d)"

definition UpsertSubscription ::
    "db \<Rightarrow> instant \<Rightarrow> ident \<Rightarrow> upsert_params \<Rightarrow> (store_error + subscription) \<times> db" where
  "UpsertSubscription d now newID p =
     (case find (\<lambda>s. sUserID s = upUserID p) (subscriptions d) of
        None \<Rightarrow>
          (let s = new_subscription now newID p in
           if newID \<in> sID ` set (subscriptions d) \<or>
              customer_taken d (upUserID p) (sStripeCustomerID s)
           then (Inl ErrConflict, d)
           else (Inr s, d\<lparr>subscriptions := subscriptions d @ [s]\<rparr>))
      | Some s0 \<Rightarrow>
          (let s = merge_subscription now p s0 in
           if customer_taken d (upUserID p) (sStripeCustomerID s) then (Inl ErrConflict, d)
           else (Inr s, d\<lparr>subscriptions := update_where (\<lambda>x. sUserID x = upUserID p)
                           (merge_subscription now p) (subscriptions d)\<rparr>)))"

text \<open>\<^verbatim>\<open>ReconcileMonitorsToPlan\<close> runs up to six statements outside a transaction; \<open>fails i\<close> says
  that the \<open>i\<close>-th one fails. It returns the rows it changed so far, the error if one failed,
  and the database the statements before it left; the clean-up of region rows is only
  logged when it fails.\<close>

definition scoped_update ::
    "db \<Rightarrow> ident \<Rightarrow> (monitor_row \<Rightarrow> bool) \<Rightarrow> (monitor_row \<Rightarrow> monitor_row) \<Rightarrow> int \<times> db" where
  "scoped_update d userId P f =
     (count_where (\<lambda>m. billingScopeClause d userId m \<and> P m) (monitors d),
      d\<lparr>monitors := update_where (\<lambda>m. billingScopeClause d userId m \<and> P m) f (monitors d)\<rparr>)"

definition clean_region_status :: "db \<Rightarrow> ident \<Rightarrow> db" where
  "clean_region_status d userId =
     d\<lparr>region_status := delete_where
         (\<lambda>s. list_ex (\<lambda>m. mrID m = rsMonitorID s \<and> billingScopeClause d userId m \<and>
                           rsRegion s \<notin> set (mrRegions m)) (monitors d))
         (region_status d)\<rparr>"

text \<open>One step: run the statement when its guard holds, unless an earlier one failed.\<close>

type_synonym rec_state = "int \<times> bool \<times> db"

definition rec_step ::
    "(nat \<Rightarrow> bool) \<Rightarrow> nat \<Rightarrow> bool \<Rightarrow> ident \<Rightarrow> (monitor_row \<Rightarrow> bool) \<Rightarrow> (monitor_row \<Rightarrow> monitor_row) \<Rightarrow>
     rec_state \<Rightarrow> rec_state" where
  "rec_step fails i guard userId P f st =
     (case st of (tot, failed, d) \<Rightarrow>
        if failed \<or> \<not> guard then st
        else if fails i then (tot, True, d)
        else (case scoped_update d userId P f of (n, d') \<Rightarrow> (tot + n, False, d')))"

definition rec_regions ::
    "(nat \<Rightarrow> bool) \<Rightarrow> instant \<Rightarrow> ident \<Rightarrow> int \<Rightarrow> rec_state \<Rightarrow> rec_state" where
  "rec_regions fails now userId maxRegions st =
     (case st of (tot, failed, d) \<Rightarrow>
        if failed \<or> maxRegions = Unlimited then st
        else if fails 1 then (tot, True, d)
        else (case scoped_update d userId (\<lambda>m. int (length (mrRegions m)) > maxRegions)
                     (\<lambda>m. m\<lparr>mrRegions := take (nat maxRegions) (mrRegions m), mrUpdatedAt := now\<rparr>) of
                (n, d') \<Rightarrow>
                  (tot + n, False,
                   if n > 0 \<and> \<not> fails 2 then clean_region_status d' userId else d')))"

definition ReconcileMonitorsToPlan ::
    "db \<Rightarrow> instant \<Rightarrow> (nat \<Rightarrow> bool) \<Rightarrow> ident \<Rightarrow> string \<Rightarrow> string \<Rightarrow> rec_state" where
  "ReconcileMonitorsToPlan d now fails userId oldPlan newPlan =
     (let old = LimitsForPlan oldPlan; new = LimitsForPlan newPlan;
          st0 = (0, False, d);
          st1 = rec_step fails 0 (MinInterval new > MinInterval old) userId
                  (\<lambda>m. opt_any (mrInterval m) (\<lambda>v. v < MinInterval new))
                  (\<lambda>m. m\<lparr>mrInterval := Some (MinInterval new), mrUpdatedAt := now\<rparr>) st0;
          st2 = rec_regions fails now userId (MaxRegions new) st1;
          st3 = rec_step fails 3 (CustomDegradedThreshold old \<and> \<not> CustomDegradedThreshold new) userId
                  (\<lambda>m. mrDegradedThresholdMs m \<noteq> None)
                  (\<lambda>m. m\<lparr>mrDegradedThresholdMs := None, mrUpdatedAt := now\<rparr>) st2;
          st4 = rec_step fails 4 (SSLMonitoring old \<and> \<not> SSLMonitoring new \<or>
                                  DomainMonitoring old \<and> \<not> DomainMonitoring new) userId
                  (\<lambda>m. mrCertCheckEnabled m \<or> mrDomainCheckEnabled m)
                  (\<lambda>m. m\<lparr>mrCertCheckEnabled := False, mrDomainCheckEnabled := False,
                         mrUpdatedAt := now\<rparr>) st3
      in rec_step fails 5 (MaxAlertRepeats old > 0 \<and> MaxAlertRepeats new = 0) userId
           (\<lambda>m. mrRepeatAlertIntervalSecs m \<noteq> None)
           (\<lambda>m. m\<lparr>mrRepeatAlertIntervalSecs := None, mrRepeatAlertMaxCount := None,
                  mrUpdatedAt := now\<rparr>) st4)"

end
