(* ===== verification/Schema.thy ===== *)
theory Schema
  imports Accounts
begin

section \<open>The schema invariant\<close>

text \<open>
  The constraints the migrations declare, as one invariant of the database: primary keys and
  unique indexes (\<open>keys_ok\<close>), foreign keys (\<open>refs_ok\<close>) and CHECK constraints (\<open>checks_ok\<close>).
  Every store method keeps it and, when it returns an error, leaves the database as it was:
  the contract \<open>store_method\<close>, interpreted for each method that writes.
\<close>

definition uniq :: "('r \<Rightarrow> 'k) \<Rightarrow> 'r list \<Rightarrow> bool" where
  "uniq k tbl = distinct (map k tbl)"

definition refs :: "('r \<Rightarrow> 'k) \<Rightarrow> 'r list \<Rightarrow> ('t \<Rightarrow> 'k) \<Rightarrow> 't list \<Rightarrow> bool" where
  "refs k tbl j tgt \<longleftrightarrow> k ` set tbl \<subseteq> j ` set tgt"

definition monitor_org_refs :: "monitor_row list \<Rightarrow> organization list \<Rightarrow> bool" where
  "monitor_org_refs ms ogs \<longleftrightarrow> (\<forall>m \<in> set ms. \<forall>i. mrOrgID m = Some i \<longrightarrow> i \<in> oID ` set ogs)"

definition customers_uniq :: "subscription list \<Rightarrow> bool" where
  "customers_uniq subs \<longleftrightarrow>
     (\<forall>s \<in> set subs. \<forall>t \<in> set subs. sUserID s \<noteq> sUserID t \<longrightarrow>
        sStripeCustomerID s \<noteq> None \<longrightarrow> sStripeCustomerID s \<noteq> sStripeCustomerID t)"

definition keys_ok :: "db \<Rightarrow> bool" where
  "keys_ok d \<longleftrightarrow>
     uniq mrID (monitors d) \<and> uniq oID (organizations d) \<and> uniq oName (organizations d) \<and>
     uniq omID (members d) \<and> uniq omUserID (members d) \<and>
     uniq arID (recipients d) \<and> uniq recip_key (recipients d) \<and>
     uniq invID (invitations d) \<and> uniq invToken (invitations d) \<and>
     uniq sID (subscriptions d) \<and> uniq sUserID (subscriptions d) \<and>
     customers_uniq (subscriptions d) \<and>
     uniq ncID (channels d) \<and> uniq chan_key (channels d) \<and>
     uniq mcsID (settings d) \<and> uniq setting_key (settings d) \<and> uniq mwID (windows d) \<and>
     uniq (\<lambda>r. (rsMonitorID r, rsRegion r)) (region_status d)"

definition refs_ok :: "db \<Rightarrow> bool" where
  "refs_ok d \<longleftrightarrow>
     monitor_org_refs (monitors d) (organizations d) \<and>
     refs omOrgID (members d) oID (organizations d) \<and>
     refs arOrgID (recipients d) oID (organizations d) \<and>
     refs invOrgID (invitations d) oID (organizations d) \<and>
     refs mcsMonitorID (settings d) mrID (monitors d) \<and>
     refs mcsChannelID (settings d) ncID (channels d) \<and>
     refs mwMonitorID (windows d) mrID (monitors d) \<and>
     refs rsMonitorID (region_status d) mrID (monitors d)"

definition checks_ok :: "db \<Rightarrow> bool" where
  "checks_ok d \<longleftrightarrow> list_all shape_check (windows d) \<and>
     list_all (\<lambda>r. arChannel r \<in> {EMAIL, SMS}) (recipients d)"

definition schema_ok :: "db \<Rightarrow> bool" where
  "schema_ok d \<longleftrightarrow> keys_ok d \<and> refs_ok d \<and> checks_ok d"

lemmas schema_defs = schema_ok_def keys_ok_def refs_ok_def checks_ok_def

subsection \<open>How the constraints react to inserts, updates and deletes\<close>

named_theorems schema_rules

lemma uniq_append [schema_rules]: "uniq k (tbl @ [r]) \<longleftrightarrow> uniq k tbl \<and> k r \<notin> k ` set tbl"
  by (auto simp: uniq_def)

lemma uniq_delete [schema_rules]: "uniq k tbl \<Longrightarrow> uniq k (delete_where P tbl)"
  by (simp add: uniq_def distinct_map_delete_where)

lemma uniq_update [schema_rules]:
  "uniq k tbl \<Longrightarrow> (\<And>r. k (f r) = k r) \<Longrightarrow> uniq k (update_where P f tbl)"
  by (simp add: uniq_def map_update_where)

text \<open>One row, found by its key \<open>i\<close>, takes a new value whose other key clashes with no other row.\<close>

lemma uniq_replace:
  "uniq i tbl \<Longrightarrow> uniq k tbl \<Longrightarrow> k r \<notin> k ` {x \<in> set tbl. i x \<noteq> v} \<Longrightarrow>
   uniq k (update_where (\<lambda>x. i x = v) (\<lambda>_. r) tbl)"
proof (induction tbl)
  case Nil
  then show ?case by (simp add: uniq_def table_simps)
next
  case (Cons a tbl)
  show ?case
  proof (cases "i a = v")
    case True
    then have "update_where (\<lambda>x. i x = v) (\<lambda>_. r) tbl = tbl"
      using Cons.prems(1) by (auto simp: uniq_def update_where_def rev_image_eqI intro!: map_idI)
    moreover have "{x \<in> set (a # tbl). i x \<noteq> v} = set tbl"
      using Cons.prems(1) True by (auto simp: uniq_def rev_image_eqI)
    ultimately show ?thesis
      using Cons.prems True by (simp add: uniq_def table_simps)
  next
    case False
    moreover have "k a \<notin> k ` set (update_where (\<lambda>x. i x = v) (\<lambda>_. r) tbl)"
      using Cons.prems False by (auto simp: uniq_def table_simps image_iff split: if_splits)
    moreover have "uniq k (update_where (\<lambda>x. i x = v) (\<lambda>_. r) tbl)"
      using Cons.prems by (intro Cons.IH) (auto simp: uniq_def)
    ultimately show ?thesis
      by (simp add: uniq_def table_simps)
  qed
qed

lemma image_update_where:
  "(\<And>r. P r \<Longrightarrow> k (f r) = k r) \<Longrightarrow> k ` set (update_where P f tbl) = k ` set tbl"
  unfolding set_update_where image_image by (rule image_cong) simp_all

lemma refs_append [schema_rules]:
  "refs k (tbl @ [r]) j tgt \<longleftrightarrow> refs k tbl j tgt \<and> k r \<in> j ` set tgt"
  by (auto simp: refs_def)

lemma refsD: "refs k tbl j tgt \<Longrightarrow> r \<in> set tbl \<Longrightarrow> k r \<in> j ` set tgt"
  by (auto simp: refs_def)

lemma refs_insert_target [schema_rules]: "refs k tbl j tgt \<Longrightarrow> refs k tbl j (tgt @ [t])"
  by (auto simp: refs_def)

lemma refs_delete [schema_rules]: "refs k tbl j tgt \<Longrightarrow> refs k (delete_where P tbl) j tgt"
  by (auto simp: refs_def table_simps)

lemma refs_cascade [schema_rules]:
  "refs k tbl j tgt \<Longrightarrow>
   refs k (delete_where (\<lambda>r. k r = i) tbl) j (delete_where (\<lambda>t. j t = i) tgt)"
  by (auto simp: refs_def table_simps)

lemma refs_update [schema_rules]:
  "refs k tbl j tgt \<Longrightarrow> (\<And>r. k (f r) = k r) \<Longrightarrow> refs k (update_where P f tbl) j tgt"
  by (auto simp: refs_def table_simps)

lemma refs_update_target [schema_rules]:
  "refs k tbl j tgt \<Longrightarrow> (\<And>r. P r \<Longrightarrow> j (f r) = j r) \<Longrightarrow> refs k tbl j (update_where P f tgt)"
  by (simp add: refs_def image_update_where)

lemma monitor_refs_append [schema_rules]:
  "monitor_org_refs (ms @ [m]) ogs \<longleftrightarrow>
   monitor_org_refs ms ogs \<and> (\<forall>i. mrOrgID m = Some i \<longrightarrow> i \<in> oID ` set ogs)"
  by (auto simp: monitor_org_refs_def)

lemma monitor_refs_insert [schema_rules]:
  "monitor_org_refs ms ogs \<Longrightarrow> monitor_org_refs ms (ogs @ [og])"
  by (auto simp: monitor_org_refs_def)

lemma monitor_refs_delete [schema_rules]:
  "monitor_org_refs ms ogs \<Longrightarrow> monitor_org_refs (delete_where P ms) ogs"
  by (auto simp: monitor_org_refs_def table_simps)

lemma monitor_refs_update [schema_rules]:
  "monitor_org_refs ms ogs \<Longrightarrow> (\<And>m. mrOrgID (f m) = mrOrgID m) \<Longrightarrow>
   monitor_org_refs (update_where P f ms) ogs"
  by (auto simp: monitor_org_refs_def table_simps)

lemma monitor_refs_update_org [schema_rules]:
  "monitor_org_refs ms ogs \<Longrightarrow> (\<And>og. P og \<Longrightarrow> oID (f og) = oID og) \<Longrightarrow>
   monitor_org_refs ms (update_where P f ogs)"
  by (simp add: monitor_org_refs_def image_update_where)

lemma monitor_refs_set_null [schema_rules]:
  "monitor_org_refs ms ogs \<Longrightarrow>
   monitor_org_refs (update_where (\<lambda>m. mrOrgID m = Some i) (\<lambda>m. m\<lparr>mrOrgID := None\<rparr>) ms)
     (delete_where (\<lambda>og. oID og = i) ogs)"
  by (fastforce simp: monitor_org_refs_def table_simps image_iff)

lemma list_all_delete [schema_rules]: "list_all Q tbl \<Longrightarrow> list_all Q (delete_where P tbl)"
  by (auto simp: list_all_iff table_simps)

lemma list_all_append_one [schema_rules]: "list_all Q (tbl @ [r]) \<longleftrightarrow> list_all Q tbl \<and> Q r"
  by simp

lemma org_owner_None: "org_owner d i = None \<longleftrightarrow> i \<notin> oID ` set (organizations d)"
  by (auto simp: org_owner_def find_None_iff)

lemma apply_update_keys [simp]:
  "mrID (apply_update now r m) = mrID m" "mrOrgID (apply_update now r m) = mrOrgID m"
  "mrUserID (apply_update now r m) = mrUserID m"
  by (simp_all add: apply_update_def Let_def)

lemma schema_CreateMonitor:
  "schema_ok d \<Longrightarrow> schema_ok (snd (CreateMonitor d now i p))"
  by (auto simp: schema_defs CreateMonitor_def Let_def org_owner_None new_monitor_row_def
      schema_rules)

lemma schema_UpdateMonitor:
  "schema_ok d \<Longrightarrow> schema_ok (snd (UpdateMonitor d now i u r))"
  by (auto simp: schema_defs UpdateMonitor_def Let_def schema_rules split: option.splits)

lemma schema_DeleteMonitor:
  "schema_ok d \<Longrightarrow> schema_ok (snd (DeleteMonitor d i u))"
  by (auto simp: schema_defs DeleteMonitor_def Let_def schema_rules split: option.splits)

lemma schema_CreateMaintenanceWindow:
  "schema_ok d \<Longrightarrow> schema_ok (snd (CreateMaintenanceWindow d now newID i r))"
  by (auto simp: schema_defs CreateMaintenanceWindow_def Let_def schema_rules new_window_def)

lemma schema_DeleteMaintenanceWindow:
  "schema_ok d \<Longrightarrow> schema_ok (snd (DeleteMaintenanceWindow d i r))"
  by (auto simp: schema_defs DeleteMaintenanceWindow_def Let_def schema_rules)

lemma schema_CreateNotificationChannel:
  "schema_ok d \<Longrightarrow> schema_ok (snd (CreateNotificationChannel d now newID u c t e))"
  by (auto simp: schema_defs CreateNotificationChannel_def Let_def schema_rules)

lemma select_channel_id: "select_channel d i u = Some nc \<Longrightarrow> ncID nc = i \<and> ncUserID nc = u \<and> nc \<in> set (channels d)"
  by (auto simp: select_channel_def dest: find_SomeD)

lemma schema_UpdateNotificationChannel:
  "schema_ok d \<Longrightarrow> schema_ok (snd (UpdateNotificationChannel d now i u r))"
  by (auto simp: schema_defs UpdateNotificationChannel_def Let_def schema_rules apply_channel_update_def
      dest!: select_channel_id intro!: uniq_replace split: option.splits)

lemma schema_DeleteNotificationChannel:
  "schema_ok d \<Longrightarrow> schema_ok (snd (DeleteNotificationChannel d i u))"
  by (auto simp: schema_defs DeleteNotificationChannel_def schema_rules split: option.splits)

lemma schema_UpsertMonitorChannelSetting:
  "schema_ok d \<Longrightarrow> schema_ok (snd (UpsertMonitorChannelSetting d newID m c e))"
  by (auto simp: schema_defs UpsertMonitorChannelSetting_def Let_def schema_rules setting_key_def find_None_iff
     split: option.splits)

lemma schema_DeleteMonitorChannelSetting:
  "schema_ok d \<Longrightarrow> schema_ok (snd (DeleteMonitorChannelSetting d m c))"
  by (auto simp: schema_defs DeleteMonitorChannelSetting_def schema_rules)

lemma schema_CreateOrganization:
  "schema_ok d \<Longrightarrow> schema_ok (snd (CreateOrganization d now i j u n))"
  by (auto simp: schema_defs CreateOrganization_def Let_def schema_rules)

lemma schema_UpdateOrganization:
  "schema_ok d \<Longrightarrow> schema_ok (snd (UpdateOrganization d now i r))"
  by (auto simp: schema_defs UpdateOrganization_def Let_def schema_rules
      dest!: find_SomeD intro!: uniq_replace split: option.splits)

lemma schema_DeleteOrganization:
  "schema_ok d \<Longrightarrow> schema_ok (snd (DeleteOrganization d i))"
  by (auto simp: schema_defs DeleteOrganization_def schema_rules)

lemma select_member_facts:
  "select_member d orgId u = Some om \<Longrightarrow> om \<in> set (members d) \<and> omOrgID om = orgId \<and> omUserID om = u"
  by (auto simp: select_member_def dest: find_SomeD)

lemma uniq_replace_same:
  "uniq i tbl \<Longrightarrow> uniq k tbl \<Longrightarrow> r \<in> set tbl \<Longrightarrow> k r' = k r \<Longrightarrow>
   uniq k (update_where (\<lambda>x. i x = i r) (\<lambda>_. r') tbl)"
  by (rule uniq_replace) (auto simp: uniq_def distinct_map dest: inj_onD)

lemma refs_replace_same:
  "refs k tbl j tgt \<Longrightarrow> r \<in> set tbl \<Longrightarrow> k r' = k r \<Longrightarrow> refs k (update_where P (\<lambda>_. r') tbl) j tgt"
  by (auto simp: refs_def table_simps)

lemma schema_UpdateMemberRole:
  "schema_ok d \<Longrightarrow> schema_ok (snd (UpdateMemberRole d orgId u role))"
  by (auto simp: schema_defs UpdateMemberRole_def dest!: select_member_facts
      intro!: uniq_replace_same intro: refs_replace_same split: option.splits)

lemma schema_RemoveMember:
  "schema_ok d \<Longrightarrow> schema_ok (snd (RemoveMember d orgId u))"
  by (auto simp: schema_defs RemoveMember_def schema_rules split: option.splits)

lemma schema_CreateOrgAlertRecipient:
  "schema_ok d \<Longrightarrow> schema_ok (snd (CreateOrgAlertRecipient d now i orgId c t))"
  by (auto simp: schema_defs CreateOrgAlertRecipient_def Let_def schema_rules)

lemma schema_DeleteOrgAlertRecipient:
  "schema_ok d \<Longrightarrow> schema_ok (snd (DeleteOrgAlertRecipient d orgId i))"
  by (auto simp: schema_defs DeleteOrgAlertRecipient_def Let_def schema_rules)

lemma schema_CreateInvitation:
  "schema_ok d \<Longrightarrow> schema_ok (snd (CreateInvitation d now i orgId e b role t x))"
  by (auto simp: schema_defs CreateInvitation_def Let_def schema_rules)

lemma schema_AcceptInvitation:
  "schema_ok d \<Longrightarrow> schema_ok (snd (AcceptInvitation d now i t u seats))"
  by (auto simp: schema_defs AcceptInvitation_def Let_def schema_rules
      dest!: find_SomeD dest: refsD split: option.splits)

lemma schema_RevokeInvitation:
  "schema_ok d \<Longrightarrow> schema_ok (snd (RevokeInvitation d i))"
  by (auto simp: schema_defs RevokeInvitation_def schema_rules)

lemma schema_ExpireInvitation:
  "schema_ok d \<Longrightarrow> schema_ok (snd (ExpireInvitation d i))"
  by (auto simp: schema_defs ExpireInvitation_def schema_rules)

lemma uniq_same: "uniq k tbl \<Longrightarrow> x \<in> set tbl \<Longrightarrow> y \<in> set tbl \<Longrightarrow> k x = k y \<Longrightarrow> x = y"
  by (auto simp: uniq_def distinct_map dest: inj_onD)

lemma find_uniq:
  "uniq k tbl \<Longrightarrow> r \<in> set tbl \<Longrightarrow> k r = i \<Longrightarrow> Q r \<Longrightarrow> find (\<lambda>x. k x = i \<and> Q x) tbl = Some r"
  by (induction tbl) (auto simp: uniq_def rev_image_eqI)

lemma customers_append:
  "customers_uniq subs \<Longrightarrow> \<not> (sStripeCustomerID s \<noteq> None \<and>
     list_ex (\<lambda>x. sUserID x \<noteq> sUserID s \<and> sStripeCustomerID x = sStripeCustomerID s) subs) \<Longrightarrow>
   customers_uniq (subs @ [s])"
  by (auto simp: customers_uniq_def list_ex_iff)

lemma customers_merge:
  assumes "customers_uniq subs" "uniq sUserID subs" "s0 \<in> set subs" "sUserID s0 = upUserID p"
    and "\<not> (sStripeCustomerID (merge_subscription now p s0) \<noteq> None \<and>
     list_ex (\<lambda>x. sUserID x \<noteq> upUserID p \<and>
       sStripeCustomerID x = sStripeCustomerID (merge_subscription now p s0)) subs)"
  shows "customers_uniq (update_where (\<lambda>x. sUserID x = upUserID p) (merge_subscription now p) subs)"
proof -
  have "x = s0" if "x \<in> set subs" "sUserID x = upUserID p" for x
    using assms(2-4) that by (metis uniq_same)
  then show ?thesis
    using assms(1,4,5)
    by (auto simp: customers_uniq_def table_simps list_ex_iff merge_subscription_def)
qed

lemma merge_keys [simp]:
  "sUserID (merge_subscription now p s) = sUserID s" "sID (merge_subscription now p s) = sID s"
  by (simp_all add: merge_subscription_def)

lemma schema_UpsertSubscription:
  "schema_ok d \<Longrightarrow> schema_ok (snd (UpsertSubscription d now i p))"
proof (cases "find (\<lambda>s. sUserID s = upUserID p) (subscriptions d)")
  case None
  assume "schema_ok d"
  moreover have "upUserID p \<notin> sUserID ` set (subscriptions d)"
    using None by (auto simp: find_None_iff)
  ultimately show ?thesis using None
    by (auto simp: schema_defs UpsertSubscription_def Let_def schema_rules customer_taken_def
        new_subscription_def intro!: customers_append)
next
  case (Some s0)
  assume ok: "schema_ok d"
  have "customers_uniq (update_where (\<lambda>x. sUserID x = upUserID p) (merge_subscription now p)
          (subscriptions d))"
    if "\<not> customer_taken d (upUserID p) (sStripeCustomerID (merge_subscription now p s0))"
    using ok that find_SomeD [OF Some]
    by (intro customers_merge [of _ s0]) (auto simp: schema_defs customer_taken_def)
  with ok Some show ?thesis
    by (auto simp: schema_defs UpsertSubscription_def Let_def schema_rules)
qed

lemma schema_scoped_update:
  assumes "\<And>m. mrID (f m) = mrID m" "\<And>m. mrOrgID (f m) = mrOrgID m" "schema_ok d"
  shows "schema_ok (snd (scoped_update d u P f))"
  using assms by (auto simp: schema_defs scoped_update_def schema_rules)

lemma schema_rec_step:
  assumes "\<And>m. mrID (f m) = mrID m" "\<And>m. mrOrgID (f m) = mrOrgID m" "schema_ok (snd (snd st))"
  shows "schema_ok (snd (snd (rec_step fails i g u P f st)))"
  using assms schema_scoped_update [OF assms(1,2), of "snd (snd st)" u P]
  by (auto simp: rec_step_def split: prod.splits)

lemma schema_clean: "schema_ok d \<Longrightarrow> schema_ok (clean_region_status d u)"
  by (auto simp: schema_defs clean_region_status_def schema_rules)

lemma schema_rec_regions:
  assumes "schema_ok (snd (snd st))"
  shows "schema_ok (snd (snd (rec_regions fails now u n st)))"
  using assms schema_scoped_update [of "\<lambda>m. m\<lparr>mrRegions := take (nat n) (mrRegions m), mrUpdatedAt := now\<rparr>"
      "snd (snd st)" u "\<lambda>m. int (length (mrRegions m)) > n"]
  by (auto simp: rec_regions_def schema_clean split: prod.splits)

lemma schema_Reconcile:
  "schema_ok d \<Longrightarrow> schema_ok (snd (snd (ReconcileMonitorsToPlan d now fails u p q)))"
  unfolding ReconcileMonitorsToPlan_def Let_def
  by (intro schema_rec_step schema_rec_regions) simp_all

subsection \<open>The contract of a store method\<close>

text \<open>A call that the driver may fail: the failing call returns the driver's error and the
  database is as before.\<close>

definition attempt :: "bool \<Rightarrow> (store_error + 'a) \<times> db \<Rightarrow> db \<Rightarrow> (store_error + 'a) \<times> db" where
  "attempt bad r d = (if bad then (Inl ErrOther, d) else r)"

definition attempt_read :: "bool \<Rightarrow> store_error + 'a \<Rightarrow> store_error + 'a" where
  "attempt_read bad r = (if bad then Inl ErrOther else r)"

locale store_method =
  fixes meth :: "db \<Rightarrow> (store_error + 'a) \<times> db"
  assumes keeps: "schema_ok d \<Longrightarrow> schema_ok (snd (meth d))"
    and atomic: "fst (meth d) = Inl e \<Longrightarrow> snd (meth d) = d"
begin

lemma attempt_keeps: "schema_ok d \<Longrightarrow> schema_ok (snd (attempt bad (meth d) d))"
  by (simp add: attempt_def keeps)

lemma attempt_atomic: "fst (attempt bad (meth d) d) = Inl e \<Longrightarrow> snd (attempt bad (meth d) d) = d"
  by (auto simp: attempt_def atomic split: if_splits)

lemma attempt_cases:
  obtains e where "attempt bad (meth d) d = (Inl e, d)"
  | r d' where "attempt bad (meth d) d = (Inr r, d')" "meth d = (Inr r, d')"
proof (cases "fst (attempt bad (meth d) d)")
  case (Inl e)
  then show ?thesis using attempt_atomic [OF Inl] that(1) by (metis prod.collapse)
next
  case (Inr r)
  then show ?thesis using that(2) by (cases bad) (auto simp: attempt_def prod_eq_iff)
qed

end

interpretation create_monitor: store_method "\<lambda>d. CreateMonitor d now i p" for now i p
  by (unfold_locales, erule schema_CreateMonitor)
    (auto simp: CreateMonitor_def Let_def split: if_splits)

interpretation update_monitor: store_method "\<lambda>d. UpdateMonitor d now i u r" for now i u r
  by (unfold_locales, erule schema_UpdateMonitor)
    (auto simp: UpdateMonitor_def Let_def split: option.splits)

interpretation delete_monitor: store_method "\<lambda>d. DeleteMonitor d i u" for i u
  by (unfold_locales, erule schema_DeleteMonitor)
    (auto simp: DeleteMonitor_def split: option.splits)

interpretation create_window: store_method "\<lambda>d. CreateMaintenanceWindow d now i m r" for now i m r
  by (unfold_locales, erule schema_CreateMaintenanceWindow)
    (auto simp: CreateMaintenanceWindow_def Let_def split: if_splits)

interpretation delete_window: store_method "\<lambda>d. DeleteMaintenanceWindow d m w" for m w
  by (unfold_locales, erule schema_DeleteMaintenanceWindow)
    (auto simp: DeleteMaintenanceWindow_def Let_def split: if_splits)

interpretation create_channel: store_method
  "\<lambda>d. CreateNotificationChannel d now i u c t e" for now i u c t e
  by (unfold_locales, erule schema_CreateNotificationChannel)
    (auto simp: CreateNotificationChannel_def Let_def split: if_splits)

interpretation update_channel: store_method
  "\<lambda>d. UpdateNotificationChannel d now i u r" for now i u r
  by (unfold_locales, erule schema_UpdateNotificationChannel)
    (auto simp: UpdateNotificationChannel_def Let_def split: option.splits if_splits)

interpretation delete_channel: store_method "\<lambda>d. DeleteNotificationChannel d i u" for i u
  by (unfold_locales, erule schema_DeleteNotificationChannel)
    (auto simp: DeleteNotificationChannel_def split: option.splits)

interpretation upsert_setting: store_method
  "\<lambda>d. UpsertMonitorChannelSetting d i m c e" for i m c e
  by (unfold_locales, erule schema_UpsertMonitorChannelSetting)
    (auto simp: UpsertMonitorChannelSetting_def Let_def split: option.splits if_splits)

interpretation delete_setting: store_method "\<lambda>d. DeleteMonitorChannelSetting d m c" for m c
  by (unfold_locales, erule schema_DeleteMonitorChannelSetting)
    (auto simp: DeleteMonitorChannelSetting_def)

interpretation create_org: store_method "\<lambda>d. CreateOrganization d now i j u n" for now i j u n
  by (unfold_locales, erule schema_CreateOrganization)
    (auto simp: CreateOrganization_def Let_def split: if_splits)

interpretation update_org: store_method "\<lambda>d. UpdateOrganization d now i r" for now i r
  by (unfold_locales, erule schema_UpdateOrganization)
    (auto simp: UpdateOrganization_def Let_def split: option.splits if_splits)

interpretation delete_org: store_method "\<lambda>d. DeleteOrganization d i" for i
  by (unfold_locales, erule schema_DeleteOrganization)
    (auto simp: DeleteOrganization_def split: if_splits)

interpretation update_role: store_method "\<lambda>d. UpdateMemberRole d o' u r" for o' u r
  by (unfold_locales, erule schema_UpdateMemberRole)
    (auto simp: UpdateMemberRole_def split: option.splits)

interpretation remove_member: store_method "\<lambda>d. RemoveMember d o' u" for o' u
  by (unfold_locales, erule schema_RemoveMember)
    (auto simp: RemoveMember_def split: option.splits)

interpretation create_recipient: store_method
  "\<lambda>d. CreateOrgAlertRecipient d now i o' c t" for now i o' c t
  by (unfold_locales, erule schema_CreateOrgAlertRecipient)
    (auto simp: CreateOrgAlertRecipient_def Let_def split: if_splits)

interpretation delete_recipient: store_method "\<lambda>d. DeleteOrgAlertRecipient d o' i" for o' i
  by (unfold_locales, erule schema_DeleteOrgAlertRecipient)
    (auto simp: DeleteOrgAlertRecipient_def Let_def split: if_splits)

interpretation create_invitation: store_method
  "\<lambda>d. CreateInvitation d now i o' e b r t x" for now i o' e b r t x
  by (unfold_locales, erule schema_CreateInvitation)
    (auto simp: CreateInvitation_def Let_def split: if_splits)

interpretation accept_invitation: store_method "\<lambda>d. AcceptInvitation d now i t u n" for now i t u n
  by (unfold_locales, erule schema_AcceptInvitation)
    (auto simp: AcceptInvitation_def Let_def split: option.splits if_splits)

interpretation revoke_invitation: store_method "\<lambda>d. RevokeInvitation d i" for i
  by (unfold_locales, erule schema_RevokeInvitation)
    (auto simp: RevokeInvitation_def split: if_splits)

interpretation expire_invitation: store_method "\<lambda>d. ExpireInvitation d i" for i
  by (unfold_locales, erule schema_ExpireInvitation)
    (auto simp: ExpireInvitation_def)

interpretation upsert_subscription: store_method "\<lambda>d. UpsertSubscription d now i p" for now i p
  by (unfold_locales, erule schema_UpsertSubscription)
    (auto simp: UpsertSubscription_def Let_def split: option.splits if_splits)

subsection \<open>The empty database\<close>

lemma schema_empty: "schema_ok empty_db"
  by (simp add: schema_defs empty_db_def uniq_def refs_def monitor_org_refs_def customers_uniq_def)

end
