(* ===== verification/StoreLaws.thy ===== *)
theory StoreLaws
  imports Schema
begin

section \<open>Laws of the store methods\<close>

text \<open>
  What the methods promise their callers: the monitor pool and the login seats never exceed
  the cap a call was given, an upsert is read back and touches no other key, reconciliation
  brings every billed monitor inside the new plan and nothing else, and the scopes agree with
  each other.
\<close>

subsection \<open>Scopes\<close>

lemma owns_org_iff:
  "schema_ok d \<Longrightarrow> owns_org d i u \<longleftrightarrow> org_owner d i = Some u"
proof -
  assume "schema_ok d"
  then have un: "uniq oID (organizations d)" by (simp add: schema_defs)
  show ?thesis
  proof (cases "find (\<lambda>og. oID og = i) (organizations d)")
    case None
    then show ?thesis
      by (auto simp: owns_org_def org_owner_def list_ex_iff dest: find_None_D)
  next
    case (Some og)
    note found = find_SomeD [OF Some]
    have "x = og" if "x \<in> set (organizations d)" "oID x = i" for x
      using un that found by (metis uniq_same)
    with Some found show ?thesis by (auto simp: owns_org_def org_owner_def list_ex_iff)
  qed
qed

text \<open>The pool a monitor counts against is that of the user its plan is read from.\<close>

lemma billing_scope_iff:
  assumes "schema_ok d" "m \<in> set (monitors d)"
  shows "billingScopeClause d u m \<longleftrightarrow> billed_user d m = u"
proof (cases "mrOrgID m")
  case None
  then show ?thesis by (simp add: billingScopeClause_def billed_user_def)
next
  case (Some i)
  have "i \<in> oID ` set (organizations d)"
    using assms Some by (auto simp: schema_defs monitor_org_refs_def)
  then obtain w where "org_owner d i = Some w"
    using org_owner_None [of d i] by auto
  with Some show ?thesis
    by (simp add: billingScopeClause_def billed_user_def owns_org_iff [OF assms(1)])
qed

lemma billing_scope_cong:
  "organizations d' = organizations d \<Longrightarrow> billingScopeClause d' u m = billingScopeClause d u m"
  by (simp add: billingScopeClause_def owns_org_def split: option.splits)

lemma billing_scope_monitors [simp]:
  "billingScopeClause (d\<lparr>monitors := ms\<rparr>) = billingScopeClause d"
  by (intro ext billing_scope_cong) simp

lemma billing_scope_row:
  "mrUserID m' = mrUserID m \<Longrightarrow> mrOrgID m' = mrOrgID m \<Longrightarrow>
   billingScopeClause d u m' = billingScopeClause d u m"
  by (simp add: billingScopeClause_def split: option.splits)

text \<open>The pool is accounted for exactly. In a database that satisfies the schema, the
  monitors counted against a user's quota are exactly those whose effective plan is read from
  that user's subscription, so the owners' counts partition the monitors.\<close>

theorem pool_matches_plan_source:
  assumes "schema_ok d"
  shows "CountMonitorsForBillingOwner d u = count_where (\<lambda>m. billed_user d m = u) (monitors d)"
  using billing_scope_iff [OF assms]
  by (simp add: CountMonitorsForBillingOwner_def count_where_def cong: filter_cong)

subsection \<open>The monitor quota\<close>

definition pool_owner :: "db \<Rightarrow> create_monitor_params \<Rightarrow> bool" where
  "pool_owner d p \<longleftrightarrow>
     (if cpOrgID p = [] then cpBillingOwnerID p = cpUserID p
      else org_owner d (cpOrgID p) = Some (cpBillingOwnerID p))"

lemma CreateMonitor_Inr:
  assumes "CreateMonitor d now i p = (Inr m, d')"
  shows "d' = d\<lparr>monitors := monitors d @ [new_monitor_row now i p]\<rparr>"
    and "m = toModel d' (new_monitor_row now i p)" and "i \<notin> mrID ` set (monitors d)"
    and "cpMaxMonitors p \<noteq> Unlimited \<longrightarrow>
         CountMonitorsForBillingOwner d (cpBillingOwnerID p) < cpMaxMonitors p"
  using assms by (auto simp: CreateMonitor_def Let_def split: if_splits)

lemma new_row_in_pool:
  assumes "pool_owner d p" "schema_ok d"
  shows "billingScopeClause d (cpBillingOwnerID p) (new_monitor_row now i p)"
  using assms(1)
  by (auto simp: pool_owner_def billingScopeClause_def new_monitor_row_def
      owns_org_iff [OF assms(2)] split: if_splits)

lemma count_after_create:
  "CountMonitorsForBillingOwner (d\<lparr>monitors := monitors d @ [r]\<rparr>) u =
   CountMonitorsForBillingOwner d u + (if billingScopeClause d u r then 1 else 0)"
  by (simp add: CountMonitorsForBillingOwner_def table_simps)

lemma CreateMonitor_pool:
  assumes "schema_ok d" "pool_owner d p" "cpMaxMonitors p \<noteq> Unlimited"
  shows "case CreateMonitor d now i p of
      (Inr m, d') \<Rightarrow>
        CountMonitorsForBillingOwner d' (cpBillingOwnerID p)
          = CountMonitorsForBillingOwner d (cpBillingOwnerID p) + 1
        \<and> CountMonitorsForBillingOwner d' (cpBillingOwnerID p) \<le> cpMaxMonitors p
        \<and> (\<forall>u. u \<noteq> cpBillingOwnerID p \<longrightarrow>
             CountMonitorsForBillingOwner d' u = CountMonitorsForBillingOwner d u)
    | (Inl e, d') \<Rightarrow> d' = d \<and>
        (cpMaxMonitors p \<le> CountMonitorsForBillingOwner d (cpBillingOwnerID p)
           \<longrightarrow> e = ErrMonitorLimit)"
proof (cases "CreateMonitor d now i p")
  case (Pair r d')
  show ?thesis
  proof (cases r)
    case (Inl e)
    with Pair assms(3) show ?thesis
      by (auto simp: CreateMonitor_def Let_def split: if_splits)
  next
    case (Inr m)
    let ?row = "new_monitor_row now i p"
    have res: "CreateMonitor d now i p = (Inr m, d')" using Pair Inr by simp
    note d' = CreateMonitor_Inr(1) [OF res] and lt = CreateMonitor_Inr(4) [OF res]
    have mem: "?row \<in> set (monitors d')" and ok': "schema_ok d'"
      using d' create_monitor.keeps [OF assms(1), of now i p] res by simp_all
    have "billingScopeClause d u ?row \<longleftrightarrow> u = cpBillingOwnerID p" for u
      using new_row_in_pool [OF assms(2,1), of now i] billing_scope_iff [OF ok' mem]
        d' by auto
    then show ?thesis using Pair Inr d' lt assms(3) by (simp add: count_after_create)
  qed
qed

text \<open>C12: a create that succeeds never takes the billing owner's pool over the cap it was
  given, adds exactly one monitor to that pool, and leaves every other owner's pool as it was;
  at the cap it fails with the monitor-limit error and the database is untouched.\<close>

theorem CreateMonitor_quota:
  assumes "schema_ok d" "pool_owner d p" "cpMaxMonitors p \<noteq> Unlimited"
  shows "case CreateMonitor d now i p of
      (Inr m, d') \<Rightarrow>
        CountMonitorsForBillingOwner d' (cpBillingOwnerID p)
          = CountMonitorsForBillingOwner d (cpBillingOwnerID p) + 1
        \<and> CountMonitorsForBillingOwner d' (cpBillingOwnerID p) \<le> cpMaxMonitors p
        \<and> (\<forall>u. u \<noteq> cpBillingOwnerID p \<longrightarrow>
             CountMonitorsForBillingOwner d' u = CountMonitorsForBillingOwner d u)
    | (Inl e, d') \<Rightarrow> d' = d \<and>
        (cpMaxMonitors p \<le> CountMonitorsForBillingOwner d (cpBillingOwnerID p)
           \<longrightarrow> e = ErrMonitorLimit)"
  using assms by (rule CreateMonitor_pool)

subsection \<open>Login seats\<close>

definition seats_used :: "db \<Rightarrow> instant \<Rightarrow> ident \<Rightarrow> int" where
  "seats_used d now orgId = CountNonOwnerMembers d orgId + CountPendingInvitations d now orgId"

lemma count_where_split_key:
  "uniq k tbl \<Longrightarrow> r \<in> set tbl \<Longrightarrow> P r \<Longrightarrow>
   count_where P tbl = count_where (\<lambda>x. P x \<and> k x \<noteq> k r) tbl + 1"
proof (induction tbl)
  case (Cons a tbl)
  show ?case
  proof (cases "r = a")
    case True
    with Cons.prems have "k x \<noteq> k r" if "x \<in> set tbl" for x
      using that by (auto simp: uniq_def rev_image_eqI)
    then have "filter (\<lambda>x. P x \<and> k x \<noteq> k r) tbl = filter P tbl"
      by (intro filter_cong) auto
    with True Cons.prems show ?thesis by (simp add: count_where_def)
  next
    case False
    with Cons show ?thesis by (auto simp: uniq_def table_simps)
  qed
qed simp

lemma count_where_switch_off:
  "(\<And>x. \<not> P (f x)) \<Longrightarrow> count_where P (update_where Q f tbl) = count_where (\<lambda>x. P x \<and> \<not> Q x) tbl"
  by (induction tbl) (auto simp: table_simps)

lemma AcceptInvitation_Inr:
  assumes "AcceptInvitation d now i token u maxSeats = (Inr om, d')"
  obtains v where "v \<in> set (invitations d)" "invToken v = token" "pending now v"
    and "om = \<lparr>omID = i, omOrgID = invOrgID v, omUserID = u, omRole = invRole v, omCreatedAt = now\<rparr>"
    and "maxSeats \<noteq> Unlimited \<longrightarrow> CountNonOwnerMembers d (invOrgID v) + count_where
      (\<lambda>x. (invOrgID x = invOrgID v \<and> pending now x) \<and> invID x \<noteq> invID v) (invitations d) < maxSeats"
    and "d' = d\<lparr>members := members d @ [om], invitations := update_where (\<lambda>x. invID x = invID v)
               (\<lambda>x. x\<lparr>invStatus := ACCEPTED\<rparr>) (invitations d)\<rparr>"
    and "u \<notin> omUserID ` set (members d)"
proof -
  obtain v where v: "find (\<lambda>v. invToken v = token \<and> pending now v) (invitations d) = Some v"
    using assms by (cases "find (\<lambda>v. invToken v = token \<and> pending now v) (invitations d)")
      (simp_all add: AcceptInvitation_def)
  show thesis
    using assms find_SomeD [OF v] v
    by (intro that [of v]) (auto simp: AcceptInvitation_def Let_def split: if_splits)
qed

lemma AcceptInvitation_facts:
  assumes "schema_ok d" "AcceptInvitation d now i token u maxSeats = (Inr om, d')"
    and "omRole om \<noteq> OWNER" "maxSeats \<noteq> Unlimited"
  shows "seats_used d' now (omOrgID om) = seats_used d now (omOrgID om)"
    and "seats_used d' now (omOrgID om) \<le> maxSeats"
    and "\<exists>v \<in> set (invitations d). invToken v = token \<and> invOrgID v = omOrgID om
           \<and> invRole v = omRole om \<and> pending now v"
    and "AcceptInvitation d' now' i' token u' maxSeats' = (Inl ErrNotFound, d')"
proof -
  from assms(2) obtain v where vin: "v \<in> set (invitations d)" "invToken v = token" "pending now v"
    and om: "om = \<lparr>omID = i, omOrgID = invOrgID v, omUserID = u, omRole = invRole v, omCreatedAt = now\<rparr>"
    and seats: "maxSeats \<noteq> Unlimited \<longrightarrow> CountNonOwnerMembers d (invOrgID v) + count_where
      (\<lambda>x. (invOrgID x = invOrgID v \<and> pending now x) \<and> invID x \<noteq> invID v) (invitations d) < maxSeats"
    and d': "d' = d\<lparr>members := members d @ [om], invitations := update_where (\<lambda>x. invID x = invID v)
               (\<lambda>x. x\<lparr>invStatus := ACCEPTED\<rparr>) (invitations d)\<rparr>"
    by (rule AcceptInvitation_Inr)
  have un: "uniq invID (invitations d)" "uniq invToken (invitations d)"
    using assms(1) by (simp_all add: schema_defs)
  let ?P = "\<lambda>x. invOrgID x = invOrgID v \<and> pending now x"
  have split: "count_where ?P (invitations d)
      = count_where (\<lambda>x. ?P x \<and> invID x \<noteq> invID v) (invitations d) + 1"
    using count_where_split_key [OF un(1), of v ?P] vin by simp
  have "count_where ?P (invitations d') = count_where (\<lambda>x. ?P x \<and> invID x \<noteq> invID v) (invitations d)"
    by (simp add: d' count_where_switch_off pending_def)
  then show eq: "seats_used d' now (omOrgID om) = seats_used d now (omOrgID om)"
    using split om assms(3)
    by (simp add: seats_used_def CountPendingInvitations_def CountNonOwnerMembers_def d' table_simps)
  show "seats_used d' now (omOrgID om) \<le> maxSeats"
    unfolding eq using seats split om assms(4) by (simp add: seats_used_def CountPendingInvitations_def)
  show "\<exists>v \<in> set (invitations d). invToken v = token \<and> invOrgID v = omOrgID om
           \<and> invRole v = omRole om \<and> pending now v"
    using vin om by auto
  have "\<not> pending now' x" if x: "x \<in> set (invitations d')" "invToken x = token" for x
  proof -
    obtain x0 where x0: "x0 \<in> set (invitations d)"
      "x = (if invID x0 = invID v then x0\<lparr>invStatus := ACCEPTED\<rparr> else x0)"
      using x(1) by (auto simp: d' set_update_where)
    then have "invToken x0 = token" using x(2) by (simp split: if_splits)
    then have "x0 = v" using uniq_same [OF un(2) x0(1) vin(1)] vin(2) by simp
    then show ?thesis using x0 by (simp add: pending_def)
  qed
  then have "find (\<lambda>v. invToken v = token \<and> pending now' v) (invitations d') = None"
    by (auto simp: find_None_iff)
  then show "AcceptInvitation d' now' i' token u' maxSeats' = (Inl ErrNotFound, d')"
    by (simp add: AcceptInvitation_def)
qed

text \<open>C27: an accept that succeeds turns the seat its invitation held into a membership: the
  seats of that organization are as many as before and within the cap, the member has the
  invitation's role, and the same token cannot be accepted a second time by anyone.\<close>

theorem AcceptInvitation_converts_seat:
  assumes "schema_ok d" "AcceptInvitation d now i token u maxSeats = (Inr om, d')"
    and "omRole om \<noteq> OWNER" "maxSeats \<noteq> Unlimited"
  shows "seats_used d' now (omOrgID om) = seats_used d now (omOrgID om)
    \<and> seats_used d' now (omOrgID om) \<le> maxSeats
    \<and> (\<exists>v \<in> set (invitations d). invToken v = token \<and> invOrgID v = omOrgID om
           \<and> invRole v = omRole om \<and> pending now v)
    \<and> AcceptInvitation d' now' i' token u' maxSeats' = (Inl ErrNotFound, d')"
  using AcceptInvitation_facts [OF assms] by blast

subsection \<open>A sample database\<close>

text \<open>An Enterprise owner with an organization, one member, one pending invitation, and a
  monitor in each workspace.\<close>

definition sample_monitor :: "ident \<Rightarrow> ident option \<Rightarrow> monitor_row" where
  "sample_monitor i orgId =
     \<lparr>mrID = i, mrUserID = ''owner'', mrOrgID = orgId, mrName = ''site'', mrType = HTTP,
      mrTarget = ''https://example.com'', mrInterval = Some 60, mrTimeout = 30,
      mrDegradedThresholdMs = Some 900, mrRepeatAlertIntervalSecs = Some 600,
      mrRepeatAlertMaxCount = Some 3, mrCertCheckEnabled = True, mrCertExpiryThresholdDays = 14,
      mrDomainCheckEnabled = False, mrDomainExpiryThresholdDays = 14, mrEnabled = True,
      mrRegions = [''ca-east'', ''eu-west''], mrCreatedAt = 0, mrUpdatedAt = 0\<rparr>"

definition sample_db :: db where
  "sample_db =
     \<lparr>monitors = [sample_monitor ''m1'' (Some ''org''), sample_monitor ''m2'' None],
      organizations = [\<lparr>oID = ''org'', oName = ''Acme'', oOwnerID = ''owner'', oCreatedAt = 0,
                        oUpdatedAt = 0\<rparr>],
      members = [\<lparr>omID = ''k1'', omOrgID = ''org'', omUserID = ''owner'', omRole = OWNER,
                  omCreatedAt = 0\<rparr>,
                 \<lparr>omID = ''k2'', omOrgID = ''org'', omUserID = ''ann'', omRole = MEMBER,
                  omCreatedAt = 1\<rparr>],
      recipients = [],
      invitations = [\<lparr>invID = ''i1'', invOrgID = ''org'', invEmail = ''bob@example.com'',
                      invRole = VIEWER, invToken = ''hash'', invStatus = PENDING,
                      invInvitedBy = ''owner'', invExpiresAt = 1000, invCreatedAt = 2\<rparr>],
      subscriptions = [\<lparr>sID = ''s1'', sUserID = ''owner'', sPlan = ''ENTERPRISE'', sStatus = ACTIVE,
                        sStripeCustomerID = Some ''cus_1'', sStripeSubscriptionID = Some ''sub_1'',
                        sStripePriceID = Some ''price_ent'', sCurrentPeriodStart = Some 0,
                        sCurrentPeriodEnd = Some 9000, sCancelAtPeriodEnd = False, sCreatedAt = 0,
                        sUpdatedAt = 0\<rparr>],
      channels = [], settings = [], windows = [], region_status = []\<rparr>"

lemma sample_db_ok: "schema_ok sample_db"
  by (simp add: schema_defs sample_db_def sample_monitor_def uniq_def refs_def
      monitor_org_refs_def customers_uniq_def)

definition sample_params :: create_monitor_params where
  "sample_params =
     \<lparr>cpUserID = ''ann'', cpOrgID = ''org'', cpBillingOwnerID = ''owner'', cpMaxMonitors = 200,
      cpName = ''api'', cpType = HTTP, cpTarget = ''https://example.com/api'', cpInterval = None,
      cpTimeout = 10, cpDegradedThresholdMs = None, cpRepeatAlertIntervalSecs = None,
      cpRepeatAlertMaxCount = None, cpEnabled = True, cpRegions = [''ca-east'']\<rparr>"

lemma sample_counts:
  "CountMonitorsForBillingOwner sample_db ''owner'' = 2" "org_owner sample_db ''org'' = Some ''owner''"
  by (simp_all add: CountMonitorsForBillingOwner_def sample_db_def sample_monitor_def
      billingScopeClause_def owns_org_def count_where_def org_owner_def)

theorem pool_matches_plan_source_witness:
  "count_where (\<lambda>m. billed_user sample_db m = ''owner'') (monitors sample_db) = 2"
  using pool_matches_plan_source [OF sample_db_ok, of "''owner''"] sample_counts by simp

theorem CreateMonitor_quota_witness:
  "CountMonitorsForBillingOwner (snd (CreateMonitor sample_db 5 ''m3'' sample_params)) ''owner'' = 3"
proof -
  have *: "pool_owner sample_db sample_params" "cpMaxMonitors sample_params \<noteq> Unlimited"
    by (simp_all add: pool_owner_def sample_params_def sample_counts Unlimited_def)
  have "\<exists>m d'. CreateMonitor sample_db 5 ''m3'' sample_params = (Inr m, d')"
    by (simp add: CreateMonitor_def Let_def sample_params_def sample_counts)
      (simp add: sample_db_def sample_monitor_def)
  then show ?thesis
    using CreateMonitor_quota [OF sample_db_ok *, of 5 "''m3''"] sample_counts
    by (auto simp: sample_params_def)
qed

theorem AcceptInvitation_converts_seat_witness:
  "seats_used (snd (AcceptInvitation sample_db 10 ''k3'' ''hash'' ''bob'' 3)) 10 ''org'' = 2"
proof -
  obtain om d' where r: "AcceptInvitation sample_db 10 ''k3'' ''hash'' ''bob'' 3 = (Inr om, d')"
    and om: "omRole om \<noteq> OWNER" "omOrgID om = ''org''"
    by (simp add: AcceptInvitation_def sample_db_def pending_def count_where_def
        CountNonOwnerMembers_def Let_def Unlimited_def)
  then show ?thesis
    using AcceptInvitation_converts_seat [OF sample_db_ok r om(1)]
    by (simp add: Unlimited_def seats_used_def CountNonOwnerMembers_def CountPendingInvitations_def
        sample_db_def pending_def count_where_def)
qed

subsection \<open>Reconciling monitors to a plan\<close>

text \<open>What a plan allows a monitor to have: every per-monitor limit of \<^verbatim>\<open>PlanLimits\<close>, the interval
  floor, the regions, the custom threshold, the two expiry checks, and repeat alerts with the
  cap on their count.\<close>

definition conforms :: "string \<Rightarrow> monitor_row \<Rightarrow> bool" where
  "conforms plan m \<longleftrightarrow>
     (let l = LimitsForPlan plan in
        \<not> opt_any (mrInterval m) (\<lambda>v. v < MinInterval l)
      \<and> (MaxRegions l \<noteq> Unlimited \<longrightarrow> int (length (mrRegions m)) \<le> MaxRegions l)
      \<and> (CustomDegradedThreshold l \<or> mrDegradedThresholdMs m = None)
      \<and> (SSLMonitoring l \<or> \<not> mrCertCheckEnabled m)
      \<and> (DomainMonitoring l \<or> \<not> mrDomainCheckEnabled m)
      \<and> (mrRepeatAlertIntervalSecs m = None \<or>
           MaxAlertRepeats l \<noteq> 0 \<and> \<not> opt_any (mrRepeatAlertMaxCount m) (\<lambda>v. v > MaxAlertRepeats l)))"

text \<open>What one set of limits allows a monitor, another allows too.\<close>

definition limits_within :: "plan_limits \<Rightarrow> plan_limits \<Rightarrow> bool" where
  "limits_within l k \<longleftrightarrow> MinInterval k \<le> MinInterval l \<and> MaxMonitors l \<le> MaxMonitors k
     \<and> (MaxRegions k = Unlimited \<or> MaxRegions l \<noteq> Unlimited \<and> MaxRegions l \<le> MaxRegions k)
     \<and> (CustomDegradedThreshold l \<longrightarrow> CustomDegradedThreshold k)
     \<and> (SSLMonitoring l \<longrightarrow> SSLMonitoring k) \<and> (DomainMonitoring l \<longrightarrow> DomainMonitoring k)
     \<and> (MaxAlertRepeats l \<noteq> 0 \<longrightarrow> MaxAlertRepeats k \<noteq> 0 \<and> MaxAlertRepeats l \<le> MaxAlertRepeats k)"

lemma limits_within_refl: "limits_within l l"
  by (simp add: limits_within_def)

lemma limits_within_FREE: "limits_within (LimitsForPlan ''FREE'') (LimitsForPlan p)"
  by (cases p rule: LimitsForPlan_cases) (simp_all add: limits_within_def Unlimited_def)

lemma conforms_mono:
  assumes "conforms p m" "limits_within (LimitsForPlan p) (LimitsForPlan q)"
  shows "conforms q m"
  using assms by (auto simp: conforms_def limits_within_def Let_def opt_any_iff)

text \<open>The reference: one monitor at a time, each gated setting brought inside the new limits.\<close>

definition row_step :: "bool \<Rightarrow> ('r \<Rightarrow> bool) \<Rightarrow> ('r \<Rightarrow> 'r) \<Rightarrow> 'r \<Rightarrow> 'r" where
  "row_step guard P f m = (if guard \<and> P m then f m else m)"

definition fit :: "instant \<Rightarrow> string \<Rightarrow> string \<Rightarrow> monitor_row \<Rightarrow> monitor_row" where
  "fit now oldPlan newPlan m =
     (let old = LimitsForPlan oldPlan; new = LimitsForPlan newPlan;
          m1 = row_step (MinInterval new > MinInterval old)
                 (\<lambda>m. opt_any (mrInterval m) (\<lambda>v. v < MinInterval new))
                 (\<lambda>m. m\<lparr>mrInterval := Some (MinInterval new), mrUpdatedAt := now\<rparr>) m;
          m2 = row_step (MaxRegions new \<noteq> Unlimited) (\<lambda>m. int (length (mrRegions m)) > MaxRegions new)
                 (\<lambda>m. m\<lparr>mrRegions := take (nat (MaxRegions new)) (mrRegions m), mrUpdatedAt := now\<rparr>) m1;
          m3 = row_step (CustomDegradedThreshold old \<and> \<not> CustomDegradedThreshold new)
                 (\<lambda>m. mrDegradedThresholdMs m \<noteq> None)
                 (\<lambda>m. m\<lparr>mrDegradedThresholdMs := None, mrUpdatedAt := now\<rparr>) m2;
          m4 = row_step (SSLMonitoring old \<and> \<not> SSLMonitoring new \<or>
                         DomainMonitoring old \<and> \<not> DomainMonitoring new)
                 (\<lambda>m. mrCertCheckEnabled m \<or> mrDomainCheckEnabled m)
                 (\<lambda>m. m\<lparr>mrCertCheckEnabled := False, mrDomainCheckEnabled := False,
                        mrUpdatedAt := now\<rparr>) m3
      in row_step (MaxAlertRepeats old > 0 \<and> MaxAlertRepeats new = 0)
           (\<lambda>m. mrRepeatAlertIntervalSecs m \<noteq> None)
           (\<lambda>m. m\<lparr>mrRepeatAlertIntervalSecs := None, mrRepeatAlertMaxCount := None,
                  mrUpdatedAt := now\<rparr>) m4)"

definition same_owner :: "(monitor_row \<Rightarrow> monitor_row) \<Rightarrow> bool" where
  "same_owner g \<longleftrightarrow> (\<forall>m. mrUserID (g m) = mrUserID m \<and> mrOrgID (g m) = mrOrgID m)"

text \<open>The state after some statements: no failure so far, the billed monitors went through \<open>g\<close>,
  and nothing but monitors and region rows changed.\<close>

definition tracks :: "db \<Rightarrow> ident \<Rightarrow> (monitor_row \<Rightarrow> monitor_row) \<Rightarrow> rec_state \<Rightarrow> bool" where
  "tracks d0 u g st \<longleftrightarrow>
     (\<exists>t d'. st = (t, False, d') \<and>
        monitors d' = map (\<lambda>m. if billingScopeClause d0 u m then g m else m) (monitors d0) \<and>
        d'\<lparr>monitors := [], region_status := []\<rparr> = d0\<lparr>monitors := [], region_status := []\<rparr>)"

lemma tracks_scope:
  assumes "d'\<lparr>monitors := [], region_status := []\<rparr> = d0\<lparr>monitors := [], region_status := []\<rparr>"
  shows "billingScopeClause d' = billingScopeClause d0"
proof -
  have "organizations (d'\<lparr>monitors := [], region_status := []\<rparr>) =
        organizations (d0\<lparr>monitors := [], region_status := []\<rparr>)" using assms by simp
  then show ?thesis by (intro ext billing_scope_cong) simp
qed

lemma same_owner_scope: "same_owner g \<Longrightarrow> billingScopeClause d u (g m) = billingScopeClause d u m"
  unfolding same_owner_def by (intro billing_scope_row) auto

lemma tracks_init: "tracks d0 u (\<lambda>m. m) (0, False, d0)"
  by (simp add: tracks_def)

lemma tracks_step:
  assumes "tracks d0 u g st" "same_owner g" "\<not> fails i"
  shows "tracks d0 u (\<lambda>m. row_step guard P f (g m)) (rec_step fails i guard u P f st)"
proof -
  from assms(1) obtain t d' where st: "st = (t, False, d')"
    and ms: "monitors d' = map (\<lambda>m. if billingScopeClause d0 u m then g m else m) (monitors d0)"
    and rest: "d'\<lparr>monitors := [], region_status := []\<rparr> = d0\<lparr>monitors := [], region_status := []\<rparr>"
    by (auto simp: tracks_def)
  show ?thesis
    using assms(3) rest unfolding st tracks_def
    by (cases guard) (simp_all add: rec_step_def scoped_update_def update_where_def ms row_step_def
        tracks_scope [OF rest] same_owner_scope [OF assms(2)] cong: if_cong)
qed

lemma tracks_regions:
  assumes "tracks d0 u g st" "same_owner g" "\<not> fails 1"
  shows "tracks d0 u (\<lambda>m. row_step (n \<noteq> Unlimited) (\<lambda>m. int (length (mrRegions m)) > n)
           (\<lambda>m. m\<lparr>mrRegions := take (nat n) (mrRegions m), mrUpdatedAt := now\<rparr>) (g m))
           (rec_regions fails now u n st)"
proof -
  from assms(1) obtain t d' where st: "st = (t, False, d')"
    and ms: "monitors d' = map (\<lambda>m. if billingScopeClause d0 u m then g m else m) (monitors d0)"
    and rest: "d'\<lparr>monitors := [], region_status := []\<rparr> = d0\<lparr>monitors := [], region_status := []\<rparr>"
    by (auto simp: tracks_def)
  show ?thesis
    using assms(3) rest unfolding st tracks_def
    by (cases "n = Unlimited") (simp_all add: rec_regions_def scoped_update_def update_where_def ms
        row_step_def tracks_scope [OF rest] same_owner_scope [OF assms(2)] clean_region_status_def
        cong: if_cong)
qed

lemma same_owner_row:
  "same_owner g \<Longrightarrow> same_owner f \<Longrightarrow> same_owner (\<lambda>m. row_step guard P f (g m))"
  by (simp add: same_owner_def row_step_def)

lemma reconcile_tracks:
  assumes "\<forall>i<6. \<not> fails i"
  shows "tracks d u (fit now old new) (ReconcileMonitorsToPlan d now fails u old new)"
  unfolding ReconcileMonitorsToPlan_def fit_def Let_def
  by (intro tracks_step tracks_regions tracks_init same_owner_row) (simp_all add: same_owner_def assms)

lemma row_step_other: "(\<And>x. k (f x) = k x) \<Longrightarrow> k (row_step guard P f m) = k m"
  by (simp add: row_step_def)

lemma row_step_id: "(guard \<Longrightarrow> \<not> P m) \<Longrightarrow> row_step guard P f m = m"
  by (auto simp: row_step_def)

lemmas row_step_frame = row_step_other [where k = mrInterval] row_step_other [where k = mrRegions]
  row_step_other [where k = mrDegradedThresholdMs] row_step_other [where k = mrCertCheckEnabled]
  row_step_other [where k = mrDomainCheckEnabled]
  row_step_other [where k = mrRepeatAlertIntervalSecs]
  row_step_other [where k = mrRepeatAlertMaxCount]

lemma fit_fields:
  "mrInterval (fit now old new m) =
     (if MinInterval (LimitsForPlan new) > MinInterval (LimitsForPlan old) \<and>
         opt_any (mrInterval m) (\<lambda>v. v < MinInterval (LimitsForPlan new))
      then Some (MinInterval (LimitsForPlan new)) else mrInterval m)"
  "mrRegions (fit now old new m) =
     (if MaxRegions (LimitsForPlan new) \<noteq> Unlimited \<and>
         int (length (mrRegions m)) > MaxRegions (LimitsForPlan new)
      then take (nat (MaxRegions (LimitsForPlan new))) (mrRegions m) else mrRegions m)"
  "mrDegradedThresholdMs (fit now old new m) =
     (if CustomDegradedThreshold (LimitsForPlan old) \<and> \<not> CustomDegradedThreshold (LimitsForPlan new)
      then None else mrDegradedThresholdMs m)"
  "mrRepeatAlertIntervalSecs (fit now old new m) =
     (if MaxAlertRepeats (LimitsForPlan old) > 0 \<and> MaxAlertRepeats (LimitsForPlan new) = 0
      then None else mrRepeatAlertIntervalSecs m)"
  "mrRepeatAlertMaxCount (fit now old new m) =
     (if MaxAlertRepeats (LimitsForPlan old) > 0 \<and> MaxAlertRepeats (LimitsForPlan new) = 0 \<and>
         mrRepeatAlertIntervalSecs m \<noteq> None
      then None else mrRepeatAlertMaxCount m)"
  by (simp_all add: fit_def Let_def row_step_frame) (auto simp: row_step_def row_step_frame)

lemma fit_flags:
  "mrCertCheckEnabled (fit now old new m) =
     (mrCertCheckEnabled m \<and> \<not> (SSLMonitoring (LimitsForPlan old) \<and> \<not> SSLMonitoring (LimitsForPlan new) \<or>
        DomainMonitoring (LimitsForPlan old) \<and> \<not> DomainMonitoring (LimitsForPlan new)))"
  "mrDomainCheckEnabled (fit now old new m) =
     (mrDomainCheckEnabled m \<and> \<not> (SSLMonitoring (LimitsForPlan old) \<and> \<not> SSLMonitoring (LimitsForPlan new) \<or>
        DomainMonitoring (LimitsForPlan old) \<and> \<not> DomainMonitoring (LimitsForPlan new)))"
  by (simp_all add: fit_def Let_def row_step_frame) (auto simp: row_step_def row_step_frame)

lemma fit_conforms: "conforms old m \<Longrightarrow> conforms new (fit now old new m)"
  unfolding conforms_def Let_def fit_fields fit_flags
  by (cases old rule: LimitsForPlan_cases; cases new rule: LimitsForPlan_cases)
    (auto simp: Unlimited_def opt_any_iff)

lemma fit_id: "conforms new m \<Longrightarrow> fit now old new m = m"
  by (cases old rule: LimitsForPlan_cases; cases new rule: LimitsForPlan_cases)
    (simp_all add: conforms_def fit_def Let_def row_step_id not_less Unlimited_def)

text \<open>C22: reconciling to a plan, when no statement fails, is the one-pass reference applied to
  exactly the billed monitors. Every billed monitor that fitted the old plan fits the new one,
  a monitor that already fits the new plan is not touched, and every monitor billed to someone
  else, and every table but monitors and region status, stays as it was.\<close>

theorem reconcile_fits_plan:
  assumes "\<forall>i. \<not> fails i"
  shows "\<exists>n d'. ReconcileMonitorsToPlan d now fails u oldPlan newPlan = (n, False, d')
    \<and> monitors d' = map (\<lambda>m. if billingScopeClause d u m then fit now oldPlan newPlan m else m) (monitors d)
    \<and> d'\<lparr>monitors := [], region_status := []\<rparr> = d\<lparr>monitors := [], region_status := []\<rparr>
    \<and> (\<forall>m. (conforms oldPlan m \<longrightarrow> conforms newPlan (fit now oldPlan newPlan m))
          \<and> (conforms newPlan m \<longrightarrow> fit now oldPlan newPlan m = m))"
proof -
  obtain n d' where
    "ReconcileMonitorsToPlan d now fails u oldPlan newPlan = (n, False, d')"
    "monitors d' = map (\<lambda>m. if billingScopeClause d u m then fit now oldPlan newPlan m else m) (monitors d)"
    "d'\<lparr>monitors := [], region_status := []\<rparr> = d\<lparr>monitors := [], region_status := []\<rparr>"
    using reconcile_tracks [of fails d u now oldPlan newPlan] assms by (auto simp: tracks_def)
  then show ?thesis using fit_conforms fit_id by blast
qed

definition all_conform :: "db \<Rightarrow> ident \<Rightarrow> string \<Rightarrow> db \<Rightarrow> bool" where
  "all_conform d0 u plan d \<longleftrightarrow> organizations d = organizations d0 \<and>
     (\<forall>m \<in> set (monitors d). billingScopeClause d0 u m \<longrightarrow> conforms plan m)"

lemma all_conform_step:
  assumes "all_conform d0 u plan (snd (snd st))" "same_owner f"
    and "\<And>m. guard \<Longrightarrow> P m \<Longrightarrow> conforms plan m \<Longrightarrow> conforms plan (f m)"
  shows "all_conform d0 u plan (snd (snd (rec_step fails i guard u P f st)))"
proof -
  obtain t b d where st: "st = (t, b, d)" by (cases st)
  have "billingScopeClause d = billingScopeClause d0"
    using assms(1) by (intro ext billing_scope_cong) (simp add: all_conform_def st)
  then show ?thesis
    using assms(1,3) same_owner_scope [OF assms(2)]
    by (auto simp: st rec_step_def scoped_update_def all_conform_def table_simps)
qed

lemma all_conform_regions:
  assumes "all_conform d0 u plan (snd (snd st))"
  shows "all_conform d0 u plan (snd (snd (rec_regions fails now u n st)))"
proof -
  obtain t b d where st: "st = (t, b, d)" by (cases st)
  have scope: "billingScopeClause d = billingScopeClause d0"
    using assms by (intro ext billing_scope_cong) (simp add: all_conform_def st)
  let ?f = "\<lambda>m. m\<lparr>mrRegions := take (nat n) (mrRegions m), mrUpdatedAt := now\<rparr>"
  have "conforms plan (?f m)" if "conforms plan m" for m
    using that by (auto simp: conforms_def Let_def)
  moreover have "billingScopeClause d0 u (?f m) = billingScopeClause d0 u m" for m
    by (rule billing_scope_row) simp_all
  ultimately show ?thesis
    using assms by (auto simp: st rec_regions_def scoped_update_def all_conform_def table_simps
        clean_region_status_def scope)
qed

lemma reconcile_keeps_old:
  assumes "all_conform d u old d"
  shows "all_conform d u old (snd (snd (ReconcileMonitorsToPlan d now fails u old new)))"
  unfolding ReconcileMonitorsToPlan_def Let_def
  by (intro all_conform_step all_conform_regions)
    (simp_all add: assms same_owner_def conforms_def Let_def opt_any_iff)

text \<open>A reconciliation that a failing statement cut short can be repeated. From whatever
  database it left, running it again with the same plans and no failure makes every billed
  monitor fit the new plan, as if it had not failed.\<close>

theorem reconcile_retry:
  assumes "\<forall>m \<in> set (monitors d). billingScopeClause d u m \<longrightarrow> conforms oldPlan m"
    and "ReconcileMonitorsToPlan d now fails u oldPlan newPlan = (n1, failed, d1)"
  shows "\<exists>n2 d2. ReconcileMonitorsToPlan d1 now' (\<lambda>_. False) u oldPlan newPlan = (n2, False, d2)
    \<and> (\<forall>m \<in> set (monitors d2). billingScopeClause d2 u m \<longrightarrow> conforms newPlan m)"
proof -
  have old: "all_conform d u oldPlan d1"
    using reconcile_keeps_old [of d u oldPlan now fails newPlan] assms by (simp add: all_conform_def)
  have scope1: "billingScopeClause d1 = billingScopeClause d"
    using old by (intro ext billing_scope_cong) (simp add: all_conform_def)
  have sm: "same_owner (fit now' oldPlan newPlan)"
    by (simp add: same_owner_def fit_def Let_def row_step_def)
  obtain n2 d2 where r: "ReconcileMonitorsToPlan d1 now' (\<lambda>_. False) u oldPlan newPlan = (n2, False, d2)"
    and ms: "monitors d2 = map (\<lambda>m. if billingScopeClause d1 u m then fit now' oldPlan newPlan m else m)
               (monitors d1)"
    and rest: "d2\<lparr>monitors := [], region_status := []\<rparr> = d1\<lparr>monitors := [], region_status := []\<rparr>"
    using reconcile_tracks [of "\<lambda>_. False" d1 u now' oldPlan newPlan] by (auto simp: tracks_def)
  have "conforms newPlan m" if "m \<in> set (monitors d2)" "billingScopeClause d2 u m" for m
    using that old fit_conforms [of oldPlan _ newPlan now'] same_owner_scope [OF sm]
    by (auto simp: ms tracks_scope [OF rest] scope1 all_conform_def split: if_splits)
  with r show ?thesis by blast
qed

theorem reconcile_fits_plan_witness:
  "map mrInterval (monitors (snd (snd
     (ReconcileMonitorsToPlan sample_db 9 (\<lambda>_. False) ''owner'' ''ENTERPRISE'' ''FREE'')))) = [Some 300, Some 300]"
proof -
  obtain n d' where "ReconcileMonitorsToPlan sample_db 9 (\<lambda>_. False) ''owner'' ''ENTERPRISE'' ''FREE'' = (n, False, d')"
    "monitors d' = map (\<lambda>m. if billingScopeClause sample_db ''owner'' m
        then fit 9 ''ENTERPRISE'' ''FREE'' m else m) (monitors sample_db)"
    using reconcile_fits_plan [of "\<lambda>_. False" sample_db 9 "''owner''" "''ENTERPRISE''" "''FREE''"] by auto
  then show ?thesis
    by (simp add: sample_db_def sample_monitor_def billingScopeClause_def owns_org_def fit_fields)
qed

theorem reconcile_retry_witness:
  "\<exists>n2 d2. ReconcileMonitorsToPlan
      (snd (snd (ReconcileMonitorsToPlan sample_db 9 (\<lambda>i. i = 3) ''owner'' ''ENTERPRISE'' ''FREE'')))
      10 (\<lambda>_. False) ''owner'' ''ENTERPRISE'' ''FREE'' = (n2, False, d2)
    \<and> (\<forall>m \<in> set (monitors d2). billingScopeClause d2 ''owner'' m \<longrightarrow> conforms ''FREE'' m)"
proof -
  have *: "\<forall>m \<in> set (monitors sample_db). billingScopeClause sample_db ''owner'' m \<longrightarrow> conforms ''ENTERPRISE'' m"
    by (simp add: sample_db_def sample_monitor_def conforms_def Let_def Unlimited_def)
  obtain n1 f1 d1 where
    r: "ReconcileMonitorsToPlan sample_db 9 (\<lambda>i. i = 3) ''owner'' ''ENTERPRISE'' ''FREE'' = (n1, f1, d1)"
    by (cases "ReconcileMonitorsToPlan sample_db 9 (\<lambda>i. i = 3) ''owner'' ''ENTERPRISE'' ''FREE''")
  show ?thesis using reconcile_retry [OF * r, of 10] by (simp add: r)
qed

subsection \<open>Upserts\<close>

text \<open>The contract of an insert-or-update keyed by a unique index: it is read back, it touches
  no other key, and it keeps the schema.\<close>

locale keyed_upsert =
  fixes get :: "db \<Rightarrow> 'k \<Rightarrow> 'v option"
    and put :: "'x \<Rightarrow> 'k \<Rightarrow> db \<Rightarrow> (store_error + 'v) \<times> db"
  assumes get_same: "put x k d = (Inr v, d') \<Longrightarrow> get d' k = Some v"
    and get_other: "k' \<noteq> k \<Longrightarrow> get (snd (put x k d)) k' = get d k'"
    and put_fails: "put x k d = (Inl e, d') \<Longrightarrow> d' = d"
begin

definition put_all :: "('x \<times> 'k) list \<Rightarrow> db \<Rightarrow> db" where
  "put_all ops d = fold (\<lambda>(x, k) d. snd (put x k d)) ops d"

lemma put_all_other: "k \<notin> snd ` set ops \<Longrightarrow> get (put_all ops d) k = get d k"
  by (induction ops arbitrary: d) (auto simp: put_all_def get_other)

lemma last_put_wins:
  assumes "put x k (put_all before d) = (Inr v, d')" "k \<notin> snd ` set after"
  shows "get (put_all after d') k = Some v"
  using put_all_other [OF assms(2)] get_same [OF assms(1)] by simp

end

lemma find_update_where:
  "(\<And>x. key (f x) = key x) \<Longrightarrow>
   find (\<lambda>x. key x = u) (update_where (\<lambda>x. key x = k) f tbl) =
     (if u = k then map_option f (find (\<lambda>x. key x = u) tbl) else find (\<lambda>x. key x = u) tbl)"
  by (induction tbl) (auto simp: table_simps)

lemma find_append_one:
  "find P (tbl @ [x]) = (case find P tbl of Some y \<Rightarrow> Some y | None \<Rightarrow> if P x then Some x else None)"
  by (induction tbl) auto

definition find_subscription :: "db \<Rightarrow> ident \<Rightarrow> subscription option" where
  "find_subscription d u = find (\<lambda>s. sUserID s = u) (subscriptions d)"

definition find_setting :: "db \<Rightarrow> ident \<times> ident \<Rightarrow> monitor_channel_setting option" where
  "find_setting d k = find (\<lambda>s. setting_key s = k) (settings d)"

interpretation subs: keyed_upsert find_subscription
  "\<lambda>(now, i, p) u d. UpsertSubscription d now i (p\<lparr>upUserID := u\<rparr>)"
  by unfold_locales
    (auto simp: find_subscription_def UpsertSubscription_def Let_def find_update_where find_append_one
      new_subscription_def split: option.splits if_splits prod.splits)

lemma setting_key_simps [simp]:
  "setting_key (s\<lparr>mcsEnabled := e\<rparr>) = setting_key s"
  "setting_key \<lparr>mcsID = i, mcsMonitorID = m, mcsChannelID = c, mcsEnabled = e\<rparr> = (m, c)"
  by (simp_all add: setting_key_def)

interpretation chan_settings: keyed_upsert find_setting
  "\<lambda>(i, e) (m, c) d. UpsertMonitorChannelSetting d i m c e"
  by unfold_locales
    (auto simp: find_setting_def UpsertMonitorChannelSetting_def Let_def find_update_where
      find_append_one split: option.splits if_splits prod.splits)

text \<open>A subscription upsert that succeeds is what the next read of that user returns; a
  nullable Stripe column the caller does not know keeps its stored value, while plan, status
  and the cancellation flag take the caller's; no other user's subscription changes; and an
  upsert that fails changes nothing.\<close>

theorem UpsertSubscription_merges:
  "case UpsertSubscription d now i p of
     (Inl e, d') \<Rightarrow> e = ErrConflict \<and> d' = d
   | (Inr s, d') \<Rightarrow>
       GetSubscriptionByUser d' (upUserID p) = Inr s
       \<and> sPlan s = upPlan p \<and> sStatus s = upStatus p \<and> sCancelAtPeriodEnd s = upCancelAtPeriodEnd p
       \<and> (\<forall>s0. GetSubscriptionByUser d (upUserID p) = Inr s0 \<longrightarrow>
             sID s = sID s0
             \<and> sStripeCustomerID s = coalesce (upStripeCustomerID p) (sStripeCustomerID s0)
             \<and> sStripeSubscriptionID s = coalesce (upStripeSubscriptionID p) (sStripeSubscriptionID s0)
             \<and> sCurrentPeriodEnd s = coalesce (upCurrentPeriodEnd p) (sCurrentPeriodEnd s0))
       \<and> (\<forall>u. u \<noteq> upUserID p \<longrightarrow> GetSubscriptionByUser d' u = GetSubscriptionByUser d u)"
proof (cases "UpsertSubscription d now i p")
  case (Pair r d')
  have put: "(case (now, i, p) of (now, i, p) \<Rightarrow> \<lambda>u d. UpsertSubscription d now i (p\<lparr>upUserID := u\<rparr>))
      (upUserID p) d = (r, d')" using Pair by simp
  have eq: "GetSubscriptionByUser e u = (case find_subscription e u of None \<Rightarrow> Inl ErrNotFound | Some s \<Rightarrow> Inr s)"
    for e u by (simp add: GetSubscriptionByUser_def find_subscription_def)
  show ?thesis
  proof (cases r)
    case (Inl e)
    with Pair show ?thesis
      by (auto simp: UpsertSubscription_def Let_def split: option.splits if_splits)
  next
    case (Inr s)
    have "find_subscription d' (upUserID p) = Some s" using subs.get_same put Inr by blast
    moreover have "find_subscription d' u = find_subscription d u" if "u \<noteq> upUserID p" for u
      using subs.get_other [OF that, of "(now, i, p)" d] put by simp
    ultimately show ?thesis
      using Pair Inr
      by (auto simp: eq UpsertSubscription_def Let_def find_subscription_def merge_subscription_def
          new_subscription_def split: option.splits if_splits)
  qed
qed

theorem UpsertSubscription_merges_witness:
  "map_sum id sStripeCustomerID (GetSubscriptionByUser (snd (UpsertSubscription sample_db 9 ''s2''
     \<lparr>upUserID = ''owner'', upPlan = ''FREE'', upStatus = CANCELED, upStripeCustomerID = None,
      upStripeSubscriptionID = None, upStripePriceID = None, upCurrentPeriodStart = None,
      upCurrentPeriodEnd = None, upCancelAtPeriodEnd = False\<rparr>)) ''owner'') = Inr (Some ''cus_1'')"
  using UpsertSubscription_merges [where d = sample_db and now = 9 and i = "''s2''" and p = "\<lparr>upUserID = ''owner'', upPlan = ''FREE'',
      upStatus = CANCELED, upStripeCustomerID = None, upStripeSubscriptionID = None,
      upStripePriceID = None, upCurrentPeriodStart = None, upCurrentPeriodEnd = None,
      upCancelAtPeriodEnd = False\<rparr>"]
  by (auto simp: GetSubscriptionByUser_def sample_db_def coalesce_def UpsertSubscription_def Let_def
      customer_taken_def split: sum.splits prod.splits)

end
