(* ===== verification/Target.thy ===== *)
theory Target
  imports Requests
begin

section \<open>Destinations: addresses that must not be reached\<close>

text \<open>
  \<^verbatim>\<open>internal/monitor/validate.go\<close> (what a monitor may target) and
  \<^verbatim>\<open>internal/api/handlers/validation.go\<close> (where an alert may go). Addresses are 32 and 128 bit
  words, networks are a base address with a prefix length. Parsing a URL, splitting host and
  port, parsing a literal address and resolving a name are the fields of \<open>net_env\<close>: the
  functions of Go's \<^verbatim>\<open>net\<close> and \<^verbatim>\<open>net/url\<close> packages, with \<open>None\<close> for their error. As in Go, an
  IPv4-mapped IPv6 literal parses to the IPv4 address.
\<close>

subsection \<open>Strings\<close>

text \<open>\<^verbatim>\<open>strings.TrimSpace\<close>, \<^verbatim>\<open>strings.ToLower\<close> and \<^verbatim>\<open>strings.EqualFold\<close> on ASCII text.\<close>

definition is_space :: "char \<Rightarrow> bool" where
  "is_space c \<longleftrightarrow> of_char c = (32::nat) \<or> 9 \<le> (of_char c :: nat) \<and> of_char c \<le> (13::nat)"

definition TrimSpace :: "string \<Rightarrow> string" where
  "TrimSpace s = rev (dropWhile is_space (rev (dropWhile is_space s)))"

definition lower_char :: "char \<Rightarrow> char" where
  "lower_char c = (if 65 \<le> (of_char c :: nat) \<and> of_char c \<le> (90::nat)
                   then char_of (of_char c + 32 :: nat) else c)"

definition ToLower :: "string \<Rightarrow> string" where
  "ToLower s = map lower_char s"

definition EqualFold :: "string \<Rightarrow> string \<Rightarrow> bool" where
  "EqualFold a b \<longleftrightarrow> ToLower a = ToLower b"

subsection \<open>Addresses and networks\<close>

datatype ip = IP4 "32 word" | IP6 "128 word"

record url =
  uScheme :: string
  uHost :: string
  uHostname :: string

record net_env =
  nParseURL :: "string \<Rightarrow> url option"
  nSplitHostPort :: "string \<Rightarrow> (string \<times> string) option"
  nParseIP :: "string \<Rightarrow> ip option"
  nLookupHost :: "string \<Rightarrow> string list option"

type_synonym cidr = "ip \<times> nat"

text \<open>\<^verbatim>\<open>net.IPNet.Contains\<close>: same family and equal prefix.\<close>

fun cidr_contains :: "cidr \<Rightarrow> ip \<Rightarrow> bool" where
  "cidr_contains (IP4 b, p) (IP4 a) \<longleftrightarrow> drop_bit (32 - p) a = drop_bit (32 - p) b"
| "cidr_contains (IP6 b, p) (IP6 a) \<longleftrightarrow> drop_bit (128 - p) a = drop_bit (128 - p) b"
| "cidr_contains _ _ \<longleftrightarrow> False"

definition ip4 :: "nat \<Rightarrow> nat \<Rightarrow> nat \<Rightarrow> nat \<Rightarrow> ip" where
  "ip4 a b c d = IP4 (of_nat (((a * 256 + b) * 256 + c) * 256 + d))"

definition privateRanges :: "cidr list" where
  "privateRanges =
     [(ip4 10 0 0 0, 8), (ip4 172 16 0 0, 12), (ip4 192 168 0 0, 16), (ip4 127 0 0 0, 8),
      (IP6 1, 128), (ip4 169 254 0 0, 16), (IP6 (0xfe80 * 2 ^ 112), 10), (IP6 (0xfc00 * 2 ^ 112), 7),
      (ip4 0 0 0 0, 8), (ip4 100 64 0 0, 10), (ip4 192 0 0 0, 24), (ip4 198 18 0 0, 15),
      (ip4 198 51 100 0, 24), (ip4 203 0 113 0, 24), (ip4 240 0 0 0, 4), (ip4 255 255 255 255, 32)]"

definition isPrivateIP :: "ip \<Rightarrow> bool" where
  "isPrivateIP a = list_ex (\<lambda>block. cidr_contains block a) privateRanges"

text \<open>\<^verbatim>\<open>net.IP\<close>'s own predicates, which the alert check uses instead.\<close>

fun IsLoopback :: "ip \<Rightarrow> bool" where
  "IsLoopback (IP4 a) \<longleftrightarrow> drop_bit 24 a = 127"
| "IsLoopback (IP6 a) \<longleftrightarrow> a = 1"

fun IsPrivate :: "ip \<Rightarrow> bool" where
  "IsPrivate (IP4 a) \<longleftrightarrow> drop_bit 24 a = 10 \<or> drop_bit 20 a = 0xac1 \<or> drop_bit 16 a = 0xc0a8"
| "IsPrivate (IP6 a) \<longleftrightarrow> drop_bit 121 a = 0x7e"

fun IsLinkLocalUnicast :: "ip \<Rightarrow> bool" where
  "IsLinkLocalUnicast (IP4 a) \<longleftrightarrow> drop_bit 16 a = 0xa9fe"
| "IsLinkLocalUnicast (IP6 a) \<longleftrightarrow> drop_bit 118 a = 0x3fa"

definition alert_blocked :: "ip \<Rightarrow> bool" where
  "alert_blocked a \<longleftrightarrow> IsLoopback a \<or> IsPrivate a \<or> IsLinkLocalUnicast a"

subsection \<open>Monitor targets\<close>

text \<open>The loop over resolved addresses, shared by the two validators: an address that does not
  parse is skipped, a blocked one stops with the error.\<close>

fun addr_loop :: "(string \<Rightarrow> ip option) \<Rightarrow> (ip \<Rightarrow> bool) \<Rightarrow> string list \<Rightarrow> bool" where
  "addr_loop parse blocked [] = True"
| "addr_loop parse blocked (a # as) =
     (case parse a of
        None \<Rightarrow> addr_loop parse blocked as
      | Some x \<Rightarrow> if blocked x then False else addr_loop parse blocked as)"

definition target_host :: "net_env \<Rightarrow> string \<Rightarrow> monitor_type \<Rightarrow> string + string" where
  "target_host n target ty =
     (case ty of
        HTTP \<Rightarrow>
          (case nParseURL n target of
             None \<Rightarrow> Inl ''invalid URL: must be a valid absolute URL''
           | Some u \<Rightarrow>
               if uHost u = [] then Inl ''invalid URL: must be a valid absolute URL''
               else if uScheme u \<noteq> ''http'' \<and> uScheme u \<noteq> ''https'' then Inl ''invalid URL scheme''
               else Inr (uHostname u))
      | PORT \<Rightarrow>
          (case nSplitHostPort n target of
             None \<Rightarrow> Inl ''invalid target: must be in host:port format''
           | Some (h, port) \<Rightarrow>
               if port = [] then Inl ''invalid target: must be in host:port format'' else Inr h)
      | PING \<Rightarrow>
          (let host = TrimSpace (case nSplitHostPort n target of Some (h, _) \<Rightarrow> h | None \<Rightarrow> target)
           in if host = [] then Inl ''invalid target: host must not be empty'' else Inr host)
      | OtherType _ \<Rightarrow> Inl ''unknown monitor type'')"

definition ValidateTarget :: "net_env \<Rightarrow> string \<Rightarrow> monitor_type \<Rightarrow> string option" where
  "ValidateTarget n target ty =
     (case target_host n target ty of
        Inl msg \<Rightarrow> Some msg
      | Inr host \<Rightarrow>
          if host = [] then Some ''invalid target: host must not be empty''
          else (case nParseIP n host of
                  Some a \<Rightarrow>
                    if isPrivateIP a
                    then Some ''invalid target: private and reserved IP addresses are not allowed''
                    else None
                | None \<Rightarrow>
                    (case nLookupHost n host of
                       None \<Rightarrow> Some ''invalid target: hostname could not be resolved''
                     | Some [] \<Rightarrow> Some ''invalid target: hostname resolved to no addresses''
                     | Some addrs \<Rightarrow>
                         if addr_loop (nParseIP n) isPrivateIP addrs then None
                         else Some ''invalid target: hostname resolves to a private or reserved IP address'')))"

text \<open>\<^verbatim>\<open>SafeDialer\<close>'s \<^verbatim>\<open>Control\<close> hook, run on the address about to be connected: true lets the
  connection through.\<close>

definition dial_control :: "net_env \<Rightarrow> string \<Rightarrow> bool" where
  "dial_control n address =
     (case nSplitHostPort n address of
        None \<Rightarrow> False
      | Some (host, _) \<Rightarrow> \<not> opt_any (nParseIP n host) isPrivateIP)"

subsection \<open>Alert targets\<close>

text \<open>\<^verbatim>\<open>^\+[1-9]\d{6,14}$\<close> and \<^verbatim>\<open>^(-?\d{1,20}|@[A-Za-z][A-Za-z0-9_]{4,31})$\<close>.\<close>

definition e164Regexp :: "string \<Rightarrow> bool" where
  "e164Regexp s \<longleftrightarrow>
     (case s of
        c # c1 # rest \<Rightarrow> c = CHR ''+'' \<and> is_digit c1 \<and> c1 \<noteq> CHR ''0'' \<and> list_all is_digit rest
                         \<and> 6 \<le> length rest \<and> length rest \<le> 14
      | _ \<Rightarrow> False)"

definition is_alpha :: "char \<Rightarrow> bool" where
  "is_alpha c \<longleftrightarrow> 65 \<le> (of_char c :: nat) \<and> of_char c \<le> (90::nat) \<or>
                  97 \<le> (of_char c :: nat) \<and> of_char c \<le> (122::nat)"

definition chat_id :: "string \<Rightarrow> bool" where
  "chat_id s \<longleftrightarrow>
     (let ds = (case s of c # r \<Rightarrow> if c = CHR ''-'' then r else s | [] \<Rightarrow> [])
      in list_all is_digit ds \<and> 1 \<le> length ds \<and> length ds \<le> 20)"

definition channel_username :: "string \<Rightarrow> bool" where
  "channel_username s \<longleftrightarrow>
     (case s of
        a # c1 # rest \<Rightarrow> a = CHR ''@'' \<and> is_alpha c1 \<and> 4 \<le> length rest \<and> length rest \<le> 31 \<and>
          list_all (\<lambda>c. is_alpha c \<or> is_digit c \<or> c = CHR ''_'') rest
      | _ \<Rightarrow> False)"

definition telegramChatIDRegexp :: "string \<Rightarrow> bool" where
  "telegramChatIDRegexp s \<longleftrightarrow> chat_id s \<or> channel_username s"

definition validate_webhook :: "net_env \<Rightarrow> string \<Rightarrow> string option" where
  "validate_webhook n target =
     (case nParseURL n target of
        None \<Rightarrow> Some ''invalid webhook URL: must be a valid absolute URL''
      | Some u \<Rightarrow>
          if uHost u = [] then Some ''invalid webhook URL: must be a valid absolute URL''
          else if uScheme u \<noteq> ''https'' then Some ''invalid webhook URL: only HTTPS webhooks are allowed''
          else (case nParseIP n (uHostname u) of
                  Some a \<Rightarrow>
                    if alert_blocked a
                    then Some ''invalid webhook URL: private IP addresses are not allowed'' else None
                | None \<Rightarrow>
                    (case nLookupHost n (uHostname u) of
                       None \<Rightarrow> Some ''invalid webhook URL: hostname could not be resolved''
                     | Some addrs \<Rightarrow>
                         if addr_loop (nParseIP n) alert_blocked addrs then None
                         else Some ''invalid webhook URL: hostname resolves to a private or reserved IP address'')))"

definition validateAlertTarget :: "net_env \<Rightarrow> alert_channel \<Rightarrow> string \<Rightarrow> string option" where
  "validateAlertTarget n channel target =
     (case channel of
        EMAIL \<Rightarrow> None
      | SMS \<Rightarrow> if e164Regexp target then None else Some ''invalid SMS target: must be an E.164 phone number''
      | TELEGRAM \<Rightarrow>
          if telegramChatIDRegexp target then None
          else Some ''invalid Telegram target: must be a chat ID or @channelusername''
      | DISCORD \<Rightarrow> validate_webhook n target
      | SLACK \<Rightarrow> validate_webhook n target
      | OtherChannel _ \<Rightarrow> None)"

definition sample_net :: net_env where
  "sample_net =
     \<lparr>nParseURL = (\<lambda>s. if s = ''https://example.com'' then Some \<lparr>uScheme = ''https'', uHost = ''example.com'',
                                                               uHostname = ''example.com''\<rparr>
                      else if s = ''https://0.0.0.0/hook'' then Some \<lparr>uScheme = ''https'', uHost = ''0.0.0.0'',
                                                               uHostname = ''0.0.0.0''\<rparr>
                      else if s = ''http://[::]:8080/'' then Some \<lparr>uScheme = ''http'', uHost = ''[::]:8080'',
                                                               uHostname = ''::''\<rparr> else None),
      nSplitHostPort = (\<lambda>_. None),
      nParseIP = (\<lambda>s. if s = ''0.0.0.0'' then Some (IP4 0) else if s = ''::'' then Some (IP6 0)
                     else if s = ''93.184.216.34'' then Some (ip4 93 184 216 34) else None),
      nLookupHost = (\<lambda>s. if s = ''example.com'' then Some [''93.184.216.34''] else None)\<rparr>"

subsection \<open>Lemmas\<close>

lemma addr_loop_iff:
  "addr_loop parse blocked as \<longleftrightarrow> (\<forall>x \<in> set as. \<not> opt_any (parse x) blocked)"
  by (induction as) (auto split: option.split)

lemma div_block: "0 < (s::nat) \<Longrightarrow> n div s = c \<longleftrightarrow> c * s \<le> n \<and> n < (c + 1) * s"
  by (metis Suc_eq_plus1 div_less_iff_less_mult less_Suc_eq_le less_eq_div_iff_mult_less_eq order_antisym_conv order_refl)

lemma drop_bit_block:
  fixes a c :: "32 word"
  shows "drop_bit k a = c \<longleftrightarrow> unat c * 2 ^ k \<le> unat a \<and> unat a < (unat c + 1) * 2 ^ k"
  unfolding word_unat_eq_iff unat_drop_bit_eq by (simp add: drop_bit_eq_div div_block)

text \<open>Which IPv4 addresses a monitor may not target, in numbers: exactly the listed blocks,
  as half-open intervals of the 32 bit address space.\<close>

theorem isPrivateIP_v4_ranges:
  "isPrivateIP (IP4 a) \<longleftrightarrow>
     (\<exists>(lo, hi) \<in> {(0, 0x1000000), (0xa000000, 0xb000000), (0x64400000, 0x64800000),
        (0x7f000000, 0x80000000), (0xa9fe0000, 0xa9ff0000), (0xac100000, 0xac200000),
        (0xc0000000, 0xc0000100), (0xc0a80000, 0xc0a90000), (0xc6120000, 0xc6140000),
        (0xc6336400, 0xc6336500), (0xcb007100, 0xcb007200), (0xf0000000, 0x100000000)}.
      lo \<le> unat a \<and> unat a < hi)"
proof -
  have top: "unat a < 4294967296" using unsigned_less [of a] by simp
  have last: "drop_bit 28 a = 15" if "a = 4294967295" using that by simp
  have "isPrivateIP (IP4 a) \<longleftrightarrow>
     drop_bit 24 a = 10 \<or> drop_bit 20 a = 2753 \<or> drop_bit 16 a = 49320 \<or> drop_bit 24 a = 127 \<or>
     drop_bit 16 a = 43518 \<or> drop_bit 24 a = 0 \<or> drop_bit 22 a = 401 \<or> drop_bit 8 a = 12582912 \<or>
     drop_bit 17 a = 25353 \<or> drop_bit 8 a = 12989284 \<or> drop_bit 8 a = 13303921 \<or> drop_bit 28 a = 15"
    using last by (auto simp: isPrivateIP_def privateRanges_def ip4_def)
  then show ?thesis using top unfolding drop_bit_block by (simp add: disj_ac)
qed

text \<open>C26: a monitor target that passes validation names no blocked address: its host is a literal
  address outside the blocks, or a name that resolves, to at least one address, and every
  resolved address that parses is outside the blocks.\<close>

theorem ValidateTarget_safe:
  assumes "ValidateTarget n target ty = None"
  shows "\<exists>host. target_host n target ty = Inr host \<and> host \<noteq> [] \<and>
    (case nParseIP n host of
       Some a \<Rightarrow> \<not> isPrivateIP a
     | None \<Rightarrow> \<exists>addrs. nLookupHost n host = Some addrs \<and> addrs \<noteq> [] \<and>
                 (\<forall>x \<in> set addrs. \<not> opt_any (nParseIP n x) isPrivateIP))"
  using assms
  by (auto simp: ValidateTarget_def addr_loop_iff split: sum.splits option.splits if_splits list.splits)

theorem ValidateTarget_safe_witness:
  "\<not> isPrivateIP (ip4 93 184 216 34)"
proof -
  have ok: "ValidateTarget sample_net ''https://example.com'' HTTP = None"
    by (simp add: ValidateTarget_def target_host_def sample_net_def isPrivateIP_def privateRanges_def ip4_def)
  show ?thesis using ValidateTarget_safe [OF ok] by (simp add: target_host_def sample_net_def)
qed

text \<open>The alert check is the weaker of the two. Every address it blocks is blocked for monitors
  too, but a webhook on 0.0.0.0, which monitors may not target, passes it; and neither check
  blocks the unspecified IPv6 address, so an HTTP monitor on it is accepted.\<close>

theorem alert_check_weaker:
  "(\<forall>a. alert_blocked a \<longrightarrow> isPrivateIP a)
   \<and> isPrivateIP (IP4 0) \<and> \<not> alert_blocked (IP4 0)
   \<and> validateAlertTarget sample_net SLACK ''https://0.0.0.0/hook'' = None
   \<and> \<not> isPrivateIP (IP6 0) \<and> ValidateTarget sample_net ''http://[::]:8080/'' HTTP = None"
proof (intro conjI allI impI)
  show "isPrivateIP a" if "alert_blocked a" for a
    using that by (cases a) (auto simp: alert_blocked_def isPrivateIP_def privateRanges_def ip4_def)
qed (simp_all add: isPrivateIP_def privateRanges_def ip4_def alert_blocked_def validateAlertTarget_def
    validate_webhook_def sample_net_def ValidateTarget_def target_host_def)

theorem alert_check_weaker_witness: "isPrivateIP (ip4 10 0 0 1)"
proof -
  have "alert_blocked (ip4 10 0 0 1)" by (simp add: alert_blocked_def ip4_def)
  then show ?thesis using alert_check_weaker by simp
qed

end
