(* ===== verification/Access.thy ===== *)
theory Access
  imports StoreLaws Target "HOL-Library.AList"
begin

section \<open>Request context: identity, workspaces, plans\<close>

text \<open>
  What every handler relies on: the organization guard and the workspace resolution of
  \<^verbatim>\<open>internal/api/middleware\<close> (\<^verbatim>\<open>org_auth.go\<close>, \<^verbatim>\<open>workspace.go\<close>), the plan and billing-owner
  lookups of \<^verbatim>\<open>handlers/limits.go\<close>, and the per-process reconcile cache of
  \<^verbatim>\<open>handlers/handlers.go\<close>.

  A handler is a function of an environment and the database. The environment holds the
  server's clock, the database's clock, the identifiers that \<^verbatim>\<open>uuid.NewString\<close> draws, the
  account email lookup (\<^verbatim>\<open>UserEmailLookup\<close>, served by SuperTokens; \<open>None\<close> is its error), the
  deployed regions, the random token of \<^verbatim>\<open>generateToken\<close> (\<open>None\<close> is a failing source of
  randomness) and its SHA-256 digest, the email tag of the request validator, the address
  parser, the host's time-zone database, the network functions of theory \<open>Target\<close>, whether a mailer is configured and the website's domain, and
  which store calls the driver fails: \<open>eFaulty i\<close> says that the \<open>i\<close>-th call site of the handler
  returns a driver error. The caller is \<open>None\<close> when no session set the user id, and a request
  body is \<open>None\<close> when it is not the JSON the handler expects; the binding rules on its fields
  are written out.
\<close>

record env =
  eNow :: instant
  eDBNow :: instant
  eID :: ident
  eID2 :: ident
  eEmail :: "ident \<Rightarrow> string option"
  eRegions :: "string list"
  eToken :: "string option"
  eHash :: "string \<Rightarrow> string"
  eEmailTag :: "string \<Rightarrow> bool"
  eParseAddress :: "string \<Rightarrow> string option"
  eLocation :: "string \<Rightarrow> bool"
  eNet :: net_env
  eMailer :: bool
  eWebsite :: string
  eFaulty :: "nat \<Rightarrow> bool"

definition read_at :: "env \<Rightarrow> nat \<Rightarrow> store_error + 'a \<Rightarrow> store_error + 'a" where
  "read_at e i r = attempt_read (eFaulty e i) r"

definition write_at :: "env \<Rightarrow> nat \<Rightarrow> db \<Rightarrow> (store_error + 'a) \<times> db \<Rightarrow> (store_error + 'a) \<times> db" where
  "write_at e i d r = attempt (eFaulty e i) r d"

subsection \<open>Organization guard\<close>

text \<open>\<^verbatim>\<open>RequireOrgRole\<close>: the organization id and role it puts in the context, or the response it
  aborts with.\<close>

definition RequireOrgRole ::
    "env \<Rightarrow> db \<Rightarrow> org_role \<Rightarrow> ident option \<Rightarrow> ident \<Rightarrow> (nat \<times> string) + (ident \<times> org_role)" where
  "RequireOrgRole e d minRole caller orgParam =
     (case caller of
        None \<Rightarrow> Inl (401, ''Unauthorized'')
      | Some userId \<Rightarrow>
          if orgParam = [] then Inl (400, ''Missing organization ID'')
          else (case read_at e 0 (GetMembership d orgParam userId) of
                  Inl _ \<Rightarrow> Inl (403, ''Not a member of this organization'')
                | Inr om \<Rightarrow>
                    if RoleAtLeast (omRole om) minRole then Inr (orgParam, omRole om)
                    else Inl (403, ''Insufficient permissions'')))"

subsection \<open>Workspaces\<close>

record workspace =
  wsOrgID :: ident
  wsRole :: org_role
  wsExplicit :: bool

definition IsOrg :: "workspace \<Rightarrow> bool" where
  "IsOrg w \<longleftrightarrow> wsOrgID w \<noteq> []"

definition PersonalWorkspaceID :: string where
  "PersonalWorkspaceID = ''personal''"

definition ResolveWorkspace ::
    "env \<Rightarrow> db \<Rightarrow> ident option \<Rightarrow> string \<Rightarrow> (nat \<times> string) + workspace" where
  "ResolveWorkspace e d caller header =
     (case caller of
        None \<Rightarrow> Inl (401, ''Unauthorized'')
      | Some userId \<Rightarrow>
          (let raw = TrimSpace header in
           if raw = [] \<or> raw = PersonalWorkspaceID
           then Inr \<lparr>wsOrgID = [], wsRole = OtherRole [], wsExplicit = (raw \<noteq> [])\<rparr>
           else (case read_at e 0 (GetMembership d raw userId) of
                   Inl _ \<Rightarrow> Inl (403, ''You are not a member of this workspace'')
                 | Inr om \<Rightarrow> Inr \<lparr>wsOrgID = raw, wsRole = omRole om, wsExplicit = True\<rparr>)))"

subsection \<open>Plans and billing owners\<close>

definition effectivePlan :: "subscription option \<Rightarrow> string" where
  "effectivePlan sub =
     (case sub of None \<Rightarrow> ''FREE''
      | Some s \<Rightarrow> if sStatus s = CANCELED then ''FREE'' else sPlan s)"

definition planForUser :: "env \<Rightarrow> nat \<Rightarrow> db \<Rightarrow> ident \<Rightarrow> string" where
  "planForUser e i d userID =
     (case read_at e i (GetSubscriptionByUser d userID) of
        Inl _ \<Rightarrow> ''FREE'' | Inr s \<Rightarrow> effectivePlan (Some s))"

definition orgOwner :: "env \<Rightarrow> nat \<Rightarrow> db \<Rightarrow> ident \<Rightarrow> store_error + ident" where
  "orgOwner e i d orgID =
     (case read_at e i (GetOrganization d orgID) of Inl x \<Rightarrow> Inl x | Inr og \<Rightarrow> Inr (oOwnerID og))"

definition billingOwner :: "env \<Rightarrow> nat \<Rightarrow> db \<Rightarrow> ident \<Rightarrow> ident \<Rightarrow> store_error + ident" where
  "billingOwner e i d userID orgID = (if orgID = [] then Inr userID else orgOwner e i d orgID)"

definition planForOrg :: "env \<Rightarrow> nat \<Rightarrow> db \<Rightarrow> ident \<Rightarrow> string" where
  "planForOrg e i d orgID =
     (case orgOwner e i d orgID of Inl _ \<Rightarrow> ''FREE'' | Inr owner \<Rightarrow> planForUser e (i + 1) d owner)"

datatype account_type = INDIVIDUAL | ORG_OWNER | ORG_MEMBER

datatype workspace_type = PERSONAL | ORG

record workspace_info =
  wiID :: ident
  wiType :: workspace_type
  wiName :: string
  wiRole :: org_role
  wiPlan :: string
  wiMonitorsUsed :: int
  wiMaxMonitors :: int

record account_context =
  acType :: account_type
  acEffectivePlan :: string
  acOrg :: "(ident \<times> string \<times> org_role) option"
  acWorkspaces :: "workspace_info list"

definition accountContext :: "env \<Rightarrow> nat \<Rightarrow> db \<Rightarrow> ident \<Rightarrow> store_error + account_context" where
  "accountContext e i d userID =
     (case read_at e i (Inr (ListOrganizations d userID)) of
        Inl x \<Rightarrow> Inl x
      | Inr orgs \<Rightarrow>
          (let personalPlan = planForUser e (i + 1) d userID in
           case read_at e (i + 2) (Inr (CountMonitorsForBillingOwner d userID)) of
             Inl x \<Rightarrow> Inl x
           | Inr personalUsed \<Rightarrow>
               (let personal = \<lparr>wiID = PersonalWorkspaceID, wiType = PERSONAL, wiName = [],
                      wiRole = OtherRole [], wiPlan = personalPlan, wiMonitorsUsed = personalUsed,
                      wiMaxMonitors = MaxMonitors (LimitsForPlan personalPlan)\<rparr>
                in case orgs of
                     [] \<Rightarrow> Inr \<lparr>acType = INDIVIDUAL, acEffectivePlan = personalPlan, acOrg = None,
                               acWorkspaces = [personal]\<rparr>
                   | org # _ \<Rightarrow>
                       (case read_at e (i + 3) (GetMembership d (oID org) userID) of
                          Inl x \<Rightarrow> Inl x
                        | Inr om \<Rightarrow>
                            (let ty = (if omRole om = OWNER then ORG_OWNER else ORG_MEMBER);
                                 plan = (if omRole om = OWNER then personalPlan
                                         else planForUser e (i + 4) d (oOwnerID org))
                             in case (if oOwnerID org = userID then Inr personalUsed
                                      else read_at e (i + 5)
                                             (Inr (CountMonitorsForBillingOwner d (oOwnerID org)))) of
                                  Inl x \<Rightarrow> Inl x
                                | Inr used \<Rightarrow>
                                    Inr \<lparr>acType = ty, acEffectivePlan = plan,
                                         acOrg = Some (oID org, oName org, omRole om),
                                         acWorkspaces = [personal,
                                           \<lparr>wiID = oID org, wiType = ORG, wiName = oName org,
                                            wiRole = omRole om, wiPlan = plan, wiMonitorsUsed = used,
                                            wiMaxMonitors = MaxMonitors (LimitsForPlan plan)\<rparr>]\<rparr>)))))"

subsection \<open>The reconcile cache\<close>

text \<open>\<^verbatim>\<open>Handlers.reconciled\<close>, a map from user to the time of the last live reconcile, kept as an
  association list with distinct keys.\<close>

type_synonym reconciled = "(ident \<times> instant) list"

definition reconcileTTL :: duration where
  "reconcileTTL = 60 * second"

definition shouldReconcile :: "instant \<Rightarrow> ident \<Rightarrow> reconciled \<Rightarrow> bool \<times> reconciled" where
  "shouldReconcile now userID m =
     (if opt_any (map_of m userID) (\<lambda>last. time_sub now last < reconcileTTL) then (False, m)
      else (let m' = (if length m > 10000
                      then filter (\<lambda>(i, t). \<not> time_sub now t \<ge> reconcileTTL) m else m)
            in (True, AList.update userID now m')))"

definition forgetReconcile :: "ident \<Rightarrow> reconciled \<Rightarrow> reconciled" where
  "forgetReconcile userID m = AList.delete userID m"

datatype cache_event = Ask instant ident | Forget ident

fun cache_step :: "cache_event \<Rightarrow> reconciled \<Rightarrow> reconciled" where
  "cache_step (Ask now u) m = snd (shouldReconcile now u m)"
| "cache_step (Forget u) m = forgetReconcile u m"

fun quiet :: "instant \<Rightarrow> instant \<Rightarrow> ident \<Rightarrow> cache_event \<Rightarrow> bool" where
  "quiet lo hi u (Ask t v) \<longleftrightarrow> lo \<le> t \<and> t \<le> hi"
| "quiet lo hi u (Forget v) \<longleftrightarrow> v \<noteq> u"

subsection \<open>Lemmas\<close>

lemma time_sub_small: "0 \<le> t - s \<Longrightarrow> t - s < reconcileTTL \<Longrightarrow> time_sub t s = t - s"
  by (rule time_sub_exact) (simp_all add: min_duration_def max_duration_def reconcileTTL_def)

lemma time_sub_large: "reconcileTTL \<le> t - s \<Longrightarrow> reconcileTTL \<le> time_sub t s"
  by (simp add: time_sub_def min_duration_def max_duration_def reconcileTTL_def)

lemma time_sub_ttl: "0 \<le> t - s \<Longrightarrow> time_sub t s < reconcileTTL \<longleftrightarrow> t - s < reconcileTTL"
  using time_sub_small time_sub_large by (metis not_le)

lemma map_of_filter_kept:
  "distinct (map fst m) \<Longrightarrow> map_of m u = Some t \<Longrightarrow> P (u, t) \<Longrightarrow> map_of (filter P m) u = Some t"
  by (rule map_of_is_SomeI) (auto simp: distinct_map_filter dest: map_of_SomeD)

definition cached_in :: "instant \<Rightarrow> instant \<Rightarrow> ident \<Rightarrow> reconciled \<Rightarrow> bool" where
  "cached_in lo hi u m \<longleftrightarrow> distinct (map fst m) \<and> (\<exists>t. map_of m u = Some t \<and> lo \<le> t \<and> t \<le> hi)"

lemma cached_ask:
  assumes "cached_in lo hi u m" "lo \<le> s" "s \<le> hi" "hi - lo < reconcileTTL"
  shows "cached_in lo hi u (snd (shouldReconcile s v m))"
proof -
  let ?m = "if length m > 10000 then filter (\<lambda>(i, t). \<not> time_sub s t \<ge> reconcileTTL) m else m"
  obtain t where d: "distinct (map fst m)" and t: "map_of m u = Some t" "lo \<le> t" "t \<le> hi"
    using assms(1) by (auto simp: cached_in_def)
  have "time_sub s t < reconcileTTL"
    using t assms by (simp add: time_sub_def min_duration_def max_duration_def reconcileTTL_def)
  then have "map_of ?m u = Some t" using map_of_filter_kept [OF d t(1)] t(1) by simp
  moreover have "distinct (map fst ?m)" using d by (simp add: distinct_map_filter)
  ultimately have "cached_in lo hi u (AList.update v s ?m)"
    using t assms by (auto simp: cached_in_def update_conv distinct_update)
  then show ?thesis using assms(1) by (simp add: shouldReconcile_def Let_def)
qed

lemma cached_step:
  assumes "cached_in lo hi u m" "quiet lo hi u ev" "hi - lo < reconcileTTL"
  shows "cached_in lo hi u (cache_step ev m)"
proof (cases ev)
  case (Ask s v)
  with assms show ?thesis by (simp add: cached_ask)
next
  case (Forget v)
  with assms show ?thesis
    by (auto simp: forgetReconcile_def cached_in_def delete_conv' distinct_delete)
qed

lemma cached_run:
  "cached_in lo hi u m \<Longrightarrow> \<forall>ev \<in> set evs. quiet lo hi u ev \<Longrightarrow> hi - lo < reconcileTTL \<Longrightarrow>
   cached_in lo hi u (fold cache_step evs m)"
  by (induction evs arbitrary: m) (auto intro: cached_step)

text \<open>Within one TTL a user's subscription is reconciled against live state at most once,
  whatever other users' requests come in between and whenever they sweep the map, unless a
  billing action of that user forgets the entry; and once a TTL has passed since the last
  attempt the next request does reconcile.\<close>

theorem reconcile_once_per_TTL:
  assumes "distinct (map fst m)" "shouldReconcile t u m = (True, m1)"
    and "\<forall>ev \<in> set evs. quiet t t2 u ev" "t \<le> t2"
  shows "(t2 - t < reconcileTTL \<longrightarrow> fst (shouldReconcile t2 u (fold cache_step evs m1)) = False)
    \<and> (reconcileTTL \<le> t2 - t \<longrightarrow> fst (shouldReconcile t2 u m1) = True)"
proof (intro conjI impI)
  have m1: "map_of m1 u = Some t" "distinct (map fst m1)"
    using assms(1,2)
    by (auto simp: shouldReconcile_def Let_def update_conv distinct_update distinct_map_filter
        split: if_splits)
  show "fst (shouldReconcile t2 u m1) = True" if "reconcileTTL \<le> t2 - t"
    using m1(1) time_sub_large [OF that] by (simp add: shouldReconcile_def Let_def)
  show "fst (shouldReconcile t2 u (fold cache_step evs m1)) = False" if w: "t2 - t < reconcileTTL"
  proof -
    have "cached_in t t2 u m1" using m1 assms(4) by (simp add: cached_in_def)
    then have "cached_in t t2 u (fold cache_step evs m1)" using assms(3) w by (rule cached_run)
    then obtain t' where "map_of (fold cache_step evs m1) u = Some t'" "t \<le> t'" "t' \<le> t2"
      by (auto simp: cached_in_def)
    then show ?thesis using w by (simp add: shouldReconcile_def time_sub_ttl)
  qed
qed

theorem reconcile_once_per_TTL_witness:
  "fst (shouldReconcile (30 * second) ''u'' (fold cache_step [Ask (10 * second) ''v''] [(''u'', 0)])) = False"
proof -
  have "shouldReconcile 0 ''u'' [] = (True, [(''u'', 0)])"
    by (simp add: shouldReconcile_def)
  from reconcile_once_per_TTL [OF _ this, of "[Ask (10 * second) ''v'']" "30 * second"]
  show ?thesis by (simp add: reconcileTTL_def)
qed

subsection \<open>One notion of plan\<close>

lemma planForUser_find:
  "\<not> eFaulty e i \<Longrightarrow> planForUser e i d u = effectivePlan (find (\<lambda>s. sUserID s = u) (subscriptions d))"
  by (simp add: planForUser_def read_at_def attempt_read_def GetSubscriptionByUser_def
      effectivePlan_def split: option.splits)

text \<open>A subscription that cannot be read leaves the caller with the FREE limits, the strictest.\<close>

lemma planForUser_within:
  "limits_within (LimitsForPlan (planForUser e i d u))
     (LimitsForPlan (effectivePlan (find (\<lambda>s. sUserID s = u) (subscriptions d))))"
proof (cases "eFaulty e i")
  case True
  then show ?thesis by (simp add: planForUser_def read_at_def attempt_read_def limits_within_FREE)
next
  case False
  then show ?thesis by (simp add: planForUser_find limits_within_refl)
qed

lemma orgOwner_find:
  "\<not> eFaulty e i \<Longrightarrow> orgOwner e i d oid =
     (case org_owner d oid of None \<Rightarrow> Inl ErrNotFound | Some u \<Rightarrow> Inr u)"
  by (simp add: orgOwner_def read_at_def attempt_read_def GetOrganization_def org_owner_def
      split: option.splits)

lemma ownerPlanExpr_effective:
  "ownerPlanExpr d m = effectivePlan (find (\<lambda>s. sUserID s = billed_user d m) (subscriptions d))"
  by (simp add: ownerPlanExpr_def effectivePlan_def split: option.splits)

text \<open>C29: the plan the SQL expression reads for a monitor is the plan the handlers resolve for
  its workspace: the user's own for a personal monitor, the organization owner's for an
  organization's, with a canceled or missing subscription giving FREE in both.\<close>

theorem sql_plan_matches_handlers:
  assumes "schema_ok d" "m \<in> set (monitors d)" "\<not> eFaulty e i" "\<not> eFaulty e (i + 1)"
  shows "ownerPlanExpr d m =
     (case mrOrgID m of None \<Rightarrow> planForUser e i d (mrUserID m) | Some oid \<Rightarrow> planForOrg e i d oid)"
proof (cases "mrOrgID m")
  case None
  then show ?thesis
    using assms(3) by (simp add: ownerPlanExpr_effective planForUser_find billed_user_def)
next
  case (Some oid)
  have "oid \<in> oID ` set (organizations d)"
    using assms(1,2) Some by (auto simp: schema_defs monitor_org_refs_def)
  then obtain w where "org_owner d oid = Some w" using org_owner_None [of d oid] by auto
  with Some show ?thesis
    using assms(3,4)
    by (simp add: ownerPlanExpr_effective planForOrg_def orgOwner_find planForUser_find billed_user_def)
qed

definition sample_env :: env where
  "sample_env = \<lparr>eNow = 10, eDBNow = 10, eID = ''new1'', eID2 = ''new2'',
     eEmail = (\<lambda>u. if u = ''bob'' then Some ''Bob@Example.com '' else None),
     eRegions = [''ca-east'', ''eu-west''], eToken = Some ''tok'', eHash = (\<lambda>t. ''sha:'' @ t),
     eEmailTag = (\<lambda>_. True), eParseAddress = Some, eLocation = (\<lambda>_. True),
     eNet = sample_net, eMailer = True, eWebsite = ''https://upguardly.example'', eFaulty = (\<lambda>_. False)\<rparr>"

theorem sql_plan_matches_handlers_witness:
  "planForOrg sample_env 0 sample_db ''org'' = ''ENTERPRISE''"
  using sql_plan_matches_handlers [OF sample_db_ok, of "sample_monitor ''m1'' (Some ''org'')" sample_env 0]
  by (simp add: sample_env_def sample_db_def sample_monitor_def ownerPlanExpr_def billed_user_def
      org_owner_def)

end
