(* ===== verification/Billing.thy ===== *)
theory Billing
  imports Access
begin

section \<open>Billing handlers\<close>

text \<open>
  \<^verbatim>\<open>internal/api/handlers/subscriptions.go\<close> and the parts of \<^verbatim>\<open>internal/stripeservice/client.go\<close>
  that are not calls of the Stripe SDK. The SDK is a parameter, the record \<open>sdk\<close>: what a search,
  a listing, a creation or an update of a Stripe object answers, and how a signed payload decodes
  (\<^verbatim>\<open>webhook.ConstructEvent\<close> and \<^verbatim>\<open>json.Unmarshal\<close> into the SDK's types). Its hypotheses, where a
  theorem has any, are about those answers only.

  The state of these handlers is the database and the per-process reconcile cache of theory
  \<open>Access\<close>. Store calls fail where \<open>eFaulty\<close> says, as in the other handlers; the statements of a
  plan reconciliation fail independently of each other.
\<close>

subsection \<open>What Stripe sends\<close>

record stripe_customer =
  scID :: string
  scMetadata :: "string \<rightharpoonup> string"

record stripe_item =
  siPriceID :: "string option"
  siPeriodStart :: int
  siPeriodEnd :: int

record stripe_subscription =
  ssID :: string
  ssStatus :: string
  ssCustomer :: "stripe_customer option"
  ssItems :: "stripe_item list"
  ssCancelAtPeriodEnd :: bool

record stripe_invoice =
  siSubscription :: "string option"
  siCustomer :: "stripe_customer option"

record stripe_event =
  evType :: string
  evSubscription :: "stripe_subscription option"
  evInvoice :: "stripe_invoice option"

record sdk =
  skProPriceID :: string
  skEnterprisePriceID :: string
  skSearchCustomers :: "ident \<Rightarrow> string list \<times> bool"
  skNewCustomer :: "ident \<Rightarrow> string \<Rightarrow> string option"
  skListSubscriptions :: "string \<Rightarrow> stripe_subscription list \<times> bool"
  skCheckout :: "string \<Rightarrow> string \<Rightarrow> string \<Rightarrow> string \<Rightarrow> string option"
  skPortal :: "string \<Rightarrow> string \<Rightarrow> string option"
  skSetCancel :: "string \<Rightarrow> bool \<Rightarrow> bool"
  skGetCustomer :: "string \<Rightarrow> stripe_customer option"
  skEvent :: "string \<Rightarrow> string \<Rightarrow> stripe_event option"

subsection \<open>The Stripe client\<close>

definition PriceIDForPlan :: "sdk \<Rightarrow> string \<Rightarrow> string option" where
  "PriceIDForPlan k plan =
     (if plan = ''PRO'' then Some (skProPriceID k)
      else if plan = ''ENTERPRISE'' then Some (skEnterprisePriceID k)
      else None)"

text \<open>The first hit of the search; an error of the iterator counts only when there is no hit.\<close>

definition FindCustomerByUser :: "sdk \<Rightarrow> ident \<Rightarrow> string option" where
  "FindCustomerByUser k userID =
     (case skSearchCustomers k userID of
        (i # _, _) \<Rightarrow> Some i
      | ([], failed) \<Rightarrow> if failed then None else Some [])"

definition EnsureCustomer :: "sdk \<Rightarrow> ident \<Rightarrow> string \<Rightarrow> string option" where
  "EnsureCustomer k userID email =
     (case FindCustomerByUser k userID of
        None \<Rightarrow> None
      | Some i \<Rightarrow> if i \<noteq> [] then Some i else skNewCustomer k userID email)"

definition live_status :: "string \<Rightarrow> bool" where
  "live_status s \<longleftrightarrow> s = ''active'' \<or> s = ''trialing'' \<or> s = ''past_due''"

text \<open>The loop of \<^verbatim>\<open>GetActiveSubscription\<close>: the first live subscription ends it (\<open>Inr\<close>), otherwise
  the first other one is the fallback.\<close>

fun active_loop ::
    "stripe_subscription option \<Rightarrow> stripe_subscription list \<Rightarrow>
     stripe_subscription option + stripe_subscription" where
  "active_loop fallback [] = Inl fallback"
| "active_loop fallback (s # ss) =
     (if live_status (ssStatus s) then Inr s
      else active_loop (if fallback = None then Some s else fallback) ss)"

definition GetActiveSubscription :: "sdk \<Rightarrow> string \<Rightarrow> stripe_subscription option option" where
  "GetActiveSubscription k customerID =
     (case skListSubscriptions k customerID of (ss, failed) \<Rightarrow>
      case active_loop None ss of
        Inr s \<Rightarrow> Some (Some s)
      | Inl fallback \<Rightarrow> if failed then None else Some fallback)"

subsection \<open>From Stripe to a subscription row\<close>

definition mapStripeStatus :: "string \<Rightarrow> sub_status" where
  "mapStripeStatus s =
     (if s = ''active'' then ACTIVE
      else if s = ''past_due'' then PAST_DUE
      else if s = ''trialing'' then TRIALING
      else CANCELED)"

text \<open>\<open>None\<close> for the client means that billing is not configured.\<close>

definition planFromPriceID :: "sdk option \<Rightarrow> string \<Rightarrow> string option" where
  "planFromPriceID client priceID =
     (case client of
        None \<Rightarrow> Some ''FREE''
      | Some k \<Rightarrow>
          if priceID = [] then Some ''FREE''
          else if PriceIDForPlan k ''PRO'' = Some priceID then Some ''PRO''
          else if PriceIDForPlan k ''ENTERPRISE'' = Some priceID then Some ''ENTERPRISE''
          else None)"

definition unix :: "int \<Rightarrow> instant" where
  "unix s = s * second"

definition upsertParamsFromStripe :: "sdk option \<Rightarrow> ident \<Rightarrow> stripe_subscription \<Rightarrow> upsert_params option" where
  "upsertParamsFromStripe client userID s =
     (let item = (case ssItems s of [] \<Rightarrow> None | it # _ \<Rightarrow> Some it);
          priceID = (case Option.bind item siPriceID of None \<Rightarrow> [] | Some p \<Rightarrow> p)
      in case planFromPriceID client priceID of
           None \<Rightarrow> None
         | Some plan \<Rightarrow>
             Some \<lparr>upUserID = userID, upPlan = plan, upStatus = mapStripeStatus (ssStatus s),
                   upStripeCustomerID = (case ssCustomer s of
                      None \<Rightarrow> None | Some c \<Rightarrow> if scID c \<noteq> [] then Some (scID c) else None),
                   upStripeSubscriptionID = Some (ssID s),
                   upStripePriceID = (if priceID \<noteq> [] then Some priceID else None),
                   upCurrentPeriodStart = (case item of
                      None \<Rightarrow> None | Some it \<Rightarrow> if siPeriodStart it > 0 then Some (unix (siPeriodStart it)) else None),
                   upCurrentPeriodEnd = (case item of
                      None \<Rightarrow> None | Some it \<Rightarrow> if siPeriodEnd it > 0 then Some (unix (siPeriodEnd it)) else None),
                   upCancelAtPeriodEnd = ssCancelAtPeriodEnd s\<rparr>)"

text \<open>The parameters of the writers that know only user, plan and status.\<close>

definition bare_params :: "ident \<Rightarrow> string \<Rightarrow> sub_status \<Rightarrow> upsert_params" where
  "bare_params userID plan status =
     \<lparr>upUserID = userID, upPlan = plan, upStatus = status, upStripeCustomerID = None,
      upStripeSubscriptionID = None, upStripePriceID = None, upCurrentPeriodStart = None,
      upCurrentPeriodEnd = None, upCancelAtPeriodEnd = False\<rparr>"

subsection \<open>Writing a subscription\<close>

text \<open>\<^verbatim>\<open>syncSubscription\<close> at call site \<open>i\<close>: the read of the previous row, the upsert, and the plan
  reconciliation with its up to six statements, whose failure is only logged.\<close>

definition syncSubscription ::
    "env \<Rightarrow> nat \<Rightarrow> db \<Rightarrow> upsert_params \<Rightarrow> (store_error + subscription) \<times> db" where
  "syncSubscription e i d p =
     (let prev = (case read_at e i (GetSubscriptionByUser d (upUserID p)) of Inl _ \<Rightarrow> None | Inr s \<Rightarrow> Some s) in
      case write_at e (i + 1) d (UpsertSubscription d (eDBNow e) (eID e) p) of
        (Inl x, d1) \<Rightarrow> (Inl x, d1)
      | (Inr updated, d1) \<Rightarrow>
          (let oldPlan = effectivePlan prev; newPlan = effectivePlan (Some updated) in
           if oldPlan \<noteq> newPlan
           then (Inr updated,
                 snd (snd (ReconcileMonitorsToPlan d1 (eDBNow e) (\<lambda>n. eFaulty e (i + 2 + n)) (upUserID p)
                             oldPlan newPlan)))
           else (Inr updated, d1)))"

text \<open>\<^verbatim>\<open>reconcileSubscription\<close>: the refreshed row, or \<open>None\<close> when the caller has to fall back.\<close>

definition reconcileSubscription ::
    "env \<Rightarrow> sdk option \<Rightarrow> db \<Rightarrow> ident \<Rightarrow> subscription option \<Rightarrow> subscription option \<times> db" where
  "reconcileSubscription e client d userID dbSub =
     (case client of None \<Rightarrow> (None, d) | Some k \<Rightarrow>
      case (case Option.bind dbSub sStripeCustomerID of
              Some c \<Rightarrow> Some c
            | None \<Rightarrow> (case FindCustomerByUser k userID of
                         None \<Rightarrow> None | Some c \<Rightarrow> if c = [] then None else Some c)) of
        None \<Rightarrow> (None, d)
      | Some customerID \<Rightarrow>
          (case GetActiveSubscription k customerID of
             None \<Rightarrow> (None, d)
           | Some None \<Rightarrow>
               if opt_any dbSub (\<lambda>s. sPlan s \<noteq> ''FREE'')
               then (case syncSubscription e 2 d (bare_params userID ''FREE'' CANCELED) of
                       (Inl _, d') \<Rightarrow> (None, d') | (Inr s, d') \<Rightarrow> (Some s, d'))
               else (None, d)
           | Some (Some stripeSub) \<Rightarrow>
               (case upsertParamsFromStripe client userID stripeSub of
                  None \<Rightarrow> (None, d)
                | Some params \<Rightarrow>
                    (case syncSubscription e 2 d params of
                       (Inl _, d') \<Rightarrow> (None, d') | (Inr s, d') \<Rightarrow> (Some s, d')))))"

text \<open>\<^verbatim>\<open>GetSubscription\<close>; the body is the plan and status the client sees.\<close>

definition GetSubscription ::
    "env \<Rightarrow> sdk option \<Rightarrow> db \<times> reconciled \<Rightarrow> ident option \<Rightarrow>
     (string \<times> sub_status \<times> subscription option) response \<times> db \<times> reconciled" where
  "GetSubscription e client st caller =
     (case st of (d, m) \<Rightarrow>
      case caller of None \<Rightarrow> (Fail 401 ''Unauthorized'', d, m) | Some userId \<Rightarrow>
      case shouldReconcile (eNow e) userId m of (reconcile, m1) \<Rightarrow>
        (let dbSub = (case read_at e 1 (GetSubscriptionByUser d userId) of Inl _ \<Rightarrow> None | Inr s \<Rightarrow> Some s) in
         case (if reconcile then reconcileSubscription e client d userId dbSub else (None, d)) of
           (Some s, d') \<Rightarrow> (Ok 200 (sPlan s, sStatus s, Some s), d', m1)
         | (None, d') \<Rightarrow>
             (case dbSub of
                None \<Rightarrow> (Ok 200 (''FREE'', ACTIVE, None), d', m1)
              | Some s \<Rightarrow> (Ok 200 (sPlan s, sStatus s, Some s), d', m1))))"

subsection \<open>Redirect URLs\<close>

fun Contains :: "string \<Rightarrow> string \<Rightarrow> bool" where
  "Contains [] sub \<longleftrightarrow> sub = []"
| "Contains (c # s) sub \<longleftrightarrow> take (length sub) (c # s) = sub \<or> Contains s sub"

definition TrimRight :: "string \<Rightarrow> char \<Rightarrow> string" where
  "TrimRight s c = rev (dropWhile (\<lambda>x. x = c) (rev s))"

definition buildSingleRedirectURL :: "net_env \<Rightarrow> string \<Rightarrow> string \<Rightarrow> string option" where
  "buildSingleRedirectURL n websiteDomain path =
     (if path = [] then Some websiteDomain
      else if Contains path ''://'' \<or> hd path \<noteq> CHR ''/'' then None
      else (let combined = TrimRight websiteDomain (CHR ''/'') @ path in
            case nParseURL n combined of
              None \<Rightarrow> None
            | Some u \<Rightarrow> if uHost u = [] then None else Some combined))"

definition buildRedirectURLs :: "net_env \<Rightarrow> string \<Rightarrow> string \<Rightarrow> string \<Rightarrow> (string \<times> string) option" where
  "buildRedirectURLs n websiteDomain successPath cancelPath =
     (let sp = (if successPath = [] then ''/billing'' else successPath);
          cp = (if cancelPath = [] then ''/billing'' else cancelPath)
      in case buildSingleRedirectURL n websiteDomain sp of None \<Rightarrow> None | Some successURL \<Rightarrow>
         case buildSingleRedirectURL n websiteDomain cp of None \<Rightarrow> None | Some cancelURL \<Rightarrow>
           Some (successURL, cancelURL))"

definition website :: "env \<Rightarrow> string" where
  "website e = (if eWebsite e = [] then ''http://localhost:3000'' else eWebsite e)"

subsection \<open>Checkout and portal\<close>

record checkout_request =
  coPlan :: string
  coSuccessPath :: string
  coCancelPath :: string

text \<open>The customer of the checkout: the stored one, or one that Stripe finds or creates and that is
  written to the row at once, carrying plan, status and cancellation flag forward. The write's
  failure is only logged.\<close>

definition checkout_customer ::
    "env \<Rightarrow> sdk \<Rightarrow> db \<Rightarrow> ident \<Rightarrow> string option \<times> db" where
  "checkout_customer e k d userId =
     (let dbSub = (case read_at e 1 (GetSubscriptionByUser d userId) of Inl _ \<Rightarrow> None | Inr s \<Rightarrow> Some s);
          stored = (case Option.bind dbSub sStripeCustomerID of None \<Rightarrow> [] | Some c \<Rightarrow> c)
      in if stored \<noteq> [] then (Some stored, d)
         else (case EnsureCustomer k userId (case eEmail e userId of None \<Rightarrow> [] | Some m \<Rightarrow> m) of
                 None \<Rightarrow> (None, d)
               | Some c \<Rightarrow>
                   (let p = (case dbSub of
                               None \<Rightarrow> bare_params userId ''FREE'' ACTIVE
                             | Some s \<Rightarrow> (bare_params userId (sPlan s) (sStatus s))\<lparr>upCancelAtPeriodEnd := sCancelAtPeriodEnd s\<rparr>)
                    in (Some c, snd (write_at e 2 d (UpsertSubscription d (eDBNow e) (eID e)
                                       (p\<lparr>upStripeCustomerID := Some c\<rparr>)))))))"

definition CreateCheckout ::
    "env \<Rightarrow> sdk option \<Rightarrow> db \<times> reconciled \<Rightarrow> ident option \<Rightarrow> checkout_request option \<Rightarrow>
     string response \<times> db \<times> reconciled" where
  "CreateCheckout e client st caller body =
     (case st of (d, m) \<Rightarrow>
      case caller of None \<Rightarrow> (Fail 401 ''Unauthorized'', d, m) | Some userId \<Rightarrow>
      case client of None \<Rightarrow> (Fail 503 ''Billing not configured'', d, m) | Some k \<Rightarrow>
      if \<not> opt_any body (\<lambda>r. coPlan r = ''PRO'' \<or> coPlan r = ''ENTERPRISE'') then (Fail 400 ''invalid body'', d, m)
      else
        (let req = the body in
         case buildRedirectURLs (eNet e) (website e) (coSuccessPath req) (coCancelPath req) of
           None \<Rightarrow> (Fail 400 ''invalid redirect path'', d, m)
         | Some (successURL, cancelURL) \<Rightarrow>
             (case PriceIDForPlan k (coPlan req) of
                None \<Rightarrow> (Fail 400 ''Invalid plan or price not configured'', d, m)
              | Some priceID \<Rightarrow>
                  if priceID = [] then (Fail 400 ''Invalid plan or price not configured'', d, m)
                  else (case checkout_customer e k d userId of
                          (None, d') \<Rightarrow> (Fail 500 ''Failed to create billing customer'', d', m)
                        | (Some c, d') \<Rightarrow>
                            (case skCheckout k c priceID successURL cancelURL of
                               None \<Rightarrow> (Fail 500 ''Failed to create checkout session'', d', m)
                             | Some url \<Rightarrow> (Ok 200 url, d', forgetReconcile userId m))))))"

definition CreatePortal ::
    "env \<Rightarrow> sdk option \<Rightarrow> db \<times> reconciled \<Rightarrow> ident option \<Rightarrow> string option \<Rightarrow>
     string response \<times> db \<times> reconciled" where
  "CreatePortal e client st caller body =
     (case st of (d, m) \<Rightarrow>
      case caller of None \<Rightarrow> (Fail 401 ''Unauthorized'', d, m) | Some userId \<Rightarrow>
      case client of None \<Rightarrow> (Fail 503 ''Billing not configured'', d, m) | Some k \<Rightarrow>
      case body of None \<Rightarrow> (Fail 400 ''invalid body'', d, m) | Some returnPath \<Rightarrow>
      case buildSingleRedirectURL (eNet e) (website e) returnPath of
        None \<Rightarrow> (Fail 400 ''invalid redirect path'', d, m)
      | Some returnURL \<Rightarrow>
          (case read_at e 1 (GetSubscriptionByUser d userId) of
             Inl _ \<Rightarrow> (Fail 404 ''No billing account found'', d, m)
           | Inr s \<Rightarrow>
               (case sStripeCustomerID s of
                  None \<Rightarrow> (Fail 404 ''No billing account found'', d, m)
                | Some c \<Rightarrow>
                    (case skPortal k c returnURL of
                       None \<Rightarrow> (Fail 500 ''Failed to create portal session'', d, m)
                     | Some url \<Rightarrow> (Ok 200 url, d, forgetReconcile userId m)))))"

subsection \<open>Webhooks\<close>

definition getUserIDFromCustomer ::
    "env \<Rightarrow> sdk \<Rightarrow> db \<Rightarrow> stripe_customer option \<Rightarrow> ident option" where
  "getUserIDFromCustomer e k d customer =
     (case customer of None \<Rightarrow> None | Some c \<Rightarrow>
        if opt_any (scMetadata c ''user_id'') (\<lambda>i. i \<noteq> []) then scMetadata c ''user_id''
        else (case read_at e 0 (GetSubscriptionByCustomerID d (scID c)) of
                Inr s \<Rightarrow> if opt_any (sStripeCustomerID s) (\<lambda>i. i \<noteq> []) then Some (sUserID s)
                         else Option.bind (skGetCustomer k (scID c))
                                (\<lambda>c'. if opt_any (scMetadata c' ''user_id'') (\<lambda>i. i \<noteq> []) then scMetadata c' ''user_id'' else None)
              | Inl _ \<Rightarrow> Option.bind (skGetCustomer k (scID c))
                           (\<lambda>c'. if opt_any (scMetadata c' ''user_id'') (\<lambda>i. i \<noteq> []) then scMetadata c' ''user_id'' else None)))"

definition handleSubscriptionUpdated :: "env \<Rightarrow> sdk \<Rightarrow> db \<Rightarrow> stripe_event \<Rightarrow> db" where
  "handleSubscriptionUpdated e k d ev =
     (case evSubscription ev of None \<Rightarrow> d | Some sub \<Rightarrow>
      case getUserIDFromCustomer e k d (ssCustomer sub) of None \<Rightarrow> d | Some userID \<Rightarrow>
      case upsertParamsFromStripe (Some k) userID sub of None \<Rightarrow> d | Some params \<Rightarrow>
        snd (syncSubscription e 1 d params))"

definition handleSubscriptionDeleted :: "env \<Rightarrow> sdk \<Rightarrow> db \<Rightarrow> stripe_event \<Rightarrow> db" where
  "handleSubscriptionDeleted e k d ev =
     (case evSubscription ev of None \<Rightarrow> d | Some sub \<Rightarrow>
      case getUserIDFromCustomer e k d (ssCustomer sub) of None \<Rightarrow> d | Some userID \<Rightarrow>
        snd (syncSubscription e 1 d (bare_params userID ''FREE'' CANCELED)))"

definition handlePaymentFailed :: "env \<Rightarrow> sdk \<Rightarrow> db \<Rightarrow> stripe_event \<Rightarrow> db" where
  "handlePaymentFailed e k d ev =
     (case evInvoice ev of None \<Rightarrow> d | Some bill \<Rightarrow>
      if siSubscription bill = None then d
      else case getUserIDFromCustomer e k d (siCustomer bill) of None \<Rightarrow> d | Some userID \<Rightarrow>
        (let existingPlan = (case read_at e 9 (GetSubscriptionByUser d userID) of
                               Inl _ \<Rightarrow> ''FREE'' | Inr s \<Rightarrow> sPlan s)
         in snd (syncSubscription e 1 d (bare_params userID existingPlan PAST_DUE))))"

text \<open>\<^verbatim>\<open>StripeWebhook\<close>: the body, \<open>None\<close> when it cannot be read, and the signature header. Every event
  that verifies is answered 200, whatever became of it.\<close>

definition StripeWebhook ::
    "env \<Rightarrow> sdk option \<Rightarrow> db \<Rightarrow> string option \<Rightarrow> string \<Rightarrow> unit response \<times> db" where
  "StripeWebhook e client d payload signature =
     (case client of None \<Rightarrow> (Fail 503 ''Billing not configured'', d) | Some k \<Rightarrow>
      case payload of None \<Rightarrow> (Fail 400 ''Failed to read request body'', d) | Some raw \<Rightarrow>
      case skEvent k raw signature of
        None \<Rightarrow> (Fail 400 ''Invalid webhook signature'', d)
      | Some ev \<Rightarrow>
          if evType ev \<in> {''customer.subscription.created'', ''customer.subscription.updated'',
                          ''customer.subscription.paused'', ''customer.subscription.resumed''}
          then (Ok 200 (), handleSubscriptionUpdated e k d ev)
          else if evType ev = ''customer.subscription.deleted''
          then (Ok 200 (), handleSubscriptionDeleted e k d ev)
          else if evType ev = ''invoice.payment_failed''
          then (Ok 200 (), handlePaymentFailed e k d ev)
          else (Ok 200 (), d))"

subsection \<open>Cancelling and resuming\<close>

definition respondWithCancelAtPeriodEnd ::
    "env \<Rightarrow> db \<times> reconciled \<Rightarrow> ident \<Rightarrow> subscription \<Rightarrow> bool \<Rightarrow> subscription response \<times> db \<times> reconciled" where
  "respondWithCancelAtPeriodEnd e st userId sub cancelAtPeriodEnd =
     (case st of (d, m) \<Rightarrow>
      case syncSubscription e 2 d
             \<lparr>upUserID = userId, upPlan = sPlan sub, upStatus = sStatus sub,
              upStripeCustomerID = sStripeCustomerID sub, upStripeSubscriptionID = sStripeSubscriptionID sub,
              upStripePriceID = sStripePriceID sub, upCurrentPeriodStart = sCurrentPeriodStart sub,
              upCurrentPeriodEnd = sCurrentPeriodEnd sub, upCancelAtPeriodEnd = cancelAtPeriodEnd\<rparr> of
        (Inl _, d') \<Rightarrow> (Ok 200 (sub\<lparr>sCancelAtPeriodEnd := cancelAtPeriodEnd\<rparr>), d', forgetReconcile userId m)
      | (Inr updated, d') \<Rightarrow> (Ok 200 updated, d', forgetReconcile userId m))"

definition CancelSubscription ::
    "env \<Rightarrow> sdk option \<Rightarrow> db \<times> reconciled \<Rightarrow> ident option \<Rightarrow> subscription response \<times> db \<times> reconciled" where
  "CancelSubscription e client st caller =
     (case caller of None \<Rightarrow> (Fail 401 ''Unauthorized'', st) | Some userId \<Rightarrow>
      case client of None \<Rightarrow> (Fail 503 ''Billing not configured'', st) | Some k \<Rightarrow>
      case read_at e 1 (GetSubscriptionByUser (fst st) userId) of
        Inl _ \<Rightarrow> (Fail 404 ''No active billing subscription'', st)
      | Inr sub \<Rightarrow>
          (case sStripeSubscriptionID sub of
             None \<Rightarrow> (Fail 404 ''No active billing subscription'', st)
           | Some subID \<Rightarrow>
               if \<not> skSetCancel k subID True then (Fail 500 ''Failed to cancel subscription'', st)
               else respondWithCancelAtPeriodEnd e st userId sub True))"

definition ResumeSubscription ::
    "env \<Rightarrow> sdk option \<Rightarrow> db \<times> reconciled \<Rightarrow> ident option \<Rightarrow> subscription response \<times> db \<times> reconciled" where
  "ResumeSubscription e client st caller =
     (case caller of None \<Rightarrow> (Fail 401 ''Unauthorized'', st) | Some userId \<Rightarrow>
      case client of None \<Rightarrow> (Fail 503 ''Billing not configured'', st) | Some k \<Rightarrow>
      case read_at e 1 (GetSubscriptionByUser (fst st) userId) of
        Inl _ \<Rightarrow> (Fail 404 ''No active billing subscription'', st)
      | Inr sub \<Rightarrow>
          (case sStripeSubscriptionID sub of
             None \<Rightarrow> (Fail 404 ''No active billing subscription'', st)
           | Some subID \<Rightarrow>
               if effectivePlan (Some sub) = ''FREE''
               then (Fail 409 ''Subscription has already ended; start a new plan instead'', st)
               else if \<not> skSetCancel k subID False then (Fail 500 ''Failed to resume subscription'', st)
               else respondWithCancelAtPeriodEnd e st userId sub False))"

end
