(* ===== verification/OrgApi.thy ===== *)
theory OrgApi
  imports Access
begin

section \<open>Organization, member, invitation and recipient handlers\<close>

text \<open>
  \<^verbatim>\<open>internal/api/handlers\<close>: \<^verbatim>\<open>organizations.go\<close>, \<^verbatim>\<open>members.go\<close>, \<^verbatim>\<open>invitations.go\<close>,
  \<^verbatim>\<open>alert_recipients.go\<close> and \<^verbatim>\<open>me.go\<close>, each as a function from the environment, the database
  and the request to the response and the database it leaves. A handler behind
  \<^verbatim>\<open>RequireOrgRole\<close> takes the organization id that the guard put in the context.
\<close>

definition org_role_binding :: "org_role \<Rightarrow> bool" where
  "org_role_binding r \<longleftrightarrow> r \<in> {ADMIN, MEMBER, VIEWER}"

text \<open>The validator's \<^verbatim>\<open>min\<close> and \<^verbatim>\<open>max\<close> on a string count runes. A string decoded from JSON is valid
  UTF-8, so its runes are the bytes that do not continue another (not \<open>10xxxxxx\<close>).\<close>

definition rune_count :: "string \<Rightarrow> nat" where
  "rune_count s = length (filter (\<lambda>c. \<not> (128 \<le> (of_char c :: nat) \<and> (of_char c :: nat) < 192)) s)"

definition org_name_binding :: "string \<Rightarrow> bool" where
  "org_name_binding n \<longleftrightarrow> 2 \<le> rune_count n \<and> rune_count n \<le> 100"

subsection \<open>Organizations\<close>

definition CreateOrg ::
    "env \<Rightarrow> db \<Rightarrow> ident option \<Rightarrow> string option \<Rightarrow> organization response \<times> db" where
  "CreateOrg e d caller body =
     (case caller of
        None \<Rightarrow> (Fail 401 ''Unauthorized'', d)
      | Some userId \<Rightarrow>
          if \<not> opt_any body org_name_binding then (Fail 400 ''invalid body'', d)
          else if planForUser e 1 d userId \<noteq> ''ENTERPRISE''
          then (Fail 402 ''Creating an organization requires an Enterprise plan'', d)
          else if (case read_at e 2 (Inr (ListOrganizations d userId)) of
                     Inl _ \<Rightarrow> False | Inr existing \<Rightarrow> existing \<noteq> [])
          then (Fail 409 ''You already belong to an organization'', d)
          else (case write_at e 3 d
                       (CreateOrganization d (eNow e) (eID e) (eID2 e) userId (the body)) of
                  (Inl ErrConflict, d') \<Rightarrow> (Fail 409 ''That organization name is already taken'', d')
                | (Inl _, d') \<Rightarrow> (Fail 500 ''Failed to create organization'', d')
                | (Inr og, d') \<Rightarrow> (Ok 201 og, d')))"

definition ListOrgs :: "env \<Rightarrow> db \<Rightarrow> ident option \<Rightarrow> organization list response" where
  "ListOrgs e d caller =
     (case caller of
        None \<Rightarrow> Fail 401 ''Unauthorized''
      | Some userId \<Rightarrow>
          (case read_at e 1 (Inr (ListOrganizations d userId)) of
             Inl _ \<Rightarrow> Fail 500 ''Failed to list organizations'' | Inr orgs \<Rightarrow> Ok 200 orgs))"

record org_seats =
  osLoginSeatsUsed :: int
  osMaxLoginSeats :: int
  osAlertRecipientsUsed :: int
  osMaxAlertRecipients :: int

definition GetOrg :: "env \<Rightarrow> db \<Rightarrow> ident \<Rightarrow> (organization \<times> org_seats) response" where
  "GetOrg e d orgId =
     (case read_at e 1 (GetOrganization d orgId) of
        Inl _ \<Rightarrow> Fail 404 ''Organization not found''
      | Inr og \<Rightarrow>
          (let limits = LimitsForPlan (planForOrg e 2 d orgId) in
           case (read_at e 4 (Inr (CountNonOwnerMembers d orgId)),
                 read_at e 5 (Inr (CountPendingInvitations d (eDBNow e) orgId)),
                 read_at e 6 (Inr (CountOrgAlertRecipients d orgId))) of
             (Inr ms, Inr ps, Inr rs) \<Rightarrow>
               Ok 200 (og, \<lparr>osLoginSeatsUsed = ms + ps, osMaxLoginSeats = MaxLoginSeats limits,
                           osAlertRecipientsUsed = rs,
                           osMaxAlertRecipients = MaxAlertRecipients limits\<rparr>)
           | _ \<Rightarrow> Fail 500 ''Failed to load seat usage''))"

definition UpdateOrg ::
    "env \<Rightarrow> db \<Rightarrow> ident \<Rightarrow> string option option \<Rightarrow> organization response \<times> db" where
  "UpdateOrg e d orgId body =
     (case body of
        None \<Rightarrow> (Fail 400 ''invalid body'', d)
      | Some name \<Rightarrow>
          if opt_any name (\<lambda>n. \<not> org_name_binding n) then (Fail 400 ''invalid body'', d)
          else if name = None then (Fail 400 ''No fields to update'', d)
          else (case write_at e 1 d (UpdateOrganization d (eNow e) orgId name) of
                  (Inl ErrNotFound, d') \<Rightarrow> (Fail 404 ''Organization not found'', d')
                | (Inl _, d') \<Rightarrow> (Fail 500 ''Failed to update organization'', d')
                | (Inr og, d') \<Rightarrow> (Ok 200 og, d')))"

definition DeleteOrg :: "env \<Rightarrow> db \<Rightarrow> ident \<Rightarrow> unit response \<times> db" where
  "DeleteOrg e d orgId =
     (case write_at e 1 d (DeleteOrganization d orgId) of
        (Inl _, d') \<Rightarrow> (Fail 500 ''Failed to delete organization'', d')
      | (Inr _, d') \<Rightarrow> (Ok 204 (), d'))"

subsection \<open>Members\<close>

text \<open>\<^verbatim>\<open>ListMembers\<close> resolves each member's email; a failing lookup leaves it blank.\<close>

definition ListMembers_h ::
    "env \<Rightarrow> db \<Rightarrow> ident \<Rightarrow> (organization_member \<times> string) list response" where
  "ListMembers_h e d orgId =
     (case read_at e 1 (Inr (ListMembers d orgId)) of
        Inl _ \<Rightarrow> Fail 500 ''Failed to list members''
      | Inr ms \<Rightarrow> Ok 200 (map (\<lambda>om. (om, case eEmail e (omUserID om) of Some a \<Rightarrow> a | None \<Rightarrow> [])) ms))"

definition UpdateMemberRole_h ::
    "env \<Rightarrow> db \<Rightarrow> ident \<Rightarrow> ident \<Rightarrow> org_role option \<Rightarrow> organization_member response \<times> db" where
  "UpdateMemberRole_h e d orgId target body =
     (if \<not> opt_any body org_role_binding then (Fail 400 ''invalid body'', d)
      else (case read_at e 1 (GetMembership d orgId target) of
              Inl _ \<Rightarrow> (Fail 404 ''Member not found'', d)
            | Inr existing \<Rightarrow>
                if omRole existing = OWNER then (Fail 403 ''Cannot change the owner's role'', d)
                else (case write_at e 2 d (UpdateMemberRole d orgId target (the body)) of
                        (Inl _, d') \<Rightarrow> (Fail 500 ''Failed to update member role'', d')
                      | (Inr om, d') \<Rightarrow> (Ok 200 om, d'))))"

definition RemoveMember_h ::
    "env \<Rightarrow> db \<Rightarrow> ident option \<Rightarrow> ident \<Rightarrow> ident \<Rightarrow> unit response \<times> db" where
  "RemoveMember_h e d caller orgId target =
     (case read_at e 1 (GetMembership d orgId target) of
        Inl _ \<Rightarrow> (Fail 404 ''Member not found'', d)
      | Inr existing \<Rightarrow>
          if omRole existing = OWNER \<and> caller \<noteq> Some target
          then (Fail 403 ''Cannot remove the organization owner'', d)
          else if omRole existing = OWNER \<and> caller = Some target
          then (Fail 403 ''Transfer ownership before leaving'', d)
          else (case write_at e 2 d (RemoveMember d orgId target) of
                  (Inl _, d') \<Rightarrow> (Fail 500 ''Failed to remove member'', d')
                | (Inr _, d') \<Rightarrow> (Ok 204 (), d')))"

subsection \<open>Invitations\<close>

record invite_request =
  irEmail :: string
  irRole :: org_role

text \<open>The loop over the organization's invitations: a live pending one for the same address stops
  the request, a lapsed one is marked EXPIRED. Only the calls that the loop makes can fail, the
  \<open>n\<close>-th of them at call site \<open>100 + n\<close>.\<close>

fun supersede_loop ::
    "env \<Rightarrow> string \<Rightarrow> nat \<Rightarrow> invitation list \<Rightarrow> db \<Rightarrow> (nat \<times> string) option \<times> db" where
  "supersede_loop e email n [] d = (None, d)"
| "supersede_loop e email n (v # vs) d =
     (if invStatus v \<noteq> PENDING \<or> \<not> EqualFold (invEmail v) email then supersede_loop e email n vs d
      else if eNow e < invExpiresAt v
      then (Some (409, ''A pending invitation already exists for this email address''), d)
      else (case write_at e (100 + n) d (ExpireInvitation d (invID v)) of
              (Inl _, d') \<Rightarrow> (Some (500, ''Failed to create invitation''), d')
            | (Inr _, d') \<Rightarrow> supersede_loop e email (n + 1) vs d'))"

definition invitationTTL :: duration where
  "invitationTTL = 7 * 24 * hour"

definition CreateInvitation_h ::
    "env \<Rightarrow> db \<Rightarrow> ident \<Rightarrow> ident \<Rightarrow> invite_request option \<Rightarrow> invitation response \<times> db" where
  "CreateInvitation_h e d callerId orgId body =
     (if \<not> opt_any body (\<lambda>r. eEmailTag e (irEmail r) \<and> org_role_binding (irRole r))
      then (Fail 400 ''invalid body'', d)
      else
        (let req = the body;
             email = ToLower (TrimSpace (irEmail req));
             existing = (case read_at e 1 (Inr (ListInvitations d orgId)) of
                           Inl _ \<Rightarrow> [] | Inr vs \<Rightarrow> vs)
         in case supersede_loop e email 0 existing d of
              (Some (code, msg), d1) \<Rightarrow> (Fail code msg, d1)
            | (None, d1) \<Rightarrow>
                (let limits = LimitsForPlan (planForOrg e 2 d1 orgId);
                     quota = (if MaxLoginSeats limits = Unlimited then None
                              else (case (read_at e 4 (Inr (CountNonOwnerMembers d1 orgId)),
                                          read_at e 5 (Inr (CountPendingInvitations d1 (eDBNow e) orgId))) of
                                      (Inr ms, Inr ps) \<Rightarrow>
                                        if ms + ps \<ge> MaxLoginSeats limits
                                        then Some (402, ''Login seat limit reached for your plan'') else None
                                    | _ \<Rightarrow> Some (500, ''Failed to check seat quota'')))
                 in case quota of
                      Some (code, msg) \<Rightarrow> (Fail code msg, d1)
                    | None \<Rightarrow>
                        (case eToken e of
                           None \<Rightarrow> (Fail 500 ''Failed to generate invitation token'', d1)
                         | Some rawToken \<Rightarrow>
                             (case write_at e 6 d1
                                     (CreateInvitation d1 (eDBNow e) (eID e) orgId email callerId
                                        (irRole req) (eHash e rawToken) (eNow e + invitationTTL)) of
                                (Inl _, d2) \<Rightarrow> (Fail 500 ''Failed to create invitation'', d2)
                              | (Inr v, d2) \<Rightarrow> (Ok 201 (v\<lparr>invToken := rawToken\<rparr>), d2))))))"

text \<open>The email that goes out with a created invitation (best effort): recipient, organization,
  inviter and the link that carries the raw token.\<close>

definition inviterName :: "env \<Rightarrow> ident \<Rightarrow> string" where
  "inviterName e userID =
     (case eEmail e userID of Some a \<Rightarrow> if a \<noteq> [] then a else ''A teammate'' | None \<Rightarrow> ''A teammate'')"

definition invitation_mail ::
    "env \<Rightarrow> db \<Rightarrow> ident \<Rightarrow> ident \<Rightarrow> string \<Rightarrow> string \<Rightarrow> (string \<times> string \<times> string \<times> string) option" where
  "invitation_mail e d callerId orgId email rawToken =
     (case read_at e 7 (GetOrganization d orgId) of
        Inl _ \<Rightarrow> None
      | Inr og \<Rightarrow>
          if \<not> eMailer e \<or> eWebsite e = [] then None
          else Some (email, oName og, inviterName e callerId,
                     eWebsite e @ ''/invitations/'' @ rawToken))"

definition ListInvitations_h :: "env \<Rightarrow> db \<Rightarrow> ident \<Rightarrow> invitation list response" where
  "ListInvitations_h e d orgId =
     (case read_at e 1 (Inr (ListInvitations d orgId)) of
        Inl _ \<Rightarrow> Fail 500 ''Failed to list invitations''
      | Inr vs \<Rightarrow> Ok 200 (map (\<lambda>v. v\<lparr>invToken := []\<rparr>) vs))"

definition RevokeInvitation_h :: "env \<Rightarrow> db \<Rightarrow> ident \<Rightarrow> ident \<Rightarrow> unit response \<times> db" where
  "RevokeInvitation_h e d orgId invId =
     (case read_at e 1 (GetInvitationByID d invId) of
        Inl _ \<Rightarrow> (Fail 404 ''Invitation not found'', d)
      | Inr v \<Rightarrow>
          if invOrgID v \<noteq> orgId then (Fail 404 ''Invitation not found'', d)
          else (case write_at e 2 d (RevokeInvitation d invId) of
                  (Inl _, d') \<Rightarrow> (Fail 500 ''Failed to revoke invitation'', d')
                | (Inr _, d') \<Rightarrow> (Ok 204 (), d')))"

record invitation_preview =
  ipOrgName :: string
  ipEmail :: string
  ipRole :: org_role
  ipStatus :: invitation_status
  ipExpiresAt :: instant

definition GetInvitationPreview :: "env \<Rightarrow> db \<Rightarrow> string \<Rightarrow> invitation_preview response" where
  "GetInvitationPreview e d token =
     (case read_at e 1 (GetInvitationByToken d (eHash e token)) of
        Inl ErrNotFound \<Rightarrow> Fail 404 ''Invitation not found''
      | Inl _ \<Rightarrow> Fail 500 ''Failed to load invitation''
      | Inr v \<Rightarrow>
          (case read_at e 2 (GetOrganization d (invOrgID v)) of
             Inl _ \<Rightarrow> Fail 404 ''Invitation not found''
           | Inr og \<Rightarrow>
               Ok 200 \<lparr>ipOrgName = oName og, ipEmail = invEmail v, ipRole = invRole v,
                       ipStatus = (if invStatus v = PENDING \<and> invExpiresAt v < eNow e
                                   then EXPIRED else invStatus v),
                       ipExpiresAt = invExpiresAt v\<rparr>))"

definition AcceptInvitation_h ::
    "env \<Rightarrow> db \<Rightarrow> ident option \<Rightarrow> string \<Rightarrow> organization_member response \<times> db" where
  "AcceptInvitation_h e d caller rawToken =
     (case caller of
        None \<Rightarrow> (Fail 401 ''Unauthorized'', d)
      | Some userId \<Rightarrow>
          (let tokenHash = eHash e rawToken in
           case read_at e 1 (GetInvitationByToken d tokenHash) of
             Inl _ \<Rightarrow> (Fail 404 ''Invitation not found'', d)
           | Inr v \<Rightarrow>
               if invStatus v \<noteq> PENDING then (Fail 409 ''Invitation is no longer valid'', d)
               else if invExpiresAt v < eNow e then (Fail 409 ''Invitation has expired'', d)
               else (case eEmail e userId of
                       None \<Rightarrow> (Fail 500 ''Failed to verify your account email'', d)
                     | Some accountEmail \<Rightarrow>
                         if \<not> EqualFold (TrimSpace accountEmail) (TrimSpace (invEmail v))
                         then (Fail 403 ''This invitation was sent to a different email address'', d)
                         else if (case read_at e 2 (Inr (ListOrganizations d userId)) of
                                    Inl _ \<Rightarrow> False | Inr existing \<Rightarrow> existing \<noteq> [])
                         then (Fail 409 ''You already belong to an organization'', d)
                         else
                           (let maxSeats = MaxLoginSeats (LimitsForPlan (planForOrg e 3 d (invOrgID v)))
                            in case write_at e 5 d
                                      (AcceptInvitation d (eDBNow e) (eID e) tokenHash userId maxSeats) of
                                 (Inl ErrSeatLimit, d') \<Rightarrow>
                                   (Fail 409 ''This organization has no available seats'', d')
                               | (Inl ErrConflict, d') \<Rightarrow>
                                   (Fail 409 ''You already belong to an organization'', d')
                               | (Inl ErrNotFound, d') \<Rightarrow>
                                   (Fail 409 ''Invitation is no longer valid'', d')
                               | (Inl _, d') \<Rightarrow> (Fail 500 ''Failed to accept invitation'', d')
                               | (Inr om, d') \<Rightarrow> (Ok 200 om, d')))))"

subsection \<open>Alert recipients\<close>

definition validateRecipientTarget :: "env \<Rightarrow> alert_channel \<Rightarrow> string \<Rightarrow> string option" where
  "validateRecipientTarget e channel target =
     (case channel of
        EMAIL \<Rightarrow> (if eParseAddress e target = Some target then None
                 else Some ''invalid email target: must be a plain email address'')
      | SMS \<Rightarrow> (if e164Regexp target then None
               else Some ''invalid SMS target: must be an E.164 phone number'')
      | _ \<Rightarrow> Some ''alert recipients only support the EMAIL and SMS channels'')"

definition ListOrgAlertRecipients_h :: "env \<Rightarrow> db \<Rightarrow> ident \<Rightarrow> org_alert_recipient list response" where
  "ListOrgAlertRecipients_h e d orgId =
     (case read_at e 1 (Inr (ListOrgAlertRecipients d orgId)) of
        Inl _ \<Rightarrow> Fail 500 ''Failed to list alert recipients'' | Inr rs \<Rightarrow> Ok 200 rs)"

definition CreateOrgAlertRecipient_h ::
    "env \<Rightarrow> db \<Rightarrow> ident \<Rightarrow> (alert_channel \<times> string) option \<Rightarrow> org_alert_recipient response \<times> db" where
  "CreateOrgAlertRecipient_h e d orgId body =
     (if \<not> opt_any body (\<lambda>(c, t). c \<in> {EMAIL, SMS} \<and> t \<noteq> [] \<and> rune_count t \<le> 254)
      then (Fail 400 ''invalid body'', d)
      else
        (let channel = fst (the body); target = snd (the body) in
         case validateRecipientTarget e channel target of
           Some msg \<Rightarrow> (Fail 400 msg, d)
         | None \<Rightarrow>
             (let limits = LimitsForPlan (planForOrg e 1 d orgId) in
              if MaxAlertRecipients limits = 0
              then (Fail 402 ''Alert recipients require an Enterprise plan'', d)
              else
                (let quota = (if MaxAlertRecipients limits = Unlimited then None
                              else (case read_at e 3 (Inr (CountOrgAlertRecipients d orgId)) of
                                      Inl _ \<Rightarrow> Some (500, ''Failed to check alert recipient quota'')
                                    | Inr n \<Rightarrow>
                                        if n \<ge> MaxAlertRecipients limits
                                        then Some (402, ''Alert recipient limit reached for your plan'')
                                        else None))
                 in case quota of
                      Some (code, msg) \<Rightarrow> (Fail code msg, d)
                    | None \<Rightarrow>
                        (case write_at e 4 d
                                (CreateOrgAlertRecipient d (eDBNow e) (eID e) orgId channel target) of
                           (Inl ErrConflict, d') \<Rightarrow> (Fail 409 ''This recipient already exists'', d')
                         | (Inl _, d') \<Rightarrow> (Fail 500 ''Failed to create alert recipient'', d')
                         | (Inr r, d') \<Rightarrow> (Ok 201 r, d'))))))"

definition DeleteOrgAlertRecipient_h :: "env \<Rightarrow> db \<Rightarrow> ident \<Rightarrow> ident \<Rightarrow> unit response \<times> db" where
  "DeleteOrgAlertRecipient_h e d orgId i =
     (case write_at e 1 d (DeleteOrgAlertRecipient d orgId i) of
        (Inl ErrNotFound, d') \<Rightarrow> (Fail 404 ''Alert recipient not found'', d')
      | (Inl _, d') \<Rightarrow> (Fail 500 ''Failed to delete alert recipient'', d')
      | (Inr _, d') \<Rightarrow> (Ok 204 (), d'))"

subsection \<open>The caller's account\<close>

definition GetMe :: "env \<Rightarrow> db \<Rightarrow> ident option \<Rightarrow> (ident \<times> string \<times> account_context) response" where
  "GetMe e d caller =
     (case caller of
        None \<Rightarrow> Fail 401 ''Unauthorized''
      | Some userId \<Rightarrow>
          (case eEmail e userId of
             None \<Rightarrow> Fail 500 ''Failed to load user''
           | Some email \<Rightarrow>
               (case accountContext e 1 d userId of
                  Inl _ \<Rightarrow> Fail 500 ''Failed to load account''
                | Inr acct \<Rightarrow> Ok 200 (userId, email, acct))))"

subsection \<open>Roles\<close>

text \<open>Every organization has its owner as an OWNER member, an OWNER membership belongs to the
  organization's owner, and no invitation can make another one.\<close>

definition roles_ok :: "db \<Rightarrow> bool" where
  "roles_ok d \<longleftrightarrow>
     (\<forall>og \<in> set (organizations d).
        \<exists>om \<in> set (members d). omOrgID om = oID og \<and> omUserID om = oOwnerID og \<and> omRole om = OWNER)
   \<and> (\<forall>om \<in> set (members d).
        omRole om = OWNER \<longrightarrow> (\<exists>og \<in> set (organizations d). oID og = omOrgID om \<and> oOwnerID og = omUserID om))
   \<and> (\<forall>v \<in> set (invitations d). org_role_binding (invRole v))"

lemma roles_cong:
  "organizations d' = organizations d \<Longrightarrow> members d' = members d \<Longrightarrow> invitations d' = invitations d \<Longrightarrow>
   roles_ok d' = roles_ok d"
  by (simp add: roles_ok_def)

lemma roles_CreateOrganization:
  "roles_ok d \<Longrightarrow> roles_ok (snd (CreateOrganization d now i j u n))"
  by (auto simp: roles_ok_def CreateOrganization_def Let_def)

definition org_ids :: "db \<Rightarrow> (ident \<times> ident) list" where
  "org_ids d = map (\<lambda>og. (oID og, oOwnerID og)) (organizations d)"

lemma roles_ok_ids:
  "roles_ok d \<longleftrightarrow>
     (\<forall>(i, w) \<in> set (org_ids d).
        \<exists>om \<in> set (members d). omOrgID om = i \<and> omUserID om = w \<and> omRole om = OWNER)
   \<and> (\<forall>om \<in> set (members d). omRole om = OWNER \<longrightarrow> (omOrgID om, omUserID om) \<in> set (org_ids d))
   \<and> (\<forall>v \<in> set (invitations d). org_role_binding (invRole v))"
  by (force simp: roles_ok_def org_ids_def)

lemma UpdateOrganization_ids:
  assumes "schema_ok d"
  shows "org_ids (snd (UpdateOrganization d now i r)) = org_ids d"
proof -
  have "org_ids (d\<lparr>organizations := update_where (\<lambda>x. oID x = i) (\<lambda>_. og\<lparr>oName := n, oUpdatedAt := now\<rparr>)
           (organizations d)\<rparr>) = org_ids d" if og: "find (\<lambda>og. oID og = i) (organizations d) = Some og" for og n
  proof -
    have "x = og" if "x \<in> set (organizations d)" "oID x = i" for x
      using find_SomeD [OF og] that assms uniq_same [of oID "organizations d" x og]
      by (simp add: schema_defs)
    then show ?thesis by (auto simp: org_ids_def update_where_def)
  qed
  then show ?thesis by (auto simp: UpdateOrganization_def Let_def split: option.splits)
qed

lemma roles_UpdateOrganization:
  assumes "roles_ok d" "schema_ok d"
  shows "roles_ok (snd (UpdateOrganization d now i r))"
proof -
  have "members (snd (UpdateOrganization d now i r)) = members d"
    "invitations (snd (UpdateOrganization d now i r)) = invitations d"
    by (auto simp: UpdateOrganization_def Let_def split: option.splits)
  then show ?thesis using assms(1) by (simp add: roles_ok_ids UpdateOrganization_ids [OF assms(2)])
qed

lemma roles_DeleteOrganization:
  "roles_ok d \<Longrightarrow> roles_ok (snd (DeleteOrganization d i))"
  unfolding roles_ok_def DeleteOrganization_def
  by (simp add: table_simps) (metis (no_types, lifting))

lemma roles_RemoveMember:
  assumes "roles_ok d" "schema_ok d" "select_member d g u = Some om" "omRole om \<noteq> OWNER"
  shows "roles_ok (snd (RemoveMember d g u))"
proof -
  have "x = om" if "x \<in> set (members d)" "omID x = omID om" for x
    using assms(2) that select_member_facts [OF assms(3)] uniq_same [of omID "members d" x om]
    by (simp add: schema_defs)
  then have "omID x \<noteq> omID om" if "x \<in> set (members d)" "omRole x = OWNER" for x
    using that assms(4) by blast
  then show ?thesis
    using assms(1,3) by (fastforce simp: roles_ok_def RemoveMember_def table_simps)
qed

lemma roles_UpdateMemberRole:
  assumes "roles_ok d" "schema_ok d" "select_member d g u = Some om" "omRole om \<noteq> OWNER" "role \<noteq> OWNER"
  shows "roles_ok (snd (UpdateMemberRole d g u role))"
proof -
  have "x = om" if "x \<in> set (members d)" "omID x = omID om" for x
    using assms(2) that select_member_facts [OF assms(3)] uniq_same [of omID "members d" x om]
    by (simp add: schema_defs)
  then have "omID x \<noteq> omID om" if "x \<in> set (members d)" "omRole x = OWNER" for x
    using that assms(4) by blast
  then show ?thesis
    using assms(1,3,5) by (fastforce simp: roles_ok_def UpdateMemberRole_def table_simps)
qed

lemma roles_AcceptInvitation:
  assumes "roles_ok d"
  shows "roles_ok (snd (AcceptInvitation d now i t u n))"
proof (cases "AcceptInvitation d now i t u n")
  case (Pair r d')
  show ?thesis
  proof (cases r)
    case (Inl x)
    then show ?thesis using accept_invitation.atomic [of d now i t u n x] Pair assms by simp
  next
    case (Inr om)
    have "AcceptInvitation d now i t u n = (Inr om, d')" using Pair Inr by simp
    then show ?thesis
      by (rule AcceptInvitation_Inr)
        (use assms Pair in \<open>auto simp: roles_ok_def table_simps org_role_binding_def\<close>)
  qed
qed

lemma roles_CreateInvitation:
  "roles_ok d \<Longrightarrow> org_role_binding role \<Longrightarrow> roles_ok (snd (CreateInvitation d now i g m b role t x))"
  by (auto simp: roles_ok_def CreateInvitation_def Let_def)

lemma roles_invitation_status:
  "roles_ok d \<Longrightarrow> (\<And>v. invRole (f v) = invRole v) \<Longrightarrow>
   roles_ok (d\<lparr>invitations := update_where P f (invitations d)\<rparr>)"
  by (auto simp: roles_ok_def table_simps)

lemma roles_ExpireInvitation: "roles_ok d \<Longrightarrow> roles_ok (snd (ExpireInvitation d i))"
  by (simp add: ExpireInvitation_def roles_invitation_status)

lemma roles_RevokeInvitation: "roles_ok d \<Longrightarrow> roles_ok (snd (RevokeInvitation d i))"
  by (simp add: RevokeInvitation_def roles_invitation_status)

subsection \<open>Emails\<close>

lemma lower_char_idem [simp]: "lower_char (lower_char c) = lower_char c"
  by (simp add: lower_char_def)

lemma is_space_lower [simp]: "is_space (lower_char c) = is_space c"
  by (auto simp: is_space_def lower_char_def)

lemma ToLower_idem [simp]: "ToLower (ToLower s) = ToLower s"
  by (simp add: ToLower_def)

lemma TrimSpace_ToLower: "TrimSpace (ToLower s) = ToLower (TrimSpace s)"
  by (simp add: TrimSpace_def ToLower_def dropWhile_map rev_map comp_def)

lemma dropWhile_rev_dropWhile:
  "dropWhile P (rev (dropWhile P (rev (dropWhile P s)))) = rev (dropWhile P (rev (dropWhile P s)))"
proof (cases "rev (dropWhile P (rev (dropWhile P s)))")
  case (Cons a t)
  have "\<exists>u. dropWhile P s = rev (dropWhile P (rev (dropWhile P s))) @ u"
    by (metis rev_append rev_rev_ident takeWhile_dropWhile_id)
  then have "\<exists>u. dropWhile P s = a # u" using Cons by auto
  then have "\<not> P a" by (metis hd_dropWhile list.distinct(1) list.sel(1))
  then show ?thesis using Cons by simp
next
  case Nil
  then show ?thesis by (simp only: dropWhile.simps)
qed

lemma TrimSpace_idem [simp]: "TrimSpace (TrimSpace s) = TrimSpace s"
  by (simp add: TrimSpace_def dropWhile_rev_dropWhile)

lemma EqualFold_stored_email:
  "EqualFold a (TrimSpace (ToLower (TrimSpace s))) = EqualFold a (TrimSpace s)"
  by (simp add: EqualFold_def TrimSpace_ToLower)

subsection \<open>Inviting and accepting\<close>

lemma supersede_frame:
  "snd (supersede_loop e email n vs d) = d\<lparr>invitations := invitations (snd (supersede_loop e email n vs d))\<rparr>"
proof (induction vs arbitrary: n d)
  case (Cons v vs)
  have "snd (write_at e (100 + n) d (ExpireInvitation d (invID v))) =
    d\<lparr>invitations := invitations (snd (write_at e (100 + n) d (ExpireInvitation d (invID v))))\<rparr>"
    by (simp add: write_at_def attempt_def ExpireInvitation_def)
  then show ?case using Cons.IH
    by (auto split: prod.split sum.split)
      (metis (no_types, lifting) db.surjective db.update_convs(5) snd_conv)
qed simp

lemma supersede_schema: "schema_ok d \<Longrightarrow> schema_ok (snd (supersede_loop e email n vs d))"
proof (induction vs arbitrary: n d)
  case (Cons v vs)
  have "schema_ok (snd (write_at e (100 + n) d (ExpireInvitation d (invID v))))"
    unfolding write_at_def by (rule expire_invitation.attempt_keeps [OF Cons.prems])
  then show ?case using Cons by (auto split: prod.split sum.split)
qed simp

lemma supersede_roles: "roles_ok d \<Longrightarrow> roles_ok (snd (supersede_loop e email n vs d))"
proof (induction vs arbitrary: n d)
  case (Cons v vs)
  have "roles_ok (snd (write_at e (100 + n) d (ExpireInvitation d (invID v))))"
    using Cons.prems roles_ExpireInvitation by (simp add: write_at_def attempt_def)
  then show ?case using Cons by (auto split: prod.split sum.split)
qed simp

lemma seats_capped: "MaxLoginSeats (LimitsForPlan p) \<noteq> Unlimited"
  by (cases p rule: LimitsForPlan_cases) (simp_all add: Unlimited_def)

lemma CreateInvitation_Ok:
  assumes "CreateInvitation_h e d callerId orgId (Some req) = (Ok 201 v, d')" "\<And>i. \<not> eFaulty e i"
  obtains d1 raw v0 where
    "supersede_loop e (ToLower (TrimSpace (irEmail req))) 0 (ListInvitations d orgId) d = (None, d1)"
    "eToken e = Some raw" "v = v0\<lparr>invToken := raw\<rparr>"
    "seats_used d1 (eDBNow e) orgId < MaxLoginSeats (LimitsForPlan (planForOrg e 2 d1 orgId))"
    "v0 = \<lparr>invID = eID e, invOrgID = orgId, invEmail = ToLower (TrimSpace (irEmail req)),
       invRole = irRole req, invToken = eHash e raw, invStatus = PENDING, invInvitedBy = callerId,
       invExpiresAt = eNow e + invitationTTL, invCreatedAt = eDBNow e\<rparr>"
    "d' = d1\<lparr>invitations := invitations d1 @ [v0]\<rparr>"
    "eHash e raw \<notin> invToken ` set (invitations d1)" "orgId \<in> oID ` set (organizations d1)"
    "eID e \<notin> invID ` set (invitations d1)" "org_role_binding (irRole req)"
proof -
  have bind: "eEmailTag e (irEmail req)" "org_role_binding (irRole req)"
    using assms(1) by (auto simp: CreateInvitation_h_def split: if_splits)
  have plain: "read_at e i r = r" "write_at e i x w = w" for i r x w
    using assms(2) by (simp_all add: read_at_def write_at_def attempt_read_def attempt_def)
  obtain d1 where d1: "supersede_loop e (ToLower (TrimSpace (irEmail req))) 0 (ListInvitations d orgId) d = (None, d1)"
    using assms(1) bind by (auto simp: CreateInvitation_h_def plain Let_def split: prod.splits option.splits)
  moreover obtain raw where raw: "eToken e = Some raw"
    using assms(1) bind d1 by (cases "eToken e") (auto simp: CreateInvitation_h_def plain Let_def split: option.splits)
  ultimately show thesis
    using assms(1) bind seats_capped
    by (intro that [OF d1 raw])
      (auto simp: CreateInvitation_h_def plain Let_def seats_used_def CreateInvitation_def
        split: option.splits if_splits sum.splits prod.splits)
qed

lemma org_lookup_invitations [simp]:
  "planForOrg e i (d\<lparr>invitations := vs\<rparr>) g = planForOrg e i d g"
  "ListOrganizations (d\<lparr>invitations := vs\<rparr>) u = ListOrganizations d u"
  "CountNonOwnerMembers (d\<lparr>invitations := vs\<rparr>) g = CountNonOwnerMembers d g"
  by (simp_all add: planForOrg_def orgOwner_def planForUser_def GetOrganization_def
      GetSubscriptionByUser_def ListOrganizations_def is_member_def CountNonOwnerMembers_def
      cong: sum.case_cong)

lemma planForOrg_index:
  "(\<And>i. \<not> eFaulty e i) \<Longrightarrow> (\<And>i. \<not> eFaulty e' i) \<Longrightarrow> planForOrg e i d g = planForOrg e' j d g"
  by (simp add: planForOrg_def orgOwner_find planForUser_find cong: sum.case_cong)

lemma pending_later: "pending now' v \<Longrightarrow> now \<le> now' \<Longrightarrow> pending now v"
  by (simp add: pending_def)

lemma count_pending_later:
  "now \<le> now' \<Longrightarrow> CountPendingInvitations d now' g \<le> CountPendingInvitations d now g"
  unfolding CountPendingInvitations_def by (rule count_where_mono) (auto intro: pending_later)

lemma find_last: "\<forall>x \<in> set tbl. \<not> P x \<Longrightarrow> P r \<Longrightarrow> find P (tbl @ [r]) = Some r"
  by (induction tbl) auto

lemma accept_fresh_invitation:
  assumes "hash \<notin> invToken ` set (invitations d)" "v = \<lparr>invID = i, invOrgID = g, invEmail = m,
      invRole = role, invToken = hash, invStatus = PENDING, invInvitedBy = b, invExpiresAt = x, invCreatedAt = c\<rparr>"
    and "now < x" "i \<notin> invID ` set (invitations d)" "g \<in> oID ` set (organizations d)"
    and "CountNonOwnerMembers d g + CountPendingInvitations d now g < seats"
    and "newID \<notin> omID ` set (members d)" "u \<notin> omUserID ` set (members d)"
  shows "\<exists>om d'. AcceptInvitation (d\<lparr>invitations := invitations d @ [v]\<rparr>) now newID hash u seats = (Inr om, d')
     \<and> omRole om = role \<and> omOrgID om = g \<and> omUserID om = u"
proof -
  have f: "find (\<lambda>v. invToken v = hash \<and> pending now v) (invitations d @ [v]) = Some v"
    using assms(1-3) by (intro find_last) (auto simp: pending_def)
  have "filter (\<lambda>x. invOrgID x = g \<and> pending now x \<and> invID x \<noteq> i) (invitations d)
      = filter (\<lambda>x. invOrgID x = g \<and> pending now x) (invitations d)"
    using assms(4) by (intro filter_cong) auto
  then have "count_where (\<lambda>x. invOrgID x = g \<and> pending now x \<and> invID x \<noteq> i) (invitations d @ [v])
      = CountPendingInvitations d now g"
    using assms(2) by (simp add: count_where_def CountPendingInvitations_def)
  then show ?thesis using f assms by (simp add: AcceptInvitation_def Let_def)
qed

text \<open>C30: an invitation that was created can be accepted. When the handler answers 201, the
  account holding the invited address (compared without case and surrounding space), presenting
  the token of the response within seven days, becomes a member with the invited role, provided
  the account is in no organization; the seat that the invitation reserved is still there.\<close>

theorem invite_then_accept:
  assumes "schema_ok d" "\<forall>i. \<not> eFaulty e i" "\<forall>i. \<not> eFaulty e' i" "eHash e' = eHash e"
    and created: "CreateInvitation_h e d callerId orgId (Some req) = (Ok 201 v, d')"
    and clocks: "eNow e' \<le> eNow e + invitationTTL" "eDBNow e \<le> eDBNow e'" "eDBNow e' < eNow e + invitationTTL"
    and addressee: "eEmail e' u = Some a" "EqualFold (TrimSpace a) (TrimSpace (irEmail req))"
    and fresh: "u \<notin> omUserID ` set (members d)" "eID e' \<notin> omID ` set (members d)"
  shows "\<exists>om d''. AcceptInvitation_h e' d' (Some u) (invToken v) = (Ok 200 om, d'')
           \<and> omRole om = irRole req \<and> omOrgID om = orgId \<and> omUserID om = u"
proof -
  obtain d1 raw v0 where loop: "supersede_loop e (ToLower (TrimSpace (irEmail req))) 0 (ListInvitations d orgId) d = (None, d1)"
    and v: "v = v0\<lparr>invToken := raw\<rparr>"
    and seats: "seats_used d1 (eDBNow e) orgId < MaxLoginSeats (LimitsForPlan (planForOrg e 2 d1 orgId))"
    and v0: "v0 = \<lparr>invID = eID e, invOrgID = orgId, invEmail = ToLower (TrimSpace (irEmail req)),
       invRole = irRole req, invToken = eHash e raw, invStatus = PENDING, invInvitedBy = callerId,
       invExpiresAt = eNow e + invitationTTL, invCreatedAt = eDBNow e\<rparr>"
    and d': "d' = d1\<lparr>invitations := invitations d1 @ [v0]\<rparr>"
    and new: "eHash e raw \<notin> invToken ` set (invitations d1)" "orgId \<in> oID ` set (organizations d1)"
      "eID e \<notin> invID ` set (invitations d1)"
    using CreateInvitation_Ok [OF created] assms(2) by metis
  have d1: "d1 = d\<lparr>invitations := invitations d1\<rparr>"
    using supersede_frame [of e "ToLower (TrimSpace (irEmail req))" 0 "ListInvitations d orgId" d] loop by simp
  have mem: "members d1 = members d" by (subst d1) simp
  have plain: "read_at e' i r = r" "write_at e' i x w = w" for i r x w
    using assms(3) by (simp_all add: read_at_def write_at_def attempt_read_def attempt_def)
  let ?max = "MaxLoginSeats (LimitsForPlan (planForOrg e' 3 d' orgId))"
  have "planForOrg e' 3 d' orgId = planForOrg e 2 d1 orgId"
    using planForOrg_index [of e' e 3 d1 orgId 2] assms(2,3) by (simp add: d')
  then have "CountNonOwnerMembers d1 orgId + CountPendingInvitations d1 (eDBNow e') orgId < ?max"
    using seats count_pending_later [OF clocks(2), of d1 orgId] by (simp add: seats_used_def)
  from accept_fresh_invitation [OF new(1) v0 clocks(3) new(3,2) this, of "eID e'" u] fresh obtain om d'' where
    acc: "AcceptInvitation d' (eDBNow e') (eID e') (eHash e raw) u ?max = (Inr om, d'')"
    and om: "omRole om = irRole req" "omOrgID om = orgId" "omUserID om = u"
    by (auto simp: mem d')
  have "find (\<lambda>v. invToken v = eHash e raw) (invitations d1 @ [v0]) = Some v0"
    using new(1) v0 by (intro find_last) (auto simp: rev_image_eqI)
  then have get: "GetInvitationByToken d' (eHash e raw) = Inr v0" by (simp add: GetInvitationByToken_def d')
  have none: "ListOrganizations d' u = []"
    using fresh(1) by (auto simp: d' ListOrganizations_def is_member_def list_ex_iff mem filter_empty_conv)
  have "AcceptInvitation_h e' d' (Some u) (invToken v) = (Ok 200 om, d'')"
    using get none acc addressee clocks(1) v assms(4)
    by (simp add: AcceptInvitation_h_def plain v0 EqualFold_stored_email Let_def)
  with om show ?thesis by blast
qed

definition sample_invite :: invite_request where
  "sample_invite = \<lparr>irEmail = '' Bob@Example.com'', irRole = MEMBER\<rparr>"

definition sample_db0 :: db where
  "sample_db0 = sample_db\<lparr>invitations := []\<rparr>"

lemma sample_db0_ok: "schema_ok sample_db0"
  by (simp add: schema_defs sample_db0_def sample_db_def sample_monitor_def uniq_def refs_def
      monitor_org_refs_def customers_uniq_def)

theorem invite_then_accept_witness:
  "\<exists>om d''. AcceptInvitation_h (sample_env\<lparr>eNow := 90, eDBNow := 90\<rparr>)
      (snd (CreateInvitation_h sample_env sample_db0 ''owner'' ''org'' (Some sample_invite)))
      (Some ''bob'') ''tok'' = (Ok 200 om, d'') \<and> omRole om = MEMBER \<and> omOrgID om = ''org'' \<and> omUserID om = ''bob''"
proof -
  have plan: "planForOrg sample_env 2 sample_db0 ''org'' = ''ENTERPRISE''"
    by (simp add: planForOrg_def orgOwner_def planForUser_def GetOrganization_def GetSubscriptionByUser_def
        read_at_def attempt_read_def sample_db0_def sample_db_def sample_env_def effectivePlan_def)
  obtain v d' where c: "CreateInvitation_h sample_env sample_db0 ''owner'' ''org'' (Some sample_invite) = (Ok 201 v, d')"
    and v: "invToken v = ''tok''"
    using plan
    by (simp add: CreateInvitation_h_def sample_env_def sample_invite_def org_role_binding_def read_at_def
        write_at_def attempt_read_def attempt_def Let_def ListInvitations_def CountNonOwnerMembers_def
        CountPendingInvitations_def count_where_def CreateInvitation_def Unlimited_def
        sample_db0_def sample_db_def)
  have "EqualFold (TrimSpace ''Bob@Example.com '') (TrimSpace '' Bob@Example.com'')"
    by code_simp
  then show ?thesis
    using invite_then_accept [OF sample_db0_ok _ _ _ c, of "sample_env\<lparr>eNow := 90, eDBNow := 90\<rparr>" "''bob''" "''Bob@Example.com ''"] c v
    by (simp add: sample_env_def sample_invite_def invitationTTL_def sample_db0_def sample_db_def)
qed

subsection \<open>What the member and organization handlers allow\<close>

text \<open>The removal of members is open to any MEMBER. The route asks for the MEMBER role only and
  the handler protects only the owner, so whenever the guard lets a caller with role MEMBER
  through, the caller can remove every other member, an ADMIN included.\<close>

theorem member_can_remove_admin:
  assumes "RequireOrgRole e d MEMBER (Some caller) orgId = Inr (orgId, MEMBER)"
    and "GetMembership d orgId target = Inr om" "omRole om = ADMIN" "\<forall>i. \<not> eFaulty e i" "schema_ok d"
  shows "\<exists>d'. RemoveMember_h e d (Some caller) orgId target = (Ok 204 (), d')
    \<and> \<not> is_member d' orgId target"
proof -
  have plain: "read_at e i r = r" "write_at e i x w = w" for i r x w
    using assms(4) by (simp_all add: read_at_def write_at_def attempt_read_def attempt_def)
  have sel: "select_member d orgId target = Some om"
    using assms(2) by (simp add: GetMembership_def split: option.splits)
  have "x = om" if "x \<in> set (members d)" "omUserID x = target" for x
    using that select_member_facts [OF sel] assms(5) uniq_same [of omUserID "members d" x om]
    by (simp add: schema_defs)
  then have "\<not> is_member (d\<lparr>members := delete_where (\<lambda>x. omID x = omID om) (members d)\<rparr>) orgId target"
    by (auto simp: is_member_def list_ex_iff table_simps)
  then show ?thesis
    using assms(2,3) sel by (simp add: RemoveMember_h_def plain RemoveMember_def)
qed

text \<open>Deleting an organization hands each of its monitors to the user who created it. The
  monitor leaves the owner's pool, becomes that user's personal monitor and can be read by that
  user even if he was no longer a member.\<close>

theorem DeleteOrg_monitors_to_creators:
  assumes "m \<in> set (monitors d)" "mrOrgID m = Some orgId" "DeleteOrg e d orgId = (Ok 204 (), d')"
    and "schema_ok d"
  shows "GetMonitor d' (mrID m) (mrUserID m) = Inr (toModel d' (m\<lparr>mrOrgID := None\<rparr>))
    \<and> billed_user d' (m\<lparr>mrOrgID := None\<rparr>) = mrUserID m
    \<and> (\<not> is_member d orgId (mrUserID m) \<longrightarrow> GetMonitor d (mrID m) (mrUserID m) = Inl ErrNotFound)"
proof -
  have d': "d' = snd (DeleteOrganization d orgId)" "orgId \<in> oID ` set (organizations d)"
    using assms(3) by (auto simp: DeleteOrg_def DeleteOrganization_def write_at_def attempt_def split: if_splits)
  let ?m = "m\<lparr>mrOrgID := None\<rparr>"
  have un: "uniq mrID (monitors d)" "uniq mrID (monitors d')"
    using assms(4) schema_DeleteOrganization [OF assms(4), of orgId] d' by (simp_all add: schema_defs)
  have "?m \<in> set (monitors d')"
    using assms(1,2) d' by (force simp: DeleteOrganization_def table_simps)
  then have "find (\<lambda>x. mrID x = mrID m \<and> monitorAccessClause d' (mrUserID m) x) (monitors d') = Some ?m"
    using un(2) by (intro find_uniq) (simp_all add: monitorAccessClause_def)
  moreover have "find (\<lambda>x. mrID x = mrID m \<and> monitorAccessClause d (mrUserID m) x) (monitors d) = None"
    if "\<not> is_member d orgId (mrUserID m)"
  proof -
    have "\<not> monitorAccessClause d (mrUserID m) x" if "x \<in> set (monitors d)" "mrID x = mrID m" for x
      using uniq_same [OF un(1) that(1) assms(1) that(2)] assms(2) \<open>\<not> is_member d orgId (mrUserID m)\<close>
      by (simp add: monitorAccessClause_def)
    then show ?thesis by (auto simp: find_None_iff)
  qed
  ultimately show ?thesis by (auto simp: GetMonitor_def select_monitor_def billed_user_def)
qed

definition sample_db_admin :: db where
  "sample_db_admin = sample_db\<lparr>members := members sample_db @
     [\<lparr>omID = ''k3'', omOrgID = ''org'', omUserID = ''adm'', omRole = ADMIN, omCreatedAt = 2\<rparr>]\<rparr>"

lemma sample_db_admin_ok: "schema_ok sample_db_admin"
  by (simp add: schema_defs sample_db_admin_def sample_db_def sample_monitor_def uniq_def refs_def
      monitor_org_refs_def customers_uniq_def)

theorem member_can_remove_admin_witness:
  "\<exists>d'. RemoveMember_h sample_env sample_db_admin (Some ''ann'') ''org'' ''adm'' = (Ok 204 (), d')
    \<and> \<not> is_member d' ''org'' ''adm''"
  by (rule member_can_remove_admin [where om = "\<lparr>omID = ''k3'', omOrgID = ''org'', omUserID = ''adm'',
        omRole = ADMIN, omCreatedAt = 2\<rparr>"])
    (simp_all add: RequireOrgRole_def read_at_def attempt_read_def GetMembership_def select_member_def
      sample_db_admin_def sample_db_def sample_env_def RoleAtLeast_def roleWeight_def
      sample_db_admin_ok [unfolded sample_db_admin_def sample_db_def, simplified])

theorem DeleteOrg_monitors_to_creators_witness:
  "billed_user (snd (DeleteOrg sample_env sample_db ''org'')) (sample_monitor ''m1'' None) = ''owner''"
proof -
  have "DeleteOrg sample_env sample_db ''org'' = (Ok 204 (), snd (DeleteOrg sample_env sample_db ''org''))"
    by (simp add: DeleteOrg_def write_at_def attempt_def sample_env_def DeleteOrganization_def sample_db_def)
  from DeleteOrg_monitors_to_creators [OF _ _ this sample_db_ok, of "sample_monitor ''m1'' (Some ''org'')"]
  show ?thesis by (simp add: sample_db_def sample_monitor_def)
qed

end
