(* ===== verification/MonitorApi.thy ===== *)
theory MonitorApi
  imports OrgApi
begin

section \<open>Monitor, window and channel handlers\<close>

text \<open>
  \<^verbatim>\<open>internal/api/handlers\<close>: \<^verbatim>\<open>monitors.go\<close>, \<^verbatim>\<open>regions.go\<close>, \<^verbatim>\<open>maintenance_window.go\<close> and
  \<^verbatim>\<open>notification_channels.go\<close>. The collection routes take the workspace that
  \<^verbatim>\<open>ResolveWorkspace\<close> put in the context.
\<close>

subsection \<open>Regions\<close>

definition ListRegions :: "env \<Rightarrow> region list response" where
  "ListRegions e = Ok 200 (List.map_filter RegionByID (eRegions e))"

definition GetMonitorRegions ::
    "env \<Rightarrow> db \<Rightarrow> ident option \<Rightarrow> ident \<Rightarrow> monitor_region_status list response" where
  "GetMonitorRegions e d caller i =
     (case caller of
        None \<Rightarrow> Fail 401 ''Unauthorized''
      | Some userId \<Rightarrow>
          (case read_at e 1 (ListMonitorRegionStatus d (eNow e) i userId) of
             Inl ErrNotFound \<Rightarrow> Fail 404 ''Monitor not found''
           | Inl _ \<Rightarrow> Fail 500 ''Failed to get region status''
           | Inr st \<Rightarrow> Ok 200 st))"

text \<open>\<^verbatim>\<open>validateRegions\<close> with \<^verbatim>\<open>respondRegionError\<close>: the status and message to answer with, or the
  normalized list.\<close>

definition validateRegions :: "env \<Rightarrow> string list \<Rightarrow> plan_limits \<Rightarrow> (nat \<times> string) + string list" where
  "validateRegions e regions limits =
     (case NormalizeRegions regions of
        Inl msg \<Rightarrow> Inl (400, msg)
      | Inr normalized \<Rightarrow>
          if \<not> list_all (\<lambda>r. r \<in> set (eRegions e)) normalized then Inl (400, ''region is not available'')
          else if MaxRegions limits \<noteq> Unlimited \<and> int (length normalized) > MaxRegions limits
          then Inl (402, ''Your plan allows fewer regions per monitor'')
          else Inr normalized)"

subsection \<open>Creating a monitor\<close>

text \<open>\<^verbatim>\<open>CreateMonitor\<close>, in the order of the source: the workspace and role, the billing owner's plan,
  and the plan-gated fields, each step yielding the response to stop with or what it computed.\<close>

definition create_workspace ::
    "env \<Rightarrow> db \<Rightarrow> ident \<Rightarrow> workspace \<Rightarrow> create_monitor_request \<Rightarrow> (nat \<times> string) + (ident \<times> org_role)" where
  "create_workspace e d userId ws req =
     (if wsExplicit ws then
        (if crOrgID req \<noteq> [] \<and> crOrgID req \<noteq> wsOrgID ws
         then Inl (400, ''orgId does not match the selected workspace'')
         else Inr (wsOrgID ws, wsRole ws))
      else if crOrgID req \<noteq> [] then
        (case read_at e 1 (GetMembership d (crOrgID req) userId) of
           Inl _ \<Rightarrow> Inl (403, ''You are not a member of this organization'')
         | Inr om \<Rightarrow> Inr (crOrgID req, omRole om))
      else Inr (wsOrgID ws, wsRole ws))"

definition create_threshold :: "plan_limits \<Rightarrow> create_monitor_request \<Rightarrow> (nat \<times> string) + int option" where
  "create_threshold limits req =
     (if opt_any (crDegradedThresholdMs req) (\<lambda>v. v \<noteq> 0) then
        (if \<not> CustomDegradedThreshold limits
         then Inl (402, ''Custom response-time thresholds require the PRO plan or higher.'')
         else Inr (crDegradedThresholdMs req))
      else Inr None)"

definition create_repeat ::
    "plan_limits \<Rightarrow> create_monitor_request \<Rightarrow> (nat \<times> string) + (int option \<times> int option)" where
  "create_repeat limits req =
     (if opt_any (crRepeatAlertIntervalSecs req) (\<lambda>v. v \<noteq> 0) then
        (if MaxAlertRepeats limits = 0 then Inl (402, ''Repeat alerts require the ENTERPRISE plan.'')
         else if or0 (crRepeatAlertMaxCount req) > MaxAlertRepeats limits
         then Inl (400, ''Repeat alert count is capped on your plan.'')
         else Inr (crRepeatAlertIntervalSecs req, crRepeatAlertMaxCount req))
      else Inr (None, None))"

definition create_interval :: "plan_limits \<Rightarrow> create_monitor_request \<Rightarrow> (nat \<times> string) + int option" where
  "create_interval limits req =
     (if crInterval req = 0 then
        (if crTimeout req \<ge> MinInterval limits
         then Inl (400, ''timeout must be less than interval'') else Inr None)
      else if crInterval req < MinInterval limits
      then Inl (402, ''Check interval is below the minimum of your plan.'')
      else Inr (Some (crInterval req)))"

definition no_update :: update_monitor_request where
  "no_update = \<lparr>urName = None, urType = None, urTarget = None, urInterval = None, urTimeout = None,
     urEnabled = None, urDegradedThresholdMs = None, urRepeatAlertIntervalSecs = None,
     urRepeatAlertMaxCount = None, urCertCheckEnabled = None, urCertExpiryThresholdDays = None,
     urDomainCheckEnabled = None, urDomainExpiryThresholdDays = None, urRegions = None\<rparr>"

definition create_expiry ::
    "plan_limits \<Rightarrow> create_monitor_request \<Rightarrow> (nat \<times> string) + update_monitor_request option" where
  "create_expiry limits req =
     (if crCertCheckEnabled req \<noteq> None \<or> crDomainCheckEnabled req \<noteq> None then
        (if crType req \<noteq> HTTP
         then Inl (400, ''Expiry monitoring is only available for HTTP monitors'')
         else if (crCertCheckEnabled req = Some True \<and> \<not> SSLMonitoring limits) \<or>
                 (crDomainCheckEnabled req = Some True \<and> \<not> DomainMonitoring limits)
         then Inl (402, ''SSL/domain expiry monitoring requires the ENTERPRISE plan.'')
         else Inr (Some (no_update\<lparr>urCertCheckEnabled := crCertCheckEnabled req,
                                  urCertExpiryThresholdDays := crCertExpiryThresholdDays req,
                                  urDomainCheckEnabled := crDomainCheckEnabled req,
                                  urDomainExpiryThresholdDays := crDomainExpiryThresholdDays req\<rparr>)))
      else Inr None)"

text \<open>What the handler passes to the store: the parameters, and the follow-up expiry update.\<close>

definition create_plan ::
    "env \<Rightarrow> db \<Rightarrow> ident \<Rightarrow> workspace \<Rightarrow> create_monitor_request \<Rightarrow>
     (nat \<times> string) + (create_monitor_params \<times> update_monitor_request option)" where
  "create_plan e d userId ws req =
     (case create_workspace e d userId ws req of Inl x \<Rightarrow> Inl x | Inr (orgID, role) \<Rightarrow>
      if orgID \<noteq> [] \<and> \<not> RoleAtLeast role MEMBER
      then Inl (403, ''Viewers can't change organization monitors'')
      else case billingOwner e 2 d userId orgID of
        Inl _ \<Rightarrow> Inl (500, ''Failed to check monitor quota'')
      | Inr owner \<Rightarrow>
         (let limits = LimitsForPlan (planForUser e 3 d owner);
              wanted = (if crRegions req = [] then [DefaultRegion] else crRegions req)
          in case validateRegions e wanted limits of Inl x \<Rightarrow> Inl x | Inr regions \<Rightarrow>
             case create_threshold limits req of Inl x \<Rightarrow> Inl x | Inr thr \<Rightarrow>
             case create_repeat limits req of Inl x \<Rightarrow> Inl x | Inr (rep_iv, rep_cv) \<Rightarrow>
             case create_interval limits req of Inl x \<Rightarrow> Inl x | Inr iv \<Rightarrow>
             case create_expiry limits req of Inl x \<Rightarrow> Inl x | Inr expiry \<Rightarrow>
               Inr (\<lparr>cpUserID = userId, cpOrgID = orgID, cpBillingOwnerID = owner,
                     cpMaxMonitors = MaxMonitors limits, cpName = crName req, cpType = crType req,
                     cpTarget = crTarget req, cpInterval = iv, cpTimeout = crTimeout req,
                     cpDegradedThresholdMs = thr, cpRepeatAlertIntervalSecs = rep_iv,
                     cpRepeatAlertMaxCount = rep_cv, cpEnabled = (crEnabled req = Some True),
                     cpRegions = regions\<rparr>, expiry)))"

definition store_monitor ::
    "env \<Rightarrow> db \<Rightarrow> ident \<Rightarrow> create_monitor_params \<Rightarrow> update_monitor_request option \<Rightarrow> monitor response \<times> db" where
  "store_monitor e d userId p expiry =
     (case write_at e 4 d (CreateMonitor d (eNow e) (eID e) p) of
        (Inl ErrMonitorLimit, d1) \<Rightarrow> (Fail 402 ''Monitor limit reached for your plan'', d1)
      | (Inl _, d1) \<Rightarrow> (Fail 500 ''Failed to create monitor'', d1)
      | (Inr m, d1) \<Rightarrow>
          (case expiry of
             None \<Rightarrow> (Ok 201 m, d1)
           | Some u \<Rightarrow>
               (case write_at e 5 d1 (UpdateMonitor d1 (eNow e) (mID m) userId u) of
                  (Inl _, d2) \<Rightarrow>
                    (Fail 500 ''Monitor created, but failed to apply expiry monitoring settings'', d2)
                | (Inr m', d2) \<Rightarrow> (Ok 201 m', d2))))"

definition CreateMonitor_h ::
    "env \<Rightarrow> db \<Rightarrow> ident option \<Rightarrow> workspace \<Rightarrow> create_monitor_request option \<Rightarrow> monitor response \<times> db" where
  "CreateMonitor_h e d caller ws body =
     (case caller of None \<Rightarrow> (Fail 401 ''Unauthorized'', d) | Some userId \<Rightarrow>
      case body of None \<Rightarrow> (Fail 400 ''invalid body'', d) | Some req0 \<Rightarrow>
      if \<not> create_monitor_binding req0 then (Fail 400 ''invalid body'', d)
      else
        (let req = SetDefaults req0 in
         case validateCreate req of Some msg \<Rightarrow> (Fail 400 msg, d) | None \<Rightarrow>
         case ValidateTarget (eNet e) (crTarget req) (crType req) of Some msg \<Rightarrow> (Fail 400 msg, d) | None \<Rightarrow>
         case create_plan e d userId ws req of
           Inl (code, msg) \<Rightarrow> (Fail code msg, d)
         | Inr (p, expiry) \<Rightarrow> store_monitor e d userId p expiry))"

subsection \<open>Reading, updating and deleting a monitor\<close>

text \<open>\<^verbatim>\<open>requireMonitorWrite\<close> at call site \<open>i\<close>: a personal monitor needs no check, an organization's
  needs the MEMBER role.\<close>

definition requireMonitorWrite :: "env \<Rightarrow> nat \<Rightarrow> db \<Rightarrow> monitor \<Rightarrow> ident \<Rightarrow> bool" where
  "requireMonitorWrite e i d m userId =
     (case mOrgID m of
        None \<Rightarrow> True
      | Some orgId \<Rightarrow>
          orgId = [] \<or>
          (case read_at e i (GetMembership d orgId userId) of
             Inl _ \<Rightarrow> False | Inr om \<Rightarrow> RoleAtLeast (omRole om) MEMBER))"

text \<open>The common prologue of the per-monitor routes that write: the monitor is loaded through the
  access clause and the caller must be allowed to write it.\<close>

definition writable_monitor ::
    "env \<Rightarrow> db \<Rightarrow> ident option \<Rightarrow> ident \<Rightarrow> (nat \<times> string) + (ident \<times> monitor)" where
  "writable_monitor e d caller i =
     (case caller of None \<Rightarrow> Inl (401, ''Unauthorized'') | Some userId \<Rightarrow>
      case read_at e 1 (GetMonitor d i userId) of Inl _ \<Rightarrow> Inl (404, ''Monitor not found'') | Inr m \<Rightarrow>
      if requireMonitorWrite e 2 d m userId then Inr (userId, m)
      else Inl (403, ''Viewers can't change organization monitors''))"

definition ListMonitors_h :: "env \<Rightarrow> db \<Rightarrow> ident option \<Rightarrow> workspace \<Rightarrow> monitor list response" where
  "ListMonitors_h e d caller ws =
     (case caller of None \<Rightarrow> Fail 401 ''Unauthorized'' | Some userId \<Rightarrow>
      case read_at e 1 (Inr (ListMonitors d userId (wsOrgID ws))) of
        Inl _ \<Rightarrow> Fail 500 ''Failed to list monitors'' | Inr ms \<Rightarrow> Ok 200 ms)"

definition GetMonitor_h :: "env \<Rightarrow> db \<Rightarrow> ident option \<Rightarrow> ident \<Rightarrow> monitor response" where
  "GetMonitor_h e d caller i =
     (case caller of None \<Rightarrow> Fail 401 ''Unauthorized'' | Some userId \<Rightarrow>
      case read_at e 1 (GetMonitor d i userId) of
        Inl _ \<Rightarrow> Fail 404 ''Monitor not found'' | Inr m \<Rightarrow> Ok 200 m)"

definition update_interval :: "plan_limits \<Rightarrow> monitor \<Rightarrow> update_monitor_request \<Rightarrow> (nat \<times> string) option" where
  "update_interval limits existing req =
     (case urInterval req of
        None \<Rightarrow> None
      | Some iv \<Rightarrow>
          (let effTimeout = upd (urTimeout req) (mTimeout existing) in
           if iv = 0 then
             (if effTimeout \<ge> MinInterval limits
              then Some (400, ''timeout must be less than interval'') else None)
           else if iv < MinInterval limits
           then Some (402, ''Check interval is below the minimum of your plan.'')
           else if effTimeout \<ge> iv then Some (400, ''timeout must be less than interval'')
           else None))"

definition update_repeat :: "plan_limits \<Rightarrow> update_monitor_request \<Rightarrow> (nat \<times> string) option" where
  "update_repeat limits req =
     (if urRepeatAlertIntervalSecs req = None \<and> urRepeatAlertMaxCount req = None then None
      else (let iv = or0 (urRepeatAlertIntervalSecs req); cv = or0 (urRepeatAlertMaxCount req) in
            if iv \<noteq> 0 \<and> cv \<noteq> 0 then
              (if MaxAlertRepeats limits = 0 then Some (402, ''Repeat alerts require the ENTERPRISE plan.'')
               else if cv > MaxAlertRepeats limits
               then Some (400, ''Repeat alert count is capped on your plan.'') else None)
            else if iv \<noteq> 0 \<or> cv \<noteq> 0
            then Some (400, ''repeatAlertIntervalSecs and repeatAlertMaxCount must be set together'')
            else None))"

definition update_expiry :: "plan_limits \<Rightarrow> monitor \<Rightarrow> update_monitor_request \<Rightarrow> (nat \<times> string) option" where
  "update_expiry limits existing req =
     (let ty = upd (urType req) (mType existing);
          wantsCert = (urCertCheckEnabled req = Some True);
          wantsDomain = (urDomainCheckEnabled req = Some True)
      in if (wantsCert \<or> wantsDomain) \<and> ty \<noteq> HTTP
         then Some (400, ''Expiry monitoring is only available for HTTP monitors'')
         else if (wantsCert \<and> \<not> SSLMonitoring limits) \<or> (wantsDomain \<and> \<not> DomainMonitoring limits)
         then Some (402, ''SSL/domain expiry monitoring requires the ENTERPRISE plan.'')
         else None)"

definition plan_gated :: "update_monitor_request \<Rightarrow> bool" where
  "plan_gated req \<longleftrightarrow> urInterval req \<noteq> None \<or> urRegions req \<noteq> None \<or> urDegradedThresholdMs req \<noteq> None \<or>
     urRepeatAlertIntervalSecs req \<noteq> None \<or> urRepeatAlertMaxCount req \<noteq> None \<or>
     urCertCheckEnabled req \<noteq> None \<or> urDomainCheckEnabled req \<noteq> None"

text \<open>The plan of the monitor's owning scope.\<close>

definition monitorScopePlan :: "env \<Rightarrow> nat \<Rightarrow> db \<Rightarrow> monitor \<Rightarrow> ident \<Rightarrow> string" where
  "monitorScopePlan e i d m userId =
     (case mOrgID m of
        Some orgId \<Rightarrow> if orgId \<noteq> [] then planForOrg e i d orgId else planForUser e i d userId
      | None \<Rightarrow> planForUser e i d userId)"

text \<open>The gated block: the request with its regions normalized, or the response to stop with.\<close>

definition update_gate ::
    "env \<Rightarrow> db \<Rightarrow> ident \<Rightarrow> monitor \<Rightarrow> update_monitor_request \<Rightarrow> (nat \<times> string) + update_monitor_request" where
  "update_gate e d userId existing req =
     (if \<not> plan_gated req then Inr req
      else
        (let limits = LimitsForPlan (monitorScopePlan e 3 d existing userId) in
         case update_interval limits existing req of Some x \<Rightarrow> Inl x | None \<Rightarrow>
         case (case urRegions req of
                 None \<Rightarrow> Inr req
               | Some rs \<Rightarrow> (case validateRegions e rs limits of
                               Inl x \<Rightarrow> Inl x | Inr rs' \<Rightarrow> Inr (req\<lparr>urRegions := Some rs'\<rparr>))) of
           Inl x \<Rightarrow> Inl x
         | Inr req1 \<Rightarrow>
             if opt_any (urDegradedThresholdMs req) (\<lambda>v. v \<noteq> 0) \<and> \<not> CustomDegradedThreshold limits
             then Inl (402, ''Custom response-time thresholds require the PRO plan or higher.'')
             else case update_repeat limits req of Some x \<Rightarrow> Inl x | None \<Rightarrow>
             case (if urCertCheckEnabled req \<noteq> None \<or> urDomainCheckEnabled req \<noteq> None
                   then update_expiry limits existing req else None) of
               Some x \<Rightarrow> Inl x | None \<Rightarrow> Inr req1))"

definition UpdateMonitor_h ::
    "env \<Rightarrow> db \<Rightarrow> ident option \<Rightarrow> ident \<Rightarrow> update_monitor_request option \<Rightarrow> monitor response \<times> db" where
  "UpdateMonitor_h e d caller i body =
     (case caller of None \<Rightarrow> (Fail 401 ''Unauthorized'', d) | Some _ \<Rightarrow>
      case body of None \<Rightarrow> (Fail 400 ''invalid body'', d) | Some req \<Rightarrow>
      if \<not> update_monitor_binding req then (Fail 400 ''invalid body'', d)
      else if \<not> hasUpdates req then (Fail 400 ''No fields to update'', d)
      else case validateUpdate req of Some msg \<Rightarrow> (Fail 400 msg, d) | None \<Rightarrow>
      case writable_monitor e d caller i of Inl (code, msg) \<Rightarrow> (Fail code msg, d) | Inr (userId, existing) \<Rightarrow>
      case update_gate e d userId existing req of Inl (code, msg) \<Rightarrow> (Fail code msg, d) | Inr req1 \<Rightarrow>
      case (if urTarget req1 \<noteq> None \<or> urType req1 \<noteq> None
            then ValidateTarget (eNet e) (upd (urTarget req1) (mTarget existing)) (upd (urType req1) (mType existing))
            else None) of
        Some msg \<Rightarrow> (Fail 400 msg, d)
      | None \<Rightarrow>
          (case write_at e 5 d (UpdateMonitor d (eNow e) i userId req1) of
             (Inl ErrNotFound, d') \<Rightarrow> (Fail 404 ''Monitor not found'', d')
           | (Inl _, d') \<Rightarrow> (Fail 500 ''Failed to update monitor'', d')
           | (Inr m, d') \<Rightarrow> (Ok 200 m, d')))"

definition DeleteMonitor_h :: "env \<Rightarrow> db \<Rightarrow> ident option \<Rightarrow> ident \<Rightarrow> unit response \<times> db" where
  "DeleteMonitor_h e d caller i =
     (case writable_monitor e d caller i of Inl (code, msg) \<Rightarrow> (Fail code msg, d) | Inr (userId, m) \<Rightarrow>
      case write_at e 3 d (DeleteMonitor d i userId) of
        (Inl _, d') \<Rightarrow> (Fail 404 ''Monitor not found'', d')
      | (Inr _, d') \<Rightarrow> (Ok 204 (), d'))"

subsection \<open>Maintenance windows\<close>

definition ListMaintenanceWindows_h ::
    "env \<Rightarrow> db \<Rightarrow> ident option \<Rightarrow> ident \<Rightarrow> maintenance_window list response" where
  "ListMaintenanceWindows_h e d caller i =
     (case caller of None \<Rightarrow> Fail 401 ''Unauthorized'' | Some userId \<Rightarrow>
      case read_at e 1 (GetMonitor d i userId) of Inl _ \<Rightarrow> Fail 404 ''Monitor not found'' | Inr _ \<Rightarrow>
      case read_at e 2 (Inr (ListMaintenanceWindows d i)) of
        Inl _ \<Rightarrow> Fail 500 ''Failed to list maintenance windows'' | Inr ws \<Rightarrow> Ok 200 ws)"

definition CreateMaintenanceWindow_h ::
    "env \<Rightarrow> db \<Rightarrow> ident option \<Rightarrow> ident \<Rightarrow> create_window_request option \<Rightarrow>
     maintenance_window response \<times> db" where
  "CreateMaintenanceWindow_h e d caller i body =
     (case writable_monitor e d caller i of Inl (code, msg) \<Rightarrow> (Fail code msg, d) | Inr (userId, m) \<Rightarrow>
      case body of None \<Rightarrow> (Fail 400 ''invalid body'', d) | Some req \<Rightarrow>
      if \<not> window_binding req then (Fail 400 ''invalid body'', d)
      else case validateWindow req of Some msg \<Rightarrow> (Fail 400 msg, d) | None \<Rightarrow>
      if opt_any (cwTimezone req) (\<lambda>z. \<not> eLocation e z) then (Fail 400 ''Unknown timezone'', d)
      else if \<not> MaintenanceWindows (LimitsForPlan (monitorScopePlan e 3 d m userId))
      then (Fail 402 ''Maintenance windows require the ENTERPRISE plan.'', d)
      else (case write_at e 5 d (CreateMaintenanceWindow d (eDBNow e) (eID e) i req) of
              (Inl _, d') \<Rightarrow> (Fail 500 ''Failed to create maintenance window'', d')
            | (Inr w, d') \<Rightarrow> (Ok 201 w, d')))"

definition DeleteMaintenanceWindow_h ::
    "env \<Rightarrow> db \<Rightarrow> ident option \<Rightarrow> ident \<Rightarrow> ident \<Rightarrow> unit response \<times> db" where
  "DeleteMaintenanceWindow_h e d caller i windowId =
     (case writable_monitor e d caller i of Inl (code, msg) \<Rightarrow> (Fail code msg, d) | Inr _ \<Rightarrow>
      case write_at e 3 d (DeleteMaintenanceWindow d i windowId) of
        (Inl ErrNotFound, d') \<Rightarrow> (Fail 404 ''Maintenance window not found'', d')
      | (Inl _, d') \<Rightarrow> (Fail 500 ''Failed to delete maintenance window'', d')
      | (Inr _, d') \<Rightarrow> (Ok 204 (), d'))"

subsection \<open>Notification channels\<close>

definition workspaceChannelOwner ::
    "env \<Rightarrow> db \<Rightarrow> workspace \<Rightarrow> ident \<Rightarrow> (nat \<times> string) + ident" where
  "workspaceChannelOwner e d ws userId =
     (if \<not> IsOrg ws then Inr userId
      else (case read_at e 1 (GetOrganization d (wsOrgID ws)) of
              Inl _ \<Rightarrow> Inl (404, ''Organization not found'') | Inr og \<Rightarrow> Inr (oOwnerID og)))"

definition requireOwnChannels ::
    "env \<Rightarrow> db \<Rightarrow> workspace \<Rightarrow> ident \<Rightarrow> (nat \<times> string) option" where
  "requireOwnChannels e d ws userId =
     (case workspaceChannelOwner e d ws userId of
        Inl x \<Rightarrow> Some x
      | Inr owner \<Rightarrow>
          if owner \<noteq> userId then Some (403, ''Only the organization owner can change its integrations'')
          else None)"

definition maskChannelTarget :: "net_env \<Rightarrow> alert_channel \<Rightarrow> string \<Rightarrow> string" where
  "maskChannelTarget n channel target =
     (if channel = EMAIL then
        (let local = takeWhile (\<lambda>c. c \<noteq> CHR ''@'') target in
         if CHR ''@'' \<notin> set target \<or> local = [] then ''***''
         else [hd local] @ ''***@'' @ drop (length local + 1) target)
      else if channel = SMS \<or> channel = TELEGRAM then
        (if length target \<le> 4 then ''***'' else ''***'' @ drop (length target - 4) target)
      else (case nParseURL n target of
              None \<Rightarrow> ''***''
            | Some u \<Rightarrow> if uHost u = [] then ''***'' else uScheme u @ ''://'' @ uHost u @ ''/***''))"

text \<open>\<^verbatim>\<open>checkChannelRoom\<close>: the loop counts the other channels of the type and stops at a duplicate
  (\<open>None\<close>); then the plan's cap applies.\<close>

fun room_loop :: "alert_channel \<Rightarrow> string \<Rightarrow> ident \<Rightarrow> int \<Rightarrow> notification_channel list \<Rightarrow> int option" where
  "room_loop channel target skipID n [] = Some n"
| "room_loop channel target skipID n (ch # chs) =
     (if ncID ch = skipID \<or> ncChannel ch \<noteq> channel then room_loop channel target skipID n chs
      else if ncTarget ch = target then None
      else room_loop channel target skipID (n + 1) chs)"

definition channelCapStatus :: "int \<Rightarrow> nat" where
  "channelCapStatus m = (if m = 1 then 409 else 402)"

definition checkChannelRoom ::
    "notification_channel list \<Rightarrow> plan_limits \<Rightarrow> alert_channel \<Rightarrow> string \<Rightarrow> ident \<Rightarrow> (nat \<times> string) option" where
  "checkChannelRoom existing limits channel target skipID =
     (case MaxChannelsFor limits channel of (m, allowed) \<Rightarrow>
        if \<not> allowed then Some (402, ''The channel is not included in your plan. Upgrade to use it.'')
        else (case room_loop channel target skipID 0 existing of
                None \<Rightarrow> Some (409, ''That destination is already one of your integrations.'')
              | Some n \<Rightarrow>
                  if m \<noteq> Unlimited \<and> n \<ge> m
                  then Some (channelCapStatus m, ''integration limit reached'') else None))"

record create_channel_request =
  ccChannel :: alert_channel
  ccTarget :: string
  ccEnabled :: "bool option"

definition channel_binding :: "alert_channel \<Rightarrow> bool" where
  "channel_binding c \<longleftrightarrow> c \<in> {EMAIL, SMS, DISCORD, SLACK, TELEGRAM}"

text \<open>The checks of \<^verbatim>\<open>CreateNotificationChannel\<close>: the target, pinned to the account's address for
  EMAIL, or the response to stop with.\<close>

definition new_target ::
    "env \<Rightarrow> db \<Rightarrow> ident \<Rightarrow> create_channel_request \<Rightarrow> (nat \<times> string) + string" where
  "new_target e d userId req =
     (case (if ccChannel req = EMAIL then eEmail e userId else Some (ccTarget req)) of
        None \<Rightarrow> Inl (500, ''Failed to resolve account email'')
      | Some target \<Rightarrow>
          (case validateAlertTarget (eNet e) (ccChannel req) target of
             Some msg \<Rightarrow> Inl (400, msg)
           | None \<Rightarrow>
               (let limits = LimitsForPlan (planForUser e 2 d userId) in
                if \<not> ChannelAllowed limits (ccChannel req)
                then Inl (402, ''The channel is not included in your plan. Upgrade to use it.'')
                else (case read_at e 3 (Inr (ListNotificationChannels d userId)) of
                        Inl _ \<Rightarrow> Inl (500, ''Failed to check existing integrations'')
                      | Inr existing \<Rightarrow>
                          (case checkChannelRoom existing limits (ccChannel req) target [] of
                             Some x \<Rightarrow> Inl x | None \<Rightarrow> Inr target)))))"

definition CreateNotificationChannel_h ::
    "env \<Rightarrow> db \<Rightarrow> ident option \<Rightarrow> workspace \<Rightarrow> create_channel_request option \<Rightarrow>
     notification_channel response \<times> db" where
  "CreateNotificationChannel_h e d caller ws body =
     (case caller of None \<Rightarrow> (Fail 401 ''Unauthorized'', d) | Some userId \<Rightarrow>
      case requireOwnChannels e d ws userId of Some (code, msg) \<Rightarrow> (Fail code msg, d) | None \<Rightarrow>
      if \<not> opt_any body (\<lambda>r. channel_binding (ccChannel r)) then (Fail 400 ''invalid body'', d)
      else case new_target e d userId (the body) of Inl (code, msg) \<Rightarrow> (Fail code msg, d) | Inr target \<Rightarrow>
        (let req = the body; enabled = (case ccEnabled req of None \<Rightarrow> True | Some b \<Rightarrow> b) in
         case write_at e 4 d
                (CreateNotificationChannel d (eNow e) (eID e) userId (ccChannel req) target enabled) of
           (Inl ErrConflict, d') \<Rightarrow> (Fail 409 ''That destination is already one of your integrations.'', d')
         | (Inl _, d') \<Rightarrow> (Fail 500 ''Failed to create notification channel'', d')
         | (Inr nc, d') \<Rightarrow> (Ok 201 nc, d')))"

definition ListNotificationChannels_h ::
    "env \<Rightarrow> db \<Rightarrow> ident option \<Rightarrow> workspace \<Rightarrow> notification_channel list response" where
  "ListNotificationChannels_h e d caller ws =
     (case caller of None \<Rightarrow> Fail 401 ''Unauthorized'' | Some userId \<Rightarrow>
      case workspaceChannelOwner e d ws userId of Inl (code, msg) \<Rightarrow> Fail code msg | Inr owner \<Rightarrow>
      case read_at e 2 (Inr (ListNotificationChannels d owner)) of
        Inl _ \<Rightarrow> Fail 500 ''Failed to list notification channels''
      | Inr chs \<Rightarrow>
          Ok 200 (if owner \<noteq> userId
                  then map (\<lambda>nc. nc\<lparr>ncTarget := maskChannelTarget (eNet e) (ncChannel nc) (ncTarget nc)\<rparr>) chs
                  else chs))"

text \<open>The checks of \<^verbatim>\<open>UpdateNotificationChannel\<close> when the channel or the target changes: the
  request with its target pinned for EMAIL, or the response to stop with.\<close>

definition retarget ::
    "env \<Rightarrow> db \<Rightarrow> ident \<Rightarrow> ident \<Rightarrow> notification_channel \<Rightarrow> update_channel_request \<Rightarrow>
     (nat \<times> string) + update_channel_request" where
  "retarget e d userId i current req =
     (if ucTarget req = None \<and> ucChannel req = None then Inr req
      else
        (let ch = upd (ucChannel req) (ncChannel current) in
         case (if ch = EMAIL then map_option Some (eEmail e userId) else Some (ucTarget req)) of
           None \<Rightarrow> Inl (500, ''Failed to resolve account email'')
         | Some newTarget \<Rightarrow>
             (let req1 = req\<lparr>ucTarget := newTarget\<rparr>;
                  target = upd newTarget (ncTarget current)
              in case validateAlertTarget (eNet e) ch target of Some msg \<Rightarrow> Inl (400, msg) | None \<Rightarrow>
                 case read_at e 4 (Inr (ListNotificationChannels d userId)) of
                   Inl _ \<Rightarrow> Inl (500, ''Failed to check existing integrations'')
                 | Inr existing \<Rightarrow>
                     (case checkChannelRoom existing (LimitsForPlan (planForUser e 5 d userId)) ch target i of
                        Some x \<Rightarrow> Inl x | None \<Rightarrow> Inr req1))))"

definition UpdateNotificationChannel_h ::
    "env \<Rightarrow> db \<Rightarrow> ident option \<Rightarrow> workspace \<Rightarrow> ident \<Rightarrow> update_channel_request option \<Rightarrow>
     notification_channel response \<times> db" where
  "UpdateNotificationChannel_h e d caller ws i body =
     (case caller of None \<Rightarrow> (Fail 401 ''Unauthorized'', d) | Some userId \<Rightarrow>
      case requireOwnChannels e d ws userId of Some (code, msg) \<Rightarrow> (Fail code msg, d) | None \<Rightarrow>
      if \<not> opt_any body (\<lambda>r. ucChannel r = None \<or> opt_any (ucChannel r) channel_binding)
      then (Fail 400 ''invalid body'', d)
      else
        (let req = the body in
         if ucChannel req = None \<and> ucTarget req = None \<and> ucEnabled req = None
         then (Fail 400 ''No fields to update'', d)
         else case read_at e 2 (GetNotificationChannel d i userId) of
           Inl _ \<Rightarrow> (Fail 404 ''Notification channel not found'', d)
         | Inr current \<Rightarrow>
             if opt_any (ucChannel req) (\<lambda>c. c \<noteq> ncChannel current \<and>
                  \<not> ChannelAllowed (LimitsForPlan (planForUser e 3 d userId)) c)
             then (Fail 402 ''The channel is not included in your plan. Upgrade to use it.'', d)
             else case retarget e d userId i current req of Inl (code, msg) \<Rightarrow> (Fail code msg, d) | Inr req1 \<Rightarrow>
             case write_at e 6 d (UpdateNotificationChannel d (eNow e) i userId req1) of
               (Inl ErrConflict, d') \<Rightarrow> (Fail 409 ''That destination is already one of your integrations.'', d')
             | (Inl _, d') \<Rightarrow> (Fail 500 ''Failed to update notification channel'', d')
             | (Inr nc, d') \<Rightarrow> (Ok 200 nc, d')))"

definition DeleteNotificationChannel_h ::
    "env \<Rightarrow> db \<Rightarrow> ident option \<Rightarrow> workspace \<Rightarrow> ident \<Rightarrow> unit response \<times> db" where
  "DeleteNotificationChannel_h e d caller ws i =
     (case caller of None \<Rightarrow> (Fail 401 ''Unauthorized'', d) | Some userId \<Rightarrow>
      case requireOwnChannels e d ws userId of Some (code, msg) \<Rightarrow> (Fail code msg, d) | None \<Rightarrow>
      case write_at e 2 d (DeleteNotificationChannel d i userId) of
        (Inl ErrNotFound, d') \<Rightarrow> (Fail 404 ''Notification channel not found'', d')
      | (Inl _, d') \<Rightarrow> (Fail 500 ''Failed to delete notification channel'', d')
      | (Inr _, d') \<Rightarrow> (Ok 204 (), d'))"

subsection \<open>Per-monitor overrides\<close>

definition monitorChannelOwner ::
    "env \<Rightarrow> db \<Rightarrow> ident \<Rightarrow> ident \<Rightarrow> store_error + (monitor \<times> ident)" where
  "monitorChannelOwner e d i userId =
     (case read_at e 1 (GetMonitor d i userId) of Inl x \<Rightarrow> Inl x | Inr m \<Rightarrow>
      case mOrgID m of
        None \<Rightarrow> Inr (m, userId)
      | Some orgId \<Rightarrow>
          (case read_at e 2 (GetOrganization d orgId) of Inl x \<Rightarrow> Inl x | Inr og \<Rightarrow> Inr (m, oOwnerID og)))"

record monitor_channel_state =
  msChannel :: notification_channel
  msOverridden :: bool
  msEffectiveEnabled :: bool

definition ListMonitorChannels ::
    "env \<Rightarrow> db \<Rightarrow> ident option \<Rightarrow> ident \<Rightarrow> monitor_channel_state list response" where
  "ListMonitorChannels e d caller i =
     (case caller of None \<Rightarrow> Fail 401 ''Unauthorized'' | Some userId \<Rightarrow>
      case monitorChannelOwner e d i userId of Inl _ \<Rightarrow> Fail 404 ''Monitor not found'' | Inr (_, owner) \<Rightarrow>
      case read_at e 3 (Inr (ListNotificationChannels d owner)) of
        Inl _ \<Rightarrow> Fail 500 ''Failed to list channels''
      | Inr chs \<Rightarrow>
          (case read_at e 4 (Inr (ListMonitorChannelSettings d i)) of
             Inl _ \<Rightarrow> Fail 500 ''Failed to list channel settings''
           | Inr sets \<Rightarrow>
               (let overrides = map_of (rev (map (\<lambda>s. (mcsChannelID s, mcsEnabled s)) sets)) in
                Ok 200 (map (\<lambda>ch. \<lparr>msChannel = ch, msOverridden = (overrides (ncID ch) \<noteq> None),
                                   msEffectiveEnabled = (case overrides (ncID ch) of
                                      Some b \<Rightarrow> b | None \<Rightarrow> ncEnabled ch)\<rparr>) chs))))"

definition SetMonitorChannel ::
    "env \<Rightarrow> db \<Rightarrow> ident option \<Rightarrow> ident \<Rightarrow> ident \<Rightarrow> bool option \<Rightarrow> monitor_channel_setting response \<times> db" where
  "SetMonitorChannel e d caller i channelID body =
     (case caller of None \<Rightarrow> (Fail 401 ''Unauthorized'', d) | Some userId \<Rightarrow>
      case body of None \<Rightarrow> (Fail 400 ''invalid body'', d) | Some enabled \<Rightarrow>
      case monitorChannelOwner e d i userId of Inl _ \<Rightarrow> (Fail 404 ''Monitor not found'', d) | Inr (m, owner) \<Rightarrow>
      if \<not> requireMonitorWrite e 3 d m userId
      then (Fail 403 ''Viewers can't change organization monitors'', d)
      else case read_at e 4 (GetNotificationChannel d channelID owner) of
             Inl _ \<Rightarrow> (Fail 404 ''Notification channel not found'', d)
           | Inr _ \<Rightarrow>
               (case write_at e 5 d (UpsertMonitorChannelSetting d (eID e) i channelID enabled) of
                  (Inl _, d') \<Rightarrow> (Fail 500 ''Failed to update channel setting'', d')
                | (Inr s, d') \<Rightarrow> (Ok 200 s, d')))"

definition DeleteMonitorChannel ::
    "env \<Rightarrow> db \<Rightarrow> ident option \<Rightarrow> ident \<Rightarrow> ident \<Rightarrow> unit response \<times> db" where
  "DeleteMonitorChannel e d caller i channelID =
     (case caller of None \<Rightarrow> (Fail 401 ''Unauthorized'', d) | Some userId \<Rightarrow>
      case monitorChannelOwner e d i userId of Inl _ \<Rightarrow> (Fail 404 ''Monitor not found'', d) | Inr (m, _) \<Rightarrow>
      if \<not> requireMonitorWrite e 3 d m userId
      then (Fail 403 ''Viewers can't change organization monitors'', d)
      else (case write_at e 4 d (DeleteMonitorChannelSetting d i channelID) of
              (Inl _, d') \<Rightarrow> (Fail 500 ''Failed to remove channel setting'', d')
            | (Inr _, d') \<Rightarrow> (Ok 204 (), d')))"

end
