(* ===== verification/Api.thy ===== *)
theory Api
  imports MonitorApi
begin

section \<open>The API as a state machine\<close>

text \<open>
  The routes of \<^verbatim>\<open>internal/api/router.go\<close> that write, each behind the middleware the router
  attaches to it: a request, run by a caller in an environment, takes the database to the next
  one. What holds in every reachable database: the schema, and who owns which organization.
\<close>

datatype request =
    PostOrganization "string option"
  | PutOrganization ident "string option option"
  | DeleteOrganizationR ident
  | PutMember ident ident "org_role option"
  | DeleteMember ident ident
  | PostInvitation ident "invite_request option"
  | DeleteInvitation ident ident
  | PostAccept string
  | PostRecipient ident "(alert_channel \<times> string) option"
  | DeleteRecipient ident ident
  | PostMonitor string "create_monitor_request option"
  | PutMonitor ident "update_monitor_request option"
  | DeleteMonitorR ident
  | PostWindow ident "create_window_request option"
  | DeleteWindow ident ident
  | PostChannel string "create_channel_request option"
  | PutChannel string ident "update_channel_request option"
  | DeleteChannel string ident
  | PutMonitorChannel ident ident "bool option"
  | DeleteMonitorChannelR ident ident

definition answer :: "'a response \<times> db \<Rightarrow> nat \<times> db" where
  "answer r = (resp_status (fst r), snd r)"

definition with_role ::
    "env \<Rightarrow> db \<Rightarrow> org_role \<Rightarrow> ident option \<Rightarrow> ident \<Rightarrow> (ident \<Rightarrow> nat \<times> db) \<Rightarrow> nat \<times> db" where
  "with_role e d role caller orgParam k =
     (case RequireOrgRole e d role caller orgParam of
        Inl (code, _) \<Rightarrow> (code, d) | Inr (orgId, _) \<Rightarrow> k orgId)"

definition with_workspace ::
    "env \<Rightarrow> db \<Rightarrow> ident option \<Rightarrow> string \<Rightarrow> (workspace \<Rightarrow> nat \<times> db) \<Rightarrow> nat \<times> db" where
  "with_workspace e d caller header k =
     (case ResolveWorkspace e d caller header of Inl (code, _) \<Rightarrow> (code, d) | Inr ws \<Rightarrow> k ws)"

fun api :: "env \<Rightarrow> ident option \<Rightarrow> request \<Rightarrow> db \<Rightarrow> nat \<times> db" where
  "api e c (PostOrganization b) d = answer (CreateOrg e d c b)"
| "api e c (PutOrganization i b) d = with_role e d ADMIN c i (\<lambda>g. answer (UpdateOrg e d g b))"
| "api e c (DeleteOrganizationR i) d = with_role e d OWNER c i (\<lambda>g. answer (DeleteOrg e d g))"
| "api e c (PutMember i u b) d = with_role e d ADMIN c i (\<lambda>g. answer (UpdateMemberRole_h e d g u b))"
| "api e c (DeleteMember i u) d = with_role e d MEMBER c i (\<lambda>g. answer (RemoveMember_h e d c g u))"
| "api e c (PostInvitation i b) d =
     with_role e d ADMIN c i (\<lambda>g. answer (CreateInvitation_h e d (the c) g b))"
| "api e c (DeleteInvitation i v) d = with_role e d ADMIN c i (\<lambda>g. answer (RevokeInvitation_h e d g v))"
| "api e c (PostAccept t) d = answer (AcceptInvitation_h e d c t)"
| "api e c (PostRecipient i b) d = with_role e d ADMIN c i (\<lambda>g. answer (CreateOrgAlertRecipient_h e d g b))"
| "api e c (DeleteRecipient i r) d = with_role e d ADMIN c i (\<lambda>g. answer (DeleteOrgAlertRecipient_h e d g r))"
| "api e c (PostMonitor h b) d = with_workspace e d c h (\<lambda>ws. answer (CreateMonitor_h e d c ws b))"
| "api e c (PutMonitor i b) d = answer (UpdateMonitor_h e d c i b)"
| "api e c (DeleteMonitorR i) d = answer (DeleteMonitor_h e d c i)"
| "api e c (PostWindow i b) d = answer (CreateMaintenanceWindow_h e d c i b)"
| "api e c (DeleteWindow i w) d = answer (DeleteMaintenanceWindow_h e d c i w)"
| "api e c (PostChannel h b) d = with_workspace e d c h (\<lambda>ws. answer (CreateNotificationChannel_h e d c ws b))"
| "api e c (PutChannel h i b) d = with_workspace e d c h (\<lambda>ws. answer (UpdateNotificationChannel_h e d c ws i b))"
| "api e c (DeleteChannel h i) d = with_workspace e d c h (\<lambda>ws. answer (DeleteNotificationChannel_h e d c ws i))"
| "api e c (PutMonitorChannel i ch b) d = answer (SetMonitorChannel e d c i ch b)"
| "api e c (DeleteMonitorChannelR i ch) d = answer (DeleteMonitorChannel e d c i ch)"

inductive reachable :: "db \<Rightarrow> bool" where
  start: "reachable empty_db"
| step: "reachable d \<Longrightarrow> reachable (snd (api e c r d))"
| billing: "reachable d \<Longrightarrow> reachable (snd (UpsertSubscription d now i p))"
| reconcile: "reachable d \<Longrightarrow> reachable (snd (snd (ReconcileMonitorsToPlan d now fails u old new)))"

subsection \<open>What a handler does to the database\<close>

definition db_ok :: "db \<Rightarrow> bool" where
  "db_ok d \<longleftrightarrow> schema_ok d \<and> roles_ok d"

lemmas write_defs = write_at_def attempt_def

lemma CreateOrg_db:
  "snd (CreateOrg e d c b) \<in> {d, snd (CreateOrganization d (eNow e) (eID e) (eID2 e) (the c) (the b))}"
  by (auto simp: CreateOrg_def write_defs split: option.split sum.split prod.split store_error.split)

lemma UpdateOrg_db:
  "snd (UpdateOrg e d g b) \<in> {d, snd (UpdateOrganization d (eNow e) g (the b))}"
  by (auto simp: UpdateOrg_def write_defs split: option.split sum.split prod.split store_error.split)

lemma DeleteOrg_db: "snd (DeleteOrg e d g) \<in> {d, snd (DeleteOrganization d g)}"
  by (auto simp: DeleteOrg_def write_defs split: sum.split prod.split)

lemma UpdateMemberRole_db:
  "snd (UpdateMemberRole_h e d g u b) = d \<or>
   (\<exists>om. select_member d g u = Some om \<and> omRole om \<noteq> OWNER \<and> the b \<noteq> OWNER \<and>
     snd (UpdateMemberRole_h e d g u b) = snd (UpdateMemberRole d g u (the b)))"
  by (auto simp: UpdateMemberRole_h_def write_defs read_at_def attempt_read_def GetMembership_def
      opt_any_iff org_role_binding_def split: option.splits sum.splits prod.splits)

lemma RemoveMember_db:
  "snd (RemoveMember_h e d c g u) = d \<or>
   (\<exists>om. select_member d g u = Some om \<and> omRole om \<noteq> OWNER \<and>
     snd (RemoveMember_h e d c g u) = snd (RemoveMember d g u))"
  by (auto simp: RemoveMember_h_def write_defs read_at_def attempt_read_def GetMembership_def
      split: option.splits sum.splits prod.splits)

lemma RevokeInvitation_db: "snd (RevokeInvitation_h e d g v) \<in> {d, snd (RevokeInvitation d v)}"
  by (auto simp: RevokeInvitation_h_def write_defs split: sum.split prod.split)

lemma CreateRecipient_db:
  "snd (CreateOrgAlertRecipient_h e d g b) \<in>
     {d, snd (CreateOrgAlertRecipient d (eDBNow e) (eID e) g (fst (the b)) (snd (the b)))}"
  by (auto simp: CreateOrgAlertRecipient_h_def write_defs Let_def
      split: option.split sum.split prod.split store_error.split)

lemma DeleteRecipient_db:
  "snd (DeleteOrgAlertRecipient_h e d g i) \<in> {d, snd (DeleteOrgAlertRecipient d g i)}"
  by (auto simp: DeleteOrgAlertRecipient_h_def write_defs split: sum.split prod.split store_error.split)

lemma DeleteMonitor_db:
  "snd (DeleteMonitor_h e d c i) = d \<or> (\<exists>u. snd (DeleteMonitor_h e d c i) = snd (DeleteMonitor d i u))"
  by (auto simp: DeleteMonitor_h_def write_defs split: sum.split prod.split) (metis snd_conv)+

lemma DeleteWindow_db:
  "snd (DeleteMaintenanceWindow_h e d c i w) \<in> {d, snd (DeleteMaintenanceWindow d i w)}"
  by (auto simp: DeleteMaintenanceWindow_h_def write_defs split: sum.split prod.split store_error.split)

lemma CreateWindow_db:
  "snd (CreateMaintenanceWindow_h e d c i b) \<in> {d, snd (CreateMaintenanceWindow d (eDBNow e) (eID e) i (the b))}"
  by (auto simp: CreateMaintenanceWindow_h_def write_defs split: option.split sum.split prod.split)

lemma UpdateMonitor_db:
  "snd (UpdateMonitor_h e d c i b) = d \<or>
   (\<exists>u r. snd (UpdateMonitor_h e d c i b) = snd (UpdateMonitor d (eNow e) i u r))"
  by (auto simp: UpdateMonitor_h_def write_defs split: option.split sum.split prod.split store_error.split) (metis snd_conv)+

lemma DeleteChannel_db:
  "snd (DeleteNotificationChannel_h e d c ws i) \<in> {d, snd (DeleteNotificationChannel d i (the c))}"
  by (auto simp: DeleteNotificationChannel_h_def write_defs
      split: option.split sum.split prod.split store_error.split)

lemma UpdateChannel_db:
  "snd (UpdateNotificationChannel_h e d c ws i b) = d \<or>
   (\<exists>r. snd (UpdateNotificationChannel_h e d c ws i b) = snd (UpdateNotificationChannel d (eNow e) i (the c) r))"
  by (auto simp: UpdateNotificationChannel_h_def write_defs Let_def
      split: option.split sum.split prod.split store_error.split) (metis snd_conv)+

lemma CreateChannel_db:
  "snd (CreateNotificationChannel_h e d c ws b) = d \<or>
   (\<exists>k t b'. snd (CreateNotificationChannel_h e d c ws b) =
      snd (CreateNotificationChannel d (eNow e) (eID e) (the c) k t b'))"
  by (auto simp: CreateNotificationChannel_h_def write_defs Let_def
      split: option.split sum.split prod.split store_error.split) (metis snd_conv)+

lemma SetMonitorChannel_db:
  "snd (SetMonitorChannel e d c i ch b) \<in> {d, snd (UpsertMonitorChannelSetting d (eID e) i ch (the b))}"
  by (auto simp: SetMonitorChannel_def write_defs split: option.split sum.split prod.split)

lemma DeleteMonitorChannel_db:
  "snd (DeleteMonitorChannel e d c i ch) \<in> {d, snd (DeleteMonitorChannelSetting d i ch)}"
  by (auto simp: DeleteMonitorChannel_def write_defs split: option.split sum.split prod.split)

lemma AcceptInvitation_db:
  "snd (AcceptInvitation_h e d c t) = d \<or>
   (\<exists>n. snd (AcceptInvitation_h e d c t) = snd (AcceptInvitation d (eDBNow e) (eID e) (eHash e t) (the c) n))"
  by (auto simp: AcceptInvitation_h_def write_defs Let_def
      split: option.split sum.split prod.split store_error.split) (metis snd_conv)+

lemma store_monitor_db:
  "snd (store_monitor e d u p x) = d \<or>
   snd (store_monitor e d u p x) = snd (CreateMonitor d (eNow e) (eID e) p) \<or>
   (\<exists>i r. snd (store_monitor e d u p x) =
      snd (UpdateMonitor (snd (CreateMonitor d (eNow e) (eID e) p)) (eNow e) i u r))"
  by (auto simp: store_monitor_def write_defs split: option.split sum.split prod.split store_error.split)
    (metis snd_conv)+

lemma CreateMonitor_db:
  "snd (CreateMonitor_h e d c ws b) = d \<or>
   (\<exists>u p x. snd (CreateMonitor_h e d c ws b) = snd (store_monitor e d u p x))"
  by (auto simp: CreateMonitor_h_def Let_def split: option.split sum.split prod.split)

subsection \<open>The invariant\<close>

definition same_orgs :: "db \<Rightarrow> db \<Rightarrow> bool" where
  "same_orgs d d' \<longleftrightarrow> organizations d' = organizations d \<and> members d' = members d \<and>
     invitations d' = invitations d"

lemma roles_same: "same_orgs d d' \<Longrightarrow> roles_ok d \<Longrightarrow> roles_ok d'"
  by (simp add: same_orgs_def roles_ok_def)

lemma monitor_methods_frame:
  "same_orgs d (snd (CreateMonitor d now i p))" "same_orgs d (snd (UpdateMonitor d now i u r))"
  "same_orgs d (snd (DeleteMonitor d i u))" "same_orgs d (snd (CreateMaintenanceWindow d now i m w))"
  "same_orgs d (snd (DeleteMaintenanceWindow d i v))"
  by (auto simp: same_orgs_def CreateMonitor_def UpdateMonitor_def DeleteMonitor_def Let_def
      CreateMaintenanceWindow_def DeleteMaintenanceWindow_def split: option.split)

lemma channel_methods_frame:
  "same_orgs d (snd (CreateNotificationChannel d now i u c t e))"
  "same_orgs d (snd (UpdateNotificationChannel d now i u r))"
  "same_orgs d (snd (DeleteNotificationChannel d i u))"
  "same_orgs d (snd (UpsertMonitorChannelSetting d i m k e))"
  "same_orgs d (snd (DeleteMonitorChannelSetting d m k))"
  by (auto simp: same_orgs_def CreateNotificationChannel_def UpdateNotificationChannel_def Let_def
      DeleteNotificationChannel_def UpsertMonitorChannelSetting_def DeleteMonitorChannelSetting_def
      split: option.split)

lemma account_methods_frame:
  "same_orgs d (snd (UpsertSubscription d now i p))"
  "same_orgs d (snd (CreateOrgAlertRecipient d now i g c t))"
  "same_orgs d (snd (DeleteOrgAlertRecipient d g i))"
  by (auto simp: same_orgs_def UpsertSubscription_def CreateOrgAlertRecipient_def Let_def
      DeleteOrgAlertRecipient_def split: option.split)

lemma rec_step_frame:
  "same_orgs d (snd (snd st)) \<Longrightarrow> same_orgs d (snd (snd (rec_step fails i g u P f st)))"
  by (auto simp: same_orgs_def rec_step_def scoped_update_def split: prod.split)

lemma rec_regions_frame:
  "same_orgs d (snd (snd st)) \<Longrightarrow> same_orgs d (snd (snd (rec_regions fails now u n st)))"
  by (auto simp: same_orgs_def rec_regions_def scoped_update_def clean_region_status_def split: prod.split)

lemma reconcile_frame: "same_orgs d (snd (snd (ReconcileMonitorsToPlan d now fails u old new)))"
  unfolding ReconcileMonitorsToPlan_def Let_def
  by (intro rec_step_frame rec_regions_frame) (simp add: same_orgs_def)

lemmas frames = monitor_methods_frame channel_methods_frame account_methods_frame

lemma db_ok_schema: "db_ok d \<Longrightarrow> schema_ok d"
  by (simp add: db_ok_def)

lemma db_ok_frame: "db_ok d \<Longrightarrow> schema_ok d' \<Longrightarrow> same_orgs d d' \<Longrightarrow> db_ok d'"
  by (auto simp: db_ok_def intro: roles_same)

lemma db_ok_monitor_methods [inv_intros]:
  assumes "db_ok d"
  shows "db_ok (snd (CreateMonitor d now i p))" "db_ok (snd (UpdateMonitor d now i u r))"
    "db_ok (snd (DeleteMonitor d i u))" "db_ok (snd (CreateMaintenanceWindow d now i m w))"
    "db_ok (snd (DeleteMaintenanceWindow d i v))"
  by (intro db_ok_frame [OF assms] frames create_monitor.keeps update_monitor.keeps
      delete_monitor.keeps create_window.keeps delete_window.keeps db_ok_schema [OF assms])+

lemma db_ok_channel_methods [inv_intros]:
  assumes "db_ok d"
  shows "db_ok (snd (CreateNotificationChannel d now i u c t e))"
    "db_ok (snd (UpdateNotificationChannel d now i u r))" "db_ok (snd (DeleteNotificationChannel d i u))"
    "db_ok (snd (UpsertMonitorChannelSetting d i m k b))" "db_ok (snd (DeleteMonitorChannelSetting d m k))"
  by (intro db_ok_frame [OF assms] frames create_channel.keeps update_channel.keeps
      delete_channel.keeps upsert_setting.keeps delete_setting.keeps db_ok_schema [OF assms])+

lemma db_ok_account_methods [inv_intros]:
  assumes "db_ok d"
  shows "db_ok (snd (UpsertSubscription d now i p))" "db_ok (snd (CreateOrgAlertRecipient d now i g c t))"
    "db_ok (snd (DeleteOrgAlertRecipient d g i))"
    "db_ok (snd (snd (ReconcileMonitorsToPlan d now fails u old new)))"
  by (intro db_ok_frame [OF assms] frames reconcile_frame upsert_subscription.keeps
      create_recipient.keeps delete_recipient.keeps schema_Reconcile db_ok_schema [OF assms])+

lemma db_ok_org_methods [inv_intros]:
  assumes "db_ok d"
  shows "db_ok (snd (CreateOrganization d now i j u n))" "db_ok (snd (UpdateOrganization d now i r))"
    "db_ok (snd (DeleteOrganization d i))" "db_ok (snd (RevokeInvitation d i))"
    "db_ok (snd (AcceptInvitation d now i t u k))"
  using assms create_org.keeps update_org.keeps delete_org.keeps revoke_invitation.keeps
    accept_invitation.keeps roles_CreateOrganization roles_UpdateOrganization
    roles_DeleteOrganization roles_RevokeInvitation roles_AcceptInvitation
  by (auto simp: db_ok_def)

lemma db_ok_UpdateMemberRole: "db_ok d \<Longrightarrow> db_ok (snd (UpdateMemberRole_h e d g u b))"
  using UpdateMemberRole_db [of e d g u b] roles_UpdateMemberRole [of d g u _ "the b"]
    update_role.keeps [of d g u "the b"] by (auto simp: db_ok_def)

lemma db_ok_RemoveMember: "db_ok d \<Longrightarrow> db_ok (snd (RemoveMember_h e d c g u))"
  using RemoveMember_db [of e d c g u] roles_RemoveMember [of d g u] remove_member.keeps [of d g u]
  by (auto simp: db_ok_def)

lemma db_ok_CreateInvitation:
  assumes "db_ok d"
  shows "db_ok (snd (CreateInvitation_h e d u g b))"
proof (cases "opt_any b (\<lambda>r. eEmailTag e (irEmail r) \<and> org_role_binding (irRole r))")
  case False
  then show ?thesis using assms by (simp add: CreateInvitation_h_def)
next
  case True
  then obtain r where b: "b = Some r" "org_role_binding (irRole r)" by (auto simp: opt_any_iff)
  let ?vs = "case read_at e 1 (Inr (ListInvitations d g)) of Inl _ \<Rightarrow> [] | Inr vs \<Rightarrow> vs"
  obtain x d1 where loop: "supersede_loop e (ToLower (TrimSpace (irEmail r))) 0 ?vs d = (x, d1)"
    by fastforce
  have d1: "db_ok d1"
    using assms supersede_schema [of d e "ToLower (TrimSpace (irEmail r))" 0 ?vs]
      supersede_roles [of d e "ToLower (TrimSpace (irEmail r))" 0 ?vs] loop by (simp add: db_ok_def)
  have "db_ok (snd (CreateInvitation d1 now i g m w (irRole r) t y))" for now i m w t y
    using d1 create_invitation.keeps roles_CreateInvitation b(2) by (simp add: db_ok_def)
  then have "db_ok d2" if "CreateInvitation d1 now i g m w (irRole r) t y = (z, d2)" for now i m w t y z d2
    using that by (metis snd_conv)
  then show ?thesis
    using True b d1 loop
    by (auto simp: CreateInvitation_h_def write_defs Let_def split: option.split sum.split prod.split)
qed

lemma db_ok_with_role:
  "db_ok d \<Longrightarrow> (\<And>g. db_ok (snd (k g))) \<Longrightarrow> db_ok (snd (with_role e d role c i k))"
  by (auto simp: with_role_def split: sum.split prod.split)

lemma db_ok_with_workspace:
  "db_ok d \<Longrightarrow> (\<And>ws. db_ok (snd (k ws))) \<Longrightarrow> db_ok (snd (with_workspace e d c h k))"
  by (auto simp: with_workspace_def split: sum.split prod.split)

lemma in_pair_ok: "x \<in> {a, b} \<Longrightarrow> db_ok a \<Longrightarrow> db_ok b \<Longrightarrow> db_ok x"
  by auto

lemma snd_answer [simp]: "snd (answer r) = snd r"
  by (simp add: answer_def)

lemma db_ok_CreateMonitor: "db_ok d \<Longrightarrow> db_ok (snd (CreateMonitor_h e d c ws b))"
proof -
  assume ok: "db_ok d"
  have "db_ok (snd (store_monitor e d u p x))" for u p x
    using store_monitor_db [of e d u p x] ok by (auto intro!: inv_intros)
  then show ?thesis using CreateMonitor_db [of e d c ws b] ok by auto
qed

lemma db_ok_org_handlers:
  assumes "db_ok d"
  shows "db_ok (snd (CreateOrg e d c b))" "db_ok (snd (UpdateOrg e d g b'))" "db_ok (snd (DeleteOrg e d g))"
    "db_ok (snd (RevokeInvitation_h e d g v))" "db_ok (snd (CreateOrgAlertRecipient_h e d g b''))"
    "db_ok (snd (DeleteOrgAlertRecipient_h e d g v))"
  by (rule in_pair_ok [OF CreateOrg_db] in_pair_ok [OF UpdateOrg_db] in_pair_ok [OF DeleteOrg_db]
      in_pair_ok [OF RevokeInvitation_db] in_pair_ok [OF CreateRecipient_db]
      in_pair_ok [OF DeleteRecipient_db]; intro inv_intros assms)+

lemma db_ok_pair_handlers:
  assumes "db_ok d"
  shows "db_ok (snd (DeleteMaintenanceWindow_h e d c i w))" "db_ok (snd (CreateMaintenanceWindow_h e d c i b))"
    "db_ok (snd (DeleteNotificationChannel_h e d c ws i))" "db_ok (snd (SetMonitorChannel e d c i k b'))"
    "db_ok (snd (DeleteMonitorChannel e d c i k))"
  by (rule in_pair_ok [OF DeleteWindow_db] in_pair_ok [OF CreateWindow_db] in_pair_ok [OF DeleteChannel_db]
      in_pair_ok [OF SetMonitorChannel_db] in_pair_ok [OF DeleteMonitorChannel_db]; intro inv_intros assms)+

lemma db_ok_ex_handlers:
  assumes "db_ok d"
  shows "db_ok (snd (UpdateMonitor_h e d c i b))" "db_ok (snd (DeleteMonitor_h e d c i))"
    "db_ok (snd (UpdateNotificationChannel_h e d c ws i b'))" "db_ok (snd (CreateNotificationChannel_h e d c ws b''))"
    "db_ok (snd (AcceptInvitation_h e d c t))"
  using UpdateMonitor_db [of e d c i b] DeleteMonitor_db [of e d c i] UpdateChannel_db [of e d c ws i b']
    CreateChannel_db [of e d c ws b''] AcceptInvitation_db [of e d c t] assms
  by (auto intro!: inv_intros)

lemma db_ok_api: "db_ok d \<Longrightarrow> db_ok (snd (api e c r d))"
  by (cases r) (auto intro!: db_ok_with_role db_ok_with_workspace db_ok_org_handlers db_ok_pair_handlers
      db_ok_ex_handlers db_ok_UpdateMemberRole db_ok_RemoveMember db_ok_CreateInvitation db_ok_CreateMonitor)

lemma db_ok_empty: "db_ok empty_db"
  by (simp add: db_ok_def schema_empty) (simp add: roles_ok_def empty_db_def)

text \<open>C1: in every database the service can reach, by any sequence of requests of any callers with
  any store failures, interleaved with subscription updates and plan reconciliations, the schema
  holds, every organization has its owner as an OWNER member, and no one else holds that role;
  so no request can take an organization over or leave it without its owner.\<close>

theorem reachable_ownership:
  assumes "reachable d"
  shows "schema_ok d
    \<and> (\<forall>og \<in> set (organizations d). \<exists>om \<in> set (members d).
         omOrgID om = oID og \<and> omUserID om = oOwnerID og \<and> omRole om = OWNER)
    \<and> (\<forall>om \<in> set (members d). omRole om = OWNER \<longrightarrow> org_owner d (omOrgID om) = Some (omUserID om))"
proof -
  have ok: "db_ok d"
    using assms by (induction rule: reachable.induct) (auto intro: db_ok_empty db_ok_api inv_intros)
  then have sch: "schema_ok d" by (rule db_ok_schema)
  have "org_owner d (omOrgID om) = Some (omUserID om)" if "om \<in> set (members d)" "omRole om = OWNER" for om
  proof -
    from ok that obtain og where "og \<in> set (organizations d)" "oID og = omOrgID om" "oOwnerID og = omUserID om"
      by (auto simp: db_ok_def roles_ok_def)
    then show ?thesis using owns_org_iff [OF sch, of "omOrgID om" "omUserID om"]
      by (auto simp: owns_org_def list_ex_iff)
  qed
  with ok sch show ?thesis by (auto simp: db_ok_def roles_ok_def)
qed

definition enterprise_params :: upsert_params where
  "enterprise_params = \<lparr>upUserID = ''owner'', upPlan = ''ENTERPRISE'', upStatus = ACTIVE,
     upStripeCustomerID = Some ''cus_1'', upStripeSubscriptionID = None, upStripePriceID = None,
     upCurrentPeriodStart = None, upCurrentPeriodEnd = None, upCancelAtPeriodEnd = False\<rparr>"

definition founded_db :: db where
  "founded_db = snd (api sample_env (Some ''owner'') (PostOrganization (Some ''Acme''))
     (snd (UpsertSubscription empty_db 1 ''s1'' enterprise_params)))"

lemma founded_members:
  "members founded_db = [\<lparr>omID = ''new2'', omOrgID = ''new1'', omUserID = ''owner'', omRole = OWNER,
     omCreatedAt = 10\<rparr>]"
  by (simp add: founded_db_def answer_def CreateOrg_def org_name_binding_def rune_count_def planForUser_def read_at_def
      attempt_read_def write_defs sample_env_def GetSubscriptionByUser_def UpsertSubscription_def empty_db_def
      enterprise_params_def new_subscription_def customer_taken_def effectivePlan_def ListOrganizations_def
      CreateOrganization_def Let_def)

theorem reachable_ownership_witness:
  "schema_ok founded_db \<and> org_owner founded_db ''new1'' = Some ''owner''"
proof -
  have "reachable founded_db"
    unfolding founded_db_def by (intro reachable.step reachable.billing reachable.start)
  from reachable_ownership [OF this] show ?thesis by (simp add: founded_members)
qed

end
