(* ===== verification/BillingLaws.thy ===== *)
theory BillingLaws
  imports Billing Api
begin

section \<open>Laws of the billing handlers\<close>

text \<open>
  Every write that can move an entitlement keeps the monitors inside the plan that is read for
  them, repeated deliveries of a webhook change nothing further, and the handlers stay inside the
  states that theory \<open>Api\<close> reaches. Where the handlers grant or lose something on the way, the
  theorem says so.
\<close>

subsection \<open>One subscription write\<close>

lemma upsert_Inr:
  assumes "UpsertSubscription d now i p = (Inr s, d1)"
  shows "find_subscription d1 u = (if u = upUserID p then Some s else find_subscription d u)"
    and "d1\<lparr>subscriptions := []\<rparr> = d\<lparr>subscriptions := []\<rparr>"
    and "sPlan s = upPlan p" "sStatus s = upStatus p" "sCancelAtPeriodEnd s = upCancelAtPeriodEnd p"
      "sUserID s = upUserID p"
proof -
  have put: "(case (now, i, p) of (now, i, p) \<Rightarrow> \<lambda>u d. UpsertSubscription d now i (p\<lparr>upUserID := u\<rparr>))
      (upUserID p) d = (Inr s, d1)" using assms by simp
  show "find_subscription d1 u = (if u = upUserID p then Some s else find_subscription d u)"
    using subs.get_same [OF put] subs.get_other [of u "upUserID p" "(now, i, p)" d] put by auto
  show "d1\<lparr>subscriptions := []\<rparr> = d\<lparr>subscriptions := []\<rparr>"
    using assms by (auto simp: UpsertSubscription_def Let_def split: option.splits if_splits)
  show "sPlan s = upPlan p" "sStatus s = upStatus p" "sCancelAtPeriodEnd s = upCancelAtPeriodEnd p"
      "sUserID s = upUserID p"
    using assms by (auto simp: UpsertSubscription_def Let_def merge_subscription_def new_subscription_def
        split: option.splits if_splits dest: find_SomeD)
qed

lemma upsert_frame:
  assumes "d1\<lparr>subscriptions := []\<rparr> = d\<lparr>subscriptions := []\<rparr>"
  shows "monitors d1 = monitors d" "organizations d1 = organizations d" "region_status d1 = region_status d"
  using arg_cong [OF assms, of monitors] arg_cong [OF assms, of organizations]
    arg_cong [OF assms, of region_status] by simp_all

lemma upsert_Inl: "UpsertSubscription d now i p = (Inl x, d1) \<Longrightarrow> d1 = d"
  by (auto simp: UpsertSubscription_def Let_def split: option.splits if_splits)

lemma plan_of_row: "ownerPlanExpr d m = effectivePlan (find_subscription d (billed_user d m))"
  by (simp add: ownerPlanExpr_effective find_subscription_def)

lemma billed_cong: "organizations d' = organizations d \<Longrightarrow> billed_user d' m = billed_user d m"
proof -
  assume "organizations d' = organizations d"
  then have "org_owner d' = org_owner d" by (intro ext) (simp add: org_owner_def)
  then show ?thesis by (simp add: billed_user_def)
qed

lemma no_faults:
  assumes "\<forall>i. \<not> eFaulty e i"
  shows "read_at e i r = r" "write_at e i d w = w"
  using assms by (simp_all add: read_at_def write_at_def attempt_read_def attempt_def)

lemma GetSubscription_find:
  "GetSubscriptionByUser d u = (case find_subscription d u of None \<Rightarrow> Inl ErrNotFound | Some s \<Rightarrow> Inr s)"
  by (simp add: GetSubscriptionByUser_def find_subscription_def)

text \<open>A write without driver failures: the upsert, then the reconciliation exactly when the
  effective plan moved.\<close>

lemma sync_run:
  assumes "\<forall>i. \<not> eFaulty e i"
  shows "syncSubscription e i d p =
    (case UpsertSubscription d (eDBNow e) (eID e) p of
       (Inl x, d1) \<Rightarrow> (Inl x, d1)
     | (Inr s, d1) \<Rightarrow>
         (let old = effectivePlan (find_subscription d (upUserID p)); new = effectivePlan (Some s) in
          (Inr s, if old \<noteq> new then snd (snd (ReconcileMonitorsToPlan d1 (eDBNow e) (\<lambda>_. False) (upUserID p) old new))
                  else d1)))"
proof -
  have f: "eFaulty e = (\<lambda>_. False)" using assms by (intro ext) simp
  have p: "(case GetSubscriptionByUser d (upUserID p) of Inl _ \<Rightarrow> None | Inr s \<Rightarrow> Some s) =
      find_subscription d (upUserID p)"
    by (simp add: GetSubscription_find split: option.split)
  show ?thesis
    unfolding syncSubscription_def no_faults [OF assms] p Let_def f by (simp split: prod.split sum.split)
qed

subsection \<open>Every monitor fits the plan that is read for it\<close>

definition plan_fit :: "db \<Rightarrow> bool" where
  "plan_fit d \<longleftrightarrow> (\<forall>m \<in> set (monitors d). conforms (ownerPlanExpr d m) m)"

lemma fit_owner: "same_owner (fit now old new)"
  by (simp add: same_owner_def fit_def Let_def row_step_def)

lemma billed_same_owner: "same_owner g \<Longrightarrow> billed_user d (g m) = billed_user d m"
  by (simp add: same_owner_def billed_user_def split: option.split)

lemma upsert_plan:
  assumes "UpsertSubscription d now i p = (Inr s, d1)" "organizations d' = organizations d"
    "subscriptions d' = subscriptions d1"
  shows "ownerPlanExpr d' m =
    (if billed_user d m = upUserID p then effectivePlan (Some s) else ownerPlanExpr d m)"
  using upsert_Inr(1) [OF assms(1), of "billed_user d m"] assms(3)
  by (simp add: plan_of_row billed_cong [OF assms(2)] find_subscription_def)

lemma upsert_same_plan:
  assumes "UpsertSubscription d now i p = (Inr s, d1)" "plan_fit d"
    and "effectivePlan (find_subscription d (upUserID p)) = effectivePlan (Some s)"
  shows "plan_fit d1"
proof -
  note fr = upsert_frame [OF upsert_Inr(2) [OF assms(1)]]
  have "ownerPlanExpr d1 m = ownerPlanExpr d m" for m
    using upsert_plan [OF assms(1) fr(2) refl, of m] assms(3) by (simp add: plan_of_row)
  then show ?thesis using assms(2) by (simp add: plan_fit_def fr)
qed

lemma reconcile_plan_fit:
  assumes "schema_ok d" "UpsertSubscription d now i p = (Inr s, d1)" "plan_fit d" "\<forall>n<6. \<not> fails n"
  defines "old \<equiv> effectivePlan (find_subscription d (upUserID p))" and "new \<equiv> effectivePlan (Some s)"
  shows "plan_fit (snd (snd (ReconcileMonitorsToPlan d1 now' fails (upUserID p) old new)))"
proof -
  let ?u = "upUserID p"
  let ?g = "\<lambda>m. if billingScopeClause d1 ?u m then fit now' old new m else m"
  note fr = upsert_frame [OF upsert_Inr(2) [OF assms(2)]]
  obtain n d2 where r2: "ReconcileMonitorsToPlan d1 now' fails ?u old new = (n, False, d2)"
    and ms: "monitors d2 = map ?g (monitors d)"
    and rest: "d2\<lparr>monitors := [], region_status := []\<rparr> = d1\<lparr>monitors := [], region_status := []\<rparr>"
    using reconcile_tracks [OF assms(4), of d1 ?u now' old new] fr(1) by (auto simp: tracks_def)
  have od: "organizations d2 = organizations d" "subscriptions d2 = subscriptions d1"
    using arg_cong [OF rest, of organizations] arg_cong [OF rest, of subscriptions] fr(2) by simp_all
  have "conforms (ownerPlanExpr d2 (?g m)) (?g m)" if "m \<in> set (monitors d)" for m
  proof -
    have scope: "billingScopeClause d1 ?u m \<longleftrightarrow> billed_user d m = ?u"
      using billing_scope_iff [OF assms(1) that] billing_scope_cong [OF fr(2)] by simp
    have c: "conforms (ownerPlanExpr d m) m" using assms(3) that by (simp add: plan_fit_def)
    have b: "billed_user d (fit now' old new m) = billed_user d m"
      by (rule billed_same_owner [OF fit_owner])
    show ?thesis
    proof (cases "billed_user d m = ?u")
      case True
      then have "conforms new (fit now' old new m)" using c fit_conforms by (simp add: plan_of_row old_def)
      then show ?thesis
        unfolding scope upsert_plan [OF assms(2) od] using True b by (simp add: new_def)
    next
      case False
      then show ?thesis unfolding scope upsert_plan [OF assms(2) od] using c by simp
    qed
  qed
  then have "plan_fit d2" by (simp only: plan_fit_def ms set_map ball_simps) blast
  then show ?thesis by (simp add: r2)
qed

text \<open>The calls of a subscription write at call site \<open>i\<close> whose failure is swallowed and leaves monitors
  outside the plan: the read of the previous row, and the six statements of the reconciliation.\<close>

definition reconciles :: "env \<Rightarrow> nat \<Rightarrow> bool" where
  "reconciles e i \<longleftrightarrow> \<not> eFaulty e i \<and> (\<forall>n<6. \<not> eFaulty e (i + 2 + n))"

lemma sync_plan_fit:
  assumes "schema_ok d" "reconciles e i" "plan_fit d"
  shows "plan_fit (snd (syncSubscription e i d p))"
proof (cases "write_at e (i + 1) d (UpsertSubscription d (eDBNow e) (eID e) p)")
  case (Pair r d1)
  show ?thesis
  proof (cases r)
    case (Inl x)
    then have "d1 = d" using Pair upsert_Inl by (auto simp: write_at_def attempt_def split: if_splits)
    then show ?thesis using Inl Pair assms(3) by (simp add: syncSubscription_def Let_def)
  next
    case (Inr s)
    then have up: "UpsertSubscription d (eDBNow e) (eID e) p = (Inr s, d1)"
      using Pair by (simp add: write_at_def attempt_def split: if_splits)
    have prev: "(case read_at e i (GetSubscriptionByUser d (upUserID p)) of Inl _ \<Rightarrow> None | Inr s \<Rightarrow> Some s) =
        find_subscription d (upUserID p)"
      using assms(2) by (simp add: reconciles_def read_at_def attempt_read_def GetSubscription_find split: option.split)
    have f: "\<forall>n<6. \<not> eFaulty e (i + 2 + n)" using assms(2) by (simp add: reconciles_def)
    show ?thesis
      using upsert_same_plan [OF up assms(3)] reconcile_plan_fit [OF assms(1) up assms(3) f]
      unfolding syncSubscription_def prev Pair Inr by (simp add: Let_def)
  qed
qed

lemma checkout_plan_fit:
  assumes "\<not> eFaulty e 1" "plan_fit d"
  shows "plan_fit (snd (checkout_customer e k d u))"
proof -
  let ?sub = "find_subscription d u"
  let ?p = "\<lambda>c. (case ?sub of None \<Rightarrow> bare_params u ''FREE'' ACTIVE
      | Some s \<Rightarrow> (bare_params u (sPlan s) (sStatus s))\<lparr>upCancelAtPeriodEnd := sCancelAtPeriodEnd s\<rparr>)\<lparr>upStripeCustomerID := Some c\<rparr>"
  have "plan_fit (snd (UpsertSubscription d (eDBNow e) (eID e) (?p c)))" for c
  proof (cases "UpsertSubscription d (eDBNow e) (eID e) (?p c)")
    case (Pair r d1)
    show ?thesis
    proof (cases r)
      case (Inl x)
      then show ?thesis using Pair upsert_Inl assms(2) by fastforce
    next
      case (Inr s)
      note up = Pair [unfolded Inr]
      have u: "upUserID (?p c) = u" by (simp add: bare_params_def split: option.split)
      have "effectivePlan (find_subscription d (upUserID (?p c))) = effectivePlan (Some s)"
        unfolding u effectivePlan_def
        by (simp add: upsert_Inr(3,4) [OF up] bare_params_def split: option.split)
      then show ?thesis using upsert_same_plan [OF up assms(2)] by (simp add: up)
    qed
  qed
  moreover have "(case GetSubscriptionByUser d u of Inl _ \<Rightarrow> None | Inr s \<Rightarrow> Some s) = ?sub"
    by (simp add: GetSubscription_find split: option.split)
  ultimately show ?thesis
    using assms by (simp add: checkout_customer_def read_at_def attempt_read_def write_at_def attempt_def Let_def
        split: option.split)
qed

text \<open>C7: the plans hold. When every monitor fits the plan that the SQL reads for it, every billing
  handler leaves a database in which this is so again, whatever event Stripe sends and whatever
  its API answers: a write that moves the effective plan reconciles the monitors with it, and a
  write that does not move it needs no reconciliation. Each handler must be able to read the previous
  row and to run the statements of its reconciliation (\<open>reconciles\<close>; the checkout only reads): the
  source logs their failure and answers as if nothing had happened, and the monitors then stay
  outside the plan. Every other store call may fail, the upsert included.\<close>

theorem billing_keeps_plan_fit:
  assumes "schema_ok d" "plan_fit d"
  shows "(reconciles e 1 \<longrightarrow> plan_fit (snd (StripeWebhook e client d payload sig)))
    \<and> (reconciles e 2 \<longrightarrow> plan_fit (fst (snd (GetSubscription e client (d, m) caller)))
        \<and> plan_fit (fst (snd (CancelSubscription e client (d, m) caller)))
        \<and> plan_fit (fst (snd (ResumeSubscription e client (d, m) caller))))
    \<and> (\<not> eFaulty e 1 \<longrightarrow> plan_fit (fst (snd (CreateCheckout e client (d, m) caller body))))"
proof (intro conjI impI)
  assume "reconciles e 1"
  note keeps = sync_plan_fit [OF assms(1) this assms(2)]
  show "plan_fit (snd (StripeWebhook e client d payload sig))"
    using keeps assms(2) by (simp add: StripeWebhook_def handleSubscriptionUpdated_def
        handleSubscriptionDeleted_def handlePaymentFailed_def Let_def split: option.split)
next
  assume "reconciles e 2"
  note keeps = sync_plan_fit [OF assms(1) this assms(2)]
  have "plan_fit (snd (reconcileSubscription e client d u s))" for u s
    using keeps assms(2)
    by (auto simp: reconcileSubscription_def split: option.split prod.split sum.split) (metis snd_conv)+
  then show "plan_fit (fst (snd (GetSubscription e client (d, m) caller)))"
    using assms(2) by (auto simp: GetSubscription_def Let_def split: option.split prod.split) (metis snd_conv)+
  have resp: "plan_fit (fst (snd (respondWithCancelAtPeriodEnd e (d, m) u s b)))" for u s b
    using keeps by (auto simp: respondWithCancelAtPeriodEnd_def split: prod.split sum.split) (metis snd_conv)+
  show "plan_fit (fst (snd (CancelSubscription e client (d, m) caller)))"
    using resp assms(2) by (simp add: CancelSubscription_def split: option.split sum.split)
  show "plan_fit (fst (snd (ResumeSubscription e client (d, m) caller)))"
    using resp assms(2) by (simp add: ResumeSubscription_def split: option.split sum.split)
next
  assume "\<not> eFaulty e 1"
  then show "plan_fit (fst (snd (CreateCheckout e client (d, m) caller body)))"
    using checkout_plan_fit [OF _ assms(2)] assms(2)
    by (auto simp: CreateCheckout_def Let_def split: option.split prod.split) (metis snd_conv)+
qed

subsection \<open>Repeated deliveries\<close>

definition undated :: "db \<Rightarrow> db" where
  "undated d = d\<lparr>subscriptions := map (\<lambda>s. s\<lparr>sUpdatedAt := 0\<rparr>) (subscriptions d)\<rparr>"

lemma coalesce_twice [simp]: "coalesce a (coalesce a b) = coalesce a b"
  by (simp add: coalesce_def split: option.split)

lemma merge_twice:
  "(merge_subscription now' p (merge_subscription now p s))\<lparr>sUpdatedAt := 0\<rparr> =
     (merge_subscription now p s)\<lparr>sUpdatedAt := 0\<rparr>"
  by (simp add: merge_subscription_def)

lemma merge_new:
  "(merge_subscription now' p (new_subscription now i p))\<lparr>sUpdatedAt := 0\<rparr> =
     (new_subscription now i p)\<lparr>sUpdatedAt := 0\<rparr>"
  by (simp add: merge_subscription_def new_subscription_def coalesce_def split: option.split)

text \<open>Upserting the same parameters again succeeds and rewrites only the time stamp, whatever
  changed in other tables in between.\<close>

lemma upsert_again:
  assumes "schema_ok d" "UpsertSubscription d now i p = (Inr s, d1)" "subscriptions d2 = subscriptions d1"
  obtains s' d3 where "UpsertSubscription d2 now' i' p = (Inr s', d3)" "undated d3 = undated d2"
    "sPlan s' = sPlan s" "sStatus s' = sStatus s"
proof -
  let ?u = "upUserID p"
  have ok: "schema_ok d1" using upsert_subscription.keeps [OF assms(1), of now i p] assms(2) by simp
  have f2: "find (\<lambda>s. sUserID s = ?u) (subscriptions d2) = Some s"
    using upsert_Inr(1) [OF assms(2), of ?u] assms(3) by (simp add: find_subscription_def)
  have mem: "s \<in> set (subscriptions d1)" "sUserID s = ?u" using f2 assms(3) by (auto dest: find_SomeD)
  have ud: "(merge_subscription now' p s)\<lparr>sUpdatedAt := 0\<rparr> = s\<lparr>sUpdatedAt := 0\<rparr>"
    using assms(2) merge_twice merge_new
    by (auto simp: UpsertSubscription_def Let_def split: option.splits if_splits)
  have cust: "sStripeCustomerID (merge_subscription now' p s) = sStripeCustomerID s"
    using arg_cong [OF ud, of sStripeCustomerID] by simp
  have cu: "customers_uniq (subscriptions d1)" using ok by (simp add: schema_defs)
  have free: "\<not> customer_taken d2 ?u (sStripeCustomerID (merge_subscription now' p s))"
    using cu mem unfolding cust customer_taken_def assms(3) list_ex_iff customers_uniq_def by metis
  have same: "x = s" if "x \<in> set (subscriptions d1)" "sUserID x = ?u" for x
    using uniq_same [of sUserID "subscriptions d1" x s] ok mem that by (simp add: schema_defs)
  show thesis
  proof (rule that [of "merge_subscription now' p s"
        "d2\<lparr>subscriptions := update_where (\<lambda>x. sUserID x = ?u) (merge_subscription now' p) (subscriptions d2)\<rparr>"])
    show "UpsertSubscription d2 now' i' p = (Inr (merge_subscription now' p s),
        d2\<lparr>subscriptions := update_where (\<lambda>x. sUserID x = ?u) (merge_subscription now' p) (subscriptions d2)\<rparr>)"
      using free by (simp add: UpsertSubscription_def f2 Let_def)
    show "undated (d2\<lparr>subscriptions := update_where (\<lambda>x. sUserID x = ?u) (merge_subscription now' p) (subscriptions d2)\<rparr>) = undated d2"
    proof -
      have "map (\<lambda>x. x\<lparr>sUpdatedAt := 0\<rparr>) (update_where (\<lambda>x. sUserID x = ?u) (merge_subscription now' p) (subscriptions d1)) =
          map (\<lambda>x. x\<lparr>sUpdatedAt := 0\<rparr>) (subscriptions d1)"
        unfolding update_where_def map_map by (rule map_cong) (use same ud in auto)
      then show ?thesis by (simp add: undated_def assms(3))
    qed
    show "sPlan (merge_subscription now' p s) = sPlan s" "sStatus (merge_subscription now' p s) = sStatus s"
      using arg_cong [OF ud, of sPlan] arg_cong [OF ud, of sStatus] by simp_all
  qed
qed

lemma sync_again:
  assumes "schema_ok d" "\<forall>i. \<not> eFaulty e i" "\<forall>i. \<not> eFaulty e' i"
    and "syncSubscription e i d p = (Inr s, d1)"
  shows "undated (snd (syncSubscription e' j d1 p)) = undated d1"
proof -
  obtain d0 where up: "UpsertSubscription d (eDBNow e) (eID e) p = (Inr s, d0)"
    using assms(4) by (auto simp: sync_run [OF assms(2)] Let_def split: prod.splits sum.splits)
  let ?old = "effectivePlan (find_subscription d (upUserID p))"
  have "\<exists>n d2. ReconcileMonitorsToPlan d0 (eDBNow e) (\<lambda>_. False) (upUserID p) ?old (effectivePlan (Some s)) = (n, False, d2)
      \<and> subscriptions d2 = subscriptions d0"
    using reconcile_tracks [of "\<lambda>_. False" d0 "upUserID p" "eDBNow e" ?old "effectivePlan (Some s)"]
    by (auto simp: tracks_def dest: arg_cong [where f = subscriptions])
  then have subs: "subscriptions d1 = subscriptions d0"
    using assms(4) by (auto simp: sync_run [OF assms(2)] Let_def up split: if_splits)
  obtain s' d3 where again: "UpsertSubscription d1 (eDBNow e') (eID e') p = (Inr s', d3)" "undated d3 = undated d1"
    and "sPlan s' = sPlan s" "sStatus s' = sStatus s"
    by (rule upsert_again [OF assms(1) up subs])
  then have "effectivePlan (Some s') = effectivePlan (Some s)" by (simp add: effectivePlan_def)
  moreover have "find_subscription d1 (upUserID p) = Some s"
    using upsert_Inr(1) [OF up, of "upUserID p"] subs by (simp add: find_subscription_def)
  ultimately show ?thesis using again by (simp add: sync_run [OF assms(3)] Let_def)
qed

lemma sync_Inl: "\<forall>i. \<not> eFaulty e i \<Longrightarrow> syncSubscription e i d p = (Inl x, d1) \<Longrightarrow> d1 = d"
  by (auto simp: sync_run Let_def upsert_Inl split: prod.splits sum.splits)

lemma sync_Inl_again:
  assumes "\<forall>i. \<not> eFaulty e i" "\<forall>i. \<not> eFaulty e' i"
    and "eID e \<notin> sID ` set (subscriptions d)" "syncSubscription e i d p = (Inl x, d1)"
  shows "d1 = d \<and> snd (syncSubscription e' j d1 p) = d1"
proof -
  have up: "UpsertSubscription d (eDBNow e) (eID e) p = (Inl x, d1)"
    using assms(4) by (auto simp: sync_run [OF assms(1)] Let_def split: prod.splits sum.splits)
  have d1: "d1 = d" by (rule upsert_Inl [OF up])
  have "snd (UpsertSubscription d (eDBNow e') (eID e') p) = d \<and> (\<exists>y. fst (UpsertSubscription d (eDBNow e') (eID e') p) = Inl y)"
    using up assms(3)
    by (auto simp: UpsertSubscription_def Let_def merge_subscription_def new_subscription_def split: option.splits if_splits)
  then show ?thesis by (auto simp: d1 sync_run [OF assms(2)] split: prod.splits sum.splits)
qed

text \<open>Who an event is about does not change once it has been processed: the row that was written
  is the one the customer id finds.\<close>

definition customer_of :: "sdk \<Rightarrow> stripe_customer \<Rightarrow> ident option" where
  "customer_of k c = Option.bind (skGetCustomer k (scID c))
     (\<lambda>c'. if opt_any (scMetadata c' ''user_id'') (\<lambda>i. i \<noteq> []) then scMetadata c' ''user_id'' else None)"

definition customer_row :: "db \<Rightarrow> string \<Rightarrow> ident option" where
  "customer_row d i = (if i = [] then None
     else map_option sUserID (find (\<lambda>s. sStripeCustomerID s = Some i) (subscriptions d)))"

lemma getUser_cases:
  assumes "\<forall>i. \<not> eFaulty e i"
  shows "getUserIDFromCustomer e k d (Some c) =
    (if opt_any (scMetadata c ''user_id'') (\<lambda>i. i \<noteq> []) then scMetadata c ''user_id''
     else case customer_row d (scID c) of Some u \<Rightarrow> Some u | None \<Rightarrow> customer_of k c)"
  by (auto simp: getUserIDFromCustomer_def no_faults [OF assms] GetSubscriptionByCustomerID_def customer_row_def
      customer_of_def split: option.splits dest!: find_SomeD)

lemma customer_row_iff:
  assumes "schema_ok d"
  shows "customer_row d i = Some u \<longleftrightarrow>
    i \<noteq> [] \<and> (\<exists>s \<in> set (subscriptions d). sUserID s = u \<and> sStripeCustomerID s = Some i)"
proof -
  have cu: "customers_uniq (subscriptions d)" using assms by (simp add: schema_defs)
  have "sUserID x = sUserID s" if "find (\<lambda>s. sStripeCustomerID s = Some i) (subscriptions d) = Some x"
    "s \<in> set (subscriptions d)" "sStripeCustomerID s = Some i" for x s
    using find_SomeD [OF that(1)] that(2,3) cu unfolding customers_uniq_def by (metis option.discI)
  then show ?thesis
    by (auto simp: customer_row_def find_None_iff dest: find_SomeD)
      (metis (mono_tags, lifting) find_None_iff not_Some_eq)
qed

lemma sync_subscriptions:
  assumes "\<forall>i. \<not> eFaulty e i" "syncSubscription e i d p = (Inr s, d1)"
  obtains d0 where "UpsertSubscription d (eDBNow e) (eID e) p = (Inr s, d0)" "subscriptions d1 = subscriptions d0"
proof -
  obtain d0 where up: "UpsertSubscription d (eDBNow e) (eID e) p = (Inr s, d0)"
    using assms(2) by (auto simp: sync_run [OF assms(1)] Let_def split: prod.splits sum.splits)
  let ?old = "effectivePlan (find_subscription d (upUserID p))"
  have "\<exists>n d2. ReconcileMonitorsToPlan d0 (eDBNow e) (\<lambda>_. False) (upUserID p) ?old (effectivePlan (Some s)) = (n, False, d2)
      \<and> subscriptions d2 = subscriptions d0"
    using reconcile_tracks [of "\<lambda>_. False" d0 "upUserID p" "eDBNow e" ?old "effectivePlan (Some s)"]
    by (auto simp: tracks_def dest: arg_cong [where f = subscriptions])
  then show thesis
    using assms(2) by (intro that [OF up]) (auto simp: sync_run [OF assms(1)] Let_def up split: if_splits)
qed

lemma reconcile_schema: "schema_ok d \<Longrightarrow> schema_ok (snd (snd (ReconcileMonitorsToPlan d now fails u old new)))"
  by (rule schema_Reconcile)

lemma sync_schema: "schema_ok d \<Longrightarrow> schema_ok (snd (syncSubscription e i d p))"
  using upsert_subscription.attempt_keeps [of d "eFaulty e (i + 1)" "eDBNow e" "eID e" p]
  by (auto simp: syncSubscription_def write_at_def Let_def intro!: reconcile_schema split: prod.splits sum.splits)

lemma upsert_other:
  "UpsertSubscription d now i p = (Inr s, d1) \<Longrightarrow> x \<in> set (subscriptions d1) \<Longrightarrow>
   sUserID x \<noteq> upUserID p \<Longrightarrow> x \<in> set (subscriptions d)"
  by (auto simp: UpsertSubscription_def Let_def table_simps new_subscription_def split: option.splits if_splits)

lemma upsert_merged:
  "UpsertSubscription d now i p = (Inr s, d1) \<Longrightarrow> find_subscription d (upUserID p) = Some x \<Longrightarrow>
   s = merge_subscription now p x"
  by (simp add: UpsertSubscription_def find_subscription_def Let_def split: if_splits)

lemma user_stable:
  assumes "schema_ok d" "\<forall>i. \<not> eFaulty e i" "\<forall>i. \<not> eFaulty e' i"
    and "getUserIDFromCustomer e k d (Some c) = Some u" "upUserID p = u"
    and "upStripeCustomerID p = None \<or> upStripeCustomerID p = Some (scID c)"
    and "syncSubscription e i d p = (Inr s, d1)"
  shows "getUserIDFromCustomer e' k d1 (Some c) = Some u"
proof -
  obtain d0 where up: "UpsertSubscription d (eDBNow e) (eID e) p = (Inr s, d0)" and subs: "subscriptions d1 = subscriptions d0"
    using assms(2,7) by (rule sync_subscriptions)
  have ok1: "schema_ok d1" using sync_schema [OF assms(1), of e i p] assms(7) by simp
  note row = customer_row_iff [OF assms(1)] and row1 = customer_row_iff [OF ok1]
  have s1: "s \<in> set (subscriptions d1)" "sUserID s = u"
    using upsert_Inr(1) [OF up, of u] assms(5) by (auto simp: subs find_subscription_def dest: find_SomeD)
  show ?thesis
  proof (cases "opt_any (scMetadata c ''user_id'') (\<lambda>i. i \<noteq> [])")
    case True
    then show ?thesis using assms(4) by (simp add: getUser_cases [OF assms(2)] getUser_cases [OF assms(3)])
  next
    case False
    show ?thesis
    proof (cases "customer_row d (scID c)")
      case (Some w)
      then have w: "w = u" using assms(4) False by (simp add: getUser_cases [OF assms(2)])
      then obtain x where x: "scID c \<noteq> []" "x \<in> set (subscriptions d)" "sUserID x = u" "sStripeCustomerID x = Some (scID c)"
        using Some unfolding row by auto
      have un: "uniq sUserID (subscriptions d)" using assms(1) by (simp add: schema_defs)
      have "find_subscription d (upUserID p) = Some x"
        using find_uniq [OF un x(2,3), of "\<lambda>_. True"] assms(5) by (simp add: find_subscription_def)
      then have "s = merge_subscription (eDBNow e) p x" by (rule upsert_merged [OF up])
      then have "sStripeCustomerID s = Some (scID c)"
        using assms(6) x(4) by (auto simp: merge_subscription_def coalesce_def)
      then have "customer_row d1 (scID c) = Some u" unfolding row1 using s1 x(1) by auto
      then show ?thesis using False by (simp add: getUser_cases [OF assms(3)])
    next
      case None
      then have k: "customer_of k c = Some u" using assms(4) False by (simp add: getUser_cases [OF assms(2)])
      have "w = u" if cw: "customer_row d1 (scID c) = Some w" for w
      proof (rule ccontr)
        assume ne: "w \<noteq> u"
        obtain x where x: "scID c \<noteq> []" "x \<in> set (subscriptions d1)" "sUserID x = w" "sStripeCustomerID x = Some (scID c)"
          using cw unfolding row1 by auto
        then have "x \<in> set (subscriptions d)"
          using upsert_other [OF up, of x] subs assms(5) ne by simp
        then have "customer_row d (scID c) = Some w" unfolding row using x by auto
        then show False using None by simp
      qed
      then show ?thesis using k False by (auto simp: getUser_cases [OF assms(3)] split: option.split)
    qed
  qed
qed

lemma redeliver_step:
  assumes "schema_ok d" "\<forall>i. \<not> eFaulty e i" "\<forall>i. \<not> eFaulty e' i" "eID e \<notin> sID ` set (subscriptions d)"
    and "getUserIDFromCustomer e k d (Some c) = Some (upUserID p)"
    and "upStripeCustomerID p = None \<or> upStripeCustomerID p = Some (scID c)"
  shows "getUserIDFromCustomer e' k (snd (syncSubscription e i d p)) (Some c) = Some (upUserID p)"
    and "undated (snd (syncSubscription e' j (snd (syncSubscription e i d p)) p)) = undated (snd (syncSubscription e i d p))"
proof -
  obtain r d1 where s: "syncSubscription e i d p = (r, d1)" by force
  have user: "getUserIDFromCustomer e' k d (Some c) = getUserIDFromCustomer e k d (Some c)"
    by (simp add: getUser_cases [OF assms(2)] getUser_cases [OF assms(3)])
  have "getUserIDFromCustomer e' k d1 (Some c) = Some (upUserID p) \<and> undated (snd (syncSubscription e' j d1 p)) = undated d1"
  proof (cases r)
    case (Inl x)
    then show ?thesis using sync_Inl_again [OF assms(2,3,4), of i p x d1 j] s user assms(5) by auto
  next
    case (Inr x)
    then show ?thesis
      using user_stable [OF assms(1,2,3,5) refl assms(6), of i x d1] sync_again [OF assms(1,2,3), of i p x d1 j] s by auto
  qed
  then show "getUserIDFromCustomer e' k (snd (syncSubscription e i d p)) (Some c) = Some (upUserID p)"
    "undated (snd (syncSubscription e' j (snd (syncSubscription e i d p)) p)) = undated (snd (syncSubscription e i d p))"
    by (simp_all add: s)
qed

lemma stripe_params:
  assumes "upsertParamsFromStripe client u sub = Some p"
  shows "upUserID p = u" "ssCustomer sub = Some c \<Longrightarrow> upStripeCustomerID p = None \<or> upStripeCustomerID p = Some (scID c)"
  using assms by (auto simp: upsertParamsFromStripe_def Let_def split: option.splits if_splits)

lemma bare_params_simps [simp]:
  "upUserID (bare_params u pl st) = u" "upPlan (bare_params u pl st) = pl" "upStatus (bare_params u pl st) = st"
  "upStripeCustomerID (bare_params u pl st) = None" "upCancelAtPeriodEnd (bare_params u pl st) = False"
  by (simp_all add: bare_params_def)

lemma no_customer [simp]: "getUserIDFromCustomer e k d None = None"
  by (simp add: getUserIDFromCustomer_def)

text \<open>The plan a failed payment preserves is the one it wrote before.\<close>

lemma preserved_plan:
  assumes "\<forall>i. \<not> eFaulty e i" "pl = (case GetSubscriptionByUser d u of Inl _ \<Rightarrow> ''FREE'' | Inr s \<Rightarrow> sPlan s)"
    and "d1 = snd (syncSubscription e i d (bare_params u pl st))"
  shows "(case GetSubscriptionByUser d1 u of Inl _ \<Rightarrow> ''FREE'' | Inr s \<Rightarrow> sPlan s) = pl"
proof (cases "fst (syncSubscription e i d (bare_params u pl st))")
  case (Inl x)
  then have "syncSubscription e i d (bare_params u pl st) = (Inl x, d1)" using assms(3) by (simp add: prod_eq_iff)
  then have "d1 = d" by (rule sync_Inl [OF assms(1)])
  then show ?thesis using assms(2) by simp
next
  case (Inr s)
  then have "syncSubscription e i d (bare_params u pl st) = (Inr s, d1)" using assms(3) by (simp add: prod_eq_iff)
  then obtain d0 where up: "UpsertSubscription d (eDBNow e) (eID e) (bare_params u pl st) = (Inr s, d0)"
    and subs: "subscriptions d1 = subscriptions d0" using assms(1) sync_subscriptions by blast
  have "find_subscription d1 u = Some s"
    using upsert_Inr(1) [OF up, of u] by (simp add: find_subscription_def subs)
  then show ?thesis using upsert_Inr(3) [OF up] by (simp add: GetSubscription_find)
qed

text \<open>C35: webhooks may be delivered again. Stripe repeats an event until it is acknowledged, so the
  same signed payload may arrive any number of times; when the store does not fail, the second
  delivery leaves every table as the first one left it, the update time of one subscription row
  apart: no plan moves, no monitor is touched, and the event is resolved to the same user.\<close>

theorem webhook_redelivery:
  assumes "schema_ok d" "\<forall>i. \<not> eFaulty e i" "\<forall>i. \<not> eFaulty e' i" "eID e \<notin> sID ` set (subscriptions d)"
  shows "undated (snd (StripeWebhook e' client (snd (StripeWebhook e client d payload sig)) payload sig))
    = undated (snd (StripeWebhook e client d payload sig))"
proof -
  note step = redeliver_step [OF assms]
  have user: "getUserIDFromCustomer e' k d c = getUserIDFromCustomer e k d c" for k c
    by (cases c) (simp_all add: getUser_cases [OF assms(2)] getUser_cases [OF assms(3)])
  have "undated (handleSubscriptionDeleted e' k (handleSubscriptionDeleted e k d ev) ev) =
      undated (handleSubscriptionDeleted e k d ev)" for k ev
  proof (cases "Option.bind (evSubscription ev) (\<lambda>sub. getUserIDFromCustomer e k d (ssCustomer sub))")
    case None
    then show ?thesis by (auto simp: handleSubscriptionDeleted_def user split: option.splits)
  next
    case (Some u)
    then obtain sub c where e: "evSubscription ev = Some sub" "ssCustomer sub = Some c"
      and u: "getUserIDFromCustomer e k d (Some c) = Some (upUserID (bare_params u ''FREE'' CANCELED))"
      by (auto simp: bind_eq_Some_conv) (metis no_customer option.exhaust option.simps(3))
    show ?thesis using step [OF u] u e by (simp add: handleSubscriptionDeleted_def)
  qed
  moreover have "undated (handleSubscriptionUpdated e' k (handleSubscriptionUpdated e k d ev) ev) =
      undated (handleSubscriptionUpdated e k d ev)" for k ev
  proof (cases "Option.bind (evSubscription ev) (\<lambda>sub. Option.bind (getUserIDFromCustomer e k d (ssCustomer sub))
      (\<lambda>u. upsertParamsFromStripe (Some k) u sub))")
    case None
    then show ?thesis by (auto simp: handleSubscriptionUpdated_def user split: option.splits)
  next
    case (Some p)
    then obtain sub c u where e: "evSubscription ev = Some sub" "ssCustomer sub = Some c"
      and u: "getUserIDFromCustomer e k d (Some c) = Some u" and p: "upsertParamsFromStripe (Some k) u sub = Some p"
      by (auto simp: bind_eq_Some_conv) (metis no_customer option.exhaust option.simps(3))
    note pu = stripe_params(1) [OF p] and pc = stripe_params(2) [OF p e(2)]
    show ?thesis using step [of k c p, OF _ pc] u e p pu by (simp add: handleSubscriptionUpdated_def)
  qed
  moreover have "undated (handlePaymentFailed e' k (handlePaymentFailed e k d ev) ev) =
      undated (handlePaymentFailed e k d ev)" for k ev
  proof (cases "Option.bind (evInvoice ev) (\<lambda>b. if siSubscription b = None then None else getUserIDFromCustomer e k d (siCustomer b))")
    case None
    then show ?thesis by (auto simp: handlePaymentFailed_def user split: option.splits if_splits)
  next
    case (Some u)
    let ?pl = "case GetSubscriptionByUser d u of Inl _ \<Rightarrow> ''FREE'' | Inr s \<Rightarrow> sPlan s"
    from Some obtain b c where e: "evInvoice ev = Some b" "siSubscription b \<noteq> None" "siCustomer b = Some c"
      and u: "getUserIDFromCustomer e k d (Some c) = Some (upUserID (bare_params u ?pl PAST_DUE))"
      by (auto simp: bind_eq_Some_conv split: if_splits) (metis no_customer option.exhaust option.simps(3))
    show ?thesis
      using step [OF u] u e preserved_plan [OF assms(2) refl refl, where u = u and i = 1 and st = PAST_DUE]
      by (simp add: handlePaymentFailed_def no_faults [OF assms(2)] no_faults [OF assms(3)] Let_def)
  qed
  ultimately show ?thesis by (simp add: StripeWebhook_def split: option.split)
qed

subsection \<open>Events out of order\<close>

text \<open>Writing user, plan and status over a stored row always succeeds.\<close>

lemma own_customer_free:
  assumes "schema_ok d" "find_subscription d u = Some s"
  shows "\<not> customer_taken d u (sStripeCustomerID s)"
proof -
  have "s \<in> set (subscriptions d)" "sUserID s = u"
    using assms(2) by (auto simp: find_subscription_def dest: find_SomeD)
  moreover have "customers_uniq (subscriptions d)" using assms(1) by (simp add: schema_defs)
  ultimately show ?thesis unfolding customer_taken_def list_ex_iff customers_uniq_def by metis
qed

lemma coalesce_same [simp]: "coalesce a a = a" "coalesce None a = a"
  by (simp_all add: coalesce_def split: option.split)

lemma bare_upsert:
  assumes "schema_ok d" "find_subscription d u = Some s"
  obtains s' d0 where "UpsertSubscription d now i (bare_params u pl st) = (Inr s', d0)"
    "s' = merge_subscription now (bare_params u pl st) s"
  using own_customer_free [OF assms] assms(2)
  by (intro that) (simp_all add: UpsertSubscription_def find_subscription_def Let_def
      merge_subscription_def bare_params_def)

lemma bare_sync:
  assumes "schema_ok d" "\<forall>i. \<not> eFaulty e i" "find_subscription d u = Some s"
  shows "find_subscription (snd (syncSubscription e i d (bare_params u pl st))) u =
    Some (merge_subscription (eDBNow e) (bare_params u pl st) s)" (is "find_subscription ?d' u = _")
proof -
  obtain s' d0 where up: "UpsertSubscription d (eDBNow e) (eID e) (bare_params u pl st) = (Inr s', d0)"
    and s': "s' = merge_subscription (eDBNow e) (bare_params u pl st) s"
    by (rule bare_upsert [OF assms(1,3)])
  have "fst (syncSubscription e i d (bare_params u pl st)) = Inr s'"
    by (simp add: sync_run [OF assms(2)] up Let_def)
  then have sync: "syncSubscription e i d (bare_params u pl st) = (Inr s', ?d')"
    by (simp add: prod_eq_iff)
  then obtain d1 where up1: "UpsertSubscription d (eDBNow e) (eID e) (bare_params u pl st) = (Inr s', d1)"
    and subs: "subscriptions ?d' = subscriptions d1" using sync_subscriptions [OF assms(2)] by blast
  show ?thesis using upsert_Inr(1) [OF up1, of u] by (simp add: find_subscription_def subs s')
qed

lemma plan_of_user: "\<forall>i. \<not> eFaulty e i \<Longrightarrow> planForUser e i d u = effectivePlan (find_subscription d u)"
  by (simp add: planForUser_find find_subscription_def)

text \<open>C36: a failed payment grants the plan of a canceled subscription again. A canceled row carries no
  entitlement, but it keeps its plan; the event marks it past due, which does carry the
  entitlement, and clears a scheduled cancellation.\<close>

theorem payment_failed_regrants:
  assumes "schema_ok d" "\<forall>i. \<not> eFaulty e i" "find_subscription d u = Some s" "sStatus s = CANCELED"
    and "skEvent k raw sig = Some ev" "evType ev = ''invoice.payment_failed''" "evInvoice ev = Some b"
    and "siSubscription b \<noteq> None" "getUserIDFromCustomer e k d (siCustomer b) = Some u"
  shows "planForUser e i d u = ''FREE''
    \<and> planForUser e i (snd (StripeWebhook e (Some k) d (Some raw) sig)) u = sPlan s
    \<and> \<not> opt_any (find_subscription (snd (StripeWebhook e (Some k) d (Some raw) sig)) u) sCancelAtPeriodEnd"
proof -
  have "snd (StripeWebhook e (Some k) d (Some raw) sig) = snd (syncSubscription e 1 d (bare_params u (sPlan s) PAST_DUE))"
    using assms(3,5-9) by (auto simp: StripeWebhook_def handlePaymentFailed_def no_faults [OF assms(2)]
        GetSubscription_find)
  then show ?thesis
    using bare_sync [OF assms(1-3), of 1 "sPlan s" PAST_DUE] assms(4)
    by (simp add: plan_of_user [OF assms(2)] effectivePlan_def assms(3) merge_subscription_def)
qed

text \<open>C37: the end of any subscription of a customer ends the entitlement. The deletion event is
  applied to the user's row whatever subscription that row is on, so the lapse of an older
  subscription takes a newer, paid one down to FREE, monitors included.\<close>

theorem stale_deletion_downgrades:
  assumes "schema_ok d" "\<forall>i. \<not> eFaulty e i" "find_subscription d u = Some s"
    and "sStripeSubscriptionID s = Some current" "ssID sub \<noteq> current"
    and "skEvent k raw sig = Some ev" "evType ev = ''customer.subscription.deleted''" "evSubscription ev = Some sub"
    and "getUserIDFromCustomer e k d (ssCustomer sub) = Some u" "plan_fit d"
  shows "planForUser e i (snd (StripeWebhook e (Some k) d (Some raw) sig)) u = ''FREE''
    \<and> (\<exists>s'. find_subscription (snd (StripeWebhook e (Some k) d (Some raw) sig)) u = Some s'
          \<and> sStripeSubscriptionID s' = Some current)
    \<and> plan_fit (snd (StripeWebhook e (Some k) d (Some raw) sig))"
proof -
  have "snd (StripeWebhook e (Some k) d (Some raw) sig) = snd (syncSubscription e 1 d (bare_params u ''FREE'' CANCELED))"
    using assms(6-9) by (simp add: StripeWebhook_def handleSubscriptionDeleted_def)
  then show ?thesis
    using bare_sync [OF assms(1-3), of 1 "''FREE''" CANCELED] assms(4) sync_plan_fit [OF assms(1) _ assms(10), of e 1]
    by (simp add: plan_of_user [OF assms(2)] effectivePlan_def merge_subscription_def bare_params_def coalesce_def
        reconciles_def assms(2))
qed

subsection \<open>A record that cannot be read\<close>

text \<open>C14: a previous record that cannot be read leaves the monitors on the plan that ended. When the
  deletion of a subscription arrives and the read before the upsert fails, the record is taken for
  FREE: the upsert ends the entitlement, no plan seems to move, and not one monitor is reconciled. If any of
  the user's monitors exceeds FREE, the database no longer fits its plans, and the event is
  acknowledged, so Stripe does not send it again.\<close>

theorem unread_record_skips_reconcile:
  assumes "schema_ok d" "eFaulty e 1" "\<not> eFaulty e 2" "find_subscription d u = Some s"
    and "skEvent k raw sig = Some ev" "evType ev = ''customer.subscription.deleted''" "evSubscription ev = Some sub"
    and "getUserIDFromCustomer e k d (ssCustomer sub) = Some u"
  shows "\<exists>d'. StripeWebhook e (Some k) d (Some raw) sig = (Ok 200 (), d')
    \<and> monitors d' = monitors d \<and> effectivePlan (find_subscription d' u) = ''FREE''
    \<and> ((\<exists>m \<in> set (monitors d). billed_user d m = u \<and> \<not> conforms ''FREE'' m) \<longrightarrow> \<not> plan_fit d')"
proof -
  let ?p = "bare_params u ''FREE'' CANCELED"
  obtain s' d0 where up: "UpsertSubscription d (eDBNow e) (eID e) ?p = (Inr s', d0)"
    using bare_upsert [OF assms(1,4)] by blast
  have free: "effectivePlan (Some s') = ''FREE''" by (simp add: effectivePlan_def upsert_Inr(4) [OF up])
  have "syncSubscription e 1 d ?p = (Inr s', d0)"
    using assms(2,3) free by (simp add: syncSubscription_def read_at_def attempt_read_def write_at_def attempt_def
        up numeral_2_eq_2 [symmetric] effectivePlan_def)
  then have w: "StripeWebhook e (Some k) d (Some raw) sig = (Ok 200 (), d0)"
    using assms(5-8) by (simp add: StripeWebhook_def handleSubscriptionDeleted_def)
  note fr = upsert_frame [OF upsert_Inr(2) [OF up]]
  have sub: "effectivePlan (find_subscription d0 u) = ''FREE''" using upsert_Inr(1) [OF up, of u] free by simp
  have "ownerPlanExpr d0 m = ''FREE''" if "billed_user d m = u" for m
    using that sub by (simp add: plan_of_row billed_cong [OF fr(2)])
  then have "(\<exists>m \<in> set (monitors d). billed_user d m = u \<and> \<not> conforms ''FREE'' m) \<longrightarrow> \<not> plan_fit d0"
    unfolding plan_fit_def fr(1) by metis
  then show ?thesis using w sub fr(1) by blast
qed

subsection \<open>Cancelling keeps access\<close>

text \<open>A cancellation takes nothing away yet. When the handler answers 200 and the store does
  not fail, the stored row is the answer, it has the cancellation scheduled, the user's effective
  plan and every monitor are as before, and the next read of the subscription, at whatever time,
  goes to Stripe again.\<close>

theorem cancel_keeps_access:
  assumes "schema_ok d" "\<forall>i. \<not> eFaulty e i"
    and "CancelSubscription e client (d, m) (Some u) = (Ok 200 s, d', m')"
  shows "find_subscription d' u = Some s \<and> sCancelAtPeriodEnd s
    \<and> planForUser e i d' u = planForUser e i d u
    \<and> monitors d' = monitors d
    \<and> fst (shouldReconcile t u m')"
proof -
  obtain k s0 where s0: "find_subscription d u = Some s0"
    and r: "respondWithCancelAtPeriodEnd e (d, m) u s0 True = (Ok 200 s, d', m')"
    using assms(3)
    by (auto simp: CancelSubscription_def no_faults [OF assms(2)] GetSubscription_find split: option.splits if_splits)
  define p where "p = \<lparr>upUserID = u, upPlan = sPlan s0, upStatus = sStatus s0,
      upStripeCustomerID = sStripeCustomerID s0, upStripeSubscriptionID = sStripeSubscriptionID s0,
      upStripePriceID = sStripePriceID s0, upCurrentPeriodStart = sCurrentPeriodStart s0,
      upCurrentPeriodEnd = sCurrentPeriodEnd s0, upCancelAtPeriodEnd = True\<rparr>"
  obtain s1 d1 where up: "UpsertSubscription d (eDBNow e) (eID e) p = (Inr s1, d1)"
    using own_customer_free [OF assms(1) s0] s0
    by (simp add: UpsertSubscription_def find_subscription_def p_def Let_def merge_subscription_def)
  have eff: "effectivePlan (Some s1) = effectivePlan (Some s0)"
    by (simp add: effectivePlan_def upsert_Inr(3,4) [OF up]) (simp add: p_def)
  have "syncSubscription e 2 d p = (Inr s1, d1)"
    using s0 eff by (simp add: sync_run [OF assms(2)] up Let_def) (simp add: p_def)
  then have eqs: "s = s1" "d' = d1" "m' = forgetReconcile u m"
    using r by (simp_all add: respondWithCancelAtPeriodEnd_def p_def)
  have f: "find_subscription d1 u = Some s1" using upsert_Inr(1) [OF up, of u] by (simp add: p_def)
  then show ?thesis
    using upsert_Inr(5) [OF up] eff s0 upsert_frame(1) [OF upsert_Inr(2) [OF up]]
    by (simp add: eqs plan_of_user [OF assms(2)] p_def shouldReconcile_def forgetReconcile_def delete_conv' Let_def)
qed

subsection \<open>Redirects stay on the site\<close>

lemma TrimRight_prefix: "\<exists>t. s = TrimRight s c @ t \<and> set t \<subseteq> {c}"
proof -
  have "s = rev (dropWhile (\<lambda>x. x = c) (rev s)) @ rev (takeWhile (\<lambda>x. x = c) (rev s))"
    by (metis rev_append rev_rev_ident takeWhile_dropWhile_id)
  moreover have "set (rev (takeWhile (\<lambda>x. x = c) (rev s))) \<subseteq> {c}" by (auto dest: set_takeWhileD)
  ultimately show ?thesis unfolding TrimRight_def by blast
qed

text \<open>No open redirect. A redirect that is accepted is the configured website itself, or the
  website with its trailing slashes removed followed by a path that starts with a slash and
  contains no scheme separator, so a client cannot send the browser to another host.\<close>

theorem redirect_stays_on_site:
  assumes "buildSingleRedirectURL n w path = Some url"
  shows "url = w \<or> (\<exists>site slashes rest. w = site @ slashes \<and> set slashes \<subseteq> {CHR ''/''}
    \<and> url = site @ CHR ''/'' # rest \<and> path = CHR ''/'' # rest \<and> \<not> Contains path ''://'')"
proof (cases path)
  case Nil
  then show ?thesis using assms by (simp add: buildSingleRedirectURL_def)
next
  case (Cons c rest)
  then have c: "c = CHR ''/''" "\<not> Contains path ''://''" "url = TrimRight w (CHR ''/'') @ path"
    using assms by (auto simp: buildSingleRedirectURL_def Let_def split: if_splits option.splits)
  then show ?thesis using TrimRight_prefix [of w "CHR ''/''"] Cons by auto
qed

subsection \<open>Billing and the reachable states\<close>

lemma sync_reachable: "reachable d \<Longrightarrow> reachable (snd (syncSubscription e i d p))"
  by (auto simp: syncSubscription_def write_at_def attempt_def Let_def split: prod.splits sum.splits if_splits
      intro!: reachable.reconcile) (metis reachable.billing snd_conv)+

text \<open>The billing routes do not leave the states that the rest of the service reaches: whatever
  Stripe sends or answers and whatever the store fails, organizations keep their owners.\<close>

lemma billing_reachable:
  assumes "reachable d"
  shows "reachable (snd (StripeWebhook e client d payload sig))
    \<and> reachable (fst (snd (GetSubscription e client (d, m) caller)))
    \<and> reachable (fst (snd (CancelSubscription e client (d, m) caller)))
    \<and> reachable (fst (snd (ResumeSubscription e client (d, m) caller)))"
proof (intro conjI)
  note keeps = sync_reachable [OF assms]
  show "reachable (snd (StripeWebhook e client d payload sig))"
    using keeps assms by (simp add: StripeWebhook_def handleSubscriptionUpdated_def
        handleSubscriptionDeleted_def handlePaymentFailed_def Let_def split: option.split)
  have "reachable (snd (reconcileSubscription e client d u s))" for u s
    using keeps assms
    by (auto simp: reconcileSubscription_def split: option.split prod.split sum.split) (metis snd_conv)+
  then show "reachable (fst (snd (GetSubscription e client (d, m) caller)))"
    using assms by (auto simp: GetSubscription_def Let_def split: option.split prod.split) (metis snd_conv)+
  have resp: "reachable (fst (snd (respondWithCancelAtPeriodEnd e (d, m) u s b)))" for u s b
    using keeps by (auto simp: respondWithCancelAtPeriodEnd_def split: prod.split sum.split) (metis snd_conv)+
  show "reachable (fst (snd (CancelSubscription e client (d, m) caller)))"
    using resp assms by (simp add: CancelSubscription_def split: option.split sum.split)
  show "reachable (fst (snd (ResumeSubscription e client (d, m) caller)))"
    using resp assms by (simp add: ResumeSubscription_def split: option.split sum.split)
qed

subsection \<open>Concrete runs\<close>

definition cus1 :: stripe_customer where
  "cus1 = \<lparr>scID = ''cus_1'', scMetadata = Map.empty\<rparr>"

definition sample_sub :: stripe_subscription where
  "sample_sub = \<lparr>ssID = ''sub_0'', ssStatus = ''canceled'', ssCustomer = Some cus1,
     ssItems = [\<lparr>siPriceID = Some ''price_pro'', siPeriodStart = 0, siPeriodEnd = 5\<rparr>],
     ssCancelAtPeriodEnd = False\<rparr>"

definition sample_sdk :: sdk where
  "sample_sdk = \<lparr>skProPriceID = ''price_pro'', skEnterprisePriceID = ''price_ent'',
     skSearchCustomers = (\<lambda>_. ([], False)), skNewCustomer = (\<lambda>u m. None),
     skListSubscriptions = (\<lambda>_. ([sample_sub], False)), skCheckout = (\<lambda>c p s t. None), skPortal = (\<lambda>c r. None),
     skSetCancel = (\<lambda>i b. True), skGetCustomer = (\<lambda>_. None),
     skEvent = (\<lambda>raw sig. if sig \<noteq> ''sig'' then None
        else if raw = ''deleted'' then Some \<lparr>evType = ''customer.subscription.deleted'',
               evSubscription = Some sample_sub, evInvoice = None\<rparr>
        else if raw = ''failed'' then Some \<lparr>evType = ''invoice.payment_failed'', evSubscription = None,
               evInvoice = Some \<lparr>siSubscription = Some ''sub_1'', siCustomer = Some cus1\<rparr>\<rparr>
        else None)\<rparr>"

definition canceled_db :: db where
  "canceled_db = sample_db\<lparr>subscriptions := map (\<lambda>s. s\<lparr>sStatus := CANCELED\<rparr>) (subscriptions sample_db)\<rparr>"

lemma canceled_db_ok: "schema_ok canceled_db"
  by (simp add: schema_defs canceled_db_def sample_db_def sample_monitor_def uniq_def refs_def
      monitor_org_refs_def customers_uniq_def)

lemma sample_nofault: "\<forall>i. \<not> eFaulty sample_env i"
  by (simp add: sample_env_def)

lemma sample_plan_fit: "plan_fit sample_db"
  by code_simp

lemma sample_fresh: "eID sample_env \<notin> sID ` set (subscriptions sample_db)"
  by (simp add: sample_env_def sample_db_def)

lemma sample_user:
  "getUserIDFromCustomer sample_env sample_sdk sample_db (Some cus1) = Some ''owner''"
  "getUserIDFromCustomer sample_env sample_sdk canceled_db (Some cus1) = Some ''owner''"
  by (simp_all add: getUser_cases [OF sample_nofault] cus1_def customer_row_def canceled_db_def sample_db_def)

theorem billing_keeps_plan_fit_witness:
  "plan_fit (snd (StripeWebhook (sample_env\<lparr>eFaulty := (\<lambda>i. i \<in> {0, 2, 9, 10})\<rparr>) (Some sample_sdk) sample_db (Some ''deleted'') ''sig''))"
proof -
  let ?e = "sample_env\<lparr>eFaulty := (\<lambda>i. i \<in> {0, 2, 9, 10})\<rparr>"
  have "reconciles ?e 1" by (auto simp: reconciles_def)
  then show ?thesis using billing_keeps_plan_fit [OF sample_db_ok sample_plan_fit] by blast
qed

theorem unread_record_skips_reconcile_witness:
  "\<exists>d'. StripeWebhook (sample_env\<lparr>eFaulty := (\<lambda>i. i = 1)\<rparr>) (Some sample_sdk) sample_db (Some ''deleted'') ''sig'' = (Ok 200 (), d')
    \<and> \<not> plan_fit d'"
proof -
  let ?e = "sample_env\<lparr>eFaulty := (\<lambda>i. i = 1)\<rparr>"
  obtain s where s: "find_subscription sample_db ''owner'' = Some s" by (simp add: find_subscription_def sample_db_def)
  have ev: "\<exists>ev. skEvent sample_sdk ''deleted'' ''sig'' = Some ev \<and> evType ev = ''customer.subscription.deleted''
      \<and> evSubscription ev = Some sample_sub"
    by (simp add: sample_sdk_def)
  have user: "getUserIDFromCustomer ?e sample_sdk sample_db (ssCustomer sample_sub) = Some ''owner''" by code_simp
  have m: "\<exists>m \<in> set (monitors sample_db). billed_user sample_db m = ''owner'' \<and> \<not> conforms ''FREE'' m" by code_simp
  have "eFaulty ?e 1" "\<not> eFaulty ?e 2" by simp_all
  from unread_record_skips_reconcile [OF sample_db_ok this s] ev user m show ?thesis by blast
qed

theorem webhook_redelivery_witness:
  "undated (snd (StripeWebhook (sample_env\<lparr>eDBNow := 99\<rparr>) (Some sample_sdk)
      (snd (StripeWebhook sample_env (Some sample_sdk) sample_db (Some ''deleted'') ''sig'')) (Some ''deleted'') ''sig''))
    = undated (snd (StripeWebhook sample_env (Some sample_sdk) sample_db (Some ''deleted'') ''sig''))"
  by (rule webhook_redelivery [OF sample_db_ok sample_nofault _ sample_fresh]) (simp add: sample_env_def)

theorem payment_failed_regrants_witness:
  "planForUser sample_env 0 canceled_db ''owner'' = ''FREE''
    \<and> planForUser sample_env 0 (snd (StripeWebhook sample_env (Some sample_sdk) canceled_db (Some ''failed'') ''sig'')) ''owner''
      = ''ENTERPRISE''"
proof -
  obtain s where s: "find_subscription canceled_db ''owner'' = Some s" "sStatus s = CANCELED" "sPlan s = ''ENTERPRISE''"
    by (simp add: find_subscription_def canceled_db_def sample_db_def)
  show ?thesis
    using payment_failed_regrants [OF canceled_db_ok sample_nofault s(1,2), of sample_sdk "''failed''" "''sig''" _
        "\<lparr>siSubscription = Some ''sub_1'', siCustomer = Some cus1\<rparr>" 0] s(3) sample_user
    by (simp add: sample_sdk_def)
qed

theorem stale_deletion_downgrades_witness:
  "planForUser sample_env 0 (snd (StripeWebhook sample_env (Some sample_sdk) sample_db (Some ''deleted'') ''sig'')) ''owner''
    = ''FREE''"
proof -
  obtain s where s: "find_subscription sample_db ''owner'' = Some s" "sStripeSubscriptionID s = Some ''sub_1''"
    by (simp add: find_subscription_def sample_db_def)
  have sub: "ssID sample_sub \<noteq> ''sub_1''" "ssCustomer sample_sub = Some cus1" by (simp_all add: sample_sub_def)
  show ?thesis
    using stale_deletion_downgrades [OF sample_db_ok sample_nofault s(1,2) sub(1), of sample_sdk "''deleted''" "''sig''"]
      sample_user sample_plan_fit sub(2)
    by (simp add: sample_sdk_def)
qed

theorem cancel_keeps_access_witness:
  "\<exists>s d' m'. CancelSubscription sample_env (Some sample_sdk) (sample_db, []) (Some ''owner'') = (Ok 200 s, d', m')
    \<and> monitors d' = monitors sample_db \<and> sCancelAtPeriodEnd s"
proof -
  obtain s d' m' where c: "CancelSubscription sample_env (Some sample_sdk) (sample_db, []) (Some ''owner'') = (Ok 200 s, d', m')"
  proof -
    let ?c = "CancelSubscription sample_env (Some sample_sdk) (sample_db, []) (Some ''owner'')"
    have "is_ok (fst ?c) \<and> resp_status (fst ?c) = 200" by code_simp
    then show thesis by (cases ?c; cases "fst ?c") (auto intro: that)
  qed
  then show ?thesis using cancel_keeps_access [OF sample_db_ok sample_nofault c] by blast
qed

theorem redirect_stays_on_site_witness:
  "buildSingleRedirectURL (sample_net\<lparr>nParseURL := \<lambda>_. Some \<lparr>uScheme = ''https'', uHost = ''up.io'', uHostname = ''up.io''\<rparr>\<rparr>)
     ''https://up.io/'' ''/billing'' = Some ''https://up.io/billing''
   \<and> \<not> Contains ''/billing'' ''://''"
proof -
  have ok: "buildSingleRedirectURL (sample_net\<lparr>nParseURL := \<lambda>_. Some \<lparr>uScheme = ''https'', uHost = ''up.io'', uHostname = ''up.io''\<rparr>\<rparr>)
     ''https://up.io/'' ''/billing'' = Some ''https://up.io/billing''"
    by (simp add: buildSingleRedirectURL_def TrimRight_def)
  from redirect_stays_on_site [OF this] show ?thesis using ok by auto
qed

end
