(* ===== verification/MonitorLaws.thy ===== *)
theory MonitorLaws
  imports MonitorApi
begin

section \<open>Laws of the monitor handlers\<close>

text \<open>
  What the handlers of \<^verbatim>\<open>MonitorApi\<close> keep: an update stays inside the plan that created the monitor,
  and the channel routes stay inside the plan's channel caps.
\<close>

subsection \<open>Creating a monitor\<close>

lemma create_plan_Inr:
  assumes "create_plan e d userId ws req = Inr (p, x)"
  obtains owner where "billingOwner e 2 d userId (cpOrgID p) = Inr owner" "cpBillingOwnerID p = owner"
    "cpUserID p = userId" "cpTimeout p = crTimeout req"
    "cpMaxMonitors p = MaxMonitors (LimitsForPlan (planForUser e 3 d owner))"
    "validateRegions e (if crRegions req = [] then [DefaultRegion] else crRegions req)
       (LimitsForPlan (planForUser e 3 d owner)) = Inr (cpRegions p)"
    "create_threshold (LimitsForPlan (planForUser e 3 d owner)) req = Inr (cpDegradedThresholdMs p)"
    "create_repeat (LimitsForPlan (planForUser e 3 d owner)) req =
       Inr (cpRepeatAlertIntervalSecs p, cpRepeatAlertMaxCount p)"
    "create_interval (LimitsForPlan (planForUser e 3 d owner)) req = Inr (cpInterval p)"
    "create_expiry (LimitsForPlan (planForUser e 3 d owner)) req = Inr x"
  using assms
  by (auto simp: create_plan_def Let_def split: sum.splits prod.splits if_splits)

lemma validateRegions_Inr:
  "validateRegions e rs limits = Inr out \<Longrightarrow>
   (MaxRegions limits \<noteq> Unlimited \<longrightarrow> int (length out) \<le> MaxRegions limits) \<and> set out \<subseteq> set (eRegions e)"
  by (auto simp: validateRegions_def list_all_iff split: sum.splits if_splits)

lemma create_interval_ok: "create_interval l req = Inr iv \<Longrightarrow> \<not> opt_any iv (\<lambda>v. v < MinInterval l)"
  by (auto simp: create_interval_def split: if_splits)

lemma create_threshold_ok: "create_threshold l req = Inr t \<Longrightarrow> CustomDegradedThreshold l \<or> t = None"
  by (auto simp: create_threshold_def split: if_splits)

lemma create_repeat_ok: "create_repeat l req = Inr (iv, cv) \<Longrightarrow> 
   iv = None \<or> MaxAlertRepeats l \<noteq> 0 \<and> \<not> opt_any cv (\<lambda>v. v > MaxAlertRepeats l)"
  by (auto simp: create_repeat_def or0_def opt_any_iff split: if_splits option.splits)

text \<open>The row a create leaves fits the plan it was checked against.\<close>

lemma created_row_conforms:
  assumes "create_plan e d userId ws req = Inr (p, x)"
  shows "conforms (planForUser e 3 d (cpBillingOwnerID p)) (new_monitor_row now i p)"
proof -
  obtain owner where o1: "cpBillingOwnerID p = owner"
    and rs: "validateRegions e (if crRegions req = [] then [DefaultRegion] else crRegions req)
       (LimitsForPlan (planForUser e 3 d owner)) = Inr (cpRegions p)"
    and thr: "create_threshold (LimitsForPlan (planForUser e 3 d owner)) req = Inr (cpDegradedThresholdMs p)"
    and rep: "create_repeat (LimitsForPlan (planForUser e 3 d owner)) req =
       Inr (cpRepeatAlertIntervalSecs p, cpRepeatAlertMaxCount p)"
    and iv: "create_interval (LimitsForPlan (planForUser e 3 d owner)) req = Inr (cpInterval p)"
    using assms by (rule create_plan_Inr)
  let ?l = "LimitsForPlan (planForUser e 3 d owner)"
  have "MaxRegions ?l = Unlimited \<or> 1 \<le> MaxRegions ?l"
    by (cases "planForUser e 3 d owner" rule: LimitsForPlan_cases) simp_all
  moreover have "MaxRegions ?l \<noteq> Unlimited \<longrightarrow> int (length (cpRegions p)) \<le> MaxRegions ?l"
    using validateRegions_Inr [OF rs] by blast
  ultimately show ?thesis
    using create_interval_ok [OF iv] create_threshold_ok [OF thr] create_repeat_ok [OF rep]
    by (auto simp: o1 conforms_def Let_def new_monitor_row_def)
qed

lemma created_pool_owner:
  assumes "create_plan e d userId ws req = Inr (p, x)"
  shows "pool_owner d p"
proof -
  obtain owner where "billingOwner e 2 d userId (cpOrgID p) = Inr owner" "cpBillingOwnerID p = owner"
    "cpUserID p = userId" using assms by (rule create_plan_Inr)
  then show ?thesis
    by (auto simp: pool_owner_def billingOwner_def orgOwner_def read_at_def attempt_read_def GetOrganization_def
        org_owner_def split: if_splits option.splits sum.splits)
qed

lemma rest_eq:
  assumes "d'\<lparr>monitors := [], region_status := []\<rparr> = d\<lparr>monitors := [], region_status := []\<rparr>"
  shows "organizations d' = organizations d" "subscriptions d' = subscriptions d"
  using arg_cong [OF assms, of organizations] arg_cong [OF assms, of subscriptions] by simp_all

lemma toModel_cong:
  assumes "organizations d' = organizations d" "subscriptions d' = subscriptions d"
  shows "toModel d y = toModel d' y" "ownerPlanExpr d' y = ownerPlanExpr d y" "billed_user d' y = billed_user d y"
proof -
  have "org_owner d' = org_owner d" using assms(1) by (intro ext) (simp add: org_owner_def)
  then show "billed_user d' y = billed_user d y" by (simp add: billed_user_def)
  then show "ownerPlanExpr d' y = ownerPlanExpr d y" using assms(2) by (simp add: ownerPlanExpr_def)
  then show "toModel d y = toModel d' y" by (simp add: toModel_def)
qed

text \<open>What a successful \<open>store_monitor\<close> did: the row it inserted, after the expiry update if any.\<close>

lemma store_monitor_Ok:
  assumes "store_monitor e d u p x = (Ok 201 m, d')"
  obtains d1 m1 f where "CreateMonitor d (eNow e) (eID e) p = (Inr m1, d1)"
    "monitors d' = update_where (\<lambda>r. mrID r = eID e) f (monitors d1)"
    "d'\<lparr>monitors := [], region_status := []\<rparr> = d1\<lparr>monitors := [], region_status := []\<rparr>"
    "f = (case x of None \<Rightarrow> (\<lambda>r. r) | Some r \<Rightarrow> apply_update (eNow e) r)"
    "m = toModel d' (f (new_monitor_row (eNow e) (eID e) p))"
proof -
  have plain: "write_at e i y w = (Inr v, y') \<Longrightarrow> w = (Inr v, y')" for i y y' w and v :: monitor
    by (auto simp: write_at_def attempt_def split: if_splits)
  obtain m1 d1 where c: "CreateMonitor d (eNow e) (eID e) p = (Inr m1, d1)"
    using assms by (auto simp: store_monitor_def split: prod.splits sum.splits store_error.splits dest!: plain)
  note d1 = CreateMonitor_Inr(1) [OF c] and m1 = CreateMonitor_Inr(2) [OF c]
  have i1: "mID m1 = eID e" by (simp add: m1 toModel_def Let_def new_monitor_row_def)
  show thesis
  proof (cases x)
    case None
    then show thesis
      using c assms m1 by (intro that [OF c])
        (auto simp: store_monitor_def update_where_def write_at_def attempt_def split: if_splits)
  next
    case (Some r)
    then obtain row where row: "select_monitor d1 (eID e) u = Some row"
      and res: "m = toModel d1 (apply_update (eNow e) r row)"
        "monitors d' = update_where (\<lambda>x. mrID x = eID e) (apply_update (eNow e) r) (monitors d1)"
        "d'\<lparr>monitors := [], region_status := []\<rparr> = d1\<lparr>monitors := [], region_status := []\<rparr>"
      using assms c
      by (auto simp: store_monitor_def write_at_def attempt_def i1 UpdateMonitor_def Let_def
          split: option.splits if_splits)
    have "row = new_monitor_row (eNow e) (eID e) p"
      using row CreateMonitor_Inr(3) [OF c]
      by (auto simp: d1 select_monitor_def rev_image_eqI dest!: find_SomeD)
    moreover have "toModel d1 y = toModel d' y" for y
      using toModel_cong(1) [OF rest_eq [OF res(3)]] .
    ultimately show thesis using Some res c by (intro that [OF c]) auto
  qed
qed

lemma expiry_request:
  assumes "create_expiry l req = Inr (Some r)"
  shows "r = no_update\<lparr>urCertCheckEnabled := crCertCheckEnabled req,
      urCertExpiryThresholdDays := crCertExpiryThresholdDays req,
      urDomainCheckEnabled := crDomainCheckEnabled req,
      urDomainExpiryThresholdDays := crDomainExpiryThresholdDays req\<rparr>"
    and "crCertCheckEnabled req = Some True \<longrightarrow> SSLMonitoring l"
    and "crDomainCheckEnabled req = Some True \<longrightarrow> DomainMonitoring l"
  using assms by (auto simp: create_expiry_def split: if_splits)

lemma apply_expiry:
  assumes "create_expiry l req = Inr (Some r)"
  shows "mrInterval (apply_update now r m) = mrInterval m" "mrTimeout (apply_update now r m) = mrTimeout m"
    "mrRegions (apply_update now r m) = mrRegions m"
    "mrDegradedThresholdMs (apply_update now r m) = mrDegradedThresholdMs m"
    "mrRepeatAlertIntervalSecs (apply_update now r m) = mrRepeatAlertIntervalSecs m"
    "mrRepeatAlertMaxCount (apply_update now r m) = mrRepeatAlertMaxCount m"
    "mrCertCheckEnabled (apply_update now r m) = upd (crCertCheckEnabled req) (mrCertCheckEnabled m)"
    "mrDomainCheckEnabled (apply_update now r m) = upd (crDomainCheckEnabled req) (mrDomainCheckEnabled m)"
  by (simp_all add: expiry_request(1) [OF assms] apply_update_def no_update_def Let_def upd_def)

lemma upd_True: "upd v b \<Longrightarrow> v = Some True \<or> b"
  by (auto simp: upd_def split: option.splits)

lemma expiry_update_conforms:
  assumes "create_expiry (LimitsForPlan plan) req = Inr (Some r)" "conforms plan m"
  shows "conforms plan (apply_update now r m)"
  using assms(2) expiry_request(2,3) [OF assms(1)]
  by (auto simp: conforms_def Let_def apply_expiry [OF assms(1)] dest: upd_True)

lemma created_timeout:
  assumes "create_plan e d userId ws req = Inr (p, x)" "validateCreate req = None"
  shows "cpTimeout p < EffectiveInterval (cpInterval p) plan (cpTimeout p) \<and> cpTimeout p \<noteq> 0"
proof -
  obtain owner where "cpBillingOwnerID p = owner" "cpTimeout p = crTimeout req"
    "create_interval (LimitsForPlan (planForUser e 3 d owner)) req = Inr (cpInterval p)"
    using assms(1) by (rule create_plan_Inr)
  then show ?thesis
    using assms(2) by (auto simp: create_interval_def EffectiveInterval_def validateCreate_def bound_defs Let_def
        split: if_splits option.splits)
qed

text \<open>C4: a monitor that was created fits its plan, whatever store calls failed on the way. When the
  handler answers 201, the stored row satisfies every per-monitor limit of the plan that the
  database itself resolves for it (interval floor, regions, custom threshold, both expiry checks,
  repeat alerts and the cap on their count), its timeout is below its effective interval, and the
  billing owner's pool, this monitor included, is within the plan's cap.\<close>

theorem create_within_plan:
  assumes "schema_ok d" "CreateMonitor_h e d (Some u) ws (Some req) = (Ok 201 m, d')"
  shows "\<exists>row \<in> set (monitors d'). mrID row = mID m
    \<and> conforms (ownerPlanExpr d' row) row
    \<and> mTimeout m < mInterval m
    \<and> CountMonitorsForBillingOwner d' (billed_user d' row) \<le> MaxMonitors (LimitsForPlan (ownerPlanExpr d' row))"
proof -
  let ?req = "SetDefaults req"
  obtain p x where plan: "create_plan e d u ws ?req = Inr (p, x)" and val: "validateCreate ?req = None"
    and store: "store_monitor e d u p x = (Ok 201 m, d')"
    using assms(2) by (auto simp: CreateMonitor_h_def Let_def split: option.splits sum.splits if_splits)
  obtain d1 m1 f where c: "CreateMonitor d (eNow e) (eID e) p = (Inr m1, d1)"
    and ms: "monitors d' = update_where (\<lambda>r. mrID r = eID e) f (monitors d1)"
    and rest: "d'\<lparr>monitors := [], region_status := []\<rparr> = d1\<lparr>monitors := [], region_status := []\<rparr>"
    and f: "f = (case x of None \<Rightarrow> (\<lambda>r. r) | Some r \<Rightarrow> apply_update (eNow e) r)"
    and m: "m = toModel d' (f (new_monitor_row (eNow e) (eID e) p))"
    using store by (rule store_monitor_Ok)
  let ?row = "new_monitor_row (eNow e) (eID e) p"
  let ?owner = "cpBillingOwnerID p" and ?plan = "planForUser e 3 d (cpBillingOwnerID p)"
  note d1 = CreateMonitor_Inr(1) [OF c]
  have own: "pool_owner d p" using plan by (rule created_pool_owner)
  have keys: "mrID (f r) = mrID r" "mrUserID (f r) = mrUserID r" "mrOrgID (f r) = mrOrgID r" for r
    by (simp_all add: f split: option.split)
  have billed: "billed_user d' (f ?row) = ?owner"
    using own rest_eq(1) [OF rest] by (auto simp: billed_user_def keys d1 pool_owner_def new_monitor_row_def org_owner_def split: if_splits)
  have scope: "billingScopeClause d' = billingScopeClause d1"
    by (intro ext billing_scope_cong rest_eq(1) [OF rest])
  have within: "limits_within (LimitsForPlan ?plan) (LimitsForPlan (ownerPlanExpr d' (f ?row)))"
    using rest_eq(2) [OF rest] planForUser_within [of e 3 d ?owner] by (simp add: ownerPlanExpr_effective billed d1)
  have expl: "create_expiry (LimitsForPlan ?plan) ?req = Inr x" and cap: "cpMaxMonitors p = MaxMonitors (LimitsForPlan ?plan)"
    using plan by (rule create_plan_Inr, simp)+
  have conf: "conforms ?plan ?row" using plan by (rule created_row_conforms)
  have frow: "conforms ?plan (f ?row) \<and> mrInterval (f ?row) = mrInterval ?row \<and> mrTimeout (f ?row) = mrTimeout ?row"
    using expiry_update_conforms [OF _ conf] expl conf apply_expiry by (cases x) (auto simp: f)
  have "mTimeout m < mInterval m"
    using created_timeout [OF plan val] frow by (simp add: m toModel_def Let_def new_monitor_row_def)
  moreover have "CountMonitorsForBillingOwner d' ?owner = CountMonitorsForBillingOwner d1 ?owner"
    using billing_scope_row [OF keys(2,3)] scope
    by (simp add: CountMonitorsForBillingOwner_def ms count_where_update)
  moreover have "CountMonitorsForBillingOwner d1 ?owner \<le> cpMaxMonitors p"
    using CreateMonitor_pool [OF assms(1) own, of "eNow e" "eID e"] c cap MaxMonitors_limited by simp
  moreover have "cpMaxMonitors p \<le> MaxMonitors (LimitsForPlan (ownerPlanExpr d' (f ?row)))"
    using within by (simp add: cap limits_within_def)
  moreover have "f ?row \<in> set (monitors d')"
    by (auto simp: ms d1 table_simps new_monitor_row_def)
  ultimately show ?thesis
    using frow conforms_mono [OF _ within]
    by (intro bexI [of _ "f ?row"]) (simp_all add: billed m toModel_def Let_def keys)
qed

subsection \<open>Updating a monitor\<close>

lemma update_gate_Inr:
  assumes "update_gate e d u m req = Inr req1" "plan_gated req"
  defines "l \<equiv> LimitsForPlan (monitorScopePlan e 3 d m u)"
  obtains rs where "req1 = req\<lparr>urRegions := rs\<rparr>" "update_interval l m req = None" "update_repeat l req = None"
    "opt_any (urDegradedThresholdMs req) (\<lambda>v. v \<noteq> 0) \<longrightarrow> CustomDegradedThreshold l"
    "urCertCheckEnabled req = Some True \<longrightarrow> SSLMonitoring l"
    "urDomainCheckEnabled req = Some True \<longrightarrow> DomainMonitoring l"
    "rs = None \<and> urRegions req = None \<or> (\<exists>w out. validateRegions e w l = Inr out \<and> rs = Some out)"
proof -
  let ?regs = "case urRegions req of None \<Rightarrow> Inr req
    | Some rs \<Rightarrow> (case validateRegions e rs l of Inl x \<Rightarrow> Inl x | Inr rs' \<Rightarrow> Inr (req\<lparr>urRegions := Some rs'\<rparr>))"
  have iv: "update_interval l m req = None" and regs: "?regs = Inr req1"
    and thr: "\<not> (opt_any (urDegradedThresholdMs req) (\<lambda>v. v \<noteq> 0) \<and> \<not> CustomDegradedThreshold l)"
    and rep: "update_repeat l req = None"
    and ex: "(if urCertCheckEnabled req \<noteq> None \<or> urDomainCheckEnabled req \<noteq> None
              then update_expiry l m req else None) = None"
    using assms(1,2) unfolding update_gate_def Let_def l_def [symmetric]
    by (force split: option.splits sum.splits if_splits)+
  have r1: "req1 = req\<lparr>urRegions := urRegions req1\<rparr>"
    and r2: "urRegions req1 = None \<and> urRegions req = None
      \<or> (\<exists>w out. validateRegions e w l = Inr out \<and> urRegions req1 = Some out)"
    using regs by (auto split: option.splits sum.splits)
  show thesis
    using ex thr by (intro that [OF r1 iv rep _ _ _ r2]) (auto simp: update_expiry_def Let_def split: if_splits)
qed

lemma apply_update_fields:
  "mrInterval (apply_update now r m) = upd (map_option null_if_0 (urInterval r)) (mrInterval m)"
  "mrRegions (apply_update now r m) = upd (urRegions r) (mrRegions m)"
  "mrDegradedThresholdMs (apply_update now r m) =
     upd (map_option null_if_0 (urDegradedThresholdMs r)) (mrDegradedThresholdMs m)"
  "mrCertCheckEnabled (apply_update now r m) = upd (urCertCheckEnabled r) (mrCertCheckEnabled m)"
  "mrDomainCheckEnabled (apply_update now r m) = upd (urDomainCheckEnabled r) (mrDomainCheckEnabled m)"
  "mrRepeatAlertIntervalSecs (apply_update now r m) =
     (if urRepeatAlertIntervalSecs r = None \<and> urRepeatAlertMaxCount r = None then mrRepeatAlertIntervalSecs m
      else if or0 (urRepeatAlertIntervalSecs r) = 0 \<or> or0 (urRepeatAlertMaxCount r) = 0 then None
      else Some (or0 (urRepeatAlertIntervalSecs r)))"
  "mrRepeatAlertMaxCount (apply_update now r m) =
     (if urRepeatAlertIntervalSecs r = None \<and> urRepeatAlertMaxCount r = None then mrRepeatAlertMaxCount m
      else if or0 (urRepeatAlertIntervalSecs r) = 0 \<or> or0 (urRepeatAlertMaxCount r) = 0 then None
      else Some (or0 (urRepeatAlertMaxCount r)))"
  by (simp_all add: apply_update_def Let_def)

lemma update_repeat_regions: "update_repeat l (req\<lparr>urRegions := rs\<rparr>) = update_repeat l req"
  by (simp add: update_repeat_def)

lemma update_repeat_ok:
  assumes "update_repeat l r = None" "limits_within l k"
    and "mrRepeatAlertIntervalSecs m = None \<or>
      MaxAlertRepeats k \<noteq> 0 \<and> \<not> opt_any (mrRepeatAlertMaxCount m) (\<lambda>v. v > MaxAlertRepeats k)"
  shows "mrRepeatAlertIntervalSecs (apply_update now r m) = None \<or>
      MaxAlertRepeats k \<noteq> 0 \<and> \<not> opt_any (mrRepeatAlertMaxCount (apply_update now r m)) (\<lambda>v. v > MaxAlertRepeats k)"
  using assms unfolding apply_update_fields
  by (auto simp: update_repeat_def limits_within_def Let_def split: if_splits)

lemma update_interval_ok:
  assumes "update_interval l m r = None" "limits_within l k" "\<not> opt_any iv (\<lambda>v. v < MinInterval k)"
  shows "\<not> opt_any (upd (map_option null_if_0 (urInterval r)) iv) (\<lambda>v. v < MinInterval k)"
  using assms
  by (auto simp: update_interval_def limits_within_def Let_def upd_def null_if_0_def split: option.splits if_splits)

text \<open>The gate checks the request against limits that may be stricter than the plan's, when its
  subscription could not be read; a row of the plan then stays inside the plan.\<close>

lemma gate_conforms:
  assumes "update_gate e d u m req = Inr req1" "conforms plan row"
    and "limits_within (LimitsForPlan (monitorScopePlan e 3 d m u)) (LimitsForPlan plan)"
  shows "conforms plan (apply_update now req1 row)"
proof (cases "plan_gated req")
  case False
  then have "req1 = req" using assms(1) by (simp add: update_gate_def)
  then show ?thesis
    using False assms(2) by (simp add: plan_gated_def conforms_def Let_def apply_update_fields upd_def)
next
  case True
  let ?l = "LimitsForPlan (monitorScopePlan e 3 d m u)" and ?k = "LimitsForPlan plan"
  have within: "MaxRegions ?k = Unlimited \<or> MaxRegions ?l \<noteq> Unlimited \<and> MaxRegions ?l \<le> MaxRegions ?k"
    "CustomDegradedThreshold ?l \<longrightarrow> CustomDegradedThreshold ?k"
    "SSLMonitoring ?l \<longrightarrow> SSLMonitoring ?k" "DomainMonitoring ?l \<longrightarrow> DomainMonitoring ?k"
    using assms(3) unfolding limits_within_def by blast+
  have row: "\<not> opt_any (mrInterval row) (\<lambda>v. v < MinInterval ?k)"
    "MaxRegions ?k \<noteq> Unlimited \<longrightarrow> int (length (mrRegions row)) \<le> MaxRegions ?k"
    "CustomDegradedThreshold ?k \<or> mrDegradedThresholdMs row = None"
    "SSLMonitoring ?k \<or> \<not> mrCertCheckEnabled row" "DomainMonitoring ?k \<or> \<not> mrDomainCheckEnabled row"
    "mrRepeatAlertIntervalSecs row = None \<or> MaxAlertRepeats ?k \<noteq> 0 \<and>
      \<not> opt_any (mrRepeatAlertMaxCount row) (\<lambda>v. v > MaxAlertRepeats ?k)"
    using assms(2) unfolding conforms_def Let_def by - (elim conjE, assumption)+
  from assms(1) True obtain rs where r1: "req1 = req\<lparr>urRegions := rs\<rparr>" and iv: "update_interval ?l m req = None"
    and rep: "update_repeat ?l req = None"
    and thr: "opt_any (urDegradedThresholdMs req) (\<lambda>v. v \<noteq> 0) \<longrightarrow> CustomDegradedThreshold ?l"
    and flags: "urCertCheckEnabled req = Some True \<longrightarrow> SSLMonitoring ?l"
      "urDomainCheckEnabled req = Some True \<longrightarrow> DomainMonitoring ?l"
    and regs: "rs = None \<and> urRegions req = None \<or> (\<exists>w out. validateRegions e w ?l = Inr out \<and> rs = Some out)"
    by (rule update_gate_Inr)
  have "MaxRegions ?k \<noteq> Unlimited \<longrightarrow> int (length (upd rs (mrRegions row))) \<le> MaxRegions ?k"
  proof (cases rs)
    case None
    then show ?thesis using row(2) by (simp add: upd_def)
  next
    case (Some out)
    then have "MaxRegions ?l \<noteq> Unlimited \<longrightarrow> int (length out) \<le> MaxRegions ?l"
      using regs validateRegions_Inr by blast
    then show ?thesis using Some within(1) by (auto simp: upd_def)
  qed
  moreover have "CustomDegradedThreshold ?k \<or> upd (map_option null_if_0 (urDegradedThresholdMs req)) (mrDegradedThresholdMs row) = None"
    using thr row(3) within(2) by (auto simp: upd_def null_if_0_def split: option.splits)
  moreover have "mrRepeatAlertIntervalSecs (apply_update now req1 row) = None \<or> MaxAlertRepeats ?k \<noteq> 0 \<and>
      \<not> opt_any (mrRepeatAlertMaxCount (apply_update now req1 row)) (\<lambda>v. v > MaxAlertRepeats ?k)"
    using rep by (intro update_repeat_ok [OF _ assms(3) row(6)]) (simp add: r1 update_repeat_regions)
  moreover have "SSLMonitoring ?k \<or> \<not> upd (urCertCheckEnabled req) (mrCertCheckEnabled row)"
    "DomainMonitoring ?k \<or> \<not> upd (urDomainCheckEnabled req) (mrDomainCheckEnabled row)"
    using flags within(3,4) row(4,5) by (blast dest: upd_True)+
  ultimately show ?thesis
    using update_interval_ok [OF iv assms(3) row(1)]
    unfolding conforms_def Let_def apply_update_fields(1-5) by (simp add: r1)
qed

text \<open>The plan the handler resolves for a stored monitor is the plan SQL resolves, or FREE when a
  read failed.\<close>

lemma scope_plan_of_row:
  assumes "schema_ok d" "mrOrgID row \<noteq> Some []" "select_monitor d i u = Some row"
  shows "limits_within (LimitsForPlan (monitorScopePlan e k d (toModel d row) u)) (LimitsForPlan (ownerPlanExpr d row))"
proof -
  have row: "row \<in> set (monitors d)" "monitorAccessClause d u row"
    using assms(3) by (auto simp: select_monitor_def dest: find_SomeD)
  show ?thesis
  proof (cases "mrOrgID row")
    case None
    then show ?thesis
      using row planForUser_within by (simp add: monitorScopePlan_def toModel_def Let_def ownerPlanExpr_effective
          billed_user_def monitorAccessClause_def)
  next
    case (Some oid)
    have "oid \<in> oID ` set (organizations d)"
      using assms(1) row Some by (auto simp: schema_defs monitor_org_refs_def)
    then obtain w where "org_owner d oid = Some w" using org_owner_None [of d oid] by auto
    then show ?thesis
      using Some assms(2) planForUser_within limits_within_FREE
      by (cases "eFaulty e k") (simp_all add: monitorScopePlan_def toModel_def Let_def ownerPlanExpr_effective
          planForOrg_def orgOwner_find billed_user_def, simp add: orgOwner_def read_at_def attempt_read_def)
  qed
qed

text \<open>C17: an update cannot take a monitor outside its plan, whatever store calls failed on the way.
  When the handler answers 200 and the stored row fitted the plan the database resolves for it,
  the updated row still fits it, every other monitor is as before, and the row keeps its owner and
  organization. The row's organization id, if it has one, must not be the empty string, which the
  handler takes for a personal monitor; the database gives organizations UUIDs.\<close>

theorem update_within_plan:
  assumes "schema_ok d" "mrOrgID row \<noteq> Some []"
    and "UpdateMonitor_h e d (Some u) i (Some req) = (Ok 200 m, d')"
    and "row \<in> set (monitors d)" "mrID row = i" "conforms (ownerPlanExpr d row) row"
  shows "\<exists>row'. monitors d' = map (\<lambda>x. if mrID x = i then row' else x) (monitors d)
    \<and> mrUserID row' = mrUserID row \<and> mrOrgID row' = mrOrgID row \<and> mrID row' = i
    \<and> conforms (ownerPlanExpr d' row') row'"
proof -
  obtain m0 req1 where wm: "writable_monitor e d (Some u) i = Inr (u, m0)"
    and gate: "update_gate e d u m0 req = Inr req1" and up: "UpdateMonitor d (eNow e) i u req1 = (Inr m, d')"
    using assms(3)
    by (auto simp: UpdateMonitor_h_def write_at_def attempt_def writable_monitor_def split: option.splits sum.splits
        if_splits prod.splits store_error.splits)
  obtain row0 where sel: "select_monitor d i u = Some row0" and m0: "m0 = toModel d row0"
    using wm by (auto simp: writable_monitor_def read_at_def attempt_read_def GetMonitor_def
        split: option.splits if_splits)
  have un: "uniq mrID (monitors d)" using assms(1) by (simp add: schema_defs)
  have "row0 \<in> set (monitors d)" "mrID row0 = i"
    using sel by (auto simp: select_monitor_def dest: find_SomeD)
  then have row0: "row0 = row" using uniq_same [OF un] assms(4,5) by metis
  note plan = scope_plan_of_row [OF assms(1,2) sel [unfolded row0], of e 3]
  let ?row' = "apply_update (eNow e) req1 row"
  have ms: "monitors d' = update_where (\<lambda>x. mrID x = i) (apply_update (eNow e) req1) (monitors d)"
    and frame: "organizations d' = organizations d" "subscriptions d' = subscriptions d"
    using up sel by (auto simp: UpdateMonitor_def Let_def)
  have "monitors d' = map (\<lambda>x. if mrID x = i then ?row' else x) (monitors d)"
    unfolding ms update_where_def using uniq_same [OF un _ assms(4)] assms(5) by auto
  moreover have "ownerPlanExpr d' ?row' = ownerPlanExpr d row"
  proof -
    have "billed_user d ?row' = billed_user d row" by (simp add: billed_user_def split: option.split)
    then show ?thesis unfolding toModel_cong(2) [OF frame] by (simp add: ownerPlanExpr_effective)
  qed
  moreover have "conforms (ownerPlanExpr d row) ?row'"
    using gate_conforms [OF gate assms(6)] plan by (simp add: m0 row0)
  ultimately show ?thesis using assms(5) by (intro exI [of _ ?row']) simp
qed

subsection \<open>Concrete runs\<close>

definition org_workspace :: workspace where
  "org_workspace = \<lparr>wsOrgID = ''org'', wsRole = MEMBER, wsExplicit = True\<rparr>"

definition sample_update :: update_monitor_request where
  "sample_update = no_update\<lparr>urInterval := Some 120, urRegions := Some [''ca-east'']\<rparr>"

lemma sample_target: "ValidateTarget sample_net ''https://example.com'' HTTP = None"
  by (simp add: ValidateTarget_def target_host_def sample_net_def isPrivateIP_def privateRanges_def ip4_def)

lemma sample_created:
  obtains m d' where "CreateMonitor_h sample_env sample_db (Some ''ann'') org_workspace (Some sample_create) = (Ok 201 m, d')"
proof -
  let ?plan = "create_plan sample_env sample_db ''ann'' org_workspace (SetDefaults sample_create)"
  have v: "validateCreate (SetDefaults sample_create) = None" by code_simp
  have "(case ?plan of Inl _ \<Rightarrow> False | Inr (p, x) \<Rightarrow> is_ok (fst (store_monitor sample_env sample_db ''ann'' p x))
      \<and> resp_status (fst (store_monitor sample_env sample_db ''ann'' p x)) = 201)" by code_simp
  then obtain p x where p: "?plan = Inr (p, x)"
    and ok: "is_ok (fst (store_monitor sample_env sample_db ''ann'' p x))"
      "resp_status (fst (store_monitor sample_env sample_db ''ann'' p x)) = 201"
    by (auto split: sum.splits)
  obtain r d' where rd: "store_monitor sample_env sample_db ''ann'' p x = (r, d')" by force
  then obtain m where "r = Ok 201 m" using ok by (cases r) auto
  then show thesis
    using p rd v sample_target
    by (intro that [of m d']) (simp add: CreateMonitor_h_def create_monitor_binding_def sample_env_def sample_create_def SetDefaults_def Let_def)
qed

theorem create_within_plan_witness:
  "\<exists>m d'. CreateMonitor_h sample_env sample_db (Some ''ann'') org_workspace (Some sample_create) = (Ok 201 m, d')
    \<and> mTimeout m < mInterval m"
proof -
  obtain m d' where ok: "CreateMonitor_h sample_env sample_db (Some ''ann'') org_workspace (Some sample_create) = (Ok 201 m, d')"
    by (rule sample_created)
  from create_within_plan [OF sample_db_ok ok] show ?thesis using ok by blast
qed

theorem update_within_plan_witness:
  "\<exists>m d'. UpdateMonitor_h sample_env sample_db (Some ''ann'') ''m1'' (Some sample_update) = (Ok 200 m, d')
    \<and> (\<exists>row' \<in> set (monitors d'). mrID row' = ''m1'' \<and> conforms (ownerPlanExpr d' row') row')"
proof -
  let ?m1 = "sample_monitor ''m1'' (Some ''org'')"
  obtain req1 where g: "update_gate sample_env sample_db ''ann'' (toModel sample_db ?m1) sample_update = Inr req1"
    and t: "urTarget req1 = None" "urType req1 = None"
  proof -
    have "(case update_gate sample_env sample_db ''ann'' (toModel sample_db ?m1) sample_update of
        Inl _ \<Rightarrow> False | Inr r \<Rightarrow> urTarget r = None \<and> urType r = None)" by code_simp
    then show thesis using that by (auto split: sum.splits)
  qed
  have w: "writable_monitor sample_env sample_db (Some ''ann'') ''m1'' = Inr (''ann'', toModel sample_db ?m1)" by code_simp
  have v: "update_monitor_binding sample_update" "validateUpdate sample_update = None" "hasUpdates sample_update" by code_simp+
  have nofault: "\<forall>i. \<not> eFaulty sample_env i" by (simp add: sample_env_def)
  have mem: "?m1 \<in> set (monitors sample_db)" "mrID ?m1 = ''m1''" by (simp_all add: sample_db_def sample_monitor_def)
  have sel: "select_monitor sample_db ''m1'' ''ann'' = Some ?m1" by code_simp
  obtain m d' where "UpdateMonitor sample_db (eNow sample_env) ''m1'' ''ann'' req1 = (Inr m, d')"
    by (simp add: UpdateMonitor_def sel Let_def)
  then have ok: "UpdateMonitor_h sample_env sample_db (Some ''ann'') ''m1'' (Some sample_update) = (Ok 200 m, d')"
    using nofault by (simp add: UpdateMonitor_h_def v w g t write_at_def attempt_def)
  have c: "conforms (ownerPlanExpr sample_db ?m1) ?m1" by code_simp
  have "mrOrgID ?m1 \<noteq> Some []" by (simp add: sample_monitor_def)
  from update_within_plan [OF sample_db_ok this ok mem c] show ?thesis using ok mem by (force simp: image_iff)
qed

end
