(* ===== verification/Partition.thy ===== *)
theory Partition
  imports Prelude
begin

section \<open>Partition ownership\<close>

text \<open>
  \<^verbatim>\<open>internal/coordination/partition.go\<close>. A monitor id is hashed to a partition and each
  scheduler instance of a region owns the partitions congruent to its index in the sorted
  membership list. The digest function \<^verbatim>\<open>md5\<close> is an argument of the definitions (both
  Go's \<^verbatim>\<open>crypto/md5\<close> and PostgreSQL's \<^verbatim>\<open>md5()\<close> compute it), as the list of its bytes.
  The 32-bit arithmetic is kept at its width: \<^verbatim>\<open>int32\<close> conversions wrap, \<open>%\<close> truncates
  toward zero, a zero divisor panics (\<open>None\<close>). In PostgreSQL an \<^verbatim>\<open>int4\<close> overflow is an
  error (\<open>None\<close>). The map \<^verbatim>\<open>ownedPartitions\<close> is the set of its true keys; collecting its
  keys and sorting them is \<open>sorted_list_of_set\<close>.
\<close>

record partition_manager =
  partitionCount :: int
  instanceID :: string
  ownedPartitions :: "int set"
  instanceIndex :: int
  instanceCount :: int

record partition_delta =
  Gained :: "int list"
  Lost :: "int list"

definition NewPartitionManager :: "int \<Rightarrow> string \<Rightarrow> partition_manager" where
  "NewPartitionManager count i =
     \<lparr>partitionCount = (if count < 1 then 1 else count), instanceID = i, ownedPartitions = {},
      instanceIndex = - 1, instanceCount = 0\<rparr>"

text \<open>\<^verbatim>\<open>binary.BigEndian.Uint32\<close> of the first four bytes.\<close>

definition be_uint32 :: "8 word list \<Rightarrow> int" where
  "be_uint32 bs = foldl (\<lambda>a b. 256 * a + uint b) 0 (take 4 bs)"

definition go_rem32 :: "int \<Rightarrow> int \<Rightarrow> int option" where
  "go_rem32 a b = (if b = 0 then None else Some (int32 (a smod b)))"

definition CalculatePartition ::
    "(string \<Rightarrow> 8 word list) \<Rightarrow> partition_manager \<Rightarrow> string \<Rightarrow> int option" where
  "CalculatePartition md5 pm monitorID =
     (let v = int32 (be_uint32 (md5 monitorID)); count = int32 (partitionCount pm)
      in Option.bind (go_rem32 v count) (\<lambda>r. go_rem32 (int32 (r + count)) count))"

text \<open>The value PostgreSQL computes for \<^verbatim>\<open>PartitionSQLExpr\<close>: the first eight hex digits
  of the digest are the same four bytes, cast to a signed 32-bit integer; \<open>c\<close> is the
  literal written into the query, an \<^verbatim>\<open>int4\<close> when it fits and a \<^verbatim>\<open>bigint\<close> otherwise.\<close>

definition PartitionSQLExpr :: "(string \<Rightarrow> 8 word list) \<Rightarrow> partition_manager \<Rightarrow> string \<Rightarrow> int option" where
  "PartitionSQLExpr md5 pm monitorID =
     (let v = int32 (be_uint32 (md5 monitorID)); c = partitionCount pm; s = v smod c + c
      in if c = 0 then None
         else if c < 2 ^ 31 \<and> s \<ge> 2 ^ 31 then None
         else Some (s smod c))"

fun find_index :: "string \<Rightarrow> string list \<Rightarrow> int \<Rightarrow> int" where
  "find_index x [] i = - 1"
| "find_index x (y # ys) i = (if y = x then i else find_index x ys (i + 1))"

definition new_owned :: "int \<Rightarrow> int \<Rightarrow> int \<Rightarrow> int set" where
  "new_owned count n idx = set (filter (\<lambda>p. p mod n = idx) [0..count - 1])"

definition RecalculateOwnership ::
    "partition_manager \<Rightarrow> string list \<Rightarrow> partition_delta \<times> partition_manager" where
  "RecalculateOwnership pm instances =
     (let idx = find_index (instanceID pm) instances 0 in
      if idx = - 1 then
        (\<lparr>Gained = [], Lost = sorted_list_of_set (ownedPartitions pm)\<rparr>,
         pm\<lparr>ownedPartitions := {}, instanceIndex := - 1, instanceCount := int (length instances)\<rparr>)
      else
        (let n = int (length instances);
             newOwned = new_owned (partitionCount pm) n idx;
             gained = sorted_list_of_set (newOwned - ownedPartitions pm);
             lost = sorted_list_of_set (ownedPartitions pm - newOwned)
         in (\<lparr>Gained = gained, Lost = lost\<rparr>,
             pm\<lparr>ownedPartitions := newOwned, instanceIndex := idx, instanceCount := n\<rparr>)))"

definition IsOwned :: "partition_manager \<Rightarrow> int \<Rightarrow> bool" where
  "IsOwned pm p = (p \<in> ownedPartitions pm)"

definition IsMonitorOwned ::
    "(string \<Rightarrow> 8 word list) \<Rightarrow> partition_manager \<Rightarrow> string \<Rightarrow> bool option" where
  "IsMonitorOwned md5 pm monitorID = map_option (IsOwned pm) (CalculatePartition md5 pm monitorID)"

definition GetOwnedPartitions :: "partition_manager \<Rightarrow> int list" where
  "GetOwnedPartitions pm = sorted_list_of_set (ownedPartitions pm)"

definition GetInstanceInfo :: "partition_manager \<Rightarrow> int \<times> int" where
  "GetInstanceInfo pm = (instanceIndex pm, instanceCount pm)"

definition PartitionCount :: "partition_manager \<Rightarrow> int" where
  "PartitionCount pm = partitionCount pm"

text \<open>The invariant of a manager: a positive count, and the owned set is what the last
  recalculation left, a finite set of partitions below the count.\<close>

definition pm_ok :: "partition_manager \<Rightarrow> bool" where
  "pm_ok pm \<longleftrightarrow> 1 \<le> partitionCount pm \<and> ownedPartitions pm \<subseteq> {0..<partitionCount pm}"

subsection \<open>Lemmas\<close>

lemma smod_pos_cases:
  assumes "(0::int) < c"
  shows "v smod c = (if v mod c = 0 \<or> 0 \<le> v then v mod c else v mod c - c)"
proof (cases "v < 0")
  case True
  then have "v smod c = - (- v mod c)" using assms by (simp add: smod_int_alt_def)
  with True show ?thesis using zmod_zminus1_eq_if [of "v" c] by simp
next
  case False
  then show ?thesis using assms by (cases "v = 0") (simp_all add: smod_int_alt_def)
qed

lemma smod_abs_less: "(0::int) < c \<Longrightarrow> - c < v smod c \<and> v smod c < c"
  using smod_int_range [of c v] by auto

lemma smod_normalised:
  assumes "(0::int) < c"
  shows "(v smod c + c) smod c = v mod c"
proof -
  have "0 < v smod c + c" using smod_abs_less [OF assms, of v] by simp
  then have "(v smod c + c) smod c = (v smod c + c) mod c"
    using assms by (simp add: smod_mod_positive)
  also have "\<dots> = v mod c"
    using smod_pos_cases [OF assms, of v] by (auto simp: mod_simps split: if_splits)
  finally show ?thesis .
qed

lemma CalculatePartition_eq:
  assumes "1 \<le> partitionCount pm" "partitionCount pm \<le> 2 ^ 30"
  shows "CalculatePartition md5 pm i =
    Some (int32 (be_uint32 (md5 i)) mod partitionCount pm)"
proof -
  let ?c = "partitionCount pm" and ?v = "int32 (be_uint32 (md5 i))"
  have c: "int32 ?c = ?c" using assms by (intro int32_id) simp_all
  have b: "- ?c < ?v smod ?c" "?v smod ?c < ?c" using smod_abs_less [of ?c ?v] assms by simp_all
  have r: "int32 (?v smod ?c) = ?v smod ?c" using b assms by (intro int32_id) simp_all
  have s: "int32 (?v smod ?c + ?c) = ?v smod ?c + ?c" using b assms by (intro int32_id) simp_all
  have n: "(?v smod ?c + ?c) smod ?c = ?v mod ?c" using assms by (intro smod_normalised) simp
  have "0 \<le> ?v mod ?c" "?v mod ?c < ?c" using assms by simp_all
  moreover have "(2::int) ^ 30 < 2 ^ 31" "- (2 ^ 31) \<le> (0::int)" by simp_all
  ultimately have m: "int32 (?v mod ?c) = ?v mod ?c" using assms by (intro int32_id) linarith+
  show ?thesis
    using assms by (simp add: CalculatePartition_def go_rem32_def Let_def c r s n m)
qed

lemma find_index_range: "find_index x xs i = - 1 \<or> (i \<le> find_index x xs i \<and> find_index x xs i < i + int (length xs))"
  if "0 \<le> i"
  using that by (induction x xs i rule: find_index.induct) (auto split: if_splits)

lemma find_index_absent: "0 \<le> i \<Longrightarrow> find_index x xs i = - 1 \<longleftrightarrow> x \<notin> set xs"
proof (induction x xs i rule: find_index.induct)
  case (2 x y ys i)
  then show ?case by (auto split: if_splits)
qed simp

lemma find_index_nth:
  "distinct xs \<Longrightarrow> k < length xs \<Longrightarrow> find_index (xs ! k) xs i = i + int k"
proof (induction xs arbitrary: k i)
  case (Cons y ys)
  then show ?case by (cases k) (auto simp: nth_eq_iff_index_eq)
qed simp

lemma new_owned_iff: "p \<in> new_owned c n idx \<longleftrightarrow> 0 \<le> p \<and> p < c \<and> p mod n = idx"
  by (auto simp: new_owned_def)

lemma finite_new_owned [simp]: "finite (new_owned c n idx)"
  unfolding new_owned_def by (rule finite_set)

lemma pm_ok_New [inv_intros]: "pm_ok (NewPartitionManager c i)"
  by (simp add: pm_ok_def NewPartitionManager_def)

lemma pm_ok_finite: "pm_ok pm \<Longrightarrow> finite (ownedPartitions pm)"
  by (auto simp: pm_ok_def intro: finite_subset)

lemma RecalculateOwnership_fields [simp]:
  "partitionCount (snd (RecalculateOwnership pm is)) = partitionCount pm"
  "instanceID (snd (RecalculateOwnership pm is)) = instanceID pm"
  by (simp_all add: RecalculateOwnership_def Let_def)

lemma RecalculateOwnership_owned:
  "ownedPartitions (snd (RecalculateOwnership pm is)) =
     (if instanceID pm \<in> set is
      then new_owned (partitionCount pm) (int (length is)) (find_index (instanceID pm) is 0) else {})"
  using find_index_absent [of 0 "instanceID pm" "is"]
  by (auto simp: RecalculateOwnership_def Let_def)

lemma pm_ok_Recalculate [inv_intros]:
  "pm_ok pm \<Longrightarrow> pm_ok (snd (RecalculateOwnership pm is))"
  by (auto simp: pm_ok_def RecalculateOwnership_owned new_owned_iff)

lemma Recalculate_delta:
  assumes "pm_ok pm"
  shows "set (Gained (fst (RecalculateOwnership pm is))) =
      ownedPartitions (snd (RecalculateOwnership pm is)) - ownedPartitions pm"
    "set (Lost (fst (RecalculateOwnership pm is))) =
      ownedPartitions pm - ownedPartitions (snd (RecalculateOwnership pm is))"
  using pm_ok_finite [OF assms] by (simp_all add: RecalculateOwnership_def Let_def)

subsection \<open>The contract the distributed scheduler relies on\<close>

text \<open>What \<^verbatim>\<open>DistributedScheduler\<close> needs from a partition manager: a recalculation reports
  as lost exactly the partitions it takes away, and keeps the manager well-formed.\<close>

locale ownership =
  fixes owned :: "'pm \<Rightarrow> int set"
    and recalc :: "'pm \<Rightarrow> string list \<Rightarrow> partition_delta \<times> 'pm"
    and ok :: "'pm \<Rightarrow> bool"
  assumes lost_exact: "ok pm \<Longrightarrow>
      set (Lost (fst (recalc pm is))) = owned pm - owned (snd (recalc pm is))"
    and gained_exact: "ok pm \<Longrightarrow>
      set (Gained (fst (recalc pm is))) = owned (snd (recalc pm is)) - owned pm"
    and recalc_ok: "ok pm \<Longrightarrow> ok (snd (recalc pm is))"
begin

lemma kept_jobs_owned:
  assumes "ok pm" and "part i \<in> owned pm" and "part i \<notin> set (Lost (fst (recalc pm is)))"
  shows "part i \<in> owned (snd (recalc pm is))"
  using assms lost_exact by blast

lemma no_delta_same_owned:
  assumes "ok pm" "Lost (fst (recalc pm is)) = []" "Gained (fst (recalc pm is)) = []"
  shows "owned (snd (recalc pm is)) = owned pm"
  using assms lost_exact [of pm "is"] gained_exact [of pm "is"] by auto

lemma recalc_all_ok: "ok pm \<Longrightarrow> ok (fold (\<lambda>is pm. snd (recalc pm is)) iss pm)"
  by (induction iss arbitrary: pm) (auto intro: recalc_ok)

end

interpretation pm: ownership ownedPartitions RecalculateOwnership pm_ok
  by unfold_locales (auto simp: Recalculate_delta intro: pm_ok_Recalculate)

subsection \<open>Properties\<close>

lemma PartitionSQLExpr_eq:
  assumes "1 \<le> partitionCount pm" "partitionCount pm \<le> 2 ^ 30"
  shows "PartitionSQLExpr md5 pm i = Some (int32 (be_uint32 (md5 i)) mod partitionCount pm)"
proof -
  let ?c = "partitionCount pm" and ?v = "int32 (be_uint32 (md5 i))"
  have "?v smod ?c < ?c" using smod_abs_less [of ?c ?v] assms by simp
  then have "?v smod ?c + ?c < 2 ^ 31" using assms by simp
  then show ?thesis using assms smod_normalised [of ?c ?v] by (simp add: PartitionSQLExpr_def Let_def)
qed

lemma recalc_owner:
  assumes "distinct is" "k < length is" "instanceID pm = is ! k" "0 \<le> p" "p < partitionCount pm"
  shows "IsOwned (snd (RecalculateOwnership pm is)) p \<longleftrightarrow> p mod int (length is) = int k"
  using assms find_index_nth [OF assms(1,2), of 0] by (simp add: IsOwned_def RecalculateOwnership_owned new_owned_iff)

text \<open>C28: the Go hash and the SQL expression select the same partition. For every digest
  function and every partition count up to 2^30, \<^verbatim>\<open>CalculatePartition\<close> does not panic,
  \<^verbatim>\<open>PartitionSQLExpr\<close> does not overflow, and both give the residue of the signed digest
  prefix, a partition below the count.\<close>

theorem partition_go_sql_agree:
  assumes "1 \<le> partitionCount pm" and "partitionCount pm \<le> 2 ^ 30"
  shows "\<exists>p. CalculatePartition md5 pm i = Some p \<and> PartitionSQLExpr md5 pm i = Some p
    \<and> p = int32 (be_uint32 (md5 i)) mod partitionCount pm \<and> 0 \<le> p \<and> p < partitionCount pm"
  using CalculatePartition_eq [OF assms] PartitionSQLExpr_eq [OF assms] assms(1) by simp

definition sample_md5 :: "string \<Rightarrow> 8 word list" where
  "sample_md5 s = map (\<lambda>c. of_char c) (take 16 (s @ replicate 16 (CHR 0xFF)))"

theorem partition_go_sql_agree_witness:
  "CalculatePartition sample_md5 (NewPartitionManager 256 ''a'') (replicate 4 (CHR 0xFE)) = Some 254"
proof -
  have "int32 (be_uint32 (sample_md5 (replicate 4 (CHR 0xFE)))) mod 256 = 254" by code_simp
  with partition_go_sql_agree [of "NewPartitionManager 256 ''a''" sample_md5 "replicate 4 (CHR 0xFE)"]
  show ?thesis by (simp add: NewPartitionManager_def)
qed

text \<open>C23: ownership partitions the work. When every instance of a membership list of
  distinct ids has applied that list, each partition is owned by exactly one of them,
  whatever each of them owned before.\<close>

theorem ownership_covers_exactly_once:
  assumes "distinct is" and "is \<noteq> []" and "0 \<le> p" and "p < c"
    and "\<And>i. i \<in> set is \<Longrightarrow> instanceID (pms i) = i \<and> partitionCount (pms i) = c"
  shows "\<exists>!i. i \<in> set is \<and> IsOwned (snd (RecalculateOwnership (pms i) is)) p"
proof -
  let ?n = "int (length is)"
  have own: "IsOwned (snd (RecalculateOwnership (pms (is ! k)) is)) p \<longleftrightarrow> p mod ?n = int k"
    if "k < length is" for k
    using that assms(3,4) assms(5) [of "is ! k"] recalc_owner [OF assms(1) that, of "pms (is ! k)" p] by simp
  have n: "0 < ?n" using assms(2) by simp
  define k where "k = nat (p mod ?n)"
  have k: "int k = p mod ?n" "k < length is"
    using n pos_mod_bound [of ?n p] by (simp_all add: k_def nat_less_iff)
  show ?thesis
  proof (rule ex1I [of _ "is ! k"])
    show "is ! k \<in> set is \<and> IsOwned (snd (RecalculateOwnership (pms (is ! k)) is)) p"
      using k own by simp
  next
    fix i assume i: "i \<in> set is \<and> IsOwned (snd (RecalculateOwnership (pms i) is)) p"
    then obtain j where j: "j < length is" "i = is ! j" by (auto simp: in_set_conv_nth)
    with i own have "p mod ?n = int j" by simp
    with k j show "i = is ! k" by simp
  qed
qed

theorem ownership_covers_exactly_once_witness:
  "\<exists>!i. i \<in> set [''a'', ''b'', ''c''] \<and>
     IsOwned (snd (RecalculateOwnership (NewPartitionManager 8 i) [''a'', ''b'', ''c''])) 5"
  using ownership_covers_exactly_once [of "[''a'', ''b'', ''c'']" 5 8 "NewPartitionManager 8"]
  by (simp add: NewPartitionManager_def)

text \<open>A recalculation reports exactly the difference, sorted, and applying the same
  membership again reports nothing.\<close>

theorem RecalculateOwnership_delta_exact:
  assumes "pm_ok pm" and "RecalculateOwnership pm is = (d, pm')"
  shows "set (Gained d) = ownedPartitions pm' - ownedPartitions pm
    \<and> set (Lost d) = ownedPartitions pm - ownedPartitions pm'
    \<and> sorted (Gained d) \<and> sorted (Lost d) \<and> distinct (Gained d) \<and> distinct (Lost d)
    \<and> fst (RecalculateOwnership pm' is) = \<lparr>Gained = [], Lost = []\<rparr> \<and> pm_ok pm'"
proof -
  have fd: "d = fst (RecalculateOwnership pm is)" "pm' = snd (RecalculateOwnership pm is)"
    using assms(2) by simp_all
  have ok: "pm_ok pm'" unfolding fd by (rule pm.recalc_ok [OF assms(1)])
  have same: "ownedPartitions (snd (RecalculateOwnership pm' is)) = ownedPartitions pm'"
    by (simp add: fd RecalculateOwnership_owned)
  have "fst (RecalculateOwnership pm' is) = \<lparr>Gained = [], Lost = []\<rparr>"
    using pm.lost_exact [OF ok, of "is"] pm.gained_exact [OF ok, of "is"] same
    by (cases "fst (RecalculateOwnership pm' is)") simp
  moreover have "sorted (Gained d)" "sorted (Lost d)" "distinct (Gained d)" "distinct (Lost d)"
    unfolding fd by (simp_all add: RecalculateOwnership_def Let_def)
  ultimately show ?thesis
    using pm.lost_exact [OF assms(1), of "is"] pm.gained_exact [OF assms(1), of "is"] ok
    by (simp add: fd)
qed

theorem RecalculateOwnership_delta_exact_witness:
  "Gained (fst (RecalculateOwnership (NewPartitionManager 4 ''b'') [''a'', ''b''])) = [1, 3]"
proof -
  let ?pm = "NewPartitionManager 4 ''b''" and ?is = "[''a'', ''b'']"
  have "set (Gained (fst (RecalculateOwnership ?pm ?is))) =
      ownedPartitions (snd (RecalculateOwnership ?pm ?is)) - ownedPartitions ?pm"
    using RecalculateOwnership_delta_exact [OF pm_ok_New prod.collapse [symmetric]] by blast
  then show ?thesis
    by (simp add: RecalculateOwnership_def NewPartitionManager_def new_owned_def upto.simps)
qed

end
