(* ===== verification/Scheduler.thy ===== *)
theory Scheduler
  imports Partition StoreLaws "HOL-Library.AList"
begin

section \<open>Schedulers: which monitors run where\<close>

text \<open>
  The embedded scheduler (\<^verbatim>\<open>internal/scheduler/scheduler.go\<close>), the distributed one
  (\<^verbatim>\<open>distributed.go\<close>) and the two queries they fetch monitors with
  (\<^verbatim>\<open>internal/database/bun/store_scheduler.go\<close>). A job is a goroutine running \<^verbatim>\<open>jobLoop\<close> on a
  snapshot of its monitor until its context is canceled. The state holds, beside the map \<^verbatim>\<open>jobs\<close>
  of the source (an association list with distinct keys), the goroutines whose context is not
  canceled, each with the number of its context and its snapshot, and the next free number.

  The digest behind the partition hash is a parameter, as in theory \<open>Partition\<close>; \<open>None\<close> is the
  division panic of \<^verbatim>\<open>CalculatePartition\<close>. The goroutines of one scheduler are driven by its single
  loop, so its operations run one after the other.
\<close>

subsection \<open>Fetching\<close>

definition FetchActiveMonitors :: "db \<Rightarrow> string \<Rightarrow> monitor list" where
  "FetchActiveMonitors d region =
     map (toModel d) (filter (\<lambda>m. mrEnabled m \<and> region \<in> set (mrRegions m)) (monitors d))"

text \<open>The raw query of \<^verbatim>\<open>FetchOwnedMonitors\<close> names its columns; the fields it leaves out are zero.\<close>

definition selected_columns :: "monitor_row \<Rightarrow> monitor_row" where
  "selected_columns m = m\<lparr>mrRepeatAlertIntervalSecs := None, mrRepeatAlertMaxCount := None,
     mrCertCheckEnabled := False, mrCertExpiryThresholdDays := 0, mrDomainCheckEnabled := False,
     mrDomainExpiryThresholdDays := 0\<rparr>"

definition FetchOwnedMonitors ::
    "(string \<Rightarrow> 8 word list) \<Rightarrow> partition_manager \<Rightarrow> db \<Rightarrow> string \<Rightarrow> int list \<Rightarrow> store_error + monitor list" where
  "FetchOwnedMonitors md5 pm d region ownedIDs =
     (if ownedIDs = [] then Inr []
      else (let rows = filter (\<lambda>m. mrEnabled m \<and> region \<in> set (mrRegions m)) (monitors d) in
            if list_ex (\<lambda>m. PartitionSQLExpr md5 pm (mrID m) = None) rows then Inl ErrOther
            else Inr (map (\<lambda>m. toModel d (selected_columns m))
                        (filter (\<lambda>m. opt_any (PartitionSQLExpr md5 pm (mrID m)) (\<lambda>p. p \<in> set ownedIDs)) rows))))"

subsection \<open>Jobs\<close>

record job =
  jCtx :: nat
  jUpdatedAt :: instant
  jInterval :: int

record sched =
  jobs :: "(ident \<times> job) list"
  live :: "(nat \<times> monitor) list"
  nextCtx :: nat

definition NewScheduler :: sched where
  "NewScheduler = \<lparr>jobs = [], live = [], nextCtx = 0\<rparr>"

definition cancel :: "nat \<Rightarrow> sched \<Rightarrow> sched" where
  "cancel c s = s\<lparr>live := filter (\<lambda>(x, _). x \<noteq> c) (live s)\<rparr>"

definition startMonitorJob :: "monitor \<Rightarrow> sched \<Rightarrow> sched" where
  "startMonitorJob m s =
     s\<lparr>jobs := AList.update (mID m) \<lparr>jCtx = nextCtx s, jUpdatedAt = mUpdatedAt m, jInterval = mInterval m\<rparr> (jobs s),
       live := (nextCtx s, m) # live s, nextCtx := Suc (nextCtx s)\<rparr>"

definition reconcileJob :: "monitor \<Rightarrow> sched \<Rightarrow> sched" where
  "reconcileJob m s =
     (case map_of (jobs s) (mID m) of
        Some j \<Rightarrow>
          if jUpdatedAt j = mUpdatedAt m \<and> jInterval j = mInterval m then s
          else startMonitorJob m (cancel (jCtx j) s)
      | None \<Rightarrow> startMonitorJob m s)"

text \<open>The loop \<^verbatim>\<open>for id, j := range s.jobs { if ... { j.cancel(); delete(s.jobs, id) } }\<close>.\<close>

definition stop_where :: "(ident \<Rightarrow> bool) \<Rightarrow> sched \<Rightarrow> sched" where
  "stop_where P s =
     s\<lparr>jobs := filter (\<lambda>(i, _). \<not> P i) (jobs s),
       live := filter (\<lambda>(c, _). \<not> list_ex (\<lambda>(i, j). P i \<and> jCtx j = c) (jobs s)) (live s)\<rparr>"

definition sync_jobs :: "monitor list \<Rightarrow> sched \<Rightarrow> sched" where
  "sync_jobs ms s = stop_where (\<lambda>i. i \<notin> mID ` set ms) (fold reconcileJob ms s)"

text \<open>The embedded scheduler; \<open>bad\<close> says that the query fails.\<close>

definition syncMonitors :: "bool \<Rightarrow> db \<Rightarrow> string \<Rightarrow> sched \<Rightarrow> sched" where
  "syncMonitors bad d region s = (if bad then s else sync_jobs (FetchActiveMonitors d region) s)"

definition Stop :: "sched \<Rightarrow> sched" where
  "Stop s = stop_where (\<lambda>_. True) s"

subsection \<open>The distributed scheduler\<close>

record dsched =
  base :: sched
  partitions :: partition_manager

definition NewDistributedScheduler :: "partition_manager \<Rightarrow> dsched" where
  "NewDistributedScheduler pm = \<lparr>base = NewScheduler, partitions = pm\<rparr>"

definition stopJobsForPartitions ::
    "(string \<Rightarrow> 8 word list) \<Rightarrow> int list \<Rightarrow> dsched \<Rightarrow> dsched option" where
  "stopJobsForPartitions md5 ps s =
     (if list_ex (\<lambda>(i, _). CalculatePartition md5 (partitions s) i = None) (jobs (base s)) then None
      else Some (s\<lparr>base := stop_where
                    (\<lambda>i. opt_any (CalculatePartition md5 (partitions s) i) (\<lambda>p. p \<in> set ps)) (base s)\<rparr>))"

definition applyOwnership ::
    "(string \<Rightarrow> 8 word list) \<Rightarrow> string list \<Rightarrow> dsched \<Rightarrow> dsched option" where
  "applyOwnership md5 instances s =
     (case RecalculateOwnership (partitions s) instances of (delta, pm) \<Rightarrow>
        let s1 = s\<lparr>partitions := pm\<rparr> in
        if Lost delta \<noteq> [] then stopJobsForPartitions md5 (Lost delta) s1 else Some s1)"

definition fetchOwnedMonitors ::
    "(string \<Rightarrow> 8 word list) \<Rightarrow> partition_manager \<Rightarrow> db \<Rightarrow> string \<Rightarrow> store_error + monitor list" where
  "fetchOwnedMonitors md5 pm d region =
     (let owned = GetOwnedPartitions pm in
      if owned = [] then Inr []
      else if int (length owned) = PartitionCount pm then Inr (FetchActiveMonitors d region)
      else FetchOwnedMonitors md5 pm d region owned)"

definition dsyncMonitors ::
    "(string \<Rightarrow> 8 word list) \<Rightarrow> bool \<Rightarrow> db \<Rightarrow> string \<Rightarrow> dsched \<Rightarrow> dsched option" where
  "dsyncMonitors md5 bad d region s =
     (case (if bad then Inl ErrOther else fetchOwnedMonitors md5 (partitions s) d region) of
        Inl _ \<Rightarrow> Some s
      | Inr ms \<Rightarrow>
          if list_ex (\<lambda>m. IsMonitorOwned md5 (partitions s) (mID m) = None) ms then None
          else Some (s\<lparr>base := sync_jobs
                        (filter (\<lambda>m. IsMonitorOwned md5 (partitions s) (mID m) = Some True) ms) (base s)\<rparr>))"

text \<open>The loop \<^verbatim>\<open>run\<close>: a membership event, or a tick with the outcome of the membership listing
  (\<open>None\<close> when etcd failed); the listing decides ownership, then the monitors are synced.\<close>

datatype sched_event = MembershipEvent "string list" | Ticker "string list option"

fun run_step ::
    "(string \<Rightarrow> 8 word list) \<Rightarrow> bool \<Rightarrow> db \<Rightarrow> string \<Rightarrow> sched_event \<Rightarrow> dsched \<Rightarrow> dsched option" where
  "run_step md5 bad d region (MembershipEvent instances) s =
     Option.bind (applyOwnership md5 instances s) (dsyncMonitors md5 bad d region)"
| "run_step md5 bad d region (Ticker None) s = dsyncMonitors md5 bad d region s"
| "run_step md5 bad d region (Ticker (Some instances)) s =
     Option.bind (applyOwnership md5 instances s) (dsyncMonitors md5 bad d region)"

definition GetActiveJobCount :: "dsched \<Rightarrow> nat" where
  "GetActiveJobCount s = length (jobs (base s))"

text \<open>What a scheduler process can get to, with any databases, failures and memberships.\<close>

inductive sched_reachable :: "(string \<Rightarrow> 8 word list) \<Rightarrow> int \<Rightarrow> string \<Rightarrow> string \<Rightarrow> dsched \<Rightarrow> bool"
  for md5 c i region where
  fresh: "sched_reachable md5 c i region (NewDistributedScheduler (NewPartitionManager c i))"
| stepped: "sched_reachable md5 c i region s \<Longrightarrow> schema_ok d \<Longrightarrow> run_step md5 bad d region ev s = Some s' \<Longrightarrow>
    sched_reachable md5 c i region s'"

subsection \<open>The invariant of the jobs\<close>

text \<open>Every goroutine that runs is the one its monitor's entry names, with that entry's
  configuration, and every entry has its goroutine.\<close>

definition sched_ok :: "sched \<Rightarrow> bool" where
  "sched_ok s \<longleftrightarrow> distinct (map fst (jobs s)) \<and> distinct (map fst (live s))
     \<and> (\<forall>(c, m) \<in> set (live s). c < nextCtx s \<and>
          map_of (jobs s) (mID m) = Some \<lparr>jCtx = c, jUpdatedAt = mUpdatedAt m, jInterval = mInterval m\<rparr>)
     \<and> (\<forall>(i, j) \<in> set (jobs s). \<exists>m. (jCtx j, m) \<in> set (live s) \<and> mID m = i)"

lemma sched_ok_New [inv_intros]: "sched_ok NewScheduler"
  by (simp add: sched_ok_def NewScheduler_def)

lemma live_job:
  "sched_ok s \<Longrightarrow> (c, m) \<in> set (live s) \<Longrightarrow>
   map_of (jobs s) (mID m) = Some \<lparr>jCtx = c, jUpdatedAt = mUpdatedAt m, jInterval = mInterval m\<rparr> \<and> c < nextCtx s"
  by (auto simp: sched_ok_def)

lemma job_live:
  assumes "sched_ok s" "map_of (jobs s) i = Some j"
  obtains m where "(jCtx j, m) \<in> set (live s)" "mID m = i" "mUpdatedAt m = jUpdatedAt j" "mInterval m = jInterval j"
proof -
  obtain m where m: "(jCtx j, m) \<in> set (live s)" "mID m = i"
    using assms map_of_SomeD [OF assms(2)] by (auto simp: sched_ok_def)
  then have "j = \<lparr>jCtx = jCtx j, jUpdatedAt = mUpdatedAt m, jInterval = mInterval m\<rparr>"
    using live_job [OF assms(1) m(1)] assms(2) by simp
  then have "mUpdatedAt m = jUpdatedAt j" "mInterval m = jInterval j" by (metis job.select_convs)+
  with m show thesis by (rule that)
qed

lemma live_unique:
  assumes "sched_ok s" "(c, m) \<in> set (live s)" "(c', m') \<in> set (live s)" "mID m = mID m'"
  shows "(c, m) = (c', m')"
proof -
  have "c = c'" using live_job [OF assms(1,2)] live_job [OF assms(1,3)] assms(4) by simp
  moreover have "distinct (map fst (live s))" using assms(1) by (simp add: sched_ok_def)
  ultimately show ?thesis using assms(2,3) eq_key_imp_eq_value by fastforce
qed

lemma map_of_filter_key: "map_of (filter (\<lambda>(i, _). Q i) xs) i = (if Q i then map_of xs i else None)"
  by (induction xs) auto

lemma stop_fields:
  "map_of (jobs (stop_where P s)) i = (if P i then None else map_of (jobs s) i)"
  "nextCtx (stop_where P s) = nextCtx s"
  by (simp_all add: stop_where_def map_of_filter_key)

lemma stop_live:
  assumes "sched_ok s"
  shows "set (live (stop_where P s)) = {(c, m). (c, m) \<in> set (live s) \<and> \<not> P (mID m)}"
proof -
  have d: "distinct (map fst (jobs s))" "distinct (map fst (live s))" using assms by (simp_all add: sched_ok_def)
  have keep: "list_ex (\<lambda>(i, j). P i \<and> jCtx j = c) (jobs s) \<longleftrightarrow> P (mID m)" if cm: "(c, m) \<in> set (live s)" for c m
  proof
    assume "list_ex (\<lambda>(i, j). P i \<and> jCtx j = c) (jobs s)"
    then obtain i j where ij: "(i, j) \<in> set (jobs s)" "P i" "jCtx j = c" by (auto simp: list_ex_iff)
    have "map_of (jobs s) i = Some j" using d(1) ij(1) by simp
    from job_live [OF assms this] obtain m' where m': "(jCtx j, m') \<in> set (live s)" "mID m' = i" by metis
    then show "P (mID m)" using eq_key_imp_eq_value [OF d(2), of c m m'] cm ij by simp
  next
    assume "P (mID m)"
    then show "list_ex (\<lambda>(i, j). P i \<and> jCtx j = c) (jobs s)"
      using map_of_SomeD [OF conjunct1 [OF live_job [OF assms cm]]] unfolding list_ex_iff by force
  qed
  show ?thesis unfolding stop_where_def using keep by auto
qed

lemma sched_ok_stop [inv_intros]:
  assumes "sched_ok s"
  shows "sched_ok (stop_where P s)"
proof -
  have d: "distinct (map fst (jobs s))" "distinct (map fst (live s))" using assms by (simp_all add: sched_ok_def)
  have "distinct (map fst (jobs (stop_where P s)))" "distinct (map fst (live (stop_where P s)))"
    using d by (simp_all add: stop_where_def distinct_map_filter)
  moreover have "c < nextCtx (stop_where P s) \<and> map_of (jobs (stop_where P s)) (mID m) =
      Some \<lparr>jCtx = c, jUpdatedAt = mUpdatedAt m, jInterval = mInterval m\<rparr>"
    if "(c, m) \<in> set (live (stop_where P s))" for c m
    using that live_job [OF assms, of c m] by (simp add: stop_live [OF assms] stop_fields)
  moreover have "\<exists>m. (jCtx j, m) \<in> set (live (stop_where P s)) \<and> mID m = i"
    if ij: "(i, j) \<in> set (jobs (stop_where P s))" for i j
  proof -
    have "(i, j) \<in> set (jobs s)" "\<not> P i" using ij by (auto simp: stop_where_def)
    then have "map_of (jobs s) i = Some j" "\<not> P i" using d(1) by simp_all
    then show ?thesis using job_live [OF assms, of i j] by (auto simp: stop_live [OF assms])
  qed
  ultimately show ?thesis unfolding sched_ok_def by blast
qed

text \<open>Starting or restarting the job of \<open>m\<close>: whatever goroutine ran for that monitor is gone, and
  one on the new snapshot runs.\<close>

definition restarted :: "monitor \<Rightarrow> sched \<Rightarrow> sched" where
  "restarted m s = (case map_of (jobs s) (mID m) of
     Some j \<Rightarrow> startMonitorJob m (cancel (jCtx j) s) | None \<Rightarrow> startMonitorJob m s)"

lemma restarted_live:
  assumes "sched_ok s"
  shows "set (live (restarted m s)) = insert (nextCtx s, m) {(c, x). (c, x) \<in> set (live s) \<and> mID x \<noteq> mID m}"
proof (cases "map_of (jobs s) (mID m)")
  case None
  then have "mID x \<noteq> mID m" if "(c, x) \<in> set (live s)" for c x
    using live_job [OF assms that] by auto
  then show ?thesis using None by (auto simp: restarted_def startMonitorJob_def)
next
  case (Some j)
  obtain m0 where m0: "(jCtx j, m0) \<in> set (live s)" "mID m0 = mID m" using job_live [OF assms Some] by metis
  have d: "distinct (map fst (live s))" using assms by (simp add: sched_ok_def)
  have "c = jCtx j \<longleftrightarrow> mID x = mID m" if cx: "(c, x) \<in> set (live s)" for c x
  proof
    assume "c = jCtx j"
    then show "mID x = mID m" using eq_key_imp_eq_value [OF d, of c x m0] cx m0 by simp
  next
    assume "mID x = mID m"
    then show "c = jCtx j" using live_unique [OF assms cx m0(1)] m0(2) by simp
  qed
  then show ?thesis using Some by (auto simp: restarted_def startMonitorJob_def cancel_def)
qed

lemma restarted_fields:
  "map_of (jobs (restarted m s)) = (map_of (jobs s))(mID m \<mapsto>
     \<lparr>jCtx = nextCtx s, jUpdatedAt = mUpdatedAt m, jInterval = mInterval m\<rparr>)"
  "nextCtx (restarted m s) = Suc (nextCtx s)"
  "distinct (map fst (jobs s)) \<Longrightarrow> distinct (map fst (jobs (restarted m s)))"
  "live (restarted m s) = (nextCtx s, m) # filter (\<lambda>(c, x). Some c \<noteq> map_option jCtx (map_of (jobs s) (mID m))) (live s)"
  by (auto simp: restarted_def startMonitorJob_def cancel_def update_conv' distinct_update split: option.split)

lemma sched_ok_restarted:
  assumes "sched_ok s"
  shows "sched_ok (restarted m s)"
proof -
  have d: "distinct (map fst (jobs s))" "distinct (map fst (live s))" using assms by (simp_all add: sched_ok_def)
  have "nextCtx s \<notin> fst ` set (live s)" using live_job [OF assms, of "nextCtx s"] by auto
  then have "distinct (map fst (live (restarted m s)))"
    unfolding restarted_fields(4) using d(2) by (auto simp: distinct_map_filter)
  moreover have "c < nextCtx (restarted m s) \<and> map_of (jobs (restarted m s)) (mID x) =
      Some \<lparr>jCtx = c, jUpdatedAt = mUpdatedAt x, jInterval = mInterval x\<rparr>"
    if "(c, x) \<in> set (live (restarted m s))" for c x
    using that live_job [OF assms, of c x] by (auto simp: restarted_live [OF assms] restarted_fields(1,2))
  moreover have "\<exists>x. (jCtx j, x) \<in> set (live (restarted m s)) \<and> mID x = i"
    if "(i, j) \<in> set (jobs (restarted m s))" for i j
  proof -
    have e: "map_of (jobs (restarted m s)) i = Some j" using that restarted_fields(3) [OF d(1)] by simp
    show ?thesis
    proof (cases "i = mID m")
      case True
      then show ?thesis using e by (auto simp: restarted_live [OF assms] restarted_fields(1))
    next
      case False
      then have "map_of (jobs s) i = Some j" using e by (simp add: restarted_fields(1))
      then show ?thesis using job_live [OF assms, of i j] False by (auto simp: restarted_live [OF assms])
    qed
  qed
  ultimately show ?thesis unfolding sched_ok_def using restarted_fields(3) [OF d(1)] by blast
qed

definition current :: "monitor \<Rightarrow> sched \<Rightarrow> bool" where
  "current m s \<longleftrightarrow> opt_any (map_of (jobs s) (mID m)) (\<lambda>j. jUpdatedAt j = mUpdatedAt m \<and> jInterval j = mInterval m)"

lemma reconcileJob_eq: "reconcileJob m s = (if current m s then s else restarted m s)"
  by (simp add: reconcileJob_def restarted_def current_def split: option.split)

lemma sched_ok_reconcile [inv_intros]: "sched_ok s \<Longrightarrow> sched_ok (reconcileJob m s)"
  by (simp add: reconcileJob_eq sched_ok_restarted)

lemma reconcile_current: "current m (reconcileJob m s)"
  by (simp add: reconcileJob_eq) (simp add: current_def restarted_fields)

lemma reconcile_other: "mID m' \<noteq> mID m \<Longrightarrow> map_of (jobs (reconcileJob m' s)) (mID m) = map_of (jobs s) (mID m)"
  by (simp add: reconcileJob_eq restarted_fields)

lemma reconcile_dom: "dom (map_of (jobs (reconcileJob m s))) = insert (mID m) (dom (map_of (jobs s)))"
  by (auto simp: reconcileJob_eq restarted_fields current_def opt_any_iff)

lemma fold_other: "i \<notin> mID ` set ms \<Longrightarrow> map_of (jobs (fold reconcileJob ms s)) i = map_of (jobs s) i"
  by (induction ms arbitrary: s) (simp_all add: reconcileJob_eq restarted_fields)

lemma fold_ok: "sched_ok s \<Longrightarrow> sched_ok (fold reconcileJob ms s)"
  by (induction ms arbitrary: s) (simp_all add: sched_ok_reconcile)

lemma current_cong: "map_of (jobs s) (mID m) = map_of (jobs t) (mID m) \<Longrightarrow> current m s = current m t"
  by (simp add: current_def)

lemma fold_current:
  "m \<in> set ms \<Longrightarrow> distinct (map mID ms) \<Longrightarrow> current m (fold reconcileJob ms s)"
proof (induction ms arbitrary: s)
  case (Cons x xs)
  show ?case
  proof (cases "m = x")
    case True
    then have "mID m \<notin> mID ` set xs" using Cons.prems(2) by auto
    from current_cong [OF fold_other [OF this, of "reconcileJob x s"]] reconcile_current [of x s]
    show ?thesis using True by simp
  next
    case False
    then show ?thesis using Cons by simp
  qed
qed simp

lemma fold_kept:
  "m \<in> set ms \<Longrightarrow> distinct (map mID ms) \<Longrightarrow> current m s \<Longrightarrow>
   map_of (jobs (fold reconcileJob ms s)) (mID m) = map_of (jobs s) (mID m)"
proof (induction ms arbitrary: s)
  case (Cons x xs)
  show ?case
  proof (cases "m = x")
    case True
    then have "mID m \<notin> mID ` set xs" using Cons.prems(2) by auto
    moreover have "reconcileJob x s = s" using True Cons.prems(3) by (simp add: reconcileJob_eq)
    ultimately show ?thesis using fold_other [of "mID m" xs s] by simp
  next
    case False
    then have ne: "mID x \<noteq> mID m" and m: "m \<in> set xs" using Cons.prems(1,2) by auto
    note same = reconcile_other [OF ne, of s]
    have "current m (reconcileJob x s)" using current_cong [OF same] Cons.prems(3) by simp
    then show ?thesis using Cons.IH [OF m, of "reconcileJob x s"] Cons.prems(2) same by simp
  qed
qed simp

subsection \<open>What a sync runs\<close>

text \<open>How many goroutines check a monitor.\<close>

definition runs :: "ident \<Rightarrow> sched \<Rightarrow> nat" where
  "runs i s = length (filter (\<lambda>(_, m). mID m = i) (live s))"

lemma runs_job:
  assumes "sched_ok s"
  shows "runs i s = (if map_of (jobs s) i = None then 0 else 1)"
proof (cases "map_of (jobs s) i")
  case None
  then have "mID m \<noteq> i" if "(c, m) \<in> set (live s)" for c m using live_job [OF assms that] by auto
  then have "filter (\<lambda>(_, m). mID m = i) (live s) = []" by (auto simp: filter_empty_conv)
  then show ?thesis using None by (simp add: runs_def)
next
  case (Some j)
  obtain m where m: "(jCtx j, m) \<in> set (live s)" "mID m = i" using job_live [OF assms Some] by metis
  let ?l = "filter (\<lambda>(_, m). mID m = i) (live s)"
  have u: "(c, x) = (jCtx j, m)" if "(c, x) \<in> set (live s)" "mID x = i" for c x
    using live_unique [OF assms that(1) m(1)] that(2) m(2) by simp
  have "set ?l = {(jCtx j, m)}"
  proof
    show "set ?l \<subseteq> {(jCtx j, m)}" using u by fastforce
    show "{(jCtx j, m)} \<subseteq> set ?l" using m by simp
  qed
  moreover have "distinct (live s)" using assms unfolding sched_ok_def distinct_map by blast
  ultimately have "length ?l = 1" using distinct_card [of ?l] by simp
  then show ?thesis using Some by (simp add: runs_def)
qed

lemma sched_ok_sync [inv_intros]: "sched_ok s \<Longrightarrow> sched_ok (sync_jobs ms s)"
  unfolding sync_jobs_def by (intro sched_ok_stop fold_ok)

lemma sync_job:
  assumes "distinct (map mID ms)"
  shows "map_of (jobs (sync_jobs ms s)) i \<noteq> None \<longleftrightarrow> i \<in> mID ` set ms"
  using fold_current [OF _ assms, of _ s] by (auto simp: sync_jobs_def stop_fields current_def opt_any_iff)

lemma sync_runs:
  assumes "sched_ok s" "distinct (map mID ms)"
  shows "runs i (sync_jobs ms s) = (if i \<in> mID ` set ms then 1 else 0)"
  using runs_job [OF sched_ok_sync [OF assms(1)], of i ms] sync_job [OF assms(2), of s i] by auto

lemma sync_current:
  assumes "m \<in> set ms" "distinct (map mID ms)"
  shows "current m (sync_jobs ms s)"
  using fold_current [OF assms, of s] assms(1) by (simp add: sync_jobs_def current_def stop_fields)

lemma sync_kept:
  assumes "m \<in> set ms" "distinct (map mID ms)" "current m s"
  shows "map_of (jobs (sync_jobs ms s)) (mID m) = map_of (jobs s) (mID m)"
  using fold_kept [OF assms] assms(1) by (simp add: sync_jobs_def stop_fields)

lemma fetched_ids:
  assumes "uniq mrID (monitors d)"
  shows "distinct (map mID (FetchActiveMonitors d region))"
    "mID ` set (FetchActiveMonitors d region) = mrID ` {m \<in> set (monitors d). mrEnabled m \<and> region \<in> set (mrRegions m)}"
proof -
  have "map mID (FetchActiveMonitors d region) =
      map mrID (filter (\<lambda>m. mrEnabled m \<and> region \<in> set (mrRegions m)) (monitors d))"
    by (simp add: FetchActiveMonitors_def toModel_def Let_def)
  then show "distinct (map mID (FetchActiveMonitors d region))"
    using assms by (simp add: uniq_def distinct_map_filter)
  show "mID ` set (FetchActiveMonitors d region) = mrID ` {m \<in> set (monitors d). mrEnabled m \<and> region \<in> set (mrRegions m)}"
    by (force simp: FetchActiveMonitors_def toModel_def Let_def)
qed

subsection \<open>The cluster\<close>

definition hash :: "(string \<Rightarrow> 8 word list) \<Rightarrow> int \<Rightarrow> ident \<Rightarrow> int" where
  "hash md5 c i = int32 (be_uint32 (md5 i)) mod c"

text \<open>The invariant of a distributed scheduler: its jobs are in partitions it owns.\<close>

definition dsched_ok :: "(string \<Rightarrow> 8 word list) \<Rightarrow> int \<Rightarrow> string \<Rightarrow> dsched \<Rightarrow> bool" where
  "dsched_ok md5 c inst s \<longleftrightarrow> sched_ok (base s) \<and> pm_ok (partitions s)
     \<and> partitionCount (partitions s) = c \<and> c \<le> 2 ^ 30 \<and> instanceID (partitions s) = inst
     \<and> (\<forall>i. map_of (jobs (base s)) i \<noteq> None \<longrightarrow> hash md5 c i \<in> ownedPartitions (partitions s))"

lemma dsched_ok_New:
  "1 \<le> c \<Longrightarrow> c \<le> 2 ^ 30 \<Longrightarrow> dsched_ok md5 c inst (NewDistributedScheduler (NewPartitionManager c inst))"
  by (simp add: dsched_ok_def NewDistributedScheduler_def sched_ok_New pm_ok_New)
    (simp add: NewScheduler_def NewPartitionManager_def)

lemma hashes:
  assumes "dsched_ok md5 c inst s"
  shows "CalculatePartition md5 (partitions s) i = Some (hash md5 c i)"
    "PartitionSQLExpr md5 (partitions s) i = Some (hash md5 c i)"
    "IsMonitorOwned md5 (partitions s) i = Some (hash md5 c i \<in> ownedPartitions (partitions s))"
proof -
  have c: "1 \<le> partitionCount (partitions s)" "partitionCount (partitions s) \<le> 2 ^ 30"
    using assms by (auto simp: dsched_ok_def pm_ok_def)
  have "partitionCount (partitions s) = c" using assms by (simp add: dsched_ok_def)
  then show "CalculatePartition md5 (partitions s) i = Some (hash md5 c i)"
    "PartitionSQLExpr md5 (partitions s) i = Some (hash md5 c i)"
    using CalculatePartition_eq [OF c] PartitionSQLExpr_eq [OF c] by (simp_all add: hash_def)
  then show "IsMonitorOwned md5 (partitions s) i = Some (hash md5 c i \<in> ownedPartitions (partitions s))"
    by (simp add: IsMonitorOwned_def IsOwned_def)
qed

lemma hash_range: "dsched_ok md5 c inst s \<Longrightarrow> 0 \<le> hash md5 c i \<and> hash md5 c i < c"
  by (auto simp: dsched_ok_def pm_ok_def hash_def)

lemma applyOwnership_ok:
  assumes "dsched_ok md5 c inst s"
  obtains s' where "applyOwnership md5 is s = Some s'" "dsched_ok md5 c inst s'"
    "partitions s' = snd (RecalculateOwnership (partitions s) is)"
proof -
  obtain delta pm where r: "RecalculateOwnership (partitions s) is = (delta, pm)" by force
  have ok: "pm_ok (partitions s)" "sched_ok (base s)" using assms by (simp_all add: dsched_ok_def)
  have pm: "pm_ok pm" "partitionCount pm = partitionCount (partitions s)" "instanceID pm = instanceID (partitions s)"
    using pm.recalc_ok [OF ok(1), of "is"] RecalculateOwnership_fields [of "partitions s" "is"] r by simp_all
  have lost: "set (Lost delta) = ownedPartitions (partitions s) - ownedPartitions pm"
    using pm.lost_exact [OF ok(1), of "is"] r by simp
  have c: "1 \<le> partitionCount pm" "partitionCount pm \<le> 2 ^ 30" "partitionCount pm = c"
    using assms pm by (auto simp: dsched_ok_def pm_ok_def)
  have h: "CalculatePartition md5 pm i = Some (hash md5 c i)" for i
    using CalculatePartition_eq [OF c(1,2)] c(3) by (simp add: hash_def)
  show thesis
  proof (cases "Lost delta = []")
    case True
    then show thesis
      using assms pm lost r
      by (intro that [of "s\<lparr>partitions := pm\<rparr>"]) (auto simp: applyOwnership_def dsched_ok_def)
  next
    case False
    let ?s' = "\<lparr>base = stop_where (\<lambda>i. hash md5 c i \<in> set (Lost delta)) (base s), partitions = pm\<rparr>"
    have "applyOwnership md5 is s = Some ?s'"
      using False r by (cases s) (simp add: applyOwnership_def stopJobsForPartitions_def h list_ex_iff)
    moreover have "dsched_ok md5 c inst ?s'"
      using assms pm lost c by (auto simp: dsched_ok_def stop_fields sched_ok_stop)
    ultimately show thesis by (rule that) (simp add: r)
  qed
qed

lemma full_ownership:
  assumes "pm_ok pm" "int (length (GetOwnedPartitions pm)) = PartitionCount pm"
  shows "ownedPartitions pm = {0..<partitionCount pm}"
proof -
  have "card (ownedPartitions pm) = card {0..<partitionCount pm}"
    using assms pm_ok_finite [OF assms(1)] by (simp add: GetOwnedPartitions_def PartitionCount_def)
  then show ?thesis using assms(1) by (intro card_subset_eq) (auto simp: pm_ok_def)
qed

text \<open>Both queries, filtered once more by the owned partitions, give the enabled monitors of the
  region in those partitions.\<close>

lemma fetchOwned_ids:
  assumes "dsched_ok md5 c inst s" "uniq mrID (monitors d)"
  obtains ms where "fetchOwnedMonitors md5 (partitions s) d region = Inr ms"
    "distinct (map mID (filter (\<lambda>m. IsMonitorOwned md5 (partitions s) (mID m) = Some True) ms))"
    "mID ` set (filter (\<lambda>m. IsMonitorOwned md5 (partitions s) (mID m) = Some True) ms) =
       {mrID m | m. m \<in> set (monitors d) \<and> mrEnabled m \<and> region \<in> set (mrRegions m)
          \<and> hash md5 c (mrID m) \<in> ownedPartitions (partitions s)}"
proof -
  let ?own = "ownedPartitions (partitions s)"
  let ?on = "\<lambda>m. mrEnabled m \<and> region \<in> set (mrRegions m)"
  have ok: "pm_ok (partitions s)" and fin: "finite ?own"
    using assms(1) pm_ok_finite by (auto simp: dsched_ok_def)
  consider "?own = {}" | "?own \<noteq> {}" "int (length (GetOwnedPartitions (partitions s))) = PartitionCount (partitions s)"
    | "?own \<noteq> {}" "int (length (GetOwnedPartitions (partitions s))) \<noteq> PartitionCount (partitions s)" by blast
  then show thesis
  proof cases
    case 1
    then show thesis by (intro that [of "[]"]) (auto simp: fetchOwnedMonitors_def GetOwnedPartitions_def)
  next
    case 2
    have all: "hash md5 c i \<in> ?own" for i
      using full_ownership [OF ok 2(2)] hash_range [OF assms(1), of i] assms(1) by (simp add: dsched_ok_def)
    show thesis
      using 2 fin fetched_ids [OF assms(2), of region] all
      by (intro that [of "FetchActiveMonitors d region"])
        (auto simp: fetchOwnedMonitors_def GetOwnedPartitions_def hashes [OF assms(1)])
  next
    case 3
    let ?rows = "filter (\<lambda>m. ?on m \<and> hash md5 c (mrID m) \<in> ?own) (monitors d)"
    let ?ms = "map (\<lambda>m. toModel d (selected_columns m)) ?rows"
    have ids: "mID (toModel d (selected_columns m)) = mrID m" for m
      by (simp add: toModel_def selected_columns_def Let_def)
    then have "map mID ?ms = map mrID ?rows" by simp
    moreover have "distinct (map mrID ?rows)" using assms(2) by (simp add: uniq_def distinct_map_filter)
    ultimately have "distinct (map mID ?ms)" by metis
    moreover have "fetchOwnedMonitors md5 (partitions s) d region = Inr ?ms"
      using 3 fin by (simp add: fetchOwnedMonitors_def GetOwnedPartitions_def FetchOwnedMonitors_def
          hashes [OF assms(1)] Let_def list_ex_iff)
    moreover have "filter (\<lambda>m. IsMonitorOwned md5 (partitions s) (mID m) = Some True) ?ms = ?ms"
      by (simp add: filter_id_conv hashes [OF assms(1)] ids)
    ultimately show thesis using ids by (intro that [of ?ms]) (auto simp: image_iff)
  qed
qed

definition due_here :: "(string \<Rightarrow> 8 word list) \<Rightarrow> db \<Rightarrow> string \<Rightarrow> dsched \<Rightarrow> ident set" where
  "due_here md5 d region s = {mrID m | m. m \<in> set (monitors d) \<and> mrEnabled m \<and> region \<in> set (mrRegions m)
     \<and> hash md5 (partitionCount (partitions s)) (mrID m) \<in> ownedPartitions (partitions s)}"

lemma dsync_ok:
  assumes "dsched_ok md5 c inst s" "uniq mrID (monitors d)"
  obtains s' where "dsyncMonitors md5 False d region s = Some s'" "dsched_ok md5 c inst s'" "partitions s' = partitions s"
    "\<forall>i. runs i (base s') = (if i \<in> due_here md5 d region s then 1 else 0)"
proof -
  let ?mine = "\<lambda>m. IsMonitorOwned md5 (partitions s) (mID m) = Some True"
  obtain ms where f: "fetchOwnedMonitors md5 (partitions s) d region = Inr ms"
    and dist: "distinct (map mID (filter ?mine ms))"
    and ids: "mID ` set (filter ?mine ms) = {mrID m | m. m \<in> set (monitors d) \<and> mrEnabled m \<and> region \<in> set (mrRegions m)
          \<and> hash md5 c (mrID m) \<in> ownedPartitions (partitions s)}"
    using assms by (rule fetchOwned_ids)
  have c: "partitionCount (partitions s) = c" "sched_ok (base s)" using assms(1) by (simp_all add: dsched_ok_def)
  let ?s' = "s\<lparr>base := sync_jobs (filter ?mine ms) (base s)\<rparr>"
  have "dsyncMonitors md5 False d region s = Some ?s'"
    by (simp add: dsyncMonitors_def f hashes [OF assms(1)] list_ex_iff)
  moreover have "hash md5 c i \<in> ownedPartitions (partitions s)" if "i \<in> mID ` set (filter ?mine ms)" for i
    using that unfolding ids by auto
  then have "dsched_ok md5 c inst ?s'"
    using assms(1) sync_job [OF dist, of "base s"] by (simp add: dsched_ok_def sched_ok_sync)
  moreover have "\<forall>i. runs i (base ?s') = (if i \<in> due_here md5 d region s then 1 else 0)"
    using sync_runs [OF c(2) dist] unfolding ids due_here_def c(1) by simp
  ultimately show thesis by (intro that [of ?s']) simp_all
qed

lemma dsync_bad: "dsyncMonitors md5 True d region s = Some s"
  by (simp add: dsyncMonitors_def)

lemma run_step_ok:
  assumes "dsched_ok md5 c inst s" "uniq mrID (monitors d)"
  obtains s' where "run_step md5 bad d region ev s = Some s'" "dsched_ok md5 c inst s'"
proof -
  have sync: "\<exists>t'. dsyncMonitors md5 bad d region t = Some t' \<and> dsched_ok md5 c inst t'" if "dsched_ok md5 c inst t" for t
  proof (cases bad)
    case True
    then show ?thesis using that by (simp add: dsync_bad)
  next
    case False
    then show ?thesis using dsync_ok [OF that assms(2), of region] by metis
  qed
  have own: "\<exists>t'. applyOwnership md5 is s = Some t' \<and> dsched_ok md5 c inst t'" for "is"
    using applyOwnership_ok [OF assms(1), of "is"] by metis
  have both: "\<exists>t'. Option.bind (applyOwnership md5 is s) (dsyncMonitors md5 bad d region) = Some t' \<and> dsched_ok md5 c inst t'" for "is"
    using own [of "is"] sync by fastforce
  have "\<exists>s'. run_step md5 bad d region ev s = Some s' \<and> dsched_ok md5 c inst s'"
  proof (cases ev)
    case (MembershipEvent "is")
    then show ?thesis using both by simp
  next
    case (Ticker x)
    then show ?thesis using both sync [OF assms(1)] by (cases x) simp_all
  qed
  then show thesis using that by blast
qed

lemma reachable_dsched:
  assumes "sched_reachable md5 c inst region s" "1 \<le> c" "c \<le> 2 ^ 30"
  shows "dsched_ok md5 c inst s"
  using assms(1)
proof induction
  case fresh
  then show ?case using dsched_ok_New [OF assms(2,3)] .
next
  case (stepped s d bad ev s')
  have "uniq mrID (monitors d)" using stepped.hyps(2) by (simp add: schema_defs)
  then obtain t where "run_step md5 bad d region ev s = Some t" "dsched_ok md5 c inst t"
    using run_step_ok [OF stepped.IH] by metis
  then show ?case using stepped.hyps(3) by simp
qed

lemma membership_step:
  assumes "dsched_ok md5 c inst s" "uniq mrID (monitors d)" "run_step md5 False d region (MembershipEvent is) s = Some s'"
  shows "dsched_ok md5 c inst s'" "partitions s' = snd (RecalculateOwnership (partitions s) is)"
    "runs i (base s') = (if i \<in> due_here md5 d region s' then 1 else 0)"
proof -
  obtain t where t: "applyOwnership md5 is s = Some t" "dsched_ok md5 c inst t"
    "partitions t = snd (RecalculateOwnership (partitions s) is)"
    by (rule applyOwnership_ok [OF assms(1)])
  obtain t' where t': "dsyncMonitors md5 False d region t = Some t'" "dsched_ok md5 c inst t'" "partitions t' = partitions t"
    "\<forall>i. runs i (base t') = (if i \<in> due_here md5 d region t then 1 else 0)"
    by (rule dsync_ok [OF t(2) assms(2)])
  have "s' = t'" using assms(3) t(1) t'(1) by simp
  then show "dsched_ok md5 c inst s'" "partitions s' = snd (RecalculateOwnership (partitions s) is)"
    "runs i (base s') = (if i \<in> due_here md5 d region s' then 1 else 0)"
    using t(3) t'(2-4) by (simp_all add: due_here_def)
qed

text \<open>The instances of a region that process the same membership list, each from any state it can have
  reached, check every enabled monitor of the region by exactly one goroutine of exactly one of them.\<close>

lemma cluster_agrees:
  assumes "distinct is" "is \<noteq> []" "1 \<le> c" "c \<le> 2 ^ 30" "schema_ok d"
    and "\<forall>inst \<in> set is. sched_reachable md5 c inst region (st inst)"
  shows "\<exists>st'. (\<forall>inst \<in> set is. run_step md5 False d region (MembershipEvent is) (st inst) = Some (st' inst))
    \<and> (\<forall>i. (\<Sum>inst\<leftarrow>is. runs i (base (st' inst))) =
        (if \<exists>m \<in> set (monitors d). mrID m = i \<and> mrEnabled m \<and> region \<in> set (mrRegions m) then 1 else 0))"
proof -
  have un: "uniq mrID (monitors d)" using assms(5) by (simp add: schema_defs)
  have ok: "dsched_ok md5 c inst (st inst)" if "inst \<in> set is" for inst
    using that assms(3,4,6) reachable_dsched by blast
  define st' where "st' inst = the (run_step md5 False d region (MembershipEvent is) (st inst))" for inst
  have run: "run_step md5 False d region (MembershipEvent is) (st inst) = Some (st' inst)" if "inst \<in> set is" for inst
    using run_step_ok [OF ok [OF that] un, of False region "MembershipEvent is"] by (metis st'_def option.sel)
  note step = membership_step [OF ok un run]
  have "(\<Sum>inst\<leftarrow>is. runs i (base (st' inst))) =
      (if \<exists>m \<in> set (monitors d). mrID m = i \<and> mrEnabled m \<and> region \<in> set (mrRegions m) then 1 else 0)" for i
  proof -
    let ?on = "\<exists>m \<in> set (monitors d). mrID m = i \<and> mrEnabled m \<and> region \<in> set (mrRegions m)"
    let ?n = "int (length is)"
    let ?k = "nat (hash md5 c i mod ?n)"
    have n: "0 < ?n" using assms(2) by simp
    have k: "int ?k = hash md5 c i mod ?n" "?k < length is"
      using n pos_mod_bound [of ?n "hash md5 c i"] by (simp_all add: nat_less_iff)
    have r: "runs i (base (st' (is ! j))) = (if ?on \<and> j = ?k then 1 else 0)" if j: "j < length is" for j
    proof -
      have mem: "is ! j \<in> set is" using j by simp
      have cnt: "partitionCount (partitions (st (is ! j))) = c" "instanceID (partitions (st (is ! j))) = is ! j"
        "partitionCount (partitions (st' (is ! j))) = c"
        using ok [OF mem] step(1) [OF mem mem] by (simp_all add: dsched_ok_def)
      have "hash md5 c i \<in> ownedPartitions (partitions (st' (is ! j))) \<longleftrightarrow> j = ?k"
        using recalc_owner [OF assms(1) j cnt(2), of "hash md5 c i"] hash_range [OF ok [OF mem], of i] k(1)
        by (auto simp: step(2) [OF mem mem] IsOwned_def cnt(1))
      moreover have "i \<in> due_here md5 d region (st' (is ! j)) \<longleftrightarrow>
          ?on \<and> hash md5 c i \<in> ownedPartitions (partitions (st' (is ! j)))"
        by (auto simp: due_here_def cnt(3))
      ultimately show ?thesis using step(3) [OF mem mem, of i] by simp
    qed
    have "(\<Sum>inst\<leftarrow>is. runs i (base (st' inst))) = (\<Sum>j = 0..<length is. runs i (base (st' (is ! j))))"
      by (simp add: sum_list_sum_nth)
    also have "\<dots> = (\<Sum>j = 0..<length is. if j = ?k then (if ?on then 1 else 0) else 0)"
      using r by (intro sum.cong) auto
    also have "\<dots> = (if ?on then 1 else 0)" using k(2) by (simp add: sum.delta)
    finally show ?thesis .
  qed
  then show ?thesis using run by blast
qed

subsection \<open>The embedded scheduler\<close>

text \<open>The states of an embedded scheduler after any syncs.\<close>

definition after_syncs :: "string \<Rightarrow> (bool \<times> db) list \<Rightarrow> sched" where
  "after_syncs region hist = fold (\<lambda>(bad, d). syncMonitors bad d region) hist NewScheduler"

lemma after_syncs_ok: "sched_ok (after_syncs region hist)"
proof -
  have "sched_ok s \<Longrightarrow> sched_ok (fold (\<lambda>(bad, d). syncMonitors bad d region) hist s)" for s
    by (induction hist arbitrary: s) (auto simp: syncMonitors_def sched_ok_sync)
  then show ?thesis unfolding after_syncs_def by (simp add: sched_ok_New)
qed

text \<open>A sync runs exactly the enabled monitors. Whatever syncs came before, after one whose query
  succeeds each enabled monitor of the region has one goroutine and nothing else runs; every
  goroutine has the configuration time and the effective interval of the row; a goroutine whose
  row did not change goes on undisturbed; and stopping the scheduler leaves none.\<close>

theorem sync_runs_enabled:
  assumes "schema_ok d"
  shows "(\<forall>i. runs i (syncMonitors False d region (after_syncs region hist)) =
      (if \<exists>m \<in> set (monitors d). mrID m = i \<and> mrEnabled m \<and> region \<in> set (mrRegions m) then 1 else 0))
    \<and> (\<forall>(c, x) \<in> set (live (syncMonitors False d region (after_syncs region hist))).
        \<exists>m \<in> set (FetchActiveMonitors d region). mID m = mID x \<and> mUpdatedAt m = mUpdatedAt x \<and> mInterval m = mInterval x)
    \<and> (\<forall>(c, x) \<in> set (live (after_syncs region hist)). \<forall>m \<in> set (FetchActiveMonitors d region).
        mID m = mID x \<and> mUpdatedAt m = mUpdatedAt x \<and> mInterval m = mInterval x \<longrightarrow>
        (\<exists>y. (c, y) \<in> set (live (syncMonitors False d region (after_syncs region hist))) \<and> mID y = mID x))
    \<and> live (Stop (syncMonitors False d region (after_syncs region hist))) = []"
proof -
  let ?s = "after_syncs region hist" and ?ms = "FetchActiveMonitors d region"
  let ?s' = "sync_jobs ?ms ?s"
  have un: "uniq mrID (monitors d)" using assms by (simp add: schema_defs)
  note ids = fetched_ids [OF un, of region]
  have ok: "sched_ok ?s" "sched_ok ?s'" by (intro after_syncs_ok sched_ok_sync)+
  have eq: "syncMonitors False d region ?s = ?s'" by (simp add: syncMonitors_def)
  have "runs i ?s' = (if \<exists>m \<in> set (monitors d). mrID m = i \<and> mrEnabled m \<and> region \<in> set (mrRegions m) then 1 else 0)" for i
    using sync_runs [OF ok(1) ids(1), of i] unfolding ids(2) by auto
  moreover have "\<exists>m \<in> set ?ms. mID m = mID x \<and> mUpdatedAt m = mUpdatedAt x \<and> mInterval m = mInterval x"
    if cx: "(c, x) \<in> set (live ?s')" for c x
  proof -
    note j = conjunct1 [OF live_job [OF ok(2) cx]]
    then obtain m where m: "m \<in> set ?ms" "mID m = mID x" using sync_job [OF ids(1), of ?s "mID x"] by auto
    then show ?thesis using sync_current [OF m(1) ids(1), of ?s] j by (auto simp: current_def)
  qed
  moreover have "\<exists>y. (c, y) \<in> set (live ?s') \<and> mID y = mID x"
    if cx: "(c, x) \<in> set (live ?s)" and m: "m \<in> set ?ms" "mID m = mID x" "mUpdatedAt m = mUpdatedAt x" "mInterval m = mInterval x" for c x m
  proof -
    note j = conjunct1 [OF live_job [OF ok(1) cx]]
    have "current m ?s" using j m by (simp add: current_def)
    then have "map_of (jobs ?s') (mID x) = Some \<lparr>jCtx = c, jUpdatedAt = mUpdatedAt x, jInterval = mInterval x\<rparr>"
      using sync_kept [OF m(1) ids(1)] j m(2) by simp
    from job_live [OF ok(2) this] show ?thesis by (metis job.select_convs(1))
  qed
  moreover have "live (Stop ?s') = []" using stop_live [OF ok(2), of "\<lambda>_. True"] by (simp add: Stop_def)
  ultimately show ?thesis unfolding eq by blast
qed

theorem sync_runs_enabled_witness:
  "runs ''m1'' (syncMonitors False sample_db ''ca-east'' (after_syncs ''ca-east'' [(False, sample_db), (True, sample_db)])) = 1"
  using sync_runs_enabled [OF sample_db_ok, of "''ca-east''" "[(False, sample_db), (True, sample_db)]"]
  by (simp add: sample_db_def sample_monitor_def)

end
