(* ===== verification/Coordinator.thy ===== *)
theory Coordinator
  imports Scheduler "HOL-Library.Multiset" "HOL-Library.Sublist" "HOL-Library.Char_ord" "HOL-Library.List_Lexorder"
begin

section \<open>The coordinator\<close>

text \<open>
  \<^verbatim>\<open>internal/coordination/coordinator.go\<close>: how an instance makes itself known in etcd, learns who else
  is there and hands the membership to its scheduler through a channel. The etcd client is an argument: a
  record of its calls over the state of the cluster, each of which may fail. A stored value is what
  \<^verbatim>\<open>json.Unmarshal\<close> makes of it, \<open>None\<close> when it does not parse. A channel is the list of the events
  in it, oldest first, next to its capacity.
\<close>

record instance_metadata =
  imInstanceID :: string
  imRegion :: string
  imStartedAt :: instant

type_synonym kv = "string \<times> instance_metadata option"

record 's etcd =
  etGrant :: "int \<Rightarrow> 's \<Rightarrow> int option \<times> 's"
  etPut :: "string \<Rightarrow> instance_metadata option \<Rightarrow> int \<Rightarrow> 's \<Rightarrow> bool \<times> 's"
  etGet :: "string \<Rightarrow> 's \<Rightarrow> kv list option"
  etDelete :: "string \<Rightarrow> 's \<Rightarrow> bool \<times> 's"
  etRevoke :: "int \<Rightarrow> 's \<Rightarrow> bool \<times> 's"

record coordinator =
  coInstanceID :: string
  coRegion :: string
  coKeyPrefix :: string
  coLeaseTTL :: duration
  coLeaseID :: int
  coInstances :: "string list"
  coStopped :: bool

definition key_prefix :: "string \<Rightarrow> string" where
  "key_prefix region = ''/upguardly/schedulers/'' @ region @ ''/instances/''"

definition NewCoordinator :: "bool \<Rightarrow> string \<Rightarrow> string \<Rightarrow> duration \<Rightarrow> coordinator option" where
  "NewCoordinator dialed i region ttl =
     (if \<not> dialed then None
      else Some \<lparr>coInstanceID = i, coRegion = region, coKeyPrefix = key_prefix region, coLeaseTTL = ttl, coLeaseID = 0,
                 coInstances = [], coStopped = False\<rparr>)"

subsection \<open>Registration\<close>

definition lease_seconds :: "duration \<Rightarrow> int" where
  "lease_seconds ttl = (let t = ttl sdiv second in if t < 5 then 5 else t)"

definition registerLease :: "'s etcd \<Rightarrow> instant \<Rightarrow> coordinator \<Rightarrow> 's \<Rightarrow> bool \<times> coordinator \<times> 's" where
  "registerLease client now c s =
     (case etGrant client (lease_seconds (coLeaseTTL c)) s of
        (None, s1) \<Rightarrow> (False, c, s1)
      | (Some lease, s1) \<Rightarrow>
          (case etPut client (coKeyPrefix c @ coInstanceID c)
                  (Some \<lparr>imInstanceID = coInstanceID c, imRegion = coRegion c, imStartedAt = now\<rparr>) lease s1 of
             (False, s2) \<Rightarrow> (False, c, s2)
           | (True, s2) \<Rightarrow> (True, c\<lparr>coLeaseID := lease\<rparr>, s2)))"

text \<open>\<^verbatim>\<open>Register\<close> then starts the keepalive loop.\<close>

definition Register :: "'s etcd \<Rightarrow> instant \<Rightarrow> coordinator \<Rightarrow> 's \<Rightarrow> bool \<times> coordinator \<times> 's" where
  "Register client now c s = registerLease client now c s"

text \<open>One turn of the loop of \<^verbatim>\<open>reregisterWithBackoff\<close>: the client and the clock it finds, and whether the
  context ends during the wait. The result: whether it registered, and the waits it sat through.\<close>

record 's attempt =
  atClient :: "'s etcd"
  atNow :: instant
  atStopped :: bool

partial_function (option) reregister_loop ::
    "(nat \<Rightarrow> 's attempt) \<Rightarrow> nat \<Rightarrow> duration \<Rightarrow> coordinator \<Rightarrow> 's \<Rightarrow> (bool \<times> duration list \<times> coordinator \<times> 's) option" where
  "reregister_loop a n backoff c s =
     (let r = registerLease (atClient (a n)) (atNow (a n)) c s in
      if fst r then Some (True, [], snd r)
      else if atStopped (a n) then Some (False, [], snd r)
      else Option.bind (reregister_loop a (Suc n) (if backoff < 30 * second then backoff * 2 else backoff) (fst (snd r)) (snd (snd r)))
             (\<lambda>x. Some (fst x, backoff # fst (snd x), snd (snd x))))"

definition reregisterWithBackoff ::
    "(nat \<Rightarrow> 's attempt) \<Rightarrow> coordinator \<Rightarrow> 's \<Rightarrow> (bool \<times> duration list \<times> coordinator \<times> 's) option" where
  "reregisterWithBackoff a c s = reregister_loop a 0 second c s"

text \<open>A turn of \<^verbatim>\<open>keepAliveLoop\<close> after the stream is lost: whether the loop goes on.\<close>

definition keepAliveLoop :: "(nat \<Rightarrow> 's attempt) \<Rightarrow> coordinator \<Rightarrow> 's \<Rightarrow> (bool \<times> coordinator \<times> 's) option" where
  "keepAliveLoop a c s =
     (if coStopped c then Some (False, c, s)
      else map_option (\<lambda>(ok, _, c1, s1). (ok, c1, s1)) (reregisterWithBackoff a c s))"

definition Deregister :: "'s etcd \<Rightarrow> coordinator \<Rightarrow> 's \<Rightarrow> bool \<times> coordinator \<times> 's" where
  "Deregister client c s =
     (let c1 = c\<lparr>coStopped := True\<rparr> in
      case etDelete client (coKeyPrefix c1 @ coInstanceID c1) s of
        (False, s1) \<Rightarrow> (False, c1, s1)
      | (True, s1) \<Rightarrow> (True, c1, if coLeaseID c1 \<noteq> 0 then snd (etRevoke client (coLeaseID c1) s1) else s1))"

subsection \<open>Membership\<close>

definition GetInstances :: "coordinator \<Rightarrow> string list" where
  "GetInstances c = coInstances c"

definition refreshInstances :: "'s etcd \<Rightarrow> 's \<Rightarrow> coordinator \<Rightarrow> coordinator option" where
  "refreshInstances client s c =
     (case etGet client (coKeyPrefix c) s of
        None \<Rightarrow> None
      | Some kvs \<Rightarrow> Some (c\<lparr>coInstances := sort (map imInstanceID (List.map_filter snd kvs))\<rparr>))"

definition Reconcile :: "'s etcd \<Rightarrow> 's \<Rightarrow> coordinator \<Rightarrow> string list option \<times> coordinator" where
  "Reconcile client s c =
     (case refreshInstances client s c of None \<Rightarrow> (None, c) | Some c1 \<Rightarrow> (Some (GetInstances c1), c1))"

definition eventCap :: nat where
  "eventCap = 10"

text \<open>\<^verbatim>\<open>notify\<close>; the scheduler receives \<open>takes n\<close> events before the \<open>n\<close>-th try.\<close>

partial_function (option) notify_loop ::
    "nat \<Rightarrow> (nat \<Rightarrow> nat) \<Rightarrow> nat \<Rightarrow> string list \<Rightarrow> string list list \<Rightarrow> string list list option" where
  "notify_loop cap takes n ev buf =
     (let b = drop (takes n) buf in
      if length b < cap then Some (b @ [ev]) else notify_loop cap takes (Suc n) ev (tl b))"

definition notify :: "(nat \<Rightarrow> nat) \<Rightarrow> coordinator \<Rightarrow> string list list \<Rightarrow> string list list option" where
  "notify takes c buf = notify_loop eventCap takes 0 (GetInstances c) buf"

definition WatchInstances :: "'s etcd \<Rightarrow> 's \<Rightarrow> coordinator \<Rightarrow> (coordinator \<times> string list list) option" where
  "WatchInstances client s c = map_option (\<lambda>c1. (c1, [GetInstances c1])) (refreshInstances client s c)"

datatype watch_response = WatchClosed | WatchError | WatchEvents "string list"

definition refresh_and_notify ::
    "'s etcd \<Rightarrow> 's \<Rightarrow> (nat \<Rightarrow> nat) \<Rightarrow> coordinator \<Rightarrow> string list list \<Rightarrow> (bool \<times> coordinator \<times> string list list) option" where
  "refresh_and_notify client s takes c buf =
     (case refreshInstances client s c of
        None \<Rightarrow> Some (True, c, buf)
      | Some c1 \<Rightarrow> map_option (\<lambda>b. (True, c1, b)) (notify takes c1 buf))"

text \<open>A turn of \<^verbatim>\<open>watchLoop\<close>: whether the loop goes on, and the channel after it.\<close>

fun watchLoop ::
    "'s etcd \<Rightarrow> bool \<Rightarrow> 's \<Rightarrow> (nat \<Rightarrow> nat) \<Rightarrow> watch_response \<Rightarrow> coordinator \<Rightarrow> string list list \<Rightarrow>
     (bool \<times> coordinator \<times> string list list) option" where
  "watchLoop client ctxErr s takes WatchClosed c buf =
     (if ctxErr then Some (False, c, buf) else refresh_and_notify client s takes c buf)"
| "watchLoop client ctxErr s takes WatchError c buf = Some (True, c, buf)"
| "watchLoop client ctxErr s takes (WatchEvents evs) c buf =
     (if evs \<noteq> [] then refresh_and_notify client s takes c buf else Some (True, c, buf))"

text \<open>The scheduler receives the events of the channel one after the other, each with the database it
  then finds and whether its query fails.\<close>

fun consume :: "(string \<Rightarrow> 8 word list) \<Rightarrow> string \<Rightarrow> ((bool \<times> db) \<times> string list) list \<Rightarrow> dsched \<Rightarrow> dsched option" where
  "consume md5 region [] s = Some s"
| "consume md5 region (((bad, d), instances) # evs) s =
     Option.bind (run_step md5 bad d region (MembershipEvent instances) s) (consume md5 region evs)"

subsection \<open>Notification\<close>

lemma notify_loop_spec:
  assumes "1 \<le> cap"
  shows "\<exists>k. notify_loop cap takes n ev buf = Some (drop k buf @ [ev]) \<and> length (drop k buf @ [ev]) \<le> cap"
proof (induction "length buf" arbitrary: buf n rule: less_induct)
  case less
  let ?b = "drop (takes n) buf"
  show ?case
  proof (cases "length ?b < cap")
    case True
    then show ?thesis by (intro exI [of _ "takes n"]) (subst notify_loop.simps, simp add: Let_def)
  next
    case False
    then have "length (tl ?b) < length buf" using assms by simp
    from less [OF this] obtain k where k: "notify_loop cap takes (Suc n) ev (tl ?b) = Some (drop k (tl ?b) @ [ev])"
        "length (drop k (tl ?b) @ [ev]) \<le> cap" by blast
    have "tl ?b = drop (Suc (takes n)) buf" by (simp add: drop_Suc tl_drop)
    then show ?thesis
      using k False by (intro exI [of _ "k + Suc (takes n)"]) (subst notify_loop.simps, simp add: Let_def)
  qed
qed

lemma notify_spec: "\<exists>k. notify takes c buf = Some (drop k buf @ [GetInstances c]) \<and> length (drop k buf @ [GetInstances c]) \<le> eventCap"
  unfolding notify_def by (rule notify_loop_spec) (simp add: eventCap_def)

subsection \<open>Backing off\<close>

definition wait_at :: "nat \<Rightarrow> duration" where
  "wait_at i = min (2 ^ i) 32 * second"

lemma wait_at_Suc: "wait_at (Suc i) = (if wait_at i < 30 * second then wait_at i * 2 else wait_at i)"
proof (cases "i < 5")
  case True
  then have "i \<in> {0, 1, 2, 3, 4}" by auto
  then show ?thesis by (auto simp: wait_at_def)
next
  case False
  then have "(2 :: int) ^ 5 \<le> 2 ^ i" by (intro power_increasing) simp_all
  then show ?thesis by (simp add: wait_at_def min_def)
qed

definition can_register :: "'s attempt \<Rightarrow> bool \<Rightarrow> bool" where
  "can_register a ok \<longleftrightarrow> (\<forall>c s. fst (registerLease (atClient a) (atNow a) c s) = ok)"

lemma registerLease_keeps:
  "registerLease client now c s = (ok, c', s') \<Longrightarrow> c' = c\<lparr>coLeaseID := coLeaseID c'\<rparr>"
  by (auto simp: registerLease_def split: prod.splits option.splits bool.splits)

lemma reregister_spec:
  assumes "\<forall>i < n. can_register (a (m + i)) False \<and> \<not> atStopped (a (m + i))"
    and "can_register (a (m + n)) ok" "ok \<or> atStopped (a (m + n))"
  shows "\<exists>c' s'. reregister_loop a m (wait_at m) c s = Some (ok, map wait_at [m..<m + n], c', s') \<and> c' = c\<lparr>coLeaseID := coLeaseID c'\<rparr>"
  using assms
proof (induction n arbitrary: m c s)
  case 0
  obtain r c' s' where r: "registerLease (atClient (a m)) (atNow (a m)) c s = (r, c', s')" by (cases "registerLease (atClient (a m)) (atNow (a m)) c s") auto
  have "r = ok" using 0(2) r by (simp add: can_register_def) (metis fst_conv)
  then show ?case using 0(3) r registerLease_keeps [OF r] by (subst reregister_loop.simps) (auto simp: Let_def)
next
  case (Suc n)
  obtain r c1 s1 where r: "registerLease (atClient (a m)) (atNow (a m)) c s = (r, c1, s1)" by (cases "registerLease (atClient (a m)) (atNow (a m)) c s") auto
  have no: "\<not> r" "\<not> atStopped (a m)" using Suc.prems(1) r by (auto simp: can_register_def dest!: spec [where x = 0]) (metis fst_conv)
  have pre: "\<forall>i < n. can_register (a (Suc m + i)) False \<and> \<not> atStopped (a (Suc m + i))" using Suc.prems(1) by (metis Suc_less_eq add_Suc_shift)
  have at_n: "can_register (a (Suc m + n)) ok" "ok \<or> atStopped (a (Suc m + n))" using Suc.prems(2,3) by simp_all
  obtain c' s' where IH: "reregister_loop a (Suc m) (wait_at (Suc m)) c1 s1 = Some (ok, map wait_at [Suc m..<Suc m + n], c', s')"
      "c' = c1\<lparr>coLeaseID := coLeaseID c'\<rparr>"
    using Suc.IH [OF pre at_n] by blast
  have "c' = c\<lparr>coLeaseID := coLeaseID c'\<rparr>" using IH(2) registerLease_keeps [OF r] by (metis (no_types, lifting) coordinator.fold_congs(5) coordinator.surjective coordinator.update_convs(5))
  moreover have "reregister_loop a m (wait_at m) c s = Some (ok, wait_at m # map wait_at [Suc m..<Suc m + n], c', s')"
    using r no IH(1) by (subst reregister_loop.simps) (simp add: Let_def wait_at_Suc)
  moreover have "[m..<m + Suc n] = m # [Suc m..<Suc m + n]" by (simp add: upt_rec)
  ultimately show ?case by simp
qed

text \<open>An instance that loses its lease comes back. If etcd refuses \<open>n\<close> registrations and then accepts one, the loop
  ends with the instance registered, after waits of 1, 2, 4, 8, 16 seconds and 32 seconds from then on; if the coordinator
  is stopped meanwhile, it ends with that answer. Only the lease id changes.\<close>

theorem reregister_backs_off:
  assumes "\<forall>i < n. can_register (a i) False \<and> \<not> atStopped (a i)" "can_register (a n) ok" "ok \<or> atStopped (a n)"
  shows "\<exists>c' s'. reregisterWithBackoff a c s = Some (ok, map (\<lambda>i. min (2 ^ i) 32 * second) [0..<n], c', s') \<and>
    c' = c\<lparr>coLeaseID := coLeaseID c'\<rparr>"
proof -
  have "wait_at 0 = second" "wait_at = (\<lambda>i. min (2 ^ i) 32 * second)" by (simp_all add: wait_at_def fun_eq_iff)
  then show ?thesis using reregister_spec [of n a 0 ok c s] assms by (simp add: reregisterWithBackoff_def)
qed

subsection \<open>The cluster converges\<close>

text \<open>What etcd holds when the instances of \<open>regs\<close>, pairs of a region and an id, are registered, and what its
  range read by prefix returns of it.\<close>

definition registered :: "(string \<times> string) list \<Rightarrow> (string \<times> string \<Rightarrow> instant) \<Rightarrow> kv list" where
  "registered regs started =
     map (\<lambda>(region, i). (key_prefix region @ i, Some \<lparr>imInstanceID = i, imRegion = region, imStartedAt = started (region, i)\<rparr>)) regs"

definition etcd_holds :: "'s etcd \<Rightarrow> 's \<Rightarrow> kv list \<Rightarrow> bool" where
  "etcd_holds client s kvs \<longleftrightarrow> (\<forall>p. etGet client p s = Some (filter (\<lambda>kv. prefix p (fst kv)) kvs))"

definition members_of :: "(string \<times> string) list \<Rightarrow> string \<Rightarrow> string list" where
  "members_of regs region = map snd (filter (\<lambda>r. fst r = region) regs)"

lemma slash_prefix: "CHR ''/'' \<notin> set r \<Longrightarrow> CHR ''/'' \<notin> set r' \<Longrightarrow> prefix (r @ CHR ''/'' # x) (r' @ CHR ''/'' # y) \<Longrightarrow> r = r'"
proof (induction r arbitrary: r')
  case Nil
  then show ?case by (cases r') auto
next
  case (Cons a r)
  then show ?case by (cases r') auto
qed

text \<open>The keys of a region are read by its instances and by no others.\<close>

lemma region_isolation:
  assumes "CHR ''/'' \<notin> set r" "CHR ''/'' \<notin> set r'"
  shows "prefix (key_prefix r) (key_prefix r' @ i) \<longleftrightarrow> r = r'"
  using slash_prefix [OF assms, of "''instances/''" "''instances/'' @ i"] by (auto simp: key_prefix_def prefix_def)

lemma refresh_members:
  assumes "etcd_holds client s (registered regs started)" "\<forall>r \<in> set regs. CHR ''/'' \<notin> set (fst r)" "CHR ''/'' \<notin> set region"
    "coKeyPrefix c = key_prefix region"
  shows "refreshInstances client s c = Some (c\<lparr>coInstances := sort (members_of regs region)\<rparr>)"
proof -
  have "map imInstanceID (List.map_filter snd (filter (\<lambda>kv. prefix (key_prefix region) (fst kv)) (registered regs started))) = members_of regs region"
    using assms(2)
  proof (induction regs)
    case (Cons r regs)
    then show ?case
      using region_isolation [OF assms(3), of "fst r" "snd r"]
      by (cases r) (auto simp: registered_def members_of_def List.map_filter_def)
  qed (simp add: registered_def members_of_def List.map_filter_def)
  then show ?thesis using assms(1,4) by (simp add: refreshInstances_def etcd_holds_def)
qed

lemma refresh_and_notify_members:
  assumes "refreshInstances client s c = Some c1"
  shows "\<exists>k. refresh_and_notify client s takes c buf = Some (True, c1, drop k buf @ [coInstances c1])"
  using notify_spec [of takes c1 buf] assms by (auto simp: refresh_and_notify_def GetInstances_def)

lemma consume_append:
  "consume md5 region (xs @ ys) s = Option.bind (consume md5 region xs s) (consume md5 region ys)"
  by (induction xs arbitrary: s) (auto split: Option.bind_splits)

lemma consume_reachable:
  assumes "sched_reachable md5 c i region s" "1 \<le> c" "c \<le> 2 ^ 30" "\<forall>e \<in> set evs. schema_ok (snd (fst e))"
  shows "\<exists>s'. consume md5 region evs s = Some s' \<and> sched_reachable md5 c i region s'"
  using assms(1,4)
proof (induction evs arbitrary: s)
  case (Cons e evs)
  obtain bad d "is" where e: "e = ((bad, d), is)" by (cases e) auto
  have d: "schema_ok d" using Cons.prems(2) e by simp
  then have un: "uniq mrID (monitors d)" by (simp add: schema_defs)
  obtain t where t: "run_step md5 bad d region (MembershipEvent is) s = Some t"
    using run_step_ok [OF reachable_dsched [OF Cons.prems(1) assms(2,3)] un] by metis
  have "sched_reachable md5 c i region t" using sched_reachable.stepped [OF Cons.prems(1) d t] .
  then show ?case using Cons.IH Cons.prems(2) t e by auto
qed simp

lemma members_distinct: "distinct regs \<Longrightarrow> distinct (members_of regs region)"
  by (auto simp: members_of_def distinct_map inj_on_def)

lemma members_iff: "i \<in> set (members_of regs region) \<longleftrightarrow> (region, i) \<in> set regs"
  by (force simp: members_of_def)

lemma consume_last:
  assumes "sched_reachable md5 c i region s" "1 \<le> c" "c \<le> 2 ^ 30"
    and "length envs = length (buf @ [ev])" "last envs = (False, d)" "\<forall>e \<in> set envs. schema_ok (snd e)"
  shows "\<exists>t. sched_reachable md5 c i region t \<and>
    consume md5 region (zip envs (buf @ [ev])) s = run_step md5 False d region (MembershipEvent ev) t"
proof -
  obtain es where es: "envs = es @ [(False, d)]" "length es = length buf"
    using assms(4,5) by (cases envs rule: rev_cases) auto
  have ok: "\<forall>e \<in> set (zip es buf). schema_ok (snd (fst e))" using assms(6) es(1) by (auto dest!: set_zip_leftD)
  obtain t where t: "consume md5 region (zip es buf) s = Some t" "sched_reachable md5 c i region t"
    using consume_reachable [OF assms(1-3) ok] by blast
  have "consume md5 region (zip envs (buf @ [ev])) s = run_step md5 False d region (MembershipEvent ev) t"
  proof -
    have "zip envs (buf @ [ev]) = zip es buf @ [((False, d), ev)]" using es by simp
    moreover have "consume md5 region [((False, d), ev)] t = run_step md5 False d region (MembershipEvent ev) t"
      by (cases "run_step md5 False d region (MembershipEvent ev) t") simp_all
    ultimately show ?thesis by (simp only: consume_append t(1) Option.bind.simps)
  qed
  then show ?thesis using t(2) by blast
qed

definition checks_due :: "db \<Rightarrow> string \<Rightarrow> string \<Rightarrow> nat" where
  "checks_due d region m = (if \<exists>r \<in> set (monitors d). mrID r = m \<and> mrEnabled r \<and> region \<in> set (mrRegions r) then 1 else 0)"

lemma watch_converges:
  assumes "etcd_holds client s (registered regs started)" "\<forall>r \<in> set regs. CHR ''/'' \<notin> set (fst r)" "CHR ''/'' \<notin> set region"
    "coKeyPrefix c = key_prefix region" "resp \<noteq> WatchError" "resp \<noteq> WatchEvents []"
  shows "\<exists>c' k. watchLoop client False s takes resp c buf = Some (True, c', drop k buf @ [sort (members_of regs region)])"
proof -
  obtain k where "refresh_and_notify client s takes c buf =
      Some (True, c\<lparr>coInstances := sort (members_of regs region)\<rparr>, drop k buf @ [sort (members_of regs region)])"
    using refresh_and_notify_members [OF refresh_members [OF assms(1-4)], of takes buf] by auto
  then show ?thesis using assms(5,6) by (cases resp) auto
qed

lemma consumers_agree:
  assumes L: "distinct L" "L \<noteq> []" and c: "1 \<le> c" "c \<le> 2 ^ 30" and d: "schema_ok d"
    and st: "\<forall>i \<in> set L. sched_reachable md5 c i region (st i)"
    and envs: "\<forall>i \<in> set L. length (envs i) = length (buf i @ [L]) \<and> last (envs i) = (False, d) \<and> (\<forall>e \<in> set (envs i). schema_ok (snd e))"
  shows "\<exists>st'. (\<forall>i \<in> set L. consume md5 region (zip (envs i) (buf i @ [L])) (st i) = Some (st' i)) \<and>
    (\<forall>m. (\<Sum>i\<leftarrow>L. runs m (base (st' i))) = checks_due d region m)"
proof -
  have "\<exists>t. sched_reachable md5 c i region t \<and>
      consume md5 region (zip (envs i) (buf i @ [L])) (st i) = run_step md5 False d region (MembershipEvent L) t" if i: "i \<in> set L" for i
    using bspec [OF st i] bspec [OF envs i] by (elim conjE) (rule consume_last [OF _ c])
  then have "\<forall>i \<in> set L. \<exists>t. sched_reachable md5 c i region t \<and>
      consume md5 region (zip (envs i) (buf i @ [L])) (st i) = run_step md5 False d region (MembershipEvent L) t" by (rule ballI)
  from bchoice [OF this] obtain t where t: "\<forall>i \<in> set L. sched_reachable md5 c i region (t i) \<and>
      consume md5 region (zip (envs i) (buf i @ [L])) (st i) = run_step md5 False d region (MembershipEvent L) (t i)" ..
  then have "\<forall>i \<in> set L. sched_reachable md5 c i region (t i)" by blast
  from cluster_agrees [OF L c d this] obtain st' where st': "\<forall>i \<in> set L. run_step md5 False d region (MembershipEvent L) (t i) = Some (st' i)"
      "\<forall>m. (\<Sum>i\<leftarrow>L. runs m (base (st' i))) = checks_due d region m" unfolding checks_due_def by (elim exE conjE)
  have "consume md5 region (zip (envs i) (buf i @ [L])) (st i) = Some (st' i)" if i: "i \<in> set L" for i
    using bspec [OF t i] bspec [OF st'(1) i] by (elim conjE) (rule trans)
  then show ?thesis using st'(2) by (intro exI [of _ st'] conjI ballI)
qed

text \<open>C6: the cluster converges on the membership and checks every monitor once. Let etcd hold the registered instances of
  all regions, and let every instance of one region, in any state its scheduler can have reached and with any stale events
  in its channel, see one change or a restart of its watch. Each then puts the same sorted list of that region's instances
  last in its channel, without blocking; and when their schedulers have received what is in the channels, the last event
  with a query that succeeds, every enabled monitor of the region is checked by exactly one goroutine of exactly one
  instance and nothing else is checked.\<close>

theorem cluster_converges:
  assumes regs: "distinct regs" "\<forall>r \<in> set regs. CHR ''/'' \<notin> set (fst r)" "(region, i0) \<in> set regs"
    and held: "etcd_holds client s (registered regs started)"
    and c: "1 \<le> c" "c \<le> 2 ^ 30" and d: "schema_ok d"
    and inst: "\<forall>i \<in> set (members_of regs region). sched_reachable md5 c i region (st i) \<and> coKeyPrefix (co i) = key_prefix region"
    and resp: "\<forall>i \<in> set (members_of regs region). resp i \<noteq> WatchError \<and> resp i \<noteq> WatchEvents []"
  shows "\<exists>co' chan'.
    (\<forall>i \<in> set (members_of regs region). watchLoop client False s (takes i) (resp i) (co i) (chan i) = Some (True, co' i, chan' i) \<and>
       chan' i \<noteq> [] \<and> last (chan' i) = sort (members_of regs region)) \<and>
    (\<forall>envs. (\<forall>i \<in> set (members_of regs region). length (envs i) = length (chan' i) \<and> last (envs i) = (False, d) \<and>
         (\<forall>e \<in> set (envs i). schema_ok (snd e))) \<longrightarrow>
       (\<exists>st'. (\<forall>i \<in> set (members_of regs region). consume md5 region (zip (envs i) (chan' i)) (st i) = Some (st' i)) \<and>
         (\<forall>m. (\<Sum>i\<leftarrow>members_of regs region. runs m (base (st' i))) =
           checks_due d region m)))"
proof -
  let ?M = "members_of regs region" and ?L = "sort (members_of regs region)"
  have slash: "CHR ''/'' \<notin> set region" using bspec [OF regs(2,3)] by simp
  have i0: "i0 \<in> set ?L" using regs(3) by (simp add: members_iff)
  have L: "distinct ?L" "?L \<noteq> []" using members_distinct [OF regs(1), of region] i0 by (simp, metis empty_iff empty_set)
  have "\<exists>c'k. watchLoop client False s (takes i) (resp i) (co i) (chan i) = Some (True, fst c'k, drop (snd c'k) (chan i) @ [?L])"
    if i: "i \<in> set ?M" for i
    using watch_converges [OF held regs(2) slash, of "co i" "resp i" "takes i" "chan i"] bspec [OF inst i] bspec [OF resp i] by auto
  then have "\<forall>i \<in> set ?M. \<exists>c'k. watchLoop client False s (takes i) (resp i) (co i) (chan i) =
      Some (True, fst c'k, drop (snd c'k) (chan i) @ [?L])" by (rule ballI)
  from bchoice [OF this] obtain f where
    f: "\<forall>i \<in> set ?M. watchLoop client False s (takes i) (resp i) (co i) (chan i) = Some (True, fst (f i), drop (snd (f i)) (chan i) @ [?L])" ..
  define chan' where "chan' i = drop (snd (f i)) (chan i) @ [?L]" for i
  have A: "\<forall>i \<in> set ?M. watchLoop client False s (takes i) (resp i) (co i) (chan i) = Some (True, fst (f i), chan' i) \<and>
      chan' i \<noteq> [] \<and> last (chan' i) = ?L" using f by (simp add: chan'_def)
  have reach: "\<forall>i \<in> set ?L. sched_reachable md5 c i region (st i)" using inst by simp
  have sum: "(\<Sum>i\<leftarrow>?M. h i) = (\<Sum>i\<leftarrow>?L. h i)" for h :: "string \<Rightarrow> nat" by (metis mset_map mset_sort sum_mset_sum_list)
  show ?thesis
    using consumers_agree [OF L c d reach, of _ "\<lambda>i. drop (snd (f i)) (chan i)", folded chan'_def, unfolded set_sort]
    by (intro exI [of _ "\<lambda>i. fst (f i)"] exI [of _ chan'] conjI A allI impI) (simp only: sum)
qed

subsection \<open>Witnesses\<close>

text \<open>A cluster of one node that holds its keys in a list, and the same one refusing leases.\<close>

definition list_etcd :: "kv list etcd" where
  "list_etcd = \<lparr>etGrant = (\<lambda>_ s. (Some 7, s)), etPut = (\<lambda>k v _ s. (True, (k, v) # filter (\<lambda>kv. fst kv \<noteq> k) s)),
     etGet = (\<lambda>p s. Some (filter (\<lambda>kv. prefix p (fst kv)) s)), etDelete = (\<lambda>k s. (True, filter (\<lambda>kv. fst kv \<noteq> k) s)),
     etRevoke = (\<lambda>_ s. (True, s))\<rparr>"

definition down_etcd :: "kv list etcd" where
  "down_etcd = list_etcd\<lparr>etGrant := \<lambda>_ s. (None, s)\<rparr>"

definition sample_regs :: "(string \<times> string) list" where
  "sample_regs = [(''ca-east'', ''b''), (''eu-west'', ''z''), (''ca-east'', ''a'')]"

definition sample_coordinator :: "string \<Rightarrow> coordinator" where
  "sample_coordinator i = the (NewCoordinator True i ''ca-east'' (15 * second))"

theorem reregister_backs_off_witness:
  "\<exists>c' s'. reregisterWithBackoff (\<lambda>i. \<lparr>atClient = (if i < 2 then down_etcd else list_etcd), atNow = 5, atStopped = False\<rparr>)
     (sample_coordinator ''a'') [] = Some (True, [second, 2 * second], c', s') \<and> c' = (sample_coordinator ''a'')\<lparr>coLeaseID := coLeaseID c'\<rparr>"
proof -
  have "\<forall>i < 2. can_register \<lparr>atClient = (if i < (2 :: nat) then down_etcd else list_etcd), atNow = 5, atStopped = False\<rparr> False"
    "can_register \<lparr>atClient = list_etcd, atNow = 5, atStopped = False\<rparr> True"
    by (simp_all add: can_register_def registerLease_def down_etcd_def list_etcd_def)
  then show ?thesis
    using reregister_backs_off [of 2 "\<lambda>i. \<lparr>atClient = (if i < 2 then down_etcd else list_etcd), atNow = 5, atStopped = False\<rparr>"
        True "sample_coordinator ''a''" "[]"] by (simp add: upt_rec)
qed

theorem cluster_converges_witness:
  "\<exists>chan' st'. last (chan' ''a'') = [''a'', ''b''] \<and>
    consume sample_md5 ''ca-east'' (zip (replicate (length (chan' ''a'')) (False, sample_db)) (chan' ''a''))
       (NewDistributedScheduler (NewPartitionManager 8 ''a'')) = Some (st' ''a'') \<and>
    consume sample_md5 ''ca-east'' (zip (replicate (length (chan' ''b'')) (False, sample_db)) (chan' ''b''))
       (NewDistributedScheduler (NewPartitionManager 8 ''b'')) = Some (st' ''b'') \<and>
    runs ''m1'' (base (st' ''a'')) + runs ''m1'' (base (st' ''b'')) = 1"
proof -
  have m: "members_of sample_regs ''ca-east'' = [''b'', ''a'']" "sort [''b'', ''a''] = [''a'', ''b'']"
    by (simp_all add: members_of_def sample_regs_def)
  have h: "distinct sample_regs" "\<forall>r \<in> set sample_regs. CHR ''/'' \<notin> set (fst r)" "(''ca-east'', ''a'') \<in> set sample_regs"
    "etcd_holds list_etcd (registered sample_regs (\<lambda>_. 0)) (registered sample_regs (\<lambda>_. 0))" "1 \<le> (8 :: int)" "8 \<le> (2 :: int) ^ 30"
    by (simp_all add: sample_regs_def etcd_holds_def list_etcd_def)
  have st: "\<forall>i \<in> set (members_of sample_regs ''ca-east''). sched_reachable sample_md5 8 i ''ca-east'' (NewDistributedScheduler (NewPartitionManager 8 i)) \<and>
      coKeyPrefix (sample_coordinator i) = key_prefix ''ca-east''"
    by (simp add: sched_reachable.fresh sample_coordinator_def NewCoordinator_def)
  have w: "\<forall>i \<in> set (members_of sample_regs ''ca-east''). WatchEvents [''key''] \<noteq> WatchError \<and> WatchEvents [''key''] \<noteq> WatchEvents []" by simp
  from cluster_converges [OF h sample_db_ok st w, of "\<lambda>_ _. 0" "\<lambda>_. [[''old'']]", unfolded m list.set] obtain co' chan' where
    watch: "\<forall>i \<in> {''b'', ''a''}. watchLoop list_etcd False (registered sample_regs (\<lambda>_. 0)) (\<lambda>_. 0) (WatchEvents [''key'']) (sample_coordinator i)
        [[''old'']] = Some (True, co' i, chan' i) \<and> chan' i \<noteq> [] \<and> last (chan' i) = [''a'', ''b'']" and
    run: "\<forall>envs. (\<forall>i \<in> {''b'', ''a''}. length (envs i) = length (chan' i) \<and> last (envs i) = (False, sample_db) \<and>
         (\<forall>e \<in> set (envs i). schema_ok (snd e))) \<longrightarrow>
       (\<exists>st'. (\<forall>i \<in> {''b'', ''a''}. consume sample_md5 ''ca-east'' (zip (envs i) (chan' i)) (NewDistributedScheduler (NewPartitionManager 8 i)) = Some (st' i)) \<and>
         (\<forall>m. (\<Sum>i\<leftarrow>[''b'', ''a'']. runs m (base (st' i))) = checks_due sample_db ''ca-east'' m))"
    by (elim exE conjE)
  have last: "chan' i \<noteq> [] \<and> last (chan' i) = [''a'', ''b'']" if "i \<in> {''b'', ''a''}" for i using bspec [OF watch that] by (elim conjE) (intro conjI)
  have env: "\<forall>i \<in> {''b'', ''a''}. length (replicate (length (chan' i)) (False, sample_db)) = length (chan' i) \<and>
      last (replicate (length (chan' i)) (False, sample_db)) = (False, sample_db) \<and>
      (\<forall>e \<in> set (replicate (length (chan' i)) (False, sample_db)). schema_ok (snd e))"
    using last sample_db_ok by (auto simp: last_replicate)
  from mp [OF spec [OF run] env] obtain st' where st':
    "\<forall>i \<in> {''b'', ''a''}. consume sample_md5 ''ca-east'' (zip (replicate (length (chan' i)) (False, sample_db)) (chan' i))
         (NewDistributedScheduler (NewPartitionManager 8 i)) = Some (st' i)"
    "\<forall>m. (\<Sum>i\<leftarrow>[''b'', ''a'']. runs m (base (st' i))) = checks_due sample_db ''ca-east'' m" by (elim exE conjE)
  have "checks_due sample_db ''ca-east'' ''m1'' = 1" by (simp add: checks_due_def sample_db_def sample_monitor_def)
  then have "runs ''m1'' (base (st' ''a'')) + runs ''m1'' (base (st' ''b'')) = 1" using st'(2) [rule_format, of "''m1''"] by simp
  then show ?thesis using last [of "''a''"] st'(1) by (intro exI [of _ chan'] exI [of _ st']) simp
qed

end
