(* ===== verification/Worker.thy ===== *)
theory Worker
  imports Schema
begin

section \<open>Background workers: claiming rows and draining backlogs\<close>

text \<open>
  What the alert dispatcher, the verification worker and the expiry sweeper share
  (\<^verbatim>\<open>internal/scheduler/dispatcher.go\<close>, \<^verbatim>\<open>verifier.go\<close>, \<^verbatim>\<open>expiry.go\<close> and their queries in
  \<^verbatim>\<open>store_scheduler.go\<close>): a query claims the rows that are due, oldest first, up to a limit,
  skipping the rows that other transactions hold (\<^verbatim>\<open>FOR UPDATE SKIP LOCKED\<close>); and a tick keeps
  claiming while batches come back full. The locale \<open>draining\<close> is the contract that makes such a
  tick end; each worker interprets it.
\<close>

subsection \<open>Claiming\<close>

definition claim_ids ::
    "('r \<Rightarrow> 'k) \<Rightarrow> ('r \<Rightarrow> bool) \<Rightarrow> ('k \<Rightarrow> bool) \<Rightarrow> ('r \<Rightarrow> instant) \<Rightarrow> nat \<Rightarrow> 'r list \<Rightarrow> 'k list" where
  "claim_ids key due locked order limit rows =
     map key (take limit (sort_key order (filter (\<lambda>r. due r \<and> \<not> locked (key r)) rows)))"

lemma claim_ids_bound: "length (claim_ids key due locked order limit rows) \<le> limit"
  by (simp add: claim_ids_def)

lemma claim_ids_due:
  assumes "uniq key rows" "r \<in> set rows" "key r \<in> set (claim_ids key due locked order limit rows)"
  shows "due r \<and> \<not> locked (key r)"
proof -
  obtain x where x: "x \<in> set rows" "due x" "\<not> locked (key x)" "key x = key r"
    using assms(3) by (auto simp: claim_ids_def dest!: in_set_takeD)
  then have "x = r" using uniq_same [OF assms(1) x(1) assms(2)] by simp
  then show ?thesis using x by simp
qed

lemma claim_ids_distinct: "uniq key rows \<Longrightarrow> distinct (claim_ids key due locked order limit rows)"
proof -
  assume "uniq key rows"
  then have "distinct (map key (sort_key order (filter (\<lambda>r. due r \<and> \<not> locked (key r)) rows)))"
    by (auto simp: uniq_def distinct_map inj_on_def)
  then show ?thesis unfolding claim_ids_def take_map [symmetric] by (rule distinct_take)
qed

lemma claimed_rows_length:
  assumes "uniq key rows"
  shows "length (filter (\<lambda>r. key r \<in> set (claim_ids key due locked order limit rows)) rows) =
    length (claim_ids key due locked order limit rows)" (is "length ?l = length ?ids")
proof -
  have "set ?ids \<subseteq> key ` set rows" by (auto simp: claim_ids_def dest!: in_set_takeD)
  then have e: "set (map key ?l) = set ?ids" by auto
  have "length ?l = card (set (map key ?l))"
    using assms distinct_card [of "map key ?l"] by (simp add: uniq_def distinct_map_filter)
  then show ?thesis using distinct_card [OF claim_ids_distinct [OF assms], of due locked order limit] unfolding e by simp
qed

lemma claimed_rows_bound:
  assumes "uniq key rows"
  shows "length (filter (\<lambda>r. key r \<in> set (claim_ids key due locked order limit rows)) rows) \<le> limit"
    (is "length ?l \<le> limit")
  using claimed_rows_length [OF assms, of due locked order limit] claim_ids_bound [of key due locked order limit rows] by simp

text \<open>With room in the batch, every due row that nobody holds is claimed.\<close>

lemma claim_ids_all:
  assumes "length (claim_ids key due locked order limit rows) < limit"
    and "r \<in> set rows" "due r" "\<not> locked (key r)"
  shows "key r \<in> set (claim_ids key due locked order limit rows)"
  using assms by (auto simp: claim_ids_def)

subsection \<open>Draining\<close>

text \<open>The inner loop of a tick: \<open>batch k\<close> is the \<open>k\<close>-th call and answers how many rows it claimed; the
  loop goes on while that is a full batch, unless the worker was stopped meanwhile. The result says
  whether it was.\<close>

partial_function (option) drain ::
    "(nat \<Rightarrow> 's \<Rightarrow> nat \<times> 's) \<Rightarrow> nat \<Rightarrow> (nat \<Rightarrow> bool) \<Rightarrow> nat \<Rightarrow> 's \<Rightarrow> (bool \<times> 's) option" where
  [code]: "drain batch full stopped k s =
     (case batch k s of (n, s') \<Rightarrow>
        if n \<noteq> full then Some (False, s')
        else if stopped k then Some (True, s')
        else drain batch full stopped (Suc k) s')"

text \<open>The state before the \<open>k\<close>-th call, when the calls follow each other.\<close>

primrec batches :: "(nat \<Rightarrow> 's \<Rightarrow> nat \<times> 's) \<Rightarrow> nat \<Rightarrow> 's \<Rightarrow> 's" where
  "batches batch 0 s = s"
| "batches batch (Suc k) s = snd (batch k (batches batch k s))"

locale draining =
  fixes batch :: "nat \<Rightarrow> 's \<Rightarrow> nat \<times> 's"
    and full :: nat
    and ok :: "'s \<Rightarrow> bool"
    and left :: "'s \<Rightarrow> nat"
  assumes keeps: "ok s \<Longrightarrow> ok (snd (batch k s))"
    and progress: "ok s \<Longrightarrow> fst (batch k s) = full \<Longrightarrow> left (snd (batch k s)) < left s"
begin

lemma returns: "ok s \<Longrightarrow> \<exists>b s'. drain batch full stopped k s = Some (b, s') \<and> ok s'"
proof (induction "left s" arbitrary: s k rule: less_induct)
  case less
  obtain n s' where b: "batch k s = (n, s')" by force
  have s': "ok s'" using keeps [OF less.prems, of k] b by simp
  show ?case
  proof (cases "n = full \<and> \<not> stopped k")
    case True
    then have "left s' < left s" using progress [OF less.prems, of k] b by simp
    from less.hyps [OF this s'] obtain b' s'' where "drain batch full stopped (Suc k) s' = Some (b', s'')" "ok s''"
      by blast
    then show ?thesis using True b by (subst drain.simps) simp
  next
    case False
    then show ?thesis using b s' by (subst drain.simps) auto
  qed
qed

text \<open>Which calls the loop made: it ended with the call \<open>n\<close>, every call before it was full, and the
  call \<open>n\<close> itself was not, unless the worker had been stopped.\<close>

lemma runs_from:
  assumes "ok (batches batch k s)"
  shows "\<exists>n b. k \<le> n \<and> drain batch full stopped k (batches batch k s) = Some (b, batches batch (Suc n) s)
    \<and> ok (batches batch n s)
    \<and> (\<forall>j. k \<le> j \<and> j < n \<longrightarrow> fst (batch j (batches batch j s)) = full \<and> \<not> stopped j)
    \<and> (if b then stopped n else fst (batch n (batches batch n s)) \<noteq> full)"
  using assms
proof (induction "left (batches batch k s)" arbitrary: k rule: less_induct)
  case less
  let ?s = "batches batch k s"
  show ?case
  proof (cases "fst (batch k ?s) = full \<and> \<not> stopped k")
    case True
    have "left (batches batch (Suc k) s) < left ?s" "ok (batches batch (Suc k) s)"
      using progress [OF less.prems] keeps [OF less.prems] True by simp_all
    from less.hyps [OF this] obtain n b where n: "Suc k \<le> n" "ok (batches batch n s)"
        "drain batch full stopped (Suc k) (batches batch (Suc k) s) = Some (b, batches batch (Suc n) s)"
        "\<forall>j. Suc k \<le> j \<and> j < n \<longrightarrow> fst (batch j (batches batch j s)) = full \<and> \<not> stopped j"
        "if b then stopped n else fst (batch n (batches batch n s)) \<noteq> full" by blast
    have "drain batch full stopped k ?s = Some (b, batches batch (Suc n) s)"
      using n(3) True by (subst drain.simps) (simp add: split_beta)
    moreover have "\<forall>j. k \<le> j \<and> j < n \<longrightarrow> fst (batch j (batches batch j s)) = full \<and> \<not> stopped j"
      using n(4) True by (metis Suc_leI le_neq_implies_less)
    ultimately show ?thesis using n(1,2,5) Suc_leD by blast
  next
    case False
    then show ?thesis using less.prems
      by (intro exI [of _ k] exI [of _ "fst (batch k ?s) = full"]) (subst drain.simps, auto simp: split_beta)
  qed
qed

lemma runs:
  assumes "ok s"
  shows "\<exists>n b. drain batch full stopped 0 s = Some (b, batches batch (Suc n) s) \<and> ok (batches batch n s)
    \<and> (\<forall>j<n. fst (batch j (batches batch j s)) = full \<and> \<not> stopped j)
    \<and> (if b then stopped n else fst (batch n (batches batch n s)) \<noteq> full)"
  using runs_from [of 0 s stopped] assms by simp

end

subsection \<open>Settling the rows of a batch\<close>

text \<open>The rows a batch claimed are handled one by one, in parallel in the source; each of them deletes
  its own row or leaves it. Since the keys differ, any order gives the same table: a claimed row that
  settles is gone, a claimed row that does not has its new value, every other row is untouched.\<close>

locale settling =
  fixes key :: "'r \<Rightarrow> 'k"
    and tbl :: "'s \<Rightarrow> 'r list"
    and qkey :: "'q \<Rightarrow> 'k"
    and act :: "'q \<Rightarrow> 's \<Rightarrow> 's"
    and settles :: "'q \<Rightarrow> bool"
  assumes act_tbl: "tbl (act q s) = (if settles q then delete_where (\<lambda>r. key r = qkey q) (tbl s) else tbl s)"
begin

lemma fold_tbl: "tbl (fold act qs s) = filter (\<lambda>r. key r \<notin> qkey ` {q \<in> set qs. settles q}) (tbl s)"
proof (induction qs arbitrary: s)
  case (Cons q qs)
  then show ?case by (auto simp: act_tbl delete_where_def intro!: filter_cong)
qed simp

lemma batch_tbl:
  assumes "uniq key rows" "\<And>r. key (f r) = key r" "\<And>r. qkey (g r) = key r"
    and "tbl s = map (\<lambda>r. if C r then f r else r) rows"
  shows "tbl (fold act (map g (filter C rows)) s) =
    map (\<lambda>r. if C r then f r else r) (filter (\<lambda>r. \<not> (C r \<and> settles (g r))) rows)"
proof -
  let ?K = "qkey ` {q \<in> set (map g (filter C rows)). settles q}"
  have k: "key r \<in> ?K \<longleftrightarrow> C r \<and> settles (g r)" if r: "r \<in> set rows" for r
  proof
    assume "key r \<in> ?K"
    then obtain x where x: "x \<in> set rows" "C x" "settles (g x)" "key r = key x" using assms(3) by auto
    then have "x = r" using uniq_same [OF assms(1) x(1) r] by simp
    then show "C r \<and> settles (g r)" using x by simp
  next
    assume "C r \<and> settles (g r)"
    then have "qkey (g r) \<in> ?K" using r by auto
    then show "key r \<in> ?K" by (simp only: assms(3))
  qed
  have "tbl (fold act (map g (filter C rows)) s) = map (\<lambda>r. if C r then f r else r) (filter (\<lambda>r. key r \<notin> ?K) rows)"
    unfolding fold_tbl assms(4) by (simp add: filter_map o_def if_distrib [of key] assms(2) cong: if_cong)
  also have "filter (\<lambda>r. key r \<notin> ?K) rows = filter (\<lambda>r. \<not> (C r \<and> settles (g r))) rows"
    by (rule filter_cong [OF refl]) (simp only: k)
  finally show ?thesis .
qed

end

end
