(* ===== verification/Outbox.thy ===== *)
theory Outbox
  imports Worker
begin

section \<open>The alert outbox and its dispatcher\<close>

text \<open>
  \<^verbatim>\<open>internal/scheduler/dispatcher.go\<close>, the outbox methods of
  \<^verbatim>\<open>internal/database/bun/store_scheduler.go\<close> and \<^verbatim>\<open>alerter.Manager.Send\<close>. The outbox and the
  history are tables; the senders of the channels are a parameter, each answering with the error it
  returns, if any. The rows of one batch are delivered in parallel but touch different rows, so the
  batch is modelled as one of its serializations.
\<close>

subsection \<open>Tables\<close>

record outbox_row =
  obID :: ident
  obAlertID :: "ident option"
  obChannelID :: "ident option"
  obOrgAlertRecipientID :: "ident option"
  obMonitorID :: ident
  obChannel :: alert_channel
  obTarget :: string
  obStatus :: status
  obMessage :: string
  obStatusCode :: "int option"
  obLatency :: int
  obMonitorName :: string
  obMonitorType :: monitor_type
  obMonitorTarget :: string
  obAttempts :: nat
  obNextAttemptAt :: instant

record alert_history_row =
  ahAlertID :: "ident option"
  ahChannelID :: "ident option"
  ahStatus :: status
  ahMessage :: string

record outbox =
  alert_outbox :: "outbox_row list"
  alert_history :: "alert_history_row list"

subsection \<open>Claiming\<close>

definition dispatchBatchSize :: nat where
  "dispatchBatchSize = 50"

definition dispatchMaxAttempts :: nat where
  "dispatchMaxAttempts = 8"

text \<open>\<^verbatim>\<open>least(interval '30 seconds' * (2 ^ attempts), interval '30 minutes')\<close>, with the attempts before
  the update.\<close>

definition backoff :: "nat \<Rightarrow> duration" where
  "backoff attempts = min (30 * second * 2 ^ attempts) (1800 * second)"

definition claim_row :: "instant \<Rightarrow> outbox_row \<Rightarrow> outbox_row" where
  "claim_row now r = r\<lparr>obAttempts := obAttempts r + 1, obNextAttemptAt := now + backoff (obAttempts r)\<rparr>"

text \<open>The ids of the inner select; a row that another transaction holds is skipped.\<close>

definition claimable :: "instant \<Rightarrow> (ident \<Rightarrow> bool) \<Rightarrow> nat \<Rightarrow> outbox_row list \<Rightarrow> ident list" where
  "claimable now locked = claim_ids obID (\<lambda>r. obNextAttemptAt r \<le> now) locked obNextAttemptAt"

definition ClaimOutboxAlerts ::
    "instant \<Rightarrow> (ident \<Rightarrow> bool) \<Rightarrow> nat \<Rightarrow> outbox \<Rightarrow> outbox_row list \<times> outbox" where
  "ClaimOutboxAlerts now locked limit ob =
     (let ids = claimable now locked limit (alert_outbox ob);
          rows = update_where (\<lambda>r. obID r \<in> set ids) (claim_row now) (alert_outbox ob)
      in (filter (\<lambda>r. obID r \<in> set ids) rows, ob\<lparr>alert_outbox := rows\<rparr>))"

subsection \<open>Delivering\<close>

definition FinalizeOutboxAlert ::
    "bool \<Rightarrow> ident \<Rightarrow> status \<Rightarrow> string \<Rightarrow> ident option \<Rightarrow> ident option \<Rightarrow> outbox \<Rightarrow> outbox" where
  "FinalizeOutboxAlert fails i status message alertID channelID ob =
     (if fails then ob
      else ob\<lparr>alert_history := (if alertID \<noteq> None \<or> channelID \<noteq> None
                then alert_history ob @ [\<lparr>ahAlertID = alertID, ahChannelID = channelID, ahStatus = status, ahMessage = message\<rparr>]
                else alert_history ob),
              alert_outbox := delete_where (\<lambda>r. obID r = i) (alert_outbox ob)\<rparr>)"

text \<open>\<^verbatim>\<open>Manager.Send\<close>: \<open>None\<close> is success; a channel without a registered alerter is an error.\<close>

fun channel_name :: "alert_channel \<Rightarrow> string" where
  "channel_name EMAIL = ''EMAIL''"
| "channel_name SMS = ''SMS''"
| "channel_name DISCORD = ''DISCORD''"
| "channel_name SLACK = ''SLACK''"
| "channel_name TELEGRAM = ''TELEGRAM''"
| "channel_name (OtherChannel s) = s"

type_synonym senders = "alert_channel \<Rightarrow> (outbox_row \<Rightarrow> string option) option"

definition Send :: "senders \<Rightarrow> outbox_row \<Rightarrow> string option" where
  "Send mgr row = (case mgr (obChannel row) of
     None \<Rightarrow> Some (''no alerter registered for channel '' @ [char_of (34 :: nat)] @ channel_name (obChannel row) @ [char_of (34 :: nat)])
   | Some send \<Rightarrow> send row)"

definition finalize :: "(ident \<Rightarrow> bool) \<Rightarrow> outbox_row \<Rightarrow> string \<Rightarrow> outbox \<Rightarrow> outbox" where
  "finalize fails row message =
     FinalizeOutboxAlert (fails (obID row)) (obID row) (obStatus row) message (obAlertID row) (obChannelID row)"

definition deliver :: "senders \<Rightarrow> (ident \<Rightarrow> bool) \<Rightarrow> outbox_row \<Rightarrow> outbox \<Rightarrow> outbox" where
  "deliver mgr fails row ob =
     (case Send mgr row of
        None \<Rightarrow> finalize fails row (obMessage row) ob
      | Some err \<Rightarrow>
          if obAttempts row \<ge> dispatchMaxAttempts
          then finalize fails row (''delivery failed after '' @ fmt_nat (obAttempts row) @ '' attempts: '' @ err) ob
          else ob)"

text \<open>\<^verbatim>\<open>dispatchBatch\<close>; \<open>bad\<close> says that the claim fails.\<close>

definition dispatchBatch ::
    "instant \<Rightarrow> bool \<Rightarrow> (ident \<Rightarrow> bool) \<Rightarrow> senders \<Rightarrow> (ident \<Rightarrow> bool) \<Rightarrow> outbox \<Rightarrow> nat \<times> outbox" where
  "dispatchBatch now bad locked mgr fails ob =
     (if bad then (0, ob)
      else (case ClaimOutboxAlerts now locked dispatchBatchSize ob of
              (rows, ob1) \<Rightarrow> (length rows, fold (deliver mgr fails) rows ob1)))"

text \<open>One tick of \<^verbatim>\<open>loop\<close>. The clock gives the time of each batch; its claim may fail, and other
  instances may hold other rows in each.\<close>

definition dispatch_tick ::
    "(nat \<Rightarrow> instant) \<Rightarrow> (nat \<Rightarrow> bool) \<Rightarrow> (nat \<Rightarrow> bool) \<Rightarrow> (nat \<Rightarrow> ident \<Rightarrow> bool) \<Rightarrow> senders \<Rightarrow>
     (ident \<Rightarrow> bool) \<Rightarrow> outbox \<Rightarrow> (bool \<times> outbox) option" where
  "dispatch_tick clock bad stopped locked mgr fails =
     drain (\<lambda>k. dispatchBatch (clock k) (bad k) (locked k) mgr fails) dispatchBatchSize stopped 0"

subsection \<open>What a batch does to a row\<close>

definition claimed :: "instant \<Rightarrow> (ident \<Rightarrow> bool) \<Rightarrow> outbox \<Rightarrow> outbox_row \<Rightarrow> bool" where
  "claimed now locked ob r \<longleftrightarrow> obID r \<in> set (claimable now locked dispatchBatchSize (alert_outbox ob))"

text \<open>A claimed row is settled when it was sent or this was its last attempt, and the store recorded
  that.\<close>

definition settled :: "senders \<Rightarrow> (ident \<Rightarrow> bool) \<Rightarrow> outbox_row \<Rightarrow> bool" where
  "settled mgr fails r \<longleftrightarrow> \<not> fails (obID r) \<and> (Send mgr r = None \<or> obAttempts r \<ge> dispatchMaxAttempts)"

definition record_of :: "senders \<Rightarrow> outbox_row \<Rightarrow> alert_history_row" where
  "record_of mgr r = \<lparr>ahAlertID = obAlertID r, ahChannelID = obChannelID r, ahStatus = obStatus r,
     ahMessage = (case Send mgr r of None \<Rightarrow> obMessage r
       | Some err \<Rightarrow> ''delivery failed after '' @ fmt_nat (obAttempts r) @ '' attempts: '' @ err)\<rparr>"

lemma deliver_tables:
  "alert_outbox (deliver mgr fails r ob) =
     (if settled mgr fails r then delete_where (\<lambda>x. obID x = obID r) (alert_outbox ob) else alert_outbox ob)"
  "alert_history (deliver mgr fails r ob) = alert_history ob @
     (if settled mgr fails r \<and> (obAlertID r \<noteq> None \<or> obChannelID r \<noteq> None) then [record_of mgr r] else [])"
  by (auto simp: deliver_def finalize_def FinalizeOutboxAlert_def settled_def record_of_def split: option.split)

lemma fold_history:
  "alert_history (fold (deliver mgr fails) rows ob) = alert_history ob @
     map (record_of mgr) (filter (\<lambda>r. settled mgr fails r \<and> (obAlertID r \<noteq> None \<or> obChannelID r \<noteq> None)) rows)"
  by (induction rows arbitrary: ob) (simp_all add: deliver_tables)

interpretation delivery: settling obID alert_outbox obID "deliver mgr fails" "settled mgr fails"
  for mgr fails
  by unfold_locales (rule deliver_tables(1))

lemma claim_row_id [simp]: "obID (claim_row now r) = obID r" "obAttempts (claim_row now r) = Suc (obAttempts r)"
  by (simp_all add: claim_row_def)

lemma claim_update_table:
  "snd (ClaimOutboxAlerts now locked dispatchBatchSize ob) =
     ob\<lparr>alert_outbox := map (\<lambda>r. if claimed now locked ob r then claim_row now r else r) (alert_outbox ob)\<rparr>"
  "fst (ClaimOutboxAlerts now locked dispatchBatchSize ob) =
     map (claim_row now) (filter (claimed now locked ob) (alert_outbox ob))"
proof -
  show "snd (ClaimOutboxAlerts now locked dispatchBatchSize ob) =
     ob\<lparr>alert_outbox := map (\<lambda>r. if claimed now locked ob r then claim_row now r else r) (alert_outbox ob)\<rparr>"
    by (simp add: ClaimOutboxAlerts_def Let_def update_where_def claimed_def)
  have "filter (\<lambda>r. obID r \<in> S) (update_where (\<lambda>r. obID r \<in> S) (claim_row now) rows) =
      map (claim_row now) (filter (\<lambda>r. obID r \<in> S) rows)" for S rows
    by (induction rows) (auto simp: update_where_def)
  then show "fst (ClaimOutboxAlerts now locked dispatchBatchSize ob) =
     map (claim_row now) (filter (claimed now locked ob) (alert_outbox ob))"
    by (simp add: ClaimOutboxAlerts_def Let_def claimed_def [abs_def])
qed

lemma claimed_due:
  assumes "uniq obID (alert_outbox ob)" "r \<in> set (alert_outbox ob)" "claimed now locked ob r"
  shows "obNextAttemptAt r \<le> now \<and> \<not> locked (obID r)"
  using claim_ids_due [OF assms(1,2)] assms(3) by (simp add: claimed_def claimable_def)

lemma claimed_bound:
  assumes "uniq obID (alert_outbox ob)"
  shows "length (filter (claimed now locked ob) (alert_outbox ob)) \<le> dispatchBatchSize"
  using claimed_rows_bound [OF assms] by (simp add: claimed_def [abs_def] claimable_def)

lemma backoff_pos: "30 * second \<le> backoff a" "backoff a \<le> 1800 * second"
proof -
  have "(1::int) \<le> 2 ^ a" by simp
  then show "30 * second \<le> backoff a" by (simp add: backoff_def)
qed (simp add: backoff_def)

lemma batch_tables:
  assumes "dispatchBatch now False locked mgr fails ob = (n, ob')" "uniq obID (alert_outbox ob)"
  shows "n = length (filter (claimed now locked ob) (alert_outbox ob))"
    and "alert_outbox ob' = map (\<lambda>r. if claimed now locked ob r then claim_row now r else r)
      (filter (\<lambda>r. \<not> (claimed now locked ob r \<and> settled mgr fails (claim_row now r))) (alert_outbox ob))"
    and "alert_history ob' = alert_history ob @ map (record_of mgr)
      (filter (\<lambda>r. settled mgr fails r \<and> (obAlertID r \<noteq> None \<or> obChannelID r \<noteq> None))
        (map (claim_row now) (filter (claimed now locked ob) (alert_outbox ob))))"
proof -
  let ?rows = "map (claim_row now) (filter (claimed now locked ob) (alert_outbox ob))"
  let ?ob1 = "ob\<lparr>alert_outbox := map (\<lambda>r. if claimed now locked ob r then claim_row now r else r) (alert_outbox ob)\<rparr>"
  have "ClaimOutboxAlerts now locked dispatchBatchSize ob = (?rows, ?ob1)"
    using claim_update_table [of now locked ob] by (simp add: prod_eq_iff)
  then have r: "n = length ?rows" "ob' = fold (deliver mgr fails) ?rows ?ob1"
    using assms(1) by (simp_all add: dispatchBatch_def)
  show "n = length (filter (claimed now locked ob) (alert_outbox ob))" using r(1) by simp
  show "alert_history ob' = alert_history ob @ map (record_of mgr)
      (filter (\<lambda>r. settled mgr fails r \<and> (obAlertID r \<noteq> None \<or> obChannelID r \<noteq> None)) ?rows)"
    unfolding r(2) fold_history by simp
  show "alert_outbox ob' = map (\<lambda>r. if claimed now locked ob r then claim_row now r else r)
      (filter (\<lambda>r. \<not> (claimed now locked ob r \<and> settled mgr fails (claim_row now r))) (alert_outbox ob))"
    unfolding r(2) by (rule delivery.batch_tbl [OF assms(2)]) simp_all
qed

text \<open>C18: no alert is lost and none is tried forever. A batch claims at most fifty rows, all of them due
  and free; every other row stays as it is. A claimed row has one attempt more; it leaves the
  outbox exactly when it was sent or this was the eighth attempt, and the store recorded that, in
  which case the history names the outcome; otherwise it stays, due again after thirty seconds
  at the earliest and thirty minutes at the latest.\<close>

theorem dispatch_outcome:
  assumes "dispatchBatch now False locked mgr fails ob = (n, ob')" "uniq obID (alert_outbox ob)"
  shows "n = length (filter (claimed now locked ob) (alert_outbox ob)) \<and> n \<le> 50
    \<and> (\<forall>r \<in> set (alert_outbox ob). claimed now locked ob r \<longrightarrow> obNextAttemptAt r \<le> now \<and> \<not> locked (obID r))
    \<and> alert_outbox ob' = map (\<lambda>r. if claimed now locked ob r then claim_row now r else r)
        (filter (\<lambda>r. \<not> (claimed now locked ob r \<and> settled mgr fails (claim_row now r))) (alert_outbox ob))
    \<and> alert_history ob' = alert_history ob @ map (record_of mgr)
        (filter (\<lambda>r. settled mgr fails r \<and> (obAlertID r \<noteq> None \<or> obChannelID r \<noteq> None))
          (map (claim_row now) (filter (claimed now locked ob) (alert_outbox ob))))
    \<and> (\<forall>r. now + 30 * second \<le> obNextAttemptAt (claim_row now r) \<and> obNextAttemptAt (claim_row now r) \<le> now + 1800 * second)"
proof -
  have "now + 30 * second \<le> obNextAttemptAt (claim_row now r) \<and> obNextAttemptAt (claim_row now r) \<le> now + 1800 * second" for r
    using backoff_pos [of "obAttempts r"] by (simp add: claim_row_def)
  moreover have "n \<le> 50"
    using batch_tables(1) [OF assms] claimed_bound [OF assms(2), of now locked] by (simp add: dispatchBatchSize_def)
  ultimately show ?thesis using batch_tables [OF assms] claimed_due [OF assms(2)] by blast
qed

subsection \<open>Draining ends\<close>

definition potential :: "outbox_row list \<Rightarrow> nat" where
  "potential rows = (\<Sum>r\<leftarrow>rows. Suc (dispatchMaxAttempts - obAttempts r))"

lemma potential_step:
  "potential (map (\<lambda>r. if C r then claim_row now r else r) (filter (\<lambda>r. \<not> (C r \<and> settled mgr (\<lambda>_. False) (claim_row now r))) rows))
     + length (filter C rows) \<le> potential rows"
proof (induction rows)
  case (Cons r rows)
  then show ?case by (auto simp: potential_def settled_def dispatchMaxAttempts_def)
qed (simp add: potential_def)

lemma uniq_step:
  "uniq obID rows \<Longrightarrow> uniq obID (map (\<lambda>r. if C r then claim_row now r else r) (filter Q rows))"
  by (simp add: uniq_def distinct_map_filter o_def if_distrib [of obID] cong: if_cong)

lemma batch_uniq:
  assumes "uniq obID (alert_outbox ob)"
  shows "uniq obID (alert_outbox (snd (dispatchBatch now bad locked mgr fails ob)))"
proof (cases bad)
  case False
  obtain n ob' where b: "dispatchBatch now False locked mgr fails ob = (n, ob')" by force
  show ?thesis using uniq_step [OF assms] batch_tables(2) [OF b assms] False b by simp
qed (simp add: dispatchBatch_def assms)

lemma batch_potential:
  assumes "uniq obID (alert_outbox ob)"
    and "fst (dispatchBatch now bad locked mgr (\<lambda>_. False) ob) = dispatchBatchSize"
  shows "potential (alert_outbox (snd (dispatchBatch now bad locked mgr (\<lambda>_. False) ob))) < potential (alert_outbox ob)"
proof -
  have nb: "\<not> bad" using assms(2) by (auto simp: dispatchBatch_def dispatchBatchSize_def)
  obtain n ob' where b: "dispatchBatch now False locked mgr (\<lambda>_. False) ob = (n, ob')" by force
  note t = batch_tables [OF b assms(1)]
  have "0 < length (filter (claimed now locked ob) (alert_outbox ob))"
    using assms(2) nb b t(1) by (simp add: dispatchBatchSize_def)
  then have "potential (alert_outbox ob') < potential (alert_outbox ob)"
    using potential_step [of "claimed now locked ob" now mgr "alert_outbox ob"] unfolding t(2) by linarith
  then show ?thesis using nb b by simp
qed

interpretation dispatcher: draining
  "\<lambda>k. dispatchBatch (clock k) (bad k) (locked k) mgr (\<lambda>_. False)" dispatchBatchSize
  "\<lambda>ob. uniq obID (alert_outbox ob)" "\<lambda>ob. potential (alert_outbox ob)"
  for clock bad locked mgr
  by unfold_locales (simp_all add: batch_uniq batch_potential)

text \<open>C38: a tick of the dispatcher ends. When the store records outcomes, the loop that keeps claiming
  while batches are full returns for every clock, every behaviour of the providers, every failing
  claim and every choice of locked rows: each claim spends one of the eight attempts of its row.\<close>

theorem drain_terminates:
  assumes "uniq obID (alert_outbox ob)"
  shows "\<exists>stop ob'. dispatch_tick clock bad stopped locked mgr (\<lambda>_. False) ob = Some (stop, ob')
    \<and> uniq obID (alert_outbox ob')"
  using dispatcher.returns [OF assms] by (simp add: dispatch_tick_def)

subsection \<open>Witnesses\<close>

definition sample_row :: outbox_row where
  "sample_row = \<lparr>obID = ''r1'', obAlertID = None, obChannelID = Some ''c'', obOrgAlertRecipientID = None, obMonitorID = ''m'', obChannel = SLACK, obTarget = ''t'',
     obStatus = DOWN, obMessage = ''m'', obStatusCode = None, obLatency = 0, obMonitorName = ''n'', obMonitorType = HTTP,
     obMonitorTarget = ''h'', obAttempts = 7, obNextAttemptAt = 0\<rparr>"

definition sample_outbox :: outbox where
  "sample_outbox = \<lparr>alert_outbox = [sample_row, sample_row\<lparr>obID := ''r2'', obAttempts := 0\<rparr>, sample_row\<lparr>obID := ''r3''\<rparr>],
     alert_history = []\<rparr>"

definition sample_senders :: senders where
  "sample_senders = (\<lambda>c. if c = SLACK then Some (\<lambda>_. Some ''down'') else None)"

lemma sample_outbox_uniq: "uniq obID (alert_outbox sample_outbox)"
  by (simp add: uniq_def sample_outbox_def sample_row_def)

theorem dispatch_outcome_witness:
  "fst (dispatchBatch 5 False (\<lambda>i. i = ''r3'') sample_senders (\<lambda>_. False) sample_outbox) = 2
    \<and> map obID (alert_outbox (snd (dispatchBatch 5 False (\<lambda>i. i = ''r3'') sample_senders (\<lambda>_. False) sample_outbox))) = [''r2'', ''r3'']"
proof -
  obtain n ob' where b: "dispatchBatch 5 False (\<lambda>i. i = ''r3'') sample_senders (\<lambda>_. False) sample_outbox = (n, ob')" by force
  have c: "claimed 5 (\<lambda>i. i = ''r3'') sample_outbox r \<longleftrightarrow> obID r = ''r1'' \<or> obID r = ''r2''" for r
    by (auto simp: claimed_def claimable_def claim_ids_def sample_outbox_def sample_row_def dispatchBatchSize_def)
  show ?thesis
    using dispatch_outcome [OF b sample_outbox_uniq] b c
    by (simp add: sample_outbox_def sample_row_def settled_def Send_def sample_senders_def dispatchMaxAttempts_def)
qed

theorem drain_terminates_witness:
  "\<exists>stop ob'. dispatch_tick (\<lambda>k. int k) (\<lambda>_. False) (\<lambda>_. False) (\<lambda>_ _. False) sample_senders (\<lambda>_. False) sample_outbox
     = Some (stop, ob') \<and> uniq obID (alert_outbox ob')"
  by (rule drain_terminates [OF sample_outbox_uniq])

end
