(* ===== verification/Runner.thy ===== *)
theory Runner
  imports StoreLaws "HOL-Library.Multiset"
begin

section \<open>Running checks and writing their results\<close>

text \<open>
  \<^verbatim>\<open>internal/scheduler/runner.go\<close> with \<^verbatim>\<open>monitor.NewChecker\<close> and
  \<^verbatim>\<open>PersistMonitorResults\<close> of \<^verbatim>\<open>store_scheduler.go\<close>. The checkers do network I/O: they are a
  parameter. The result writer is a buffered channel, the goroutine that empties it in batches
  and the calls it has made to the store; its steps interleave with those of the goroutines that
  enqueue, so it is a step relation. The metrics and the log are left out, and so is the pacing of
  \<^verbatim>\<open>jobLoop\<close> (its ticker and its random offset).
\<close>

subsection \<open>Checks\<close>

record check_result =
  ckStatus :: status
  ckLatency :: int
  ckStatusCode :: "int option"
  ckMessage :: string

type_synonym checker = "string \<Rightarrow> duration \<Rightarrow> check_result"

fun NewChecker :: "(monitor_type \<Rightarrow> checker) \<Rightarrow> monitor_type \<Rightarrow> checker option" where
  "NewChecker impl HTTP = Some (impl HTTP)"
| "NewChecker impl PORT = Some (impl PORT)"
| "NewChecker impl PING = Some (impl PING)"
| "NewChecker impl (OtherType _) = None"

record pending_result =
  prMonitorID :: ident
  prResult :: check_result

subsection \<open>The store\<close>

record monitor_result =
  resID :: ident
  resMonitorID :: ident
  resStatus :: status
  resLatency :: int
  resStatusCode :: "int option"
  resMessage :: "string option"
  resRegion :: string
  resCheckedAt :: instant

definition result_row :: "ident \<Rightarrow> instant \<Rightarrow> string \<Rightarrow> pending_result \<Rightarrow> monitor_result" where
  "result_row i now region p =
     (let r = prResult p in
      \<lparr>resID = i, resMonitorID = prMonitorID p, resStatus = ckStatus r, resLatency = ckLatency r,
       resStatusCode = ckStatusCode r, resMessage = (if ckMessage r = [] then None else Some (ckMessage r)),
       resRegion = region, resCheckedAt = now\<rparr>)"

text \<open>The casts to \<^verbatim>\<open>int4\<close> fail outside their range.\<close>

definition fits_int4 :: "pending_result \<Rightarrow> bool" where
  "fits_int4 p \<longleftrightarrow> int32 (ckLatency (prResult p)) = ckLatency (prResult p)
     \<and> \<not> opt_any (ckStatusCode (prResult p)) (\<lambda>c. int32 c \<noteq> c)"

text \<open>One multi-row insert, joined with the monitors: results of deleted monitors are dropped. The
  time is the database's, the ids are fresh (\<open>newID i\<close> for the \<open>i\<close>-th result); \<open>bad\<close> is a failing
  statement.\<close>

definition PersistMonitorResults ::
    "db \<Rightarrow> (nat \<Rightarrow> ident) \<Rightarrow> instant \<Rightarrow> bool \<Rightarrow> string \<Rightarrow> pending_result list \<Rightarrow> monitor_result list \<Rightarrow>
     (store_error + unit) \<times> monitor_result list" where
  "PersistMonitorResults d newID now bad region results tbl =
     (if results = [] then (Inr (), tbl)
      else if bad \<or> \<not> list_all fits_int4 results then (Inl ErrOther, tbl)
      else (Inr (), tbl @ filter (\<lambda>r. resMonitorID r \<in> mrID ` set (monitors d))
                            (map (\<lambda>(i, p). result_row (newID i) now region p) (enumerate 0 results))))"

subsection \<open>The result writer\<close>

definition resultBatchMax :: nat where
  "resultBatchMax = 200"

definition resultBufferSize :: nat where
  "resultBufferSize = 4096"

record writer =
  wCh :: "pending_result list"
  wClosed :: bool
  wBatch :: "pending_result list"
  wDone :: bool
  wCalls :: "pending_result list list"

definition newResultWriter :: writer where
  "newResultWriter = \<lparr>wCh = [], wClosed = False, wBatch = [], wDone = False, wCalls = []\<rparr>"

definition flush :: "pending_result list \<Rightarrow> writer \<Rightarrow> writer" where
  "flush batch w = (if batch = [] then w else w\<lparr>wCalls := wCalls w @ [batch]\<rparr>)"

definition insertOne :: "pending_result \<Rightarrow> writer \<Rightarrow> writer" where
  "insertOne p w = w\<lparr>wCalls := wCalls w @ [[p]]\<rparr>"

text \<open>\<open>None\<close> is the panic of a send on a closed channel, which a \<^verbatim>\<open>default\<close> case does not prevent.\<close>

definition enqueue :: "pending_result \<Rightarrow> writer \<Rightarrow> writer option" where
  "enqueue p w =
     (if wClosed w then None
      else if length (wCh w) < resultBufferSize then Some (w\<lparr>wCh := wCh w @ [p]\<rparr>)
      else Some (insertOne p w))"

definition stop_writer :: "writer \<Rightarrow> writer" where
  "stop_writer w = w\<lparr>wClosed := True\<rparr>"

text \<open>The two cases of the \<^verbatim>\<open>select\<close> in \<^verbatim>\<open>loop\<close>.\<close>

definition loop_recv :: "writer \<Rightarrow> writer" where
  "loop_recv w =
     (case wCh w of
        [] \<Rightarrow> if wClosed w then flush (wBatch w) (w\<lparr>wBatch := [], wDone := True\<rparr>) else w
      | p # rest \<Rightarrow>
          (let batch = wBatch w @ [p] in
           if length batch \<ge> resultBatchMax then flush batch (w\<lparr>wCh := rest, wBatch := []\<rparr>)
           else w\<lparr>wCh := rest, wBatch := batch\<rparr>))"

definition loop_tick :: "writer \<Rightarrow> writer" where
  "loop_tick w = (if wBatch w \<noteq> [] then flush (wBatch w) (w\<lparr>wBatch := []\<rparr>) else w)"

inductive wstep :: "writer \<Rightarrow> pending_result option \<Rightarrow> writer \<Rightarrow> bool" where
  Enq: "enqueue p w = Some w' \<Longrightarrow> wstep w (Some p) w'"
| Recv: "\<not> wDone w \<Longrightarrow> wCh w \<noteq> [] \<or> wClosed w \<Longrightarrow> wstep w None (loop_recv w)"
| Tick: "\<not> wDone w \<Longrightarrow> wstep w None (loop_tick w)"
| Stop: "wstep w None (stop_writer w)"

inductive_cases wstep_silentE: "wstep w None w'"
inductive_cases wstep_enqE: "wstep w (Some p) w'"

text \<open>\<open>writes ps w\<close>: some interleaving leads to \<open>w\<close> after the results \<open>ps\<close> were enqueued.\<close>

inductive writes :: "pending_result list \<Rightarrow> writer \<Rightarrow> bool" where
  init: "writes [] newResultWriter"
| silent: "writes ps w \<Longrightarrow> wstep w None w' \<Longrightarrow> writes ps w'"
| enq: "writes ps w \<Longrightarrow> wstep w (Some p) w' \<Longrightarrow> writes (ps @ [p]) w'"

subsection \<open>A check\<close>

record runner =
  rnWriter :: writer
  rnRecorded :: "(ident \<times> string \<times> check_result) list"

definition degrade :: "monitor \<Rightarrow> check_result \<Rightarrow> check_result" where
  "degrade m r = (if ckStatus r = UP \<and> ckLatency r > mDegradedThresholdMs m
     then r\<lparr>ckStatus := DEGRADED, ckMessage := ''High latency''\<rparr> else r)"

text \<open>\<^verbatim>\<open>runCheck\<close>: the classified result goes to the writer and, as a scheduled check of the region, to
  the quorum function of the database, of which only the call is modelled.\<close>

definition runCheck :: "(monitor_type \<Rightarrow> checker) \<Rightarrow> string \<Rightarrow> monitor \<Rightarrow> runner \<Rightarrow> runner option" where
  "runCheck impl region m s =
     (case NewChecker impl (mType m) of
        None \<Rightarrow> Some s
      | Some check \<Rightarrow>
          (let result = degrade m (check (mTarget m) (mTimeout m * second)) in
           case enqueue \<lparr>prMonitorID = mID m, prResult = result\<rparr> (rnWriter s) of
             None \<Rightarrow> None
           | Some w \<Rightarrow> Some (s\<lparr>rnWriter := w, rnRecorded := rnRecorded s @ [(mID m, region, result)]\<rparr>)))"

subsection \<open>Nothing is lost\<close>

definition pending_in :: "writer \<Rightarrow> pending_result multiset" where
  "pending_in w = mset (concat (wCalls w)) + mset (wBatch w) + mset (wCh w)"

definition writer_ok :: "writer \<Rightarrow> bool" where
  "writer_ok w \<longleftrightarrow> length (wCh w) \<le> resultBufferSize \<and> length (wBatch w) < resultBatchMax
     \<and> (\<forall>c \<in> set (wCalls w). c \<noteq> [] \<and> length c \<le> resultBatchMax)
     \<and> (wDone w \<longrightarrow> wClosed w \<and> wBatch w = [] \<and> wCh w = [])"

lemmas writer_defs = enqueue_def insertOne_def flush_def loop_recv_def loop_tick_def stop_writer_def
  resultBatchMax_def resultBufferSize_def

lemma flush_simps [simp]:
  "wCh (flush b w) = wCh w" "wClosed (flush b w) = wClosed w" "wBatch (flush b w) = wBatch w" "wDone (flush b w) = wDone w"
  "concat (wCalls (flush b w)) = concat (wCalls w) @ b"
  by (simp_all add: flush_def)

lemma pending_step:
  "wstep w None w' \<Longrightarrow> pending_in w' = pending_in w"
  "wstep w (Some p) w' \<Longrightarrow> pending_in w' = add_mset p (pending_in w)"
  by (auto elim!: wstep_silentE wstep_enqE simp: pending_in_def enqueue_def insertOne_def loop_recv_def loop_tick_def
      stop_writer_def Let_def split: list.splits if_splits)

lemma writer_ok_step: "wstep w l w' \<Longrightarrow> writer_ok w \<Longrightarrow> writer_ok w'"
proof (induction rule: wstep.induct)
  case (Recv w)
  then show ?case by (auto simp: writer_ok_def writer_defs Let_def split: list.splits)
next
  case (Tick w)
  then show ?case by (auto simp: writer_ok_def writer_defs)
qed (auto simp: writer_ok_def writer_defs split: if_splits)

lemma writes_inv: "writes ps w \<Longrightarrow> pending_in w = mset ps \<and> writer_ok w"
proof (induction rule: writes.induct)
  case init
  then show ?case by (simp add: pending_in_def writer_ok_def newResultWriter_def writer_defs)
next
  case (silent ps w w')
  then show ?case using pending_step(1) writer_ok_step by simp
next
  case (enq ps w p w')
  then show ?case using pending_step(2) writer_ok_step by simp
qed

lemma drain_done:
  assumes "writes ps w" "wClosed w" "\<not> wDone w"
  shows "writes ps ((loop_recv ^^ Suc (length (wCh w))) w) \<and> wDone ((loop_recv ^^ Suc (length (wCh w))) w)"
  using assms
proof (induction "wCh w" arbitrary: w)
  case Nil
  then have "wDone (loop_recv w)" by (simp add: loop_recv_def)
  moreover have "writes ps (loop_recv w)" using Nil.prems by (blast intro: writes.silent wstep.Recv)
  ultimately show ?case using Nil.hyps by simp
next
  case (Cons p rest)
  have "wCh (loop_recv w) = rest" "wClosed (loop_recv w)" "\<not> wDone (loop_recv w)"
    using Cons.hyps(2) [symmetric] Cons.prems by (simp_all add: loop_recv_def Let_def)
  moreover have "writes ps (loop_recv w)" using Cons.prems by (blast intro: writes.silent wstep.Recv)
  ultimately have "writes ps ((loop_recv ^^ Suc (length rest)) (loop_recv w)) \<and> wDone ((loop_recv ^^ Suc (length rest)) (loop_recv w))"
    using Cons.hyps(1) [of "loop_recv w"] by simp
  then show ?case using Cons.hyps(2) [symmetric] by (simp add: funpow_swap1)
qed

lemma done_calls: "writes ps w \<Longrightarrow> wDone w \<Longrightarrow> mset (concat (wCalls w)) = mset ps"
  using writes_inv [of ps w] by (auto simp: writer_ok_def pending_in_def)

text \<open>C20: no result is lost on the way to the store and none is written twice. In every interleaving the
  results enqueued so far are those handed to the store, those in the batch and those in the
  channel; the channel holds at most 4096 and every call writes between one and 200. Stopping the
  writer lets its loop hand over everything after one iteration per buffered result and one
  more.\<close>

theorem writer_loses_nothing:
  assumes "writes ps w"
  shows "mset ps = mset (concat (wCalls w)) + mset (wBatch w) + mset (wCh w)
    \<and> length (wCh w) \<le> 4096 \<and> length (wBatch w) < 200
    \<and> (\<forall>c \<in> set (wCalls w). c \<noteq> [] \<and> length c \<le> 200)
    \<and> (wDone w \<or> (let w' = (loop_recv ^^ (length (wCh w) + 1)) (stop_writer w)
                    in wDone w' \<and> mset (concat (wCalls w')) = mset ps))"
proof -
  have s: "writes ps (stop_writer w)" using assms by (blast intro: writes.silent wstep.Stop)
  have "wDone w \<or> (let w' = (loop_recv ^^ (length (wCh w) + 1)) (stop_writer w) in wDone w' \<and> mset (concat (wCalls w')) = mset ps)"
    using drain_done [OF s] done_calls [of ps "(loop_recv ^^ Suc (length (wCh w))) (stop_writer w)"]
    by (auto simp: stop_writer_def Let_def)
  then show ?thesis
    using writes_inv [OF assms] by (simp add: pending_in_def writer_ok_def resultBatchMax_def resultBufferSize_def)
qed

subsection \<open>From checks to rows\<close>

text \<open>The rows that a sequence of calls leaves, when the database answers.\<close>

fun run_calls ::
    "db \<Rightarrow> (nat \<Rightarrow> nat \<Rightarrow> ident) \<Rightarrow> (nat \<Rightarrow> instant) \<Rightarrow> string \<Rightarrow> nat \<Rightarrow> pending_result list list \<Rightarrow>
     monitor_result list \<Rightarrow> monitor_result list" where
  "run_calls d newID clock region k [] tbl = tbl"
| "run_calls d newID clock region k (c # cs) tbl =
     run_calls d newID clock region (Suc k) cs (snd (PersistMonitorResults d (newID k) (clock k) False region c tbl))"

definition strip :: "monitor_result \<Rightarrow> monitor_result" where
  "strip r = r\<lparr>resID := [], resCheckedAt := 0\<rparr>"

lemma strip_rows:
  "map strip (filter (\<lambda>r. resMonitorID r \<in> M) (map (\<lambda>(i, p). result_row (newID i) now region p) (enumerate n ps)))
    = map (result_row [] 0 region) (filter (\<lambda>p. prMonitorID p \<in> M) ps)"
  by (induction ps arbitrary: n) (simp_all add: strip_def result_row_def Let_def)

lemma run_calls_rows:
  "\<forall>c \<in> set cs. list_all fits_int4 c \<Longrightarrow>
   map strip (run_calls d newID clock region k cs tbl) = map strip tbl @
     map (result_row [] 0 region) (filter (\<lambda>p. prMonitorID p \<in> mrID ` set (monitors d)) (concat cs))"
proof (induction cs arbitrary: k tbl)
  case (Cons c cs)
  then show ?case by (simp add: PersistMonitorResults_def strip_rows)
qed simp

text \<open>End to end, with the database answering, the rows in \<^verbatim>\<open>monitor_results\<close> after the writer has
  drained are exactly one per enqueued result whose monitor still exists, with its status, latency,
  code, message and the region of this scheduler.\<close>

theorem results_reach_table:
  assumes "writes ps w" "wDone w" "list_all fits_int4 ps"
  shows "mset (map strip (run_calls d newID clock region 0 (wCalls w) [])) =
    mset (map (result_row [] 0 region) (filter (\<lambda>p. prMonitorID p \<in> mrID ` set (monitors d)) ps))"
proof -
  have m: "mset (concat (wCalls w)) = mset ps" by (rule done_calls [OF assms(1,2)])
  then have "set (concat (wCalls w)) = set ps" by (rule mset_eq_setD)
  then have "\<forall>c \<in> set (wCalls w). list_all fits_int4 c" using assms(3) by (auto simp: list_all_iff)
  from run_calls_rows [OF this] show ?thesis by (simp add: m mset_filter mset_map)
qed

text \<open>Stopping is not safe for checks in flight. \<^verbatim>\<open>Stop\<close> cancels the jobs and closes the channel
  without waiting for them; a check of a known type that finishes afterwards, for any result, sends
  on the closed channel and panics.\<close>

theorem check_after_stop_panics:
  "NewChecker impl (mType m) \<noteq> None \<longleftrightarrow> runCheck impl region m (s\<lparr>rnWriter := stop_writer (rnWriter s)\<rparr>) = None"
  by (auto simp: runCheck_def enqueue_def stop_writer_def Let_def split: option.split)

subsection \<open>Witnesses\<close>

definition sample_pending :: pending_result where
  "sample_pending = \<lparr>prMonitorID = ''m'', prResult = \<lparr>ckStatus = UP, ckLatency = 20, ckStatusCode = Some 200, ckMessage = []\<rparr>\<rparr>"

definition sample_writer :: writer where
  "sample_writer = newResultWriter\<lparr>wClosed := True, wDone := True, wCalls := [[sample_pending]]\<rparr>"

lemma sample_writes: "writes [sample_pending] (newResultWriter\<lparr>wCh := [sample_pending]\<rparr>)"
proof -
  have "wstep newResultWriter (Some sample_pending) (newResultWriter\<lparr>wCh := [sample_pending]\<rparr>)"
    by (rule wstep.Enq) (simp add: enqueue_def newResultWriter_def resultBufferSize_def)
  from writes.enq [OF writes.init this] show ?thesis by simp
qed

lemma sample_drained: "writes [sample_pending] sample_writer"
proof -
  let ?w = "newResultWriter\<lparr>wCh := [sample_pending]\<rparr>"
  have "writes [sample_pending] (stop_writer ?w)" by (rule writes.silent [OF sample_writes wstep.Stop])
  from drain_done [OF this] have "writes [sample_pending] ((loop_recv ^^ 2) (stop_writer ?w))"
    by (simp add: stop_writer_def newResultWriter_def numeral_2_eq_2)
  also have "(loop_recv ^^ 2) (stop_writer ?w) = sample_writer"
    by (simp add: stop_writer_def newResultWriter_def numeral_2_eq_2 loop_recv_def flush_def resultBatchMax_def sample_writer_def)
  finally show ?thesis .
qed

theorem writer_loses_nothing_witness:
  "mset [sample_pending] = mset (wCh (newResultWriter\<lparr>wCh := [sample_pending]\<rparr>))"
  using writer_loses_nothing [OF sample_writes] by (simp add: newResultWriter_def)

theorem results_reach_table_witness:
  "mset (map strip (run_calls (empty_db\<lparr>monitors := [sample_monitor ''m'' None]\<rparr>) (\<lambda>_ _. ''id'') (\<lambda>_. 7) ''ca-east'' 0
     (wCalls sample_writer) [])) = {#result_row [] 0 ''ca-east'' sample_pending#}"
proof -
  have "wDone sample_writer" "list_all fits_int4 [sample_pending]"
    by (simp_all add: sample_writer_def fits_int4_def sample_pending_def int32_def)
  from results_reach_table [OF sample_drained this] show ?thesis
    by (simp add: sample_monitor_def sample_pending_def)
qed

end
