(* ===== verification/Verifier.thy ===== *)
theory Verifier
  imports Worker Runner
begin

section \<open>Cross-region confirmation\<close>

text \<open>
  \<^verbatim>\<open>internal/scheduler/verifier.go\<close> and its queries in \<^verbatim>\<open>store_scheduler.go\<close>. A region claims the
  confirmation requests addressed to it, runs one check for each and reports it; every instance
  sweeps the requests that ran out of time, so that a silent region cannot hold an alert back. The
  quorum functions of the database are a parameter: their calls are recorded in order.
\<close>

subsection \<open>Data\<close>

record verification_row =
  vrID :: ident
  vrMonitorID :: ident
  vrRegion :: string
  vrRequestedAt :: instant
  vrExpiresAt :: instant
  vrClaimedAt :: "instant option"
  vrClaimedBy :: "string option"

record verification_request =
  vqID :: ident
  vqMonitorID :: ident
  vqRegion :: string
  vqType :: monitor_type
  vqTarget :: string
  vqTimeout :: int

datatype quorum_call =
    RecordRegionCheck ident string check_result
  | EvaluateMonitorQuorum ident

record verification_state =
  requests :: "verification_row list"
  quorum_calls :: "quorum_call list"

subsection \<open>Heartbeats\<close>

definition UpsertRegionHeartbeat :: "instant \<Rightarrow> string \<Rightarrow> (string \<times> instant) list \<Rightarrow> (string \<times> instant) list" where
  "UpsertRegionHeartbeat now region beats =
     (if region \<in> fst ` set beats then update_where (\<lambda>b. fst b = region) (\<lambda>b. (region, now)) beats
      else beats @ [(region, now)])"

subsection \<open>Claiming\<close>

definition claimable_requests :: "instant \<Rightarrow> (ident \<Rightarrow> bool) \<Rightarrow> string \<Rightarrow> nat \<Rightarrow> verification_row list \<Rightarrow> ident list" where
  "claimable_requests now locked region limit =
     claim_ids vrID (\<lambda>r. vrRegion r = region \<and> vrClaimedAt r = None \<and> vrExpiresAt r > now) locked vrRequestedAt limit"

definition claim_request :: "instant \<Rightarrow> string \<Rightarrow> verification_row \<Rightarrow> verification_row" where
  "claim_request now region r = r\<lparr>vrClaimedAt := Some now, vrClaimedBy := Some region\<rparr>"

definition enabled_monitor :: "db \<Rightarrow> verification_row \<Rightarrow> monitor_row option" where
  "enabled_monitor d r = find (\<lambda>m. mrID m = vrMonitorID r \<and> mrEnabled m) (monitors d)"

definition to_request :: "db \<Rightarrow> verification_row \<Rightarrow> verification_request" where
  "to_request d r = (case enabled_monitor d r of
     Some m \<Rightarrow> \<lparr>vqID = vrID r, vqMonitorID = vrMonitorID r, vqRegion = vrRegion r, vqType = mrType m,
               vqTarget = mrTarget m, vqTimeout = mrTimeout m\<rparr>
   | None \<Rightarrow> \<lparr>vqID = vrID r, vqMonitorID = vrMonitorID r, vqRegion = vrRegion r, vqType = OtherType [], vqTarget = [], vqTimeout = 0\<rparr>)"

text \<open>The limit applies to the inner select; the join with the enabled monitors comes after it.\<close>

definition claims_request :: "db \<Rightarrow> ident list \<Rightarrow> verification_row \<Rightarrow> bool" where
  "claims_request d ids r \<longleftrightarrow> vrID r \<in> set ids \<and> enabled_monitor d r \<noteq> None"

definition ClaimVerificationRequests ::
    "db \<Rightarrow> instant \<Rightarrow> (ident \<Rightarrow> bool) \<Rightarrow> string \<Rightarrow> nat \<Rightarrow> verification_row list \<Rightarrow>
     verification_request list \<times> verification_row list" where
  "ClaimVerificationRequests d now locked region limit rows =
     (let ids = claimable_requests now locked region limit rows in
      (map (to_request d) (filter (claims_request d ids) rows),
       update_where (claims_request d ids) (claim_request now region) rows))"

definition CompleteVerificationRequest :: "ident \<Rightarrow> verification_row list \<Rightarrow> verification_row list" where
  "CompleteVerificationRequest i = delete_where (\<lambda>r. vrID r = i)"

definition expired :: "instant \<Rightarrow> (ident \<Rightarrow> bool) \<Rightarrow> verification_row \<Rightarrow> bool" where
  "expired now locked r \<longleftrightarrow> vrExpiresAt r \<le> now \<and> \<not> locked (vrID r)"

definition ExpireVerificationRequests ::
    "instant \<Rightarrow> (ident \<Rightarrow> bool) \<Rightarrow> verification_row list \<Rightarrow> ident list \<times> verification_row list" where
  "ExpireVerificationRequests now locked rows =
     (dedup_loop {} [] (map vrMonitorID (filter (expired now locked) rows)), delete_where (expired now locked) rows)"

subsection \<open>The worker\<close>

definition verifyBatchSize :: nat where
  "verifyBatchSize = 50"

text \<open>Which store calls fail: the claim and the sweep of a batch, and for each request the recording,
  the deletion and the evaluation.\<close>

record verify_env =
  veDB :: db
  veNow :: instant
  veLocked :: "ident \<Rightarrow> bool"
  veRegion :: string
  veImpl :: "monitor_type \<Rightarrow> checker"
  veClaimFails :: bool
  veRecordFails :: "ident \<Rightarrow> bool"
  veCompleteFails :: "ident \<Rightarrow> bool"
  veExpireFails :: bool

definition complete :: "verify_env \<Rightarrow> ident \<Rightarrow> verification_state \<Rightarrow> verification_state" where
  "complete e i s =
     (if veCompleteFails e i then s else s\<lparr>requests := CompleteVerificationRequest i (requests s)\<rparr>)"

definition verify :: "verify_env \<Rightarrow> verification_request \<Rightarrow> verification_state \<Rightarrow> verification_state" where
  "verify e req s =
     (case NewChecker (veImpl e) (vqType req) of
        None \<Rightarrow> complete e (vqID req) s
      | Some check \<Rightarrow>
          if veRecordFails e (vqID req) then s
          else complete e (vqID req)
                 (s\<lparr>quorum_calls := quorum_calls s @
                      [RecordRegionCheck (vqMonitorID req) (veRegion e) (check (vqTarget req) (vqTimeout req * second))]\<rparr>))"

definition processBatch :: "verify_env \<Rightarrow> verification_state \<Rightarrow> nat \<times> verification_state" where
  "processBatch e s =
     (if veClaimFails e then (0, s)
      else (case ClaimVerificationRequests (veDB e) (veNow e) (veLocked e) (veRegion e) verifyBatchSize (requests s) of
              (reqs, rows) \<Rightarrow> (length reqs, fold (verify e) reqs (s\<lparr>requests := rows\<rparr>))))"

definition sweepExpired :: "verify_env \<Rightarrow> verification_state \<Rightarrow> verification_state" where
  "sweepExpired e s =
     (if veExpireFails e then s
      else (case ExpireVerificationRequests (veNow e) (veLocked e) (requests s) of
              (ids, rows) \<Rightarrow> s\<lparr>requests := rows, quorum_calls := quorum_calls s @ map EvaluateMonitorQuorum ids\<rparr>))"

text \<open>One tick of \<^verbatim>\<open>verifyLoop\<close>; \<open>sweep\<close> is the environment of the sweep. A worker stopped while it drains
  does not sweep.\<close>

definition verify_tick ::
    "(nat \<Rightarrow> verify_env) \<Rightarrow> verify_env \<Rightarrow> (nat \<Rightarrow> bool) \<Rightarrow> verification_state \<Rightarrow> (bool \<times> verification_state) option" where
  "verify_tick env sweep stopped s =
     (case drain (\<lambda>k. processBatch (env k)) verifyBatchSize stopped 0 s of
        None \<Rightarrow> None
      | Some (stop, s') \<Rightarrow> Some (stop, if stop then s' else sweepExpired sweep s'))"

subsection \<open>A batch\<close>

definition confirms :: "verify_env \<Rightarrow> verification_state \<Rightarrow> verification_row \<Rightarrow> bool" where
  "confirms e s = claims_request (veDB e)
     (claimable_requests (veNow e) (veLocked e) (veRegion e) verifyBatchSize (requests s))"

text \<open>A claimed request is gone afterwards when its check was recorded, or its type is unknown, and the
  deletion went through.\<close>

definition answered :: "verify_env \<Rightarrow> verification_request \<Rightarrow> bool" where
  "answered e q \<longleftrightarrow> \<not> veCompleteFails e (vqID q) \<and> (NewChecker (veImpl e) (vqType q) = None \<or> \<not> veRecordFails e (vqID q))"

lemma verify_requests:
  "requests (verify e q s) = (if answered e q then delete_where (\<lambda>r. vrID r = vqID q) (requests s) else requests s)"
  by (simp add: verify_def complete_def answered_def CompleteVerificationRequest_def split: option.split)

interpretation confirmation: settling vrID requests vqID "verify e" "answered e"
  for e
  by unfold_locales (rule verify_requests)

definition reports :: "verify_env \<Rightarrow> verification_request \<Rightarrow> quorum_call list" where
  "reports e q = (case NewChecker (veImpl e) (vqType q) of
     None \<Rightarrow> [] | Some check \<Rightarrow> if veRecordFails e (vqID q) then []
       else [RecordRegionCheck (vqMonitorID q) (veRegion e) (check (vqTarget q) (vqTimeout q * second))])"

lemma verify_calls: "quorum_calls (fold (verify e) qs s) = quorum_calls s @ concat (map (reports e) qs)"
proof (induction qs arbitrary: s)
  case (Cons q qs)
  have "quorum_calls (verify e q s) = quorum_calls s @ reports e q"
    by (simp add: verify_def complete_def reports_def split: option.split)
  then show ?case using Cons by simp
qed simp

lemma request_ids [simp]: "vqID (to_request d r) = vrID r" "vrID (claim_request now region r) = vrID r"
  by (simp_all add: to_request_def claim_request_def split: option.split)

lemma batch_requests:
  assumes "uniq vrID (requests s)" "\<not> veClaimFails e"
  shows "fst (processBatch e s) = length (filter (confirms e s) (requests s))"
    and "requests (snd (processBatch e s)) =
      map (\<lambda>r. if confirms e s r then claim_request (veNow e) (veRegion e) r else r)
        (filter (\<lambda>r. \<not> (confirms e s r \<and> answered e (to_request (veDB e) r))) (requests s))"
    and "quorum_calls (snd (processBatch e s)) =
      quorum_calls s @ concat (map (\<lambda>r. reports e (to_request (veDB e) r)) (filter (confirms e s) (requests s)))"
proof -
  let ?qs = "map (to_request (veDB e)) (filter (confirms e s) (requests s))"
  let ?rows = "map (\<lambda>r. if confirms e s r then claim_request (veNow e) (veRegion e) r else r) (requests s)"
  have p: "processBatch e s = (length ?qs, fold (verify e) ?qs (s\<lparr>requests := ?rows\<rparr>))"
    using assms(2) by (simp add: processBatch_def ClaimVerificationRequests_def Let_def update_where_def confirms_def)
  show "fst (processBatch e s) = length (filter (confirms e s) (requests s))" by (simp add: p)
  show "quorum_calls (snd (processBatch e s)) =
      quorum_calls s @ concat (map (\<lambda>r. reports e (to_request (veDB e) r)) (filter (confirms e s) (requests s)))"
    unfolding p snd_conv verify_calls by (simp add: o_def)
  show "requests (snd (processBatch e s)) =
      map (\<lambda>r. if confirms e s r then claim_request (veNow e) (veRegion e) r else r)
        (filter (\<lambda>r. \<not> (confirms e s r \<and> answered e (to_request (veDB e) r))) (requests s))"
    unfolding p snd_conv by (rule confirmation.batch_tbl [OF assms(1)]) simp_all
qed

lemma confirms_due:
  assumes "uniq vrID (requests s)" "r \<in> set (requests s)" "confirms e s r"
  shows "vrRegion r = veRegion e \<and> vrClaimedAt r = None \<and> vrExpiresAt r > veNow e \<and> \<not> veLocked e (vrID r)"
proof -
  have "vrID r \<in> set (claimable_requests (veNow e) (veLocked e) (veRegion e) verifyBatchSize (requests s))"
    using assms(3) by (simp add: confirms_def claims_request_def)
  from claim_ids_due [OF assms(1,2) this [unfolded claimable_requests_def]] show ?thesis by simp
qed

definition unclaimed :: "verification_state \<Rightarrow> nat" where
  "unclaimed s = length (filter (\<lambda>r. vrClaimedAt r = None) (requests s))"

lemma verify_uniq:
  assumes "uniq vrID (requests s)"
  shows "uniq vrID (requests (snd (processBatch e s)))"
proof (cases "veClaimFails e")
  case False
  then show ?thesis unfolding batch_requests(2) [OF assms False] using assms
    by (simp add: uniq_def o_def if_distrib [of vrID] distinct_map_filter cong: if_cong)
qed (simp add: processBatch_def assms)

lemma batch_unclaimed:
  assumes "uniq vrID (requests s)" "fst (processBatch e s) = verifyBatchSize"
  shows "unclaimed (snd (processBatch e s)) < unclaimed s"
proof -
  have nf: "\<not> veClaimFails e" using assms(2) by (auto simp: processBatch_def verifyBatchSize_def)
  note b = batch_requests [OF assms(1) nf]
  have m: "filter (\<lambda>r. vrClaimedAt r = None \<and> confirms e s r) (requests s) = filter (confirms e s) (requests s)"
    using confirms_due [OF assms(1)] by (auto intro!: filter_cong)
  have "unclaimed (snd (processBatch e s)) \<le> length (filter (\<lambda>r. vrClaimedAt r = None \<and> \<not> confirms e s r) (requests s))"
  proof -
    have "length (filter (\<lambda>r. vrClaimedAt r = None) (map (\<lambda>r. if C r then claim_request now region r else r)
        (filter (\<lambda>r. \<not> (C r \<and> A r)) rows))) \<le> length (filter (\<lambda>r. vrClaimedAt r = None \<and> \<not> C r) rows)" for C A now region rows
      by (induction rows) (auto simp: claim_request_def)
    then show ?thesis unfolding unclaimed_def b(2) .
  qed
  moreover have "length (filter (\<lambda>r. vrClaimedAt r = None \<and> confirms e s r) (requests s)) = verifyBatchSize"
    unfolding m using assms(2) b(1) by simp
  moreover have "length (filter (\<lambda>r. vrClaimedAt r = None \<and> confirms e s r) (requests s)) +
      length (filter (\<lambda>r. vrClaimedAt r = None \<and> \<not> confirms e s r) (requests s)) = unclaimed s"
    using sum_length_filter_compl [of "confirms e s" "filter (\<lambda>r. vrClaimedAt r = None) (requests s)"]
    by (simp add: unclaimed_def conj_commute)
  ultimately show ?thesis by (simp add: verifyBatchSize_def)
qed

interpretation verifier: draining "\<lambda>k. processBatch (env k)" verifyBatchSize "\<lambda>s. uniq vrID (requests s)" unclaimed
  for env
  by unfold_locales (simp_all add: verify_uniq batch_unclaimed)

text \<open>A batch confirms what it should, once. It claims at most fifty requests of its own region that
  are unexpired, unclaimed, free and whose monitor is enabled; each is checked and reported once; it
  is removed when the report was recorded (or its type is unknown) and the deletion succeeded, and
  otherwise stays claimed, so that no later batch runs it again. Every other request is untouched.\<close>

theorem confirmation_batch:
  assumes "uniq vrID (requests s)" "\<not> veClaimFails e"
  shows "fst (processBatch e s) = length (filter (confirms e s) (requests s)) \<and> fst (processBatch e s) \<le> 50
    \<and> (\<forall>r \<in> set (requests s). confirms e s r \<longrightarrow> vrRegion r = veRegion e \<and> vrClaimedAt r = None \<and> vrExpiresAt r > veNow e
         \<and> \<not> veLocked e (vrID r) \<and> enabled_monitor (veDB e) r \<noteq> None)
    \<and> requests (snd (processBatch e s)) =
        map (\<lambda>r. if confirms e s r then claim_request (veNow e) (veRegion e) r else r)
          (filter (\<lambda>r. \<not> (confirms e s r \<and> answered e (to_request (veDB e) r))) (requests s))
    \<and> quorum_calls (snd (processBatch e s)) =
        quorum_calls s @ concat (map (\<lambda>r. reports e (to_request (veDB e) r)) (filter (confirms e s) (requests s)))"
proof -
  let ?ids = "claimable_requests (veNow e) (veLocked e) (veRegion e) verifyBatchSize (requests s)"
  have "filter (confirms e s) (requests s) = filter (confirms e s) (filter (\<lambda>r. vrID r \<in> set ?ids) (requests s))"
    by (auto simp: confirms_def claims_request_def intro!: filter_cong)
  then have "length (filter (confirms e s) (requests s)) \<le> length (filter (\<lambda>r. vrID r \<in> set ?ids) (requests s))"
    by (metis length_filter_le)
  also have "\<dots> \<le> verifyBatchSize"
    unfolding claimable_requests_def by (rule claimed_rows_bound [OF assms(1)])
  finally have "length (filter (confirms e s) (requests s)) \<le> 50" by (simp add: verifyBatchSize_def)
  moreover have "enabled_monitor (veDB e) r \<noteq> None" if "confirms e s r" for r
    using that by (simp add: confirms_def claims_request_def)
  ultimately show ?thesis using batch_requests [OF assms] confirms_due [OF assms(1)] by simp
qed

text \<open>C19: no confirmation waits forever. A tick ends; unless the worker was stopped or the sweep failed, no
  request that ran out of time is left, except those another instance holds, and the quorum of every
  monitor that lost one is evaluated again, once.\<close>

theorem verify_tick_settles:
  assumes "uniq vrID (requests s)"
  shows "\<exists>stop s1 s'. drain (\<lambda>k. processBatch (env k)) verifyBatchSize stopped 0 s = Some (stop, s1)
    \<and> verify_tick env sweep stopped s = Some (stop, s')
    \<and> (stop \<or> veExpireFails sweep \<or>
        (\<forall>r \<in> set (requests s'). vrExpiresAt r \<le> veNow sweep \<longrightarrow> veLocked sweep (vrID r))
        \<and> (\<exists>ids. distinct ids
             \<and> set ids = vrMonitorID ` {r \<in> set (requests s1). expired (veNow sweep) (veLocked sweep) r}
             \<and> quorum_calls s' = quorum_calls s1 @ map EvaluateMonitorQuorum ids))"
proof -
  obtain stop s1 where d: "drain (\<lambda>k. processBatch (env k)) verifyBatchSize stopped 0 s = Some (stop, s1)"
    using verifier.returns [OF assms] by blast
  let ?ids = "dedup_loop {} [] (map vrMonitorID (filter (expired (veNow sweep) (veLocked sweep)) (requests s1)))"
  have ids: "distinct ?ids" "set ?ids = vrMonitorID ` {r \<in> set (requests s1). expired (veNow sweep) (veLocked sweep) r}"
    by (simp_all add: dedup_loop_distinct dedup_loop_set)
  show ?thesis
  proof (cases "stop \<or> veExpireFails sweep")
    case True
    then show ?thesis using d by (auto simp: verify_tick_def)
  next
    case False
    let ?s' = "s1\<lparr>requests := delete_where (expired (veNow sweep) (veLocked sweep)) (requests s1),
      quorum_calls := quorum_calls s1 @ map EvaluateMonitorQuorum ?ids\<rparr>"
    have "verify_tick env sweep stopped s = Some (stop, ?s')"
      using False d by (simp add: verify_tick_def sweepExpired_def ExpireVerificationRequests_def)
    moreover have "\<forall>r \<in> set (requests ?s'). vrExpiresAt r \<le> veNow sweep \<longrightarrow> veLocked sweep (vrID r)"
      by (auto simp: delete_where_def expired_def)
    moreover have "quorum_calls ?s' = quorum_calls s1 @ map EvaluateMonitorQuorum ?ids" by simp
    ultimately show ?thesis using d ids by blast
  qed
qed

subsection \<open>Requests of disabled monitors\<close>

lemma take_sorted_below:
  assumes "sorted (map f ys)" "x \<in> set (take n ys)"
  shows "length (filter (\<lambda>y. f y < f x) ys) < n"
proof -
  obtain i where i: "i < n" "i < length ys" "ys ! i = x" using assms(2) by (auto simp: in_set_conv_nth)
  have "\<not> f y < f x" if "y \<in> set (drop i ys)" for y
  proof -
    obtain j where "j < length ys - i" "y = ys ! (i + j)" using \<open>y \<in> set (drop i ys)\<close> by (auto simp: in_set_conv_nth)
    then show ?thesis using sorted_nth_mono [OF assms(1), of i "i + j"] i by (simp add: less_diff_conv2 linorder_not_less)
  qed
  then have "filter (\<lambda>y. f y < f x) (drop i ys) = []" by (simp add: filter_empty_conv)
  moreover have "filter (\<lambda>y. f y < f x) ys = filter (\<lambda>y. f y < f x) (take i ys) @ filter (\<lambda>y. f y < f x) (drop i ys)"
    by (metis append_take_drop_id filter_append)
  ultimately have "length (filter (\<lambda>y. f y < f x) ys) \<le> length (take i ys)" by (metis append_Nil2 length_filter_le)
  then show ?thesis using i by simp
qed

text \<open>The limit of the claim counts requests whose monitor was disabled after they were made, which the
  join then drops: when fifty of them are older than every other due request of the region, a batch
  claims nothing, and nothing is confirmed until they expire.\<close>

lemma disabled_requests_starve:
  assumes "uniq vrID (requests s)" "\<not> veClaimFails e"
  defines "due \<equiv> filter (\<lambda>r. vrRegion r = veRegion e \<and> vrClaimedAt r = None \<and> vrExpiresAt r > veNow e \<and> \<not> veLocked e (vrID r))
    (requests s)"
  assumes "50 \<le> length (filter (\<lambda>r. enabled_monitor (veDB e) r = None) due)"
    and "\<forall>r \<in> set due. \<forall>x \<in> set due. enabled_monitor (veDB e) r = None \<and> enabled_monitor (veDB e) x \<noteq> None \<longrightarrow>
      vrRequestedAt r < vrRequestedAt x"
  shows "processBatch e s = (0, s)"
proof -
  let ?ids = "claimable_requests (veNow e) (veLocked e) (veRegion e) verifyBatchSize (requests s)"
  have ids: "?ids = map vrID (take 50 (sort_key vrRequestedAt due))"
    by (simp add: claimable_requests_def claim_ids_def verifyBatchSize_def due_def conj_assoc)
  have "enabled_monitor (veDB e) x = None" if x: "x \<in> set (take 50 (sort_key vrRequestedAt due))" for x
  proof (rule ccontr)
    assume "enabled_monitor (veDB e) x \<noteq> None"
    moreover have "x \<in> set due" using x by (auto dest!: in_set_takeD)
    ultimately have "filter (\<lambda>r. enabled_monitor (veDB e) r = None) due =
        filter (\<lambda>r. enabled_monitor (veDB e) r = None) (filter (\<lambda>r. vrRequestedAt r < vrRequestedAt x) due)"
      using assms(5) by (auto intro!: filter_cong)
    then have "50 \<le> length (filter (\<lambda>r. vrRequestedAt r < vrRequestedAt x) due)"
      using assms(4) by (metis length_filter_le le_trans)
    moreover have "length (filter (\<lambda>r. vrRequestedAt r < vrRequestedAt x) (sort_key vrRequestedAt due)) < 50"
      by (rule take_sorted_below [OF _ x]) simp
    moreover have "length (filter P (sort_key f xs)) = length (filter P xs)" for P and f :: "verification_row \<Rightarrow> instant" and xs
      by (metis filter_sort length_sort)
    ultimately show False by simp
  qed
  then have "\<not> confirms e s r" if r: "r \<in> set (requests s)" for r
  proof -
    have "\<not> claims_request (veDB e) ?ids r"
    proof
      assume c: "claims_request (veDB e) ?ids r"
      then obtain x where x: "x \<in> set (take 50 (sort_key vrRequestedAt due))" "vrID x = vrID r"
        by (auto simp: claims_request_def ids)
      then have "x \<in> set (requests s)" by (auto simp: due_def dest!: in_set_takeD)
      then have "x = r" using uniq_same [OF assms(1) _ r x(2)] by simp
      then show False using c x \<open>\<And>x. x \<in> set (take 50 (sort_key vrRequestedAt due)) \<Longrightarrow> enabled_monitor (veDB e) x = None\<close>
        by (auto simp: claims_request_def)
    qed
    then show ?thesis by (simp add: confirms_def)
  qed
  then have "filter (confirms e s) (requests s) = []" "update_where (confirms e s) (claim_request (veNow e) (veRegion e)) (requests s) = requests s"
    by (simp_all add: filter_empty_conv update_where_def map_idI)
  then show ?thesis
    using assms(2) by (simp add: processBatch_def ClaimVerificationRequests_def Let_def confirms_def)
qed

subsection \<open>Witnesses\<close>

definition sample_verification :: verification_row where
  "sample_verification = \<lparr>vrID = ''v1'', vrMonitorID = ''m1'', vrRegion = ''eu-west'', vrRequestedAt = 0, vrExpiresAt = 10,
     vrClaimedAt = None, vrClaimedBy = None\<rparr>"

definition sample_requests :: verification_state where
  "sample_requests = \<lparr>requests = [sample_verification, sample_verification\<lparr>vrID := ''v2'', vrExpiresAt := 3\<rparr>], quorum_calls = []\<rparr>"

definition sample_verify_env :: verify_env where
  "sample_verify_env = \<lparr>veDB = sample_db, veNow = 5, veLocked = (\<lambda>_. False), veRegion = ''eu-west'',
     veImpl = (\<lambda>_ _ _. \<lparr>ckStatus = UP, ckLatency = 9, ckStatusCode = None, ckMessage = []\<rparr>), veClaimFails = False,
     veRecordFails = (\<lambda>_. False), veCompleteFails = (\<lambda>_. False), veExpireFails = False\<rparr>"

lemma sample_requests_uniq: "uniq vrID (requests sample_requests)"
  by (simp add: uniq_def sample_requests_def sample_verification_def)

theorem confirmation_batch_witness:
  "map vrID (requests (snd (processBatch sample_verify_env sample_requests))) = [''v2'']"
proof -
  have c: "confirms sample_verify_env sample_requests sample_verification"
      "\<not> confirms sample_verify_env sample_requests (sample_verification\<lparr>vrID := ''v2'', vrExpiresAt := 3\<rparr>)"
    by (simp_all add: confirms_def claims_request_def claimable_requests_def claim_ids_def sample_verify_env_def
        sample_requests_def sample_verification_def verifyBatchSize_def enabled_monitor_def sample_db_def sample_monitor_def)
  have a: "answered sample_verify_env q" for q by (simp add: answered_def sample_verify_env_def)
  have "\<not> veClaimFails sample_verify_env" by (simp add: sample_verify_env_def)
  from confirmation_batch [OF sample_requests_uniq this] c a show ?thesis
    by (simp add: sample_requests_def)
qed

theorem verify_tick_settles_witness:
  "\<exists>stop s'. verify_tick (\<lambda>_. sample_verify_env) sample_verify_env (\<lambda>_. False) sample_requests = Some (stop, s')"
  using verify_tick_settles [OF sample_requests_uniq, of "\<lambda>_. sample_verify_env" "\<lambda>_. False" sample_verify_env] by blast

end
