(* ===== verification/RateLimit.thy ===== *)
theory RateLimit
  imports Prelude
begin

section \<open>Rate limiting\<close>

text \<open>
  \<^verbatim>\<open>internal/api/middleware/ratelimit.go\<close>: a fixed window per client address, counted in memory or by a
  Redis script. Both are instances of one contract, the locale \<open>fixed_window\<close>, in which the guarantee
  is proved once: however the requests of all clients interleave, no client gets more than twice the
  limit in any stretch of one window's length, and a client is refused only after using up the limit
  within it. A call reads the clock once.
\<close>

subsection \<open>Fixed windows\<close>

text \<open>The answers to a sequence of requests.\<close>

primrec serve :: "(instant \<Rightarrow> string \<Rightarrow> 's \<Rightarrow> bool \<times> 's) \<Rightarrow> (instant \<times> string) list \<Rightarrow> 's \<Rightarrow> (instant \<times> string \<times> bool) list" where
  "serve ask [] s = []"
| "serve ask (e # es) s = (case ask (fst e) (snd e) s of (a, s') \<Rightarrow> (fst e, snd e, a) # serve ask es s')"

definition granted :: "string \<Rightarrow> (instant \<times> string \<times> bool) list \<Rightarrow> instant list" where
  "granted ip answers = map fst (filter (\<lambda>(_, i, a). i = ip \<and> a) answers)"

definition in_span :: "instant \<Rightarrow> instant \<Rightarrow> instant list \<Rightarrow> nat" where
  "in_span a b ts = length (filter (\<lambda>t. a \<le> t \<and> t \<le> b) ts)"

lemma length_filter_filter: "length (filter P (filter Q xs)) \<le> length (filter P xs)"
  by (induction xs) auto

text \<open>\<open>view t ip s\<close> is the window of \<open>ip\<close> open at time \<open>t\<close>, with its count and its start.\<close>

locale fixed_window =
  fixes ask :: "instant \<Rightarrow> string \<Rightarrow> 's \<Rightarrow> bool \<times> 's"
    and view :: "instant \<Rightarrow> string \<Rightarrow> 's \<Rightarrow> (int \<times> instant) option"
    and limit :: int
    and width :: duration
  assumes limit: "1 \<le> limit"
    and width: "0 \<le> width"
    and fresh: "view now ip s = None \<Longrightarrow> fst (ask now ip s) \<and> view now ip (snd (ask now ip s)) = Some (1, now)"
    and counted: "view now ip s = Some (c, s0) \<Longrightarrow> c < limit \<Longrightarrow>
       fst (ask now ip s) \<and> view now ip (snd (ask now ip s)) = Some (c + 1, s0)"
    and exhausted: "view now ip s = Some (c, s0) \<Longrightarrow> limit \<le> c \<Longrightarrow>
       \<not> fst (ask now ip s) \<and> (\<exists>c' \<ge> c. view now ip (snd (ask now ip s)) = Some (c', s0))"
    and others: "ip' \<noteq> ip \<Longrightarrow> view now ip' (snd (ask now ip s)) = view now ip' s"
    and decay: "t \<le> t' \<Longrightarrow> view t' ip s =
       (case view t ip s of None \<Rightarrow> None | Some (c, s0) \<Rightarrow> if t' \<le> s0 + width then Some (c, s0) else None)"
begin

text \<open>The granted requests of a client, each with the start of the window that granted it.\<close>

definition well_spaced :: "(instant \<times> instant) list \<Rightarrow> bool" where
  "well_spaced g \<longleftrightarrow> (\<forall>(t, s) \<in> set g. s \<le> t \<and> t \<le> s + width)
     \<and> (\<forall>s. int (length (filter (\<lambda>(_, x). x = s) g)) \<le> limit)
     \<and> (\<forall>s \<in> snd ` set g. \<forall>s' \<in> snd ` set g. s = s' \<or> s + width < s' \<or> s' + width < s)"

definition tracks :: "string \<Rightarrow> instant \<Rightarrow> (instant \<times> instant) list \<Rightarrow> 's \<Rightarrow> bool" where
  "tracks ip now g st \<longleftrightarrow> well_spaced g \<and> (\<forall>t \<in> fst ` set g. t \<le> now) \<and>
     (case view now ip st of
        None \<Rightarrow> (\<forall>s \<in> snd ` set g. s + width < now)
      | Some (c, s0) \<Rightarrow> s0 \<le> now \<and> now \<le> s0 + width \<and> 1 \<le> c
          \<and> int (length (filter (\<lambda>(_, x). x = s0) g)) = min c limit
          \<and> (\<forall>s \<in> snd ` set g. s = s0 \<or> s + width < s0))"

lemma tracks_later:
  assumes "tracks ip now g st" "now \<le> t"
  shows "tracks ip t g st"
proof (cases "view now ip st")
  case None
  then show ?thesis using assms decay [OF assms(2), of ip st] by (force simp: tracks_def)
next
  case (Some b)
  obtain c s0 where b: "b = (c, s0)" by force
  have v: "view t ip st = (if t \<le> s0 + width then Some (c, s0) else None)"
    using decay [OF assms(2), of ip st] Some b by simp
  have i: "well_spaced g" "\<forall>t \<in> fst ` set g. t \<le> t" "s0 \<le> now" "1 \<le> c"
      "int (length (filter (\<lambda>(_, x). x = s0) g)) = min c limit" "\<forall>s \<in> snd ` set g. s = s0 \<or> s + width < s0"
      "\<forall>x \<in> fst ` set g. x \<le> now"
    using assms(1) Some b by (auto simp: tracks_def)
  have "\<forall>x \<in> fst ` set g. x \<le> t" using i(7) assms(2) by force
  moreover have "\<forall>s \<in> snd ` set g. s + width < t" if "\<not> t \<le> s0 + width" using i(6) that width by force
  ultimately show ?thesis using v i assms(2) by (auto simp: tracks_def)
qed

lemma step_other: "tracks ip now g st \<Longrightarrow> ip' \<noteq> ip \<Longrightarrow> tracks ip now g (snd (ask now ip' st))"
  using others [of ip ip' now st] by (simp add: tracks_def)

lemma step_granted:
  assumes "tracks ip now g st" "fst (ask now ip st)"
  shows "\<exists>s. tracks ip now (g @ [(now, s)]) (snd (ask now ip st))"
proof (cases "view now ip st")
  case None
  have i: "well_spaced g" "\<forall>t \<in> fst ` set g. t \<le> now" "\<forall>s \<in> snd ` set g. s + width < now"
    using assms(1) None by (auto simp: tracks_def)
  have z: "filter (\<lambda>(_, x). x = now) g = []" using i(3) width by (force simp: filter_empty_conv)
  have "well_spaced (g @ [(now, now)])" using i z limit width by (auto simp: well_spaced_def)
  then have "tracks ip now (g @ [(now, now)]) (snd (ask now ip st))"
    using fresh [OF None] i z limit width by (auto simp: tracks_def)
  then show ?thesis ..
next
  case (Some b)
  obtain c s0 where b: "b = (c, s0)" by force
  have c: "c < limit" using exhausted [of now ip st c s0] assms(2) Some b by force
  have i: "well_spaced g" "\<forall>t \<in> fst ` set g. t \<le> now" "s0 \<le> now" "now \<le> s0 + width" "1 \<le> c"
      "int (length (filter (\<lambda>(_, x). x = s0) g)) = c" "\<forall>s \<in> snd ` set g. s = s0 \<or> s + width < s0"
    using assms(1) Some b c by (auto simp: tracks_def min_def)
  have "well_spaced (g @ [(now, s0)])"
    using i c by (auto simp: well_spaced_def)
  then have "tracks ip now (g @ [(now, s0)]) (snd (ask now ip st))"
    using counted [OF Some [unfolded b] c] i c by (auto simp: tracks_def)
  then show ?thesis ..
qed

lemma step_refused:
  assumes "tracks ip now g st" "\<not> fst (ask now ip st)"
  shows "tracks ip now g (snd (ask now ip st)) \<and> limit \<le> int (in_span (now - width) now (map fst g))"
proof -
  obtain c s0 where v: "view now ip st = Some (c, s0)" "limit \<le> c"
    using assms(2) fresh [of now ip st] counted [of now ip st] by (cases "view now ip st") (force simp: not_less [symmetric])+
  have i: "well_spaced g" "\<forall>t \<in> fst ` set g. t \<le> now" "s0 \<le> now" "now \<le> s0 + width" "1 \<le> c"
      "int (length (filter (\<lambda>(_, x). x = s0) g)) = limit" "\<forall>s \<in> snd ` set g. s = s0 \<or> s + width < s0"
    using assms(1) v by (auto simp: tracks_def min_def)
  obtain c' where c': "c \<le> c'" "view now ip (snd (ask now ip st)) = Some (c', s0)" using exhausted [OF v] by blast
  have "tracks ip now g (snd (ask now ip st))" using i c' v(2) by (auto simp: tracks_def min_def)
  moreover have "length (filter (\<lambda>(_, x). x = s0) g) \<le> in_span (now - width) now (map fst g)"
  proof -
    have "filter (\<lambda>(_, x). x = s0) g = filter (\<lambda>(_, x). x = s0) (filter (\<lambda>(t, _). now - width \<le> t \<and> t \<le> now) g)"
      using i(1,2,4) by (auto simp: well_spaced_def intro!: filter_cong)
    then have "length (filter (\<lambda>(_, x). x = s0) g) \<le> length (filter (\<lambda>(t, _). now - width \<le> t \<and> t \<le> now) g)"
      by (metis length_filter_le)
    then show ?thesis by (simp add: in_span_def filter_map o_def case_prod_beta')
  qed
  ultimately show ?thesis using i(6) by linarith
qed

lemma at_most_two:
  assumes "finite S" "S \<subseteq> {a .. a + 2 * width}" "\<forall>s \<in> S. \<forall>s' \<in> S. s = s' \<or> s + width < s' \<or> s' + width < (s :: int)"
  shows "card S \<le> 2"
proof (rule ccontr)
  assume "\<not> card S \<le> 2"
  then obtain T where T: "T \<subseteq> S" "card T = 3" using obtain_subset_with_card_n [of 3 S] by force
  then obtain x y z where "T = {x, y, z}" "x \<noteq> y" "y \<noteq> z" "x \<noteq> z" by (auto simp: card_3_iff)
  then have m: "x \<in> S" "y \<in> S" "z \<in> S" using T(1) by auto
  then have "a \<le> x" "a \<le> y" "a \<le> z" "x \<le> a + 2 * width" "y \<le> a + 2 * width" "z \<le> a + 2 * width" using assms(2) by force+
  moreover have "x + width < y \<or> y + width < x" "y + width < z \<or> z + width < y" "x + width < z \<or> z + width < x"
    using assms(3) m \<open>x \<noteq> y\<close> \<open>y \<noteq> z\<close> \<open>x \<noteq> z\<close> by blast+
  ultimately show False using width by (elim disjE) linarith+
qed

lemma length_by_start:
  assumes "finite S" "snd ` set h \<subseteq> S" "\<forall>s. int (length (filter (\<lambda>(_, x). x = s) h)) \<le> limit"
  shows "int (length h) \<le> int (card S) * limit"
  using assms
proof (induction S arbitrary: h rule: finite_induct)
  case (insert s S)
  let ?r = "filter (\<lambda>(_, x). x \<noteq> s) h"
  have "snd ` set ?r \<subseteq> S" using insert.prems(1) by auto
  moreover have "int (length (filter (\<lambda>(_, x). x = s') ?r)) \<le> limit" for s'
  proof -
    have "length (filter (\<lambda>(_, x). x = s') ?r) \<le> length (filter (\<lambda>(_, x). x = s') h)"
      by (rule length_filter_filter)
    moreover have "int (length (filter (\<lambda>(_, x). x = s') h)) \<le> limit" using insert.prems(2) by blast
    ultimately show ?thesis by linarith
  qed
  ultimately have "int (length ?r) \<le> int (card S) * limit" using insert.IH by blast
  moreover have "length (filter (\<lambda>(_, x). x = s) h) + length ?r = length h"
    using sum_length_filter_compl [of "\<lambda>(_, x). x = s" h] by (simp add: case_prod_unfold)
  moreover have "int (length (filter (\<lambda>(_, x). x = s) h)) \<le> limit" using insert.prems(2) by blast
  moreover have "int (card (insert s S)) * limit = int (card S) * limit + limit" using insert.hyps by (simp add: distrib_right)
  ultimately show ?case by linarith
qed simp

lemma span_bound:
  assumes "well_spaced g"
  shows "int (in_span T (T + width) (map fst g)) \<le> 2 * limit"
proof -
  let ?h = "filter (\<lambda>(t, _). T \<le> t \<and> t \<le> T + width) g"
  let ?S = "snd ` set ?h"
  have "?S \<subseteq> {T - width .. T - width + 2 * width}" using assms by (force simp: well_spaced_def)
  moreover have "\<forall>s \<in> ?S. \<forall>s' \<in> ?S. s = s' \<or> s + width < s' \<or> s' + width < s"
    using assms unfolding well_spaced_def by (metis (no_types, lifting) filter_is_subset image_mono in_mono)
  ultimately have S: "card ?S \<le> 2" by (intro at_most_two [of ?S "T - width"]) auto
  have "int (length (filter (\<lambda>(_, x). x = s) ?h)) \<le> limit" for s
  proof -
    have "length (filter (\<lambda>(_, x). x = s) ?h) \<le> length (filter (\<lambda>(_, x). x = s) g)"
      by (rule length_filter_filter)
    moreover have "int (length (filter (\<lambda>(_, x). x = s) g)) \<le> limit" using assms by (simp add: well_spaced_def)
    ultimately show ?thesis by linarith
  qed
  then have "int (length ?h) \<le> int (card ?S) * limit" by (intro length_by_start) auto
  also have "\<dots> \<le> 2 * limit" using S limit by (intro mult_right_mono) auto
  finally show ?thesis by (simp add: in_span_def filter_map o_def case_prod_beta')
qed

lemma serve_tracks:
  assumes "tracks ip now g st" "sorted (now # map fst es)"
  shows "\<exists>g'. well_spaced (g @ g') \<and> map fst g' = granted ip (serve ask es st)
    \<and> (\<forall>t. (t, ip, False) \<in> set (serve ask es st) \<longrightarrow> limit \<le> int (in_span (t - width) t (map fst (g @ g'))))"
  using assms
proof (induction es arbitrary: now g st)
  case Nil
  then show ?case by (auto simp: tracks_def granted_def)
next
  case (Cons e es)
  obtain t i where e: "e = (t, i)" by force
  obtain a st' where a: "ask t i st = (a, st')" by force
  have so: "sorted (t # map fst es)" "now \<le> t" using Cons.prems(2) e by simp_all
  have tr: "tracks ip t g st" by (rule tracks_later [OF Cons.prems(1) so(2)])
  have mono: "in_span x y (map fst g) \<le> in_span x y (map fst (g @ h))" for x y h by (simp add: in_span_def)
  show ?case
  proof (cases "i = ip \<and> a")
    case True
    then obtain s where "tracks ip t (g @ [(t, s)]) st'" using step_granted [OF tr] a by auto
    from Cons.IH [OF this so(1)] obtain g' where "well_spaced (g @ (t, s) # g')" "map fst g' = granted ip (serve ask es st')"
        "\<forall>x. (x, ip, False) \<in> set (serve ask es st') \<longrightarrow> limit \<le> int (in_span (x - width) x (map fst (g @ (t, s) # g')))"
      by auto
    then show ?thesis using True a e by (intro exI [of _ "(t, s) # g'"]) (auto simp: granted_def)
  next
    case False
    have "tracks ip t g st'" "i = ip \<longrightarrow> limit \<le> int (in_span (t - width) t (map fst g))"
      using False step_refused [OF tr] step_other [OF tr, of i] a by (cases "i = ip", auto)+
    moreover from Cons.IH [OF this(1) so(1)] obtain g' where "well_spaced (g @ g')" "map fst g' = granted ip (serve ask es st')"
        "\<forall>x. (x, ip, False) \<in> set (serve ask es st') \<longrightarrow> limit \<le> int (in_span (x - width) x (map fst (g @ g')))"
      by auto
    ultimately show ?thesis
      using False a e mono [of "t - width" t g'] by (intro exI [of _ g']) (auto simp: granted_def)
  qed
qed

lemma guarantee:
  assumes "view t0 ip st = None" "sorted (t0 # map fst es)"
  shows "int (in_span T (T + width) (granted ip (serve ask es st))) \<le> 2 * limit"
    and "(t, ip, False) \<in> set (serve ask es st) \<Longrightarrow> limit \<le> int (in_span (t - width) t (granted ip (serve ask es st)))"
proof -
  have "tracks ip t0 [] st" using assms(1) limit by (simp add: tracks_def well_spaced_def)
  from serve_tracks [OF this assms(2)] obtain g where g: "well_spaced g" "map fst g = granted ip (serve ask es st)"
      "\<forall>t. (t, ip, False) \<in> set (serve ask es st) \<longrightarrow> limit \<le> int (in_span (t - width) t (map fst g))" by auto
  show "int (in_span T (T + width) (granted ip (serve ask es st))) \<le> 2 * limit" using span_bound [OF g(1)] g(2) by simp
  show "(t, ip, False) \<in> set (serve ask es st) \<Longrightarrow> limit \<le> int (in_span (t - width) t (granted ip (serve ask es st)))"
    using g(2,3) by simp
qed

end

subsection \<open>The limiter\<close>

text \<open>The constant part of a \<^verbatim>\<open>rateLimiter\<close> and the part its mutex protects. A bucket is its count and
  the start of its window.\<close>

record limiter =
  rlName :: string
  rlLimit :: int
  rlWindow :: duration

record limiter_state =
  rlBuckets :: "string \<rightharpoonup> int \<times> instant"
  rlLastClean :: instant

record limit_result =
  lrAllowed :: bool
  lrLimit :: int
  lrRemaining :: int
  lrResetAfter :: duration

definition newRateLimiter :: "instant \<Rightarrow> string \<Rightarrow> int \<Rightarrow> duration \<Rightarrow> limiter \<times> limiter_state" where
  "newRateLimiter now name budget win =
     (\<lparr>rlName = name, rlLimit = budget, rlWindow = win\<rparr>, \<lparr>rlBuckets = (\<lambda>_. None), rlLastClean = now\<rparr>)"

definition remaining :: "int \<Rightarrow> int \<Rightarrow> int" where
  "remaining budget count = (if budget - count > 0 then budget - count else 0)"

definition clean :: "limiter \<Rightarrow> instant \<Rightarrow> limiter_state \<Rightarrow> limiter_state" where
  "clean r now st =
     (if time_sub now (rlLastClean st) > 300 * second
      then \<lparr>rlBuckets = (\<lambda>k. case rlBuckets st k of None \<Rightarrow> None
              | Some (c, start) \<Rightarrow> if time_sub now start > rlWindow r then None else Some (c, start)),
            rlLastClean = now\<rparr>
      else st)"

definition allowMemory :: "limiter \<Rightarrow> instant \<Rightarrow> string \<Rightarrow> limiter_state \<Rightarrow> limit_result \<times> limiter_state" where
  "allowMemory r now ip st0 =
     (let st = clean r now st0;
          new = (\<lparr>lrAllowed = True, lrLimit = rlLimit r, lrRemaining = remaining (rlLimit r) 1, lrResetAfter = rlWindow r\<rparr>,
                 st\<lparr>rlBuckets := (rlBuckets st)(ip \<mapsto> (1, now))\<rparr>)
      in case rlBuckets st ip of
           None \<Rightarrow> new
         | Some (count, start) \<Rightarrow>
             if time_sub now start > rlWindow r then new
             else (let reset = rlWindow r - time_sub now start in
                   if count \<ge> rlLimit r
                   then (\<lparr>lrAllowed = False, lrLimit = rlLimit r, lrRemaining = 0, lrResetAfter = reset\<rparr>, st)
                   else (\<lparr>lrAllowed = True, lrLimit = rlLimit r, lrRemaining = remaining (rlLimit r) (count + 1), lrResetAfter = reset\<rparr>,
                         st\<lparr>rlBuckets := (rlBuckets st)(ip \<mapsto> (count + 1, start))\<rparr>)))"

text \<open>The Redis database: a counter and the millisecond at which its key expires. A key lives through
  that millisecond; an expiry that is not in the future deletes the key.\<close>

type_synonym redis = "string \<rightharpoonup> int \<times> int"

definition redis_get :: "int \<Rightarrow> string \<Rightarrow> redis \<Rightarrow> (int \<times> int) option" where
  "redis_get now k rdb = (case rdb k of None \<Rightarrow> None | Some (c, expiry) \<Rightarrow> if now > expiry then None else Some (c, expiry))"

definition fixedWindowScript :: "int \<Rightarrow> string \<Rightarrow> int \<Rightarrow> redis \<Rightarrow> (int \<times> int) \<times> redis" where
  "fixedWindowScript now k ms rdb =
     (case redis_get now k rdb of
        None \<Rightarrow> if ms \<le> 0 then ((1, - 2), rdb(k := None)) else ((1, ms), rdb(k \<mapsto> (1, now + ms)))
      | Some (c, expiry) \<Rightarrow> ((c + 1, expiry - now), rdb(k \<mapsto> (c + 1, expiry))))"

definition limiter_key :: "limiter \<Rightarrow> string \<Rightarrow> string" where
  "limiter_key r ip = ''ratelimit:'' @ rlName r @ '':'' @ ip"

definition allowRedis :: "limiter \<Rightarrow> int \<Rightarrow> string \<Rightarrow> redis \<Rightarrow> limit_result \<times> redis" where
  "allowRedis r now ip rdb =
     (case fixedWindowScript now (limiter_key r ip) (rlWindow r div 1000000) rdb of
        ((count, ttl), rdb') \<Rightarrow>
          (\<lparr>lrAllowed = (count \<le> rlLimit r), lrLimit = rlLimit r, lrRemaining = remaining (rlLimit r) count,
            lrResetAfter = (if ttl > 0 then ttl * 1000000 else rlWindow r)\<rparr>, rdb'))"

text \<open>\<^verbatim>\<open>allow\<close>: with a Redis client its answer, or an open door when it fails (\<open>err\<close>); in memory
  otherwise.\<close>

record limiter_backend =
  lbMemory :: limiter_state
  lbRedis :: redis

definition allow :: "bool \<Rightarrow> bool \<Rightarrow> limiter \<Rightarrow> instant \<Rightarrow> string \<Rightarrow> limiter_backend \<Rightarrow> limit_result \<times> limiter_backend" where
  "allow client err r now ip b =
     (if client then
        (if err then (\<lparr>lrAllowed = True, lrLimit = rlLimit r, lrRemaining = rlLimit r, lrResetAfter = rlWindow r\<rparr>, b)
         else (case allowRedis r (now div 1000000) ip (lbRedis b) of (res, rdb) \<Rightarrow> (res, b\<lparr>lbRedis := rdb\<rparr>)))
      else (case allowMemory r now ip (lbMemory b) of (res, st) \<Rightarrow> (res, b\<lparr>lbMemory := st\<rparr>)))"

definition InitRateLimiters :: "limiter \<times> limiter \<Rightarrow> int \<Rightarrow> int \<Rightarrow> duration \<Rightarrow> limiter \<times> limiter" where
  "InitRateLimiters current defaultPerMin strictPerMin win =
     (let w = (if win \<le> 0 then 60 * second else win) in
      (if defaultPerMin > 0 then \<lparr>rlName = ''default'', rlLimit = defaultPerMin, rlWindow = w\<rparr> else fst current,
       if strictPerMin > 0 then \<lparr>rlName = ''strict'', rlLimit = strictPerMin, rlWindow = w\<rparr> else snd current))"

definition defaultLimiter :: limiter where
  "defaultLimiter = \<lparr>rlName = ''default'', rlLimit = 300, rlWindow = 60 * second\<rparr>"

definition strictLimiter :: limiter where
  "strictLimiter = \<lparr>rlName = ''strict'', rlLimit = 30, rlWindow = 60 * second\<rparr>"

text \<open>\<^verbatim>\<open>setRateLimitHeaders\<close> and \<^verbatim>\<open>enforce\<close>: the three headers, and a refusal with its \<^verbatim>\<open>Retry-After\<close>.\<close>

definition ceil_seconds :: "duration \<Rightarrow> int" where
  "ceil_seconds d = \<lceil>rat_of_int d / rat_of_int second\<rceil>"

record limit_headers =
  hLimit :: int
  hRemaining :: int
  hReset :: int

definition setRateLimitHeaders :: "limit_result \<Rightarrow> limit_headers" where
  "setRateLimitHeaders res = \<lparr>hLimit = lrLimit res, hRemaining = lrRemaining res, hReset = ceil_seconds (lrResetAfter res)\<rparr>"

definition enforce ::
    "bool \<Rightarrow> bool \<Rightarrow> limiter \<Rightarrow> instant \<Rightarrow> string \<Rightarrow> limiter_backend \<Rightarrow> (limit_headers \<times> int option) \<times> limiter_backend" where
  "enforce client err r now ip b =
     (case allow client err r now ip b of (res, b') \<Rightarrow>
        ((setRateLimitHeaders res,
          if lrAllowed res then None
          else Some (let retry = ceil_seconds (lrResetAfter res) in if retry < 1 then 1 else retry)), b'))"

subsection \<open>Both counters keep the contract\<close>

definition mem_view :: "limiter \<Rightarrow> instant \<Rightarrow> string \<Rightarrow> limiter_state \<Rightarrow> (int \<times> instant) option" where
  "mem_view r t ip st = (case rlBuckets st ip of
     None \<Rightarrow> None | Some (c, s) \<Rightarrow> if t \<le> s + rlWindow r then Some (c, s) else None)"

definition redis_view :: "limiter \<Rightarrow> instant \<Rightarrow> string \<Rightarrow> redis \<Rightarrow> (int \<times> instant) option" where
  "redis_view r t ip rdb = (case redis_get t (limiter_key r ip) rdb of
     None \<Rightarrow> None | Some (c, e) \<Rightarrow> Some (c, e - rlWindow r div 1000000))"

definition ask_memory :: "limiter \<Rightarrow> instant \<Rightarrow> string \<Rightarrow> limiter_state \<Rightarrow> bool \<times> limiter_state" where
  "ask_memory r now ip st = (lrAllowed (fst (allowMemory r now ip st)), snd (allowMemory r now ip st))"

definition ask_redis :: "limiter \<Rightarrow> instant \<Rightarrow> string \<Rightarrow> redis \<Rightarrow> bool \<times> redis" where
  "ask_redis r now ip rdb = (lrAllowed (fst (allowRedis r now ip rdb)), snd (allowRedis r now ip rdb))"

lemma time_sub_gt: "0 \<le> w \<Longrightarrow> w < max_duration \<Longrightarrow> time_sub t u > w \<longleftrightarrow> t > u + w"
  by (auto simp: time_sub_def min_duration_def max_duration_def)

locale limiter_cfg =
  fixes r :: limiter
  assumes budget: "1 \<le> rlLimit r"
    and millisecond: "1000000 \<le> rlWindow r"
    and no_saturation: "rlWindow r < max_duration"
begin

lemma stale: "time_sub t u > rlWindow r \<longleftrightarrow> t > u + rlWindow r"
  using millisecond no_saturation by (intro time_sub_gt) simp_all

lemma clean_view [simp]: "mem_view r now ip (clean r now st) = mem_view r now ip st"
  by (auto simp: mem_view_def clean_def stale split: option.split)

lemma memory_answer:
  "ask_memory r now ip st = (case mem_view r now ip st of
     None \<Rightarrow> (True, (clean r now st)\<lparr>rlBuckets := (rlBuckets (clean r now st))(ip \<mapsto> (1, now))\<rparr>)
   | Some (c, s) \<Rightarrow> if rlLimit r \<le> c then (False, clean r now st)
       else (True, (clean r now st)\<lparr>rlBuckets := (rlBuckets (clean r now st))(ip \<mapsto> (c + 1, s))\<rparr>))"
proof -
  have "mem_view r now ip st = mem_view r now ip (clean r now st)" by simp
  then show ?thesis
    unfolding ask_memory_def allowMemory_def Let_def
    by (simp add: mem_view_def stale split: option.split)
qed

end

sublocale limiter_cfg \<subseteq> memory: fixed_window "ask_memory r" "mem_view r" "rlLimit r" "rlWindow r"
proof
  fix now ip ip' st c s0 t t'
  show "1 \<le> rlLimit r" "0 \<le> rlWindow r" using budget millisecond by simp_all
  show "mem_view r now ip st = None \<Longrightarrow> fst (ask_memory r now ip st) \<and> mem_view r now ip (snd (ask_memory r now ip st)) = Some (1, now)"
    using millisecond by (simp add: memory_answer) (simp add: mem_view_def)
  show "fst (ask_memory r now ip st) \<and> mem_view r now ip (snd (ask_memory r now ip st)) = Some (c + 1, s0)"
    if "mem_view r now ip st = Some (c, s0)" "c < rlLimit r"
    using that by (simp add: memory_answer) (auto simp: mem_view_def split: option.splits if_splits)
  show "\<not> fst (ask_memory r now ip st) \<and> (\<exists>c' \<ge> c. mem_view r now ip (snd (ask_memory r now ip st)) = Some (c', s0))"
    if "mem_view r now ip st = Some (c, s0)" "rlLimit r \<le> c"
    using that by (auto simp: memory_answer)
  show "mem_view r now ip' (snd (ask_memory r now ip st)) = mem_view r now ip' st" if "ip' \<noteq> ip"
  proof -
    have "mem_view r now ip' (st1\<lparr>rlBuckets := (rlBuckets st1)(ip \<mapsto> b)\<rparr>) = mem_view r now ip' st1" for b and st1 :: limiter_state
      using that by (simp add: mem_view_def)
    then show ?thesis by (simp add: memory_answer split: option.split)
  qed
  show "mem_view r t' ip st = (case mem_view r t ip st of None \<Rightarrow> None
      | Some (c, s0) \<Rightarrow> if t' \<le> s0 + rlWindow r then Some (c, s0) else None)" if "t \<le> t'"
    using that by (auto simp: mem_view_def split: option.split)
qed

sublocale limiter_cfg \<subseteq> redis: fixed_window "ask_redis r" "redis_view r" "rlLimit r" "rlWindow r div 1000000"
proof
  fix now ip ip' rdb c s0 t t'
  have w: "1 \<le> rlWindow r div 1000000" using millisecond by simp
  have k: "limiter_key r ip' = limiter_key r ip \<longleftrightarrow> ip' = ip" by (simp add: limiter_key_def)
  show "1 \<le> rlLimit r" "0 \<le> rlWindow r div 1000000" using budget w by simp_all
  show "fst (ask_redis r now ip rdb) \<and> redis_view r now ip (snd (ask_redis r now ip rdb)) = Some (1, now)"
    if "redis_view r now ip rdb = None"
    using that w budget by (auto simp: ask_redis_def allowRedis_def fixedWindowScript_def redis_view_def redis_get_def split: option.splits if_splits)
  show "fst (ask_redis r now ip rdb) \<and> redis_view r now ip (snd (ask_redis r now ip rdb)) = Some (c + 1, s0)"
    if "redis_view r now ip rdb = Some (c, s0)" "c < rlLimit r"
    using that by (auto simp: ask_redis_def allowRedis_def fixedWindowScript_def redis_view_def redis_get_def split: option.splits if_splits)
  show "\<not> fst (ask_redis r now ip rdb) \<and> (\<exists>c' \<ge> c. redis_view r now ip (snd (ask_redis r now ip rdb)) = Some (c', s0))"
    if "redis_view r now ip rdb = Some (c, s0)" "rlLimit r \<le> c"
    using that by (auto simp: ask_redis_def allowRedis_def fixedWindowScript_def redis_view_def redis_get_def split: option.splits if_splits)
  show "redis_view r now ip' (snd (ask_redis r now ip rdb)) = redis_view r now ip' rdb" if "ip' \<noteq> ip"
    using that k by (auto simp: ask_redis_def allowRedis_def fixedWindowScript_def redis_view_def redis_get_def split: option.splits if_splits)
  show "redis_view r t' ip rdb = (case redis_view r t ip rdb of None \<Rightarrow> None
      | Some (c, s0) \<Rightarrow> if t' \<le> s0 + rlWindow r div 1000000 then Some (c, s0) else None)" if "t \<le> t'"
    using that by (auto simp: redis_view_def redis_get_def split: option.split)
qed

context limiter_cfg
begin

lemmas memory_guarantee = memory.guarantee
lemmas redis_guarantee = redis.guarantee

end

interpretation default_limiter: limiter_cfg defaultLimiter
  by unfold_locales (simp_all add: defaultLimiter_def max_duration_def)

interpretation strict_limiter: limiter_cfg strictLimiter
  by unfold_locales (simp_all add: strictLimiter_def max_duration_def)

lemma init_limiters:
  assumes "r \<in> {fst (InitRateLimiters (defaultLimiter, strictLimiter) n m win), snd (InitRateLimiters (defaultLimiter, strictLimiter) n m win)}"
    and "win < max_duration" "win \<le> 0 \<or> 1000000 \<le> win"
  shows "limiter_cfg r"
  using assms
  by (auto simp: limiter_cfg_def InitRateLimiters_def defaultLimiter_def strictLimiter_def max_duration_def Let_def split: if_splits)

text \<open>C15: the configured limiters hold, whichever counter backs them. However the requests of all
  clients interleave, a client is granted at most twice the budget in any stretch of one window's
  length, and it is refused only when the window before the refusal already granted it the budget.
  This holds for every configuration \<^verbatim>\<open>InitRateLimiters\<close> can produce with a window of a millisecond
  or more.\<close>

theorem limiter_guarantee:
  fixes ip :: string
  assumes "r \<in> {fst (InitRateLimiters (defaultLimiter, strictLimiter) n m win), snd (InitRateLimiters (defaultLimiter, strictLimiter) n m win)}"
    and "win < max_duration" "win \<le> 0 \<or> 1000000 \<le> win"
    and "sorted (t0 # map fst es)"
  defines "mem \<equiv> granted ip (serve (ask_memory r) es (snd (newRateLimiter t0 (rlName r) (rlLimit r) (rlWindow r))))"
    and "red \<equiv> granted ip (serve (ask_redis r) es (\<lambda>_. None))"
    and "ms \<equiv> rlWindow r div 1000000"
  shows "int (in_span T (T + rlWindow r) mem) \<le> 2 * rlLimit r
    \<and> ((t, ip, False) \<in> set (serve (ask_memory r) es (snd (newRateLimiter t0 (rlName r) (rlLimit r) (rlWindow r))))
         \<longrightarrow> rlLimit r \<le> int (in_span (t - rlWindow r) t mem))
    \<and> int (in_span T (T + ms) red) \<le> 2 * rlLimit r
    \<and> ((t, ip, False) \<in> set (serve (ask_redis r) es (\<lambda>_. None)) \<longrightarrow> rlLimit r \<le> int (in_span (t - ms) t red))"
proof -
  have c: "limiter_cfg r" by (rule init_limiters [OF assms(1-3)])
  have m: "mem_view r t0 ip (snd (newRateLimiter t0 (rlName r) (rlLimit r) (rlWindow r))) = None"
    by (simp add: mem_view_def newRateLimiter_def)
  have e: "redis_view r t0 ip (\<lambda>_. None) = None" by (simp add: redis_view_def redis_get_def)
  show ?thesis
    using limiter_cfg.memory_guarantee [OF c m assms(4)] limiter_cfg.redis_guarantee [OF c e assms(4)]
    by (simp add: mem_def red_def ms_def)
qed

theorem limiter_guarantee_witness:
  "int (in_span 0 (0 + rlWindow defaultLimiter) (granted ''10.1.1.1'' (serve (ask_memory defaultLimiter)
     [(5, ''10.1.1.1''), (5, ''10.1.1.2''), (6, ''10.1.1.1'')]
     (snd (newRateLimiter 0 (rlName defaultLimiter) (rlLimit defaultLimiter) (rlWindow defaultLimiter)))))) \<le> 600"
proof -
  have "defaultLimiter \<in> {fst (InitRateLimiters (defaultLimiter, strictLimiter) 0 0 0), snd (InitRateLimiters (defaultLimiter, strictLimiter) 0 0 0)}"
    "(0 :: int) < max_duration" "(0 :: int) \<le> 0 \<or> 1000000 \<le> (0 :: int)"
    "sorted (0 # map fst [(5 :: int, ''10.1.1.1''), (5, ''10.1.1.2''), (6, ''10.1.1.1'')])"
    by (simp_all add: InitRateLimiters_def max_duration_def)
  from limiter_guarantee [OF this, of 0 "''10.1.1.1''"] show ?thesis by (simp add: defaultLimiter_def)
qed

end
