(* ===== verification/Civil.thy ===== *)
theory Civil
  imports Prelude
begin

section \<open>Calendar dates\<close>

text \<open>
  What the sources use of Go's \<^verbatim>\<open>time\<close> package beyond subtraction: the proleptic Gregorian date of an
  instant in UTC and its layout \<^verbatim>\<open>2006-01-02\<close>. The uptime figures group checks by the formatted
  date, so what matters is that two days never share one.
\<close>

abbreviation (input) day :: duration where
  "day \<equiv> 86400 * 1000000000"

definition day_number :: "instant \<Rightarrow> int" where
  "day_number t = t div day"

text \<open>Cycles of 400, 100 and 4 years from the first of January of the year 1.\<close>

definition year_yday :: "int \<Rightarrow> int \<times> int" where
  "year_yday n =
     (let d = n + 719162;
          n400 = d div 146097; d1 = d mod 146097;
          n100 = min 3 (d1 div 36524); d2 = d1 - 36524 * n100;
          n4 = d2 div 1461; d3 = d2 mod 1461;
          n1 = min 3 (d3 div 365)
      in (400 * n400 + 100 * n100 + 4 * n4 + n1 + 1, d3 - 365 * n1))"

definition is_leap :: "int \<Rightarrow> bool" where
  "is_leap y \<longleftrightarrow> y mod 4 = 0 \<and> (y mod 100 \<noteq> 0 \<or> y mod 400 = 0)"

definition month_lengths :: "int \<Rightarrow> int list" where
  "month_lengths y = [31, if is_leap y then 29 else 28, 31, 30, 31, 30, 31, 31, 30, 31, 30, 31]"

fun find_month :: "nat \<Rightarrow> int list \<Rightarrow> int \<Rightarrow> nat \<times> int" where
  "find_month m [] d = (m, d + 1)"
| "find_month m (l # ls) d = (if d < l then (m, d + 1) else find_month (Suc m) ls (d - l))"

definition civil :: "int \<Rightarrow> int \<times> nat \<times> int" where
  "civil n = (case year_yday n of (y, yday) \<Rightarrow> (y, find_month 1 (month_lengths y) yday))"

text \<open>Go's \<^verbatim>\<open>appendInt\<close>.\<close>

definition pad_int :: "nat \<Rightarrow> int \<Rightarrow> string" where
  "pad_int w x = (let s = fmt_nat (nat \<bar>x\<bar>) in
     (if x < 0 then ''-'' else []) @ replicate (w - length s) (CHR ''0'') @ s)"

definition format_date :: "instant \<Rightarrow> string" where
  "format_date t = (case civil (day_number t) of
     (y, m, d) \<Rightarrow> pad_int 4 y @ ''-'' @ pad_int 2 (int m) @ ''-'' @ pad_int 2 d)"

subsection \<open>Distinct days have distinct dates\<close>

lemma capped_quotient:
  fixes x k :: int
  assumes "0 \<le> x" "x \<le> 4 * k" "0 < k"
  shows "0 \<le> min 3 (x div k)" "min 3 (x div k) \<le> 3" "0 \<le> x - k * min 3 (x div k)" "x - k * min 3 (x div k) \<le> k"
proof -
  have q: "x = k * (x div k) + x mod k" "0 \<le> x mod k" "x mod k < k" "0 \<le> x div k"
    using assms by (simp_all add: pos_imp_zdiv_nonneg_iff)
  show "0 \<le> min 3 (x div k)" "min 3 (x div k) \<le> 3" using q(4) by simp_all
  have r: "k * min 3 (x div k) = k * (x div k) \<or> k * min 3 (x div k) = k * 3 \<and> k * 3 \<le> k * (x div k)"
    using assms(3) by (auto simp: min_def)
  then show "0 \<le> x - k * min 3 (x div k)" using q(1,2) by linarith
  from r show "x - k * min 3 (x div k) \<le> k" using q(1,3) assms(2) by linarith
qed

lemma base_inj:
  fixes m :: int
  assumes "m * a + r = m * b + s" "0 \<le> r" "r < m" "0 \<le> s" "s < m"
  shows "a = b \<and> r = s"
proof -
  have "(m * a + r) mod m = r" "(m * b + s) mod m = s" using assms(2-5) by (simp_all add: mod_pos_pos_trivial)
  then have "r = s" using assms(1) by simp
  then show ?thesis using assms by simp
qed

lemma year_yday_parts:
  obtains n400 n100 n4 n1 where
    "fst (year_yday n) = 400 * n400 + 100 * n100 + 4 * n4 + n1 + 1"
    "n + 719162 = 146097 * n400 + 36524 * n100 + 1461 * n4 + 365 * n1 + snd (year_yday n)"
    "0 \<le> n100" "n100 \<le> 3" "0 \<le> n4" "n4 \<le> 24" "0 \<le> n1" "n1 \<le> 3" "0 \<le> snd (year_yday n)" "snd (year_yday n) \<le> 365"
proof -
  define d where "d = n + 719162"
  define d1 where "d1 = d mod 146097"
  define n100 where "n100 = min 3 (d1 div 36524)"
  define d2 where "d2 = d1 - 36524 * n100"
  define d3 where "d3 = d2 mod 1461"
  define n1 where "n1 = min 3 (d3 div 365)"
  have d1: "0 \<le> d1" "d1 \<le> 4 * 36524" "d = 146097 * (d div 146097) + d1"
    using pos_mod_bound [of 146097 d] by (simp_all add: d1_def)
  have h: "0 \<le> n100" "n100 \<le> 3" "0 \<le> d2" "d2 \<le> 36524"
    using capped_quotient [OF d1(1,2)] by (simp_all add: n100_def d2_def)
  have f: "0 \<le> d2 div 1461" "d2 div 1461 \<le> 24" "d2 = 1461 * (d2 div 1461) + d3"
    using h(3) zdiv_mono1 [OF h(4), of 1461] by (simp_all add: d3_def pos_imp_zdiv_nonneg_iff)
  have d3: "0 \<le> d3" "d3 \<le> 4 * 365" using pos_mod_bound [of 1461 d2] by (simp_all add: d3_def)
  have o1: "0 \<le> n1" "n1 \<le> 3" "0 \<le> d3 - 365 * n1" "d3 - 365 * n1 \<le> 365"
    using capped_quotient [OF d3] by (simp_all add: n1_def)
  have y: "year_yday n = (400 * (d div 146097) + 100 * n100 + 4 * (d2 div 1461) + n1 + 1, d3 - 365 * n1)"
    by (simp only: year_yday_def Let_def d_def d1_def n100_def d2_def d3_def n1_def)
  show ?thesis
  proof (rule that)
    show "n + 719162 = 146097 * (d div 146097) + 36524 * n100 + 1461 * (d2 div 1461) + 365 * n1 + snd (year_yday n)"
      using d1(3) f(3) unfolding y snd_conv d_def [symmetric] d2_def by linarith
    show "fst (year_yday n) = 400 * (d div 146097) + 100 * n100 + 4 * (d2 div 1461) + n1 + 1" by (simp only: y fst_conv)
    show "0 \<le> snd (year_yday n)" "snd (year_yday n) \<le> 365" using o1(3,4) by (simp_all only: y snd_conv)
  qed (fact h f o1)+
qed

lemma year_yday_inj:
  assumes e: "year_yday n = year_yday n'"
  shows "n = n'"
proof -
  obtain a b c k where 1: "fst (year_yday n) = 400 * a + 100 * b + 4 * c + k + 1"
    "n + 719162 = 146097 * a + 36524 * b + 1461 * c + 365 * k + snd (year_yday n)"
    "0 \<le> b" "b \<le> 3" "0 \<le> c" "c \<le> 24" "0 \<le> k" "k \<le> 3" by (rule year_yday_parts [of n])
  obtain a' b' c' k' where 2: "fst (year_yday n') = 400 * a' + 100 * b' + 4 * c' + k' + 1"
    "n' + 719162 = 146097 * a' + 36524 * b' + 1461 * c' + 365 * k' + snd (year_yday n')"
    "0 \<le> b'" "b' \<le> 3" "0 \<le> c'" "c' \<le> 24" "0 \<le> k'" "k' \<le> 3" by (rule year_yday_parts [of n'])
  have "a = a' \<and> 100 * b + 4 * c + k = 100 * b' + 4 * c' + k'"
    using e 1 2 by (intro base_inj [of 400]) simp_all
  then have "b = b' \<and> 4 * c + k = 4 * c' + k'" using 1 2 by (intro base_inj [of 100]) simp_all
  then have "c = c' \<and> k = k'" using 1 2 by (intro base_inj [of 4]) simp_all
  with \<open>a = a' \<and> _\<close> \<open>b = b' \<and> _\<close> show ?thesis using e 1(2) 2(2) by simp
qed

lemma find_month_sum:
  "find_month m ls d = (m', e) \<Longrightarrow> m \<le> m' \<and> d = sum_list (take (m' - m) ls) + e - 1"
proof (induction m ls d rule: find_month.induct)
  case (2 m l ls d)
  show ?case
  proof (cases "d < l")
    case False
    then have i: "Suc m \<le> m'" "d - l = sum_list (take (m' - Suc m) ls) + e - 1" using 2 by simp_all
    then have "m' - m = Suc (m' - Suc m)" by linarith
    then show ?thesis using i by simp
  qed (use 2 in auto)
qed auto

lemma find_month_inj:
  assumes "find_month m ls d = find_month m ls d'"
  shows "d = d'"
proof -
  obtain a b where 1: "find_month m ls d = (a, b)" by (metis surj_pair)
  then have 2: "find_month m ls d' = (a, b)" using assms by simp
  show ?thesis using find_month_sum [OF 1] find_month_sum [OF 2] by simp
qed

lemma find_month_bounds:
  assumes "0 \<le> d" "\<forall>l \<in> set ls. l \<le> 31" "d \<le> sum_list ls"
  shows "fst (find_month m ls d) \<le> m + length ls \<and> 1 \<le> snd (find_month m ls d) \<and> snd (find_month m ls d) \<le> 31"
  using assms
proof (induction m ls d rule: find_month.induct)
  case (2 m l ls d)
  then show ?case by (cases "d < l") auto
qed simp

lemma civil_inj: "civil n = civil n' \<Longrightarrow> n = n'"
proof -
  assume "civil n = civil n'"
  moreover obtain y k y' k' where y: "year_yday n = (y, k)" "year_yday n' = (y', k')"
    by (metis surj_pair)
  ultimately have "y = y'" "find_month 1 (month_lengths y) k = find_month 1 (month_lengths y) k'"
    by (auto simp: civil_def)
  then have "k = k'" by (intro find_month_inj)
  with \<open>y = y'\<close> y have "year_yday n = year_yday n'" by simp
  then show ?thesis by (rule year_yday_inj)
qed

fun digits_val :: "nat \<Rightarrow> string \<Rightarrow> nat" where
  "digits_val v [] = v"
| "digits_val v (c # cs) = digits_val (10 * v + (of_char c - 48)) cs"

lemma digits_val_append: "digits_val v (xs @ ys) = digits_val (digits_val v xs) ys"
  by (induction xs arbitrary: v) simp_all

lemma digits_val_fmt: "digits_val 0 (fmt_nat n) = n"
proof (induction n rule: fmt_nat.induct)
  case (1 n)
  have c: "of_char (char_of (48 + k) :: char) - 48 = k" if "k < 10" for k :: nat
    using that by (simp add: of_char_of)
  show ?case using 1 by (subst fmt_nat.simps) (auto simp: digits_val_append c)
qed

lemma digits_val_zeros: "digits_val 0 (replicate k (CHR ''0'') @ s) = digits_val 0 s"
  by (induction k) simp_all

lemma hd_digit: "of_char (hd (fmt_nat n)) \<ge> (48 :: nat) \<and> fmt_nat n \<noteq> []"
proof (induction n rule: fmt_nat.induct)
  case (1 n)
  show ?case using 1 by (subst (1 2) fmt_nat.simps) (auto simp: of_char_of)
qed

lemma pad_int_nonneg: "0 \<le> x \<Longrightarrow> digits_val 0 (pad_int w x) = nat x"
  by (simp add: pad_int_def Let_def digits_val_zeros digits_val_fmt)

lemma pad_int_head: "hd (pad_int w x) = CHR ''-'' \<longleftrightarrow> x < 0"
proof -
  have "hd (replicate k (CHR ''0'') @ fmt_nat n) \<noteq> CHR ''-''" for k n
    using hd_digit [of n] by (cases k) auto
  then show ?thesis by (auto simp: pad_int_def Let_def)
qed

lemma pad_int_inj: "pad_int w x = pad_int w y \<Longrightarrow> x = y"
proof -
  assume e: "pad_int w x = pad_int w y"
  then have s: "x < 0 \<longleftrightarrow> y < 0" using pad_int_head by metis
  show ?thesis
  proof (cases "x < 0")
    case True
    then have "pad_int w x = ''-'' @ replicate (w - length (fmt_nat (nat \<bar>x\<bar>))) (CHR ''0'') @ fmt_nat (nat \<bar>x\<bar>)"
      "pad_int w y = ''-'' @ replicate (w - length (fmt_nat (nat \<bar>y\<bar>))) (CHR ''0'') @ fmt_nat (nat \<bar>y\<bar>)"
      using s by (simp_all add: pad_int_def Let_def)
    then have "digits_val 0 (fmt_nat (nat \<bar>x\<bar>)) = digits_val 0 (fmt_nat (nat \<bar>y\<bar>))"
      using e by (metis append_Cons append_Nil list.inject digits_val_zeros)
    then show ?thesis using True s by (simp add: digits_val_fmt)
  next
    case False
    then show ?thesis using e s pad_int_nonneg [of x w] pad_int_nonneg [of y w] by simp
  qed
qed

lemma pad_int_two: "0 \<le> x \<Longrightarrow> x < 100 \<Longrightarrow> length (pad_int 2 x) = 2"
proof -
  assume x: "0 \<le> x" "x < 100"
  then have "nat x div 10 < 10" by simp
  then show ?thesis using x
    by (simp add: pad_int_def Let_def fmt_nat.simps [of "nat x"] fmt_nat.simps [of "nat x div 10"])
qed

lemma civil_bounds:
  assumes "civil n = (y, m, d)"
  shows "m \<le> 13 \<and> 1 \<le> d \<and> d \<le> 31"
proof -
  obtain k where k: "year_yday n = (y, k)" "find_month 1 (month_lengths y) k = (m, d)"
    using assms by (auto simp: civil_def split: prod.splits)
  have "0 \<le> k" "k \<le> 365" using k(1) by (auto intro: year_yday_parts [of n])
  then have l: "k \<le> sum_list (month_lengths y)" "\<forall>l \<in> set (month_lengths y). l \<le> 31" "length (month_lengths y) = 12"
    by (simp_all add: month_lengths_def)
  from find_month_bounds [OF \<open>0 \<le> k\<close> l(2,1), of 1] show ?thesis unfolding k(2) by (simp add: l(3))
qed

lemma format_date_inj: "format_date t = format_date t' \<longleftrightarrow> day_number t = day_number t'"
proof
  assume e: "format_date t = format_date t'"
  obtain y m d where c: "civil (day_number t) = (y, m, d)" by (metis surj_pair)
  obtain y' m' d' where c': "civil (day_number t') = (y', m', d')" by (metis surj_pair)
  have l: "length (pad_int 2 (int m)) = 2" "length (pad_int 2 d) = 2" "length (pad_int 2 (int m')) = 2" "length (pad_int 2 d') = 2"
    using civil_bounds [OF c] civil_bounds [OF c'] by (simp_all add: pad_int_two)
  have "pad_int 4 y @ ''-'' @ pad_int 2 (int m) @ ''-'' @ pad_int 2 d = pad_int 4 y' @ ''-'' @ pad_int 2 (int m') @ ''-'' @ pad_int 2 d'"
    using e by (simp add: format_date_def c c')
  moreover from arg_cong [OF this, of length] have "length (pad_int 4 y) = length (pad_int 4 y')" by (simp add: l)
  ultimately have "pad_int 4 y = pad_int 4 y' \<and> pad_int 2 (int m) = pad_int 2 (int m') \<and> pad_int 2 d = pad_int 2 d'"
    using l by (simp add: append_eq_append_conv)
  then have "civil (day_number t) = civil (day_number t')" using pad_int_inj c c' by fastforce
  then show "day_number t = day_number t'" by (rule civil_inj)
qed (simp add: format_date_def)

lemma format_date_samples: "format_date 0 = ''1970-01-01''" "format_date (19782 * day) = ''2024-02-29''"
  by code_simp+

end
