(* ===== verification/Stats.thy ===== *)
theory Stats
  imports Runner Civil
begin

section \<open>Statistics and availability\<close>

text \<open>
  The read side of the checks: \<^verbatim>\<open>GetMonitorResults\<close>, \<^verbatim>\<open>ListIncidents\<close>, \<^verbatim>\<open>GetMonitorStats\<close>,
  \<^verbatim>\<open>GetMonitorUptime\<close> and their helpers at the end of \<^verbatim>\<open>internal/database/bun/store.go\<close>, with the hourly
  rollups of the SQL function \<^verbatim>\<open>maintenance.refresh_rollups\<close> that they read. A \<^verbatim>\<open>float64\<close> quotient is
  the exact rational, without its rounding; \<open>None\<close> is the panic of an integer division by zero. The
  iteration over a Go map visits the regions in the order of their first row.
\<close>

subsection \<open>Tables\<close>

record rollup =
  ruMonitorID :: ident
  ruRegion :: string
  ruBucket :: instant
  ruChecks :: int
  ruSumLatency :: int
  ruMinLatency :: int
  ruMaxLatency :: int
  ruUpChecks :: int
  ruDegradedChecks :: int

record incident_row =
  inID :: ident
  inMonitorID :: ident
  inStatus :: status
  inStartedAt :: instant
  inResolvedAt :: "instant option"
  inStatusCode :: "int option"
  inMessage :: "string option"
  inCreatedAt :: instant

record check_tables =
  monitor_results :: "monitor_result list"
  monitor_result_rollups :: "rollup list"
  incidents :: "incident_row list"

definition group_by :: "('r \<Rightarrow> 'k) \<Rightarrow> 'r list \<Rightarrow> ('k \<times> 'r list) list" where
  "group_by key rows = map (\<lambda>k. (k, filter (\<lambda>r. key r = k) rows)) (dedup_loop {} [] (map key rows))"

definition trunc_hour :: "instant \<Rightarrow> instant" where
  "trunc_hour t = t div hour * hour"

definition measuredLatency :: "status \<Rightarrow> bool" where
  "measuredLatency s \<longleftrightarrow> s \<noteq> DOWN"

text \<open>\<^verbatim>\<open>maintenance.refresh_rollups(NULL)\<close> on an empty table.\<close>

definition result_key :: "monitor_result \<Rightarrow> ident \<times> string \<times> instant" where
  "result_key r = (resMonitorID r, resRegion r, trunc_hour (resCheckedAt r))"

definition rollup_of :: "(ident \<times> string \<times> instant) \<times> monitor_result list \<Rightarrow> rollup" where
  "rollup_of g = (case g of ((m, region, bucket), rs) \<Rightarrow>
     let ls = map resLatency (filter (\<lambda>r. measuredLatency (resStatus r)) rs) in
     \<lparr>ruMonitorID = m, ruRegion = region, ruBucket = bucket, ruChecks = int (length rs), ruSumLatency = sum_list ls,
      ruMinLatency = (if ls = [] then 0 else Min (set ls)), ruMaxLatency = (if ls = [] then 0 else Max (set ls)),
      ruUpChecks = count_where (\<lambda>r. resStatus r = UP) rs, ruDegradedChecks = count_where (\<lambda>r. resStatus r = DEGRADED) rs\<rparr>)"

definition refresh_rollups :: "monitor_result list \<Rightarrow> rollup list" where
  "refresh_rollups rs = map rollup_of (group_by result_key rs)"

subsection \<open>Latency statistics\<close>

record stat_point =
  spTimestamp :: instant
  spAvgLatency :: rat

record region_stats =
  rgRegion :: string
  rgMinLatency :: int
  rgMaxLatency :: int
  rgAvgLatency :: rat
  rgTotalChecks :: int
  rgPoints :: "stat_point list"

record monitor_stats =
  msMinLatency :: int
  msMaxLatency :: int
  msAvgLatency :: rat
  msTotalChecks :: int
  msIncidentCount :: int
  msMTBFSeconds :: "int option"
  msPoints :: "stat_point list"
  msRegions :: "region_stats list"

definition no_stats :: monitor_stats where
  "no_stats = \<lparr>msMinLatency = 0, msMaxLatency = 0, msAvgLatency = 0, msTotalChecks = 0, msIncidentCount = 0,
     msMTBFSeconds = None, msPoints = [], msRegions = []\<rparr>"

definition statBuckets :: nat where
  "statBuckets = 48"

definition rawStatsWindow :: duration where
  "rawStatsWindow = 25 * hour"

text \<open>What both loops feed on: when, the least and greatest latency, their sum and how many.\<close>

record sample =
  smAt :: instant
  smMin :: int
  smMax :: int
  smSum :: int
  smCount :: int

definition lat_step :: "sample \<Rightarrow> int \<times> int \<times> int \<times> int \<Rightarrow> int \<times> int \<times> int \<times> int" where
  "lat_step x acc = (case acc of (mn, mx, sm, n) \<Rightarrow>
     (if n = 0 \<or> smMin x < mn then smMin x else mn, if n = 0 \<or> smMax x > mx then smMax x else mx, sm + smSum x, n + smCount x))"

definition bucket_index :: "instant \<Rightarrow> duration \<Rightarrow> instant \<Rightarrow> nat" where
  "bucket_index since bucketDur t =
     (let idx = time_sub t since sdiv bucketDur in
      if idx < 0 then 0 else if idx \<ge> int statBuckets then statBuckets - 1 else nat idx)"

definition fill_bucket :: "instant \<Rightarrow> duration \<Rightarrow> sample \<Rightarrow> (int \<times> int) list \<Rightarrow> (int \<times> int) list" where
  "fill_bucket since bucketDur x bs =
     (let i = bucket_index since bucketDur (smAt x) in
      bs[i := (fst (bs ! i) + smSum x, snd (bs ! i) + smCount x)])"

definition bucket_points :: "instant \<Rightarrow> duration \<Rightarrow> (int \<times> int) list \<Rightarrow> stat_point list" where
  "bucket_points since bucketDur bs =
     [\<lparr>spTimestamp = since + (int i * bucketDur + bucketDur sdiv 2), spAvgLatency = rat_of_int s / rat_of_int n\<rparr>.
      (i, (s, n)) \<leftarrow> enumerate 0 bs, n \<noteq> 0]"

definition bucket_span :: "instant \<Rightarrow> instant \<Rightarrow> duration" where
  "bucket_span since until =
     (let span = time_sub until since in (if span \<le> 0 then second else span) sdiv int statBuckets)"

text \<open>The part that the two functions share word for word; \<open>total\<close> is the number of checks.\<close>

definition stats_of :: "int \<Rightarrow> sample list \<Rightarrow> instant \<Rightarrow> instant \<Rightarrow> monitor_stats option" where
  "stats_of checks xs since until =
     (case fold lat_step xs (0, 0, 0, 0) of (mn, mx, sm, n) \<Rightarrow>
        let base = no_stats\<lparr>msTotalChecks := checks\<rparr>;
            st = (if n > 0 then base\<lparr>msMinLatency := mn, msMaxLatency := mx, msAvgLatency := rat_of_int sm / rat_of_int n\<rparr> else base);
            bucketDur = bucket_span since until
        in if bucketDur = 0 \<and> xs \<noteq> [] then None
           else Some (st\<lparr>msPoints := bucket_points since bucketDur
                   (fold (fill_bucket since bucketDur) xs (replicate statBuckets (0, 0)))\<rparr>))"

definition result_sample :: "monitor_result \<Rightarrow> sample" where
  "result_sample r = \<lparr>smAt = resCheckedAt r, smMin = resLatency r, smMax = resLatency r, smSum = resLatency r, smCount = 1\<rparr>"

definition computeStats :: "monitor_result list \<Rightarrow> instant \<Rightarrow> instant \<Rightarrow> monitor_stats option" where
  "computeStats rs since until =
     (if rs = [] then Some no_stats
      else stats_of (int (length rs)) (map result_sample (filter (\<lambda>r. measuredLatency (resStatus r)) rs)) since until)"

text \<open>\<^verbatim>\<open>rollupRow\<close> is built from a rollup; its \<^verbatim>\<open>LatencyChecks\<close> are the UP and DEGRADED ones.\<close>

definition latencyChecks :: "rollup \<Rightarrow> int" where
  "latencyChecks r = ruUpChecks r + ruDegradedChecks r"

definition rollup_sample :: "rollup \<Rightarrow> sample" where
  "rollup_sample r = \<lparr>smAt = ruBucket r, smMin = ruMinLatency r, smMax = ruMaxLatency r, smSum = ruSumLatency r, smCount = latencyChecks r\<rparr>"

definition computeStatsFromRollups :: "rollup list \<Rightarrow> instant \<Rightarrow> instant \<Rightarrow> monitor_stats option" where
  "computeStatsFromRollups rows since until =
     (let totalCount = sum_list (map ruChecks rows) in
      if rows = [] \<or> totalCount = 0 then Some no_stats
      else stats_of totalCount (map rollup_sample (filter (\<lambda>r. latencyChecks r \<noteq> 0) rows)) since until)"

definition resultRegions :: "monitor_result list \<Rightarrow> string list" where
  "resultRegions rs = dedup_loop {} [] (map resRegion rs)"

definition rollupRegions :: "rollup list \<Rightarrow> string list" where
  "rollupRegions rows = dedup_loop {} [] (map ruRegion rows)"

fun mtbf_loop :: "incident_row list \<Rightarrow> int \<times> int \<Rightarrow> int \<times> int" where
  "mtbf_loop (prev # inc # rest) acc =
     mtbf_loop (inc # rest)
       (case inResolvedAt prev of
          None \<Rightarrow> acc
        | Some t \<Rightarrow> (let gap = time_sub (inStartedAt inc) t in
                     (fst acc + (if gap < 0 then 0 else gap) div second, snd acc + 1)))"
| "mtbf_loop _ acc = acc"

definition meanTimeBetweenFailures :: "incident_row list \<Rightarrow> int option" where
  "meanTimeBetweenFailures incs =
     (case mtbf_loop incs (0, 0) of (totalSecs, gaps) \<Rightarrow> if gaps = 0 then None else Some (totalSecs sdiv gaps))"

definition to_region_stats :: "string \<Rightarrow> monitor_stats \<Rightarrow> region_stats" where
  "to_region_stats region s = \<lparr>rgRegion = region, rgMinLatency = msMinLatency s, rgMaxLatency = msMaxLatency s,
     rgAvgLatency = msAvgLatency s, rgTotalChecks = msTotalChecks s, rgPoints = msPoints s\<rparr>"

fun with_regions :: "(string \<Rightarrow> monitor_stats option) \<Rightarrow> string list \<Rightarrow> monitor_stats \<Rightarrow> monitor_stats option" where
  "with_regions f [] s = Some s"
| "with_regions f (g # gs) s =
     (case f g of None \<Rightarrow> None | Some x \<Rightarrow> with_regions f gs (s\<lparr>msRegions := msRegions s @ [to_region_stats g x]\<rparr>))"

text \<open>\<open>until\<close> is the time of the call.\<close>

definition stats_window :: "check_tables \<Rightarrow> ident \<Rightarrow> instant \<Rightarrow> instant \<Rightarrow> monitor_stats option" where
  "stats_window tb monitorId since until =
     (if time_sub until since \<le> rawStatsWindow then
        (let rs = sort_key resCheckedAt (filter (\<lambda>r. resMonitorID r = monitorId \<and> resCheckedAt r \<ge> since) (monitor_results tb)) in
         Option.bind (computeStats rs since until)
           (with_regions (\<lambda>g. computeStats (filter (\<lambda>r. resRegion r = g) rs) since until) (resultRegions rs)))
      else
        (let rows = sort_key ruBucket (filter (\<lambda>r. ruMonitorID r = monitorId \<and> ruBucket r \<ge> trunc_hour since) (monitor_result_rollups tb)) in
         Option.bind (computeStatsFromRollups rows since until)
           (with_regions (\<lambda>g. computeStatsFromRollups (filter (\<lambda>r. ruRegion r = g) rows) since until) (rollupRegions rows))))"

definition GetMonitorStats ::
    "db \<Rightarrow> check_tables \<Rightarrow> ident \<Rightarrow> ident \<Rightarrow> instant \<Rightarrow> instant \<Rightarrow> (store_error + monitor_stats) option" where
  "GetMonitorStats d tb monitorId userId since until =
     (case select_monitor d monitorId userId of
        None \<Rightarrow> Some (Inl ErrNotFound)
      | Some _ \<Rightarrow>
          map_option (\<lambda>s.
            let incs = sort_key inStartedAt (filter (\<lambda>i. inMonitorID i = monitorId \<and> inStartedAt i \<ge> since) (incidents tb)) in
            Inr (s\<lparr>msIncidentCount := int (length incs), msMTBFSeconds := meanTimeBetweenFailures incs\<rparr>))
          (stats_window tb monitorId since until))"

subsection \<open>Availability\<close>

record daily_row =
  drDay :: instant
  drRegion :: string
  drAvailable :: int
  drTotal :: int

record daily_uptime =
  duDate :: string
  duMonitored :: bool
  duUptimePercent :: "rat option"

definition rawUptimeWindow :: duration where
  "rawUptimeWindow = 25 * hour"

definition uptimeRawCutoff :: "instant \<Rightarrow> instant \<Rightarrow> instant" where
  "uptimeRawCutoff now since =
     (let cutoff = trunc_hour now - rawUptimeWindow in if cutoff < since then since else cutoff)"

text \<open>The map \<^verbatim>\<open>byDay\<close>, keyed by date and region, and the regions in it.\<close>

definition add_row :: "daily_row \<Rightarrow> (string \<times> string \<rightharpoonup> int \<times> int) \<Rightarrow> (string \<times> string \<rightharpoonup> int \<times> int)" where
  "add_row r m =
     (let key = (format_date (drDay r), drRegion r);
          a = (case m key of None \<Rightarrow> (0, 0) | Some a \<Rightarrow> a)
      in m(key \<mapsto> (fst a + drAvailable r, snd a + drTotal r)))"

definition by_day :: "daily_row list \<Rightarrow> (string \<times> string \<rightharpoonup> int \<times> int)" where
  "by_day rows = fold add_row rows (\<lambda>_. None)"

definition share :: "int \<times> int \<Rightarrow> rat" where
  "share a = rat_of_int (fst a) / rat_of_int (snd a) * 100"

text \<open>The counts of a date, region by region, without the regions that have none.\<close>

definition reporting :: "daily_row list \<Rightarrow> string \<Rightarrow> (string \<times> int \<times> int) list" where
  "reporting rows date =
     [(g, a). g \<leftarrow> dedup_loop {} [] (map drRegion rows), a \<leftarrow> (case by_day rows (date, g) of None \<Rightarrow> [] | Some a \<Rightarrow> [a]), snd a \<noteq> 0]"

definition mean_share :: "(int \<times> int) list \<Rightarrow> rat option" where
  "mean_share as = (if as = [] then None else Some (sum_list (map share as) / rat_of_nat (length as)))"

definition daily_entry :: "daily_row list \<Rightarrow> string \<Rightarrow> daily_uptime" where
  "daily_entry rows date =
     (let pct = mean_share (map snd (reporting rows date)) in
      \<lparr>duDate = date, duMonitored = (pct \<noteq> None), duUptimePercent = pct\<rparr>)"

definition date_before :: "instant \<Rightarrow> nat \<Rightarrow> string" where
  "date_before today i = format_date (today - int i * day)"

text \<open>The map \<^verbatim>\<open>sevenDay\<close>, filled while the last seven days are walked.\<close>

definition seven_day :: "daily_row list \<Rightarrow> instant \<Rightarrow> nat \<Rightarrow> (string \<times> int \<times> int) list" where
  "seven_day rows today days =
     (let entries = [(g, a). i \<leftarrow> rev [0..<days], i < 7, (g, a) \<leftarrow> reporting rows (date_before today i)] in
      [(g, sum_list (map (fst \<circ> snd) xs), sum_list (map (snd \<circ> snd) xs)). (g, xs) \<leftarrow> group_by fst entries])"

definition computeDailyUptime :: "daily_row list \<Rightarrow> instant \<Rightarrow> nat \<Rightarrow> daily_uptime list \<times> rat option" where
  "computeDailyUptime rows today days =
     (map (\<lambda>i. daily_entry rows (date_before today i)) (rev [0..<days]),
      mean_share (filter (\<lambda>a. snd a \<noteq> 0) (map snd (seven_day rows today days))))"

text \<open>The two queries, each grouped by local day and region. The clock is read twice: \<open>now\<close> for the calendar,
  \<open>later\<close> for the cutoff.\<close>

definition local_day :: "int \<Rightarrow> instant \<Rightarrow> instant" where
  "local_day tzMinutes t = (t + tzMinutes * 60 * second) div day * day"

definition rollup_days :: "int \<Rightarrow> rollup list \<Rightarrow> daily_row list" where
  "rollup_days tz rows =
     [\<lparr>drDay = d, drRegion = g, drAvailable = sum_list (map latencyChecks xs), drTotal = sum_list (map ruChecks xs)\<rparr>.
      ((d, g), xs) \<leftarrow> group_by (\<lambda>r. (local_day tz (ruBucket r), ruRegion r)) rows]"

definition raw_days :: "int \<Rightarrow> monitor_result list \<Rightarrow> daily_row list" where
  "raw_days tz rs =
     [\<lparr>drDay = d, drRegion = g, drAvailable = count_where (\<lambda>r. resStatus r = UP \<or> resStatus r = DEGRADED) xs,
       drTotal = int (length xs)\<rparr>.
      ((d, g), xs) \<leftarrow> group_by (\<lambda>r. (local_day tz (resCheckedAt r), resRegion r)) rs]"

definition uptime_since :: "instant \<Rightarrow> nat \<Rightarrow> int \<Rightarrow> instant" where
  "uptime_since now days tz = local_day tz now - (int days - 1) * day - tz * 60 * second"

definition uptime_rows :: "check_tables \<Rightarrow> ident \<Rightarrow> instant \<Rightarrow> instant \<Rightarrow> nat \<Rightarrow> int \<Rightarrow> daily_row list" where
  "uptime_rows tb monitorId now later days tz =
     (let since = uptime_since now days tz; cutoff = uptimeRawCutoff later since in
      rollup_days tz (filter (\<lambda>r. ruMonitorID r = monitorId \<and> since \<le> ruBucket r \<and> ruBucket r < cutoff) (monitor_result_rollups tb)) @
      raw_days tz (filter (\<lambda>r. resMonitorID r = monitorId \<and> cutoff \<le> resCheckedAt r) (monitor_results tb)))"

definition GetMonitorUptime ::
    "db \<Rightarrow> check_tables \<Rightarrow> ident \<Rightarrow> ident \<Rightarrow> instant \<Rightarrow> instant \<Rightarrow> nat \<Rightarrow> int \<Rightarrow> store_error + (daily_uptime list \<times> rat option)" where
  "GetMonitorUptime d tb monitorId userId now later days tz =
     (case select_monitor d monitorId userId of
        None \<Rightarrow> Inl ErrNotFound
      | Some _ \<Rightarrow> Inr (computeDailyUptime (uptime_rows tb monitorId now later days tz) (local_day tz now) days))"

subsection \<open>Results and incidents\<close>

definition GetMonitorResults ::
    "db \<Rightarrow> check_tables \<Rightarrow> ident \<Rightarrow> ident \<Rightarrow> nat \<Rightarrow> string \<Rightarrow> store_error + monitor_result list" where
  "GetMonitorResults d tb monitorId userId limit region =
     (case select_monitor d monitorId userId of
        None \<Rightarrow> Inl ErrNotFound
      | Some _ \<Rightarrow> Inr (take limit (sort_key (\<lambda>r. - resCheckedAt r)
          (filter (\<lambda>r. resMonitorID r = monitorId \<and> (region \<noteq> [] \<longrightarrow> resRegion r = region)) (monitor_results tb)))))"

record incident =
  icRow :: incident_row
  icDurationMs :: "int option"

definition ListIncidents :: "db \<Rightarrow> check_tables \<Rightarrow> ident \<Rightarrow> ident \<Rightarrow> nat \<Rightarrow> store_error + incident list" where
  "ListIncidents d tb monitorId userId limit =
     (case select_monitor d monitorId userId of
        None \<Rightarrow> Inl ErrNotFound
      | Some _ \<Rightarrow> Inr (map (\<lambda>i. \<lparr>icRow = i, icDurationMs = map_option (\<lambda>t. time_sub t (inStartedAt i) sdiv 1000000) (inResolvedAt i)\<rparr>)
          (take limit (sort_key (\<lambda>i. - inStartedAt i) (filter (\<lambda>i. inMonitorID i = monitorId) (incidents tb))))))"

subsection \<open>Grouping\<close>

lemma group_keys: "set (map fst (group_by key rows)) = key ` set rows" "distinct (map fst (group_by key rows))"
  by (simp_all add: group_by_def o_def dedup_loop_set dedup_loop_distinct)

lemma in_group: "(k, xs) \<in> set (group_by key rows) \<longleftrightarrow> k \<in> key ` set rows \<and> xs = filter (\<lambda>r. key r = k) rows"
  by (auto simp: group_by_def dedup_loop_set)

lemma group_nonempty: "(k, xs) \<in> set (group_by key rows) \<Longrightarrow> xs \<noteq> [] \<and> set xs \<subseteq> set rows"
  by (auto simp: in_group filter_empty_conv)

lemma sum_list_positive: "xs \<noteq> [] \<Longrightarrow> \<forall>x \<in> set xs. f x > 0 \<Longrightarrow> sum_list (map f xs) > (0 :: int)"
proof (induction xs)
  case (Cons x xs)
  then show ?case by (cases "xs = []") (auto intro: add_pos_pos)
qed simp

lemma sum_one_key:
  fixes c :: int
  assumes "distinct ks"
  shows "sum_list (map (\<lambda>k. if k0 = k then c else 0) ks) = (if k0 \<in> set ks then c else 0)"
  using assms by (induction ks) auto

lemma sum_by_key:
  fixes h :: "'r \<Rightarrow> int"
  assumes "distinct ks"
  shows "sum_list (map (\<lambda>k. sum_list (map h (filter (\<lambda>r. key r = k) rows))) ks) =
    sum_list (map h (filter (\<lambda>r. key r \<in> set ks) rows))"
proof (induction rows)
  case (Cons r rows)
  have "sum_list (map (\<lambda>k. sum_list (map h (filter (\<lambda>r. key r = k) (r # rows)))) ks) =
      sum_list (map (\<lambda>k. (if key r = k then h r else 0) + sum_list (map h (filter (\<lambda>r. key r = k) rows))) ks)"
    by (intro arg_cong [where f = sum_list] map_cong) auto
  also have "\<dots> = (if key r \<in> set ks then h r else 0) + sum_list (map h (filter (\<lambda>r. key r \<in> set ks) rows))"
    by (simp add: sum_list_addf sum_one_key [OF assms] Cons)
  finally show ?case by simp
qed simp

text \<open>Summing over the groups whose key satisfies \<open>P\<close> is summing over the rows whose key does.\<close>

lemma group_sum:
  fixes h :: "'r \<Rightarrow> int"
  shows "sum_list (map (\<lambda>(k, xs). sum_list (map h xs)) (filter (\<lambda>(k, _). P k) (group_by key rows))) =
    sum_list (map h (filter (\<lambda>r. P (key r)) rows))"
proof -
  let ?ks = "filter P (dedup_loop {} [] (map key rows))"
  have d: "distinct ?ks" "set ?ks = {k \<in> key ` set rows. P k}" by (simp_all add: dedup_loop_set dedup_loop_distinct)
  have "sum_list (map (\<lambda>(k, xs). sum_list (map h xs)) (filter (\<lambda>(k, _). P k) (group_by key rows))) =
      sum_list (map (\<lambda>k. sum_list (map h (filter (\<lambda>r. key r = k) rows))) ?ks)"
    by (simp add: group_by_def filter_map o_def)
  also have "\<dots> = sum_list (map h (filter (\<lambda>r. key r \<in> set ?ks) rows))" by (rule sum_by_key [OF d(1)])
  also have "filter (\<lambda>r. key r \<in> set ?ks) rows = filter (\<lambda>r. P (key r)) rows"
    unfolding d(2) by (rule filter_cong) auto
  finally show ?thesis .
qed

lemma length_as_sum: "int (length xs) = sum_list (map (\<lambda>_. 1) xs)"
  by (induction xs) auto

lemma count_as_sum: "count_where P xs = sum_list (map (\<lambda>x. if P x then 1 else 0) xs)"
  by (induction xs) (auto simp: count_where_def)

subsection \<open>The rollups give the same aggregates\<close>

lemma lat_fold_acc:
  assumes "\<forall>x \<in> set xs. smCount x > 0" "n > 0"
  shows "fold lat_step xs (mn, mx, sm, n) = (Min (insert mn (smMin ` set xs)), Max (insert mx (smMax ` set xs)),
    sm + sum_list (map smSum xs), n + sum_list (map smCount xs))"
  using assms
proof (induction xs arbitrary: mn mx sm n)
  case (Cons x xs)
  have "lat_step x (mn, mx, sm, n) = (min (smMin x) mn, max (smMax x) mx, sm + smSum x, n + smCount x)"
    using Cons.prems(2) by (auto simp: lat_step_def min_def max_def)
  moreover have "n + smCount x > 0" using Cons.prems by simp
  moreover have "insert (min (smMin x) mn) (smMin ` set xs) = insert (min (smMin x) mn) (smMin ` set xs)" ..
  moreover have "Min (insert (min a b) A) = Min (insert b (insert a A))" "Max (insert (max a b) A) = Max (insert b (insert a A))"
    if "finite A" for a b :: int and A
    using that by (cases "A = {}"; simp add: min.assoc min.commute min.left_commute max.assoc max.commute max.left_commute)+
  ultimately show ?case using Cons by (simp add: algebra_simps)
qed simp

lemma lat_fold:
  assumes "\<forall>x \<in> set xs. smCount x > 0" "xs \<noteq> []"
  shows "fold lat_step xs (0, 0, 0, 0) = (Min (smMin ` set xs), Max (smMax ` set xs), sum_list (map smSum xs), sum_list (map smCount xs))"
proof -
  obtain x ys where x: "xs = x # ys" using assms(2) by (cases xs) auto
  have "lat_step x (0, 0, 0, 0) = (smMin x, smMax x, smSum x, smCount x)" by (simp add: lat_step_def)
  then show ?thesis using lat_fold_acc [of ys "smCount x"] assms(1) x by simp
qed

lemma Min_Union: "finite F \<Longrightarrow> F \<noteq> {} \<Longrightarrow> (\<And>B. B \<in> F \<Longrightarrow> finite B \<and> B \<noteq> {}) \<Longrightarrow> Min (Min ` F) = Min (\<Union> F)"
  for F :: "int set set"
proof (rule Min_eqI [symmetric])
  assume F: "finite F" "F \<noteq> {}" and B: "\<And>B. B \<in> F \<Longrightarrow> finite B \<and> B \<noteq> {}"
  show "finite (\<Union> F)" using F B by blast
  show "Min (Min ` F) \<le> y" if y: "y \<in> \<Union> F" for y
  proof -
    obtain C where C: "C \<in> F" "y \<in> C" using y by blast
    have "Min (Min ` F) \<le> Min C" using F(1) C(1) by (intro Min_le) auto
    also have "\<dots> \<le> y" using B [OF C(1)] C(2) by (intro Min_le) auto
    finally show ?thesis .
  qed
  have "Min (Min ` F) \<in> Min ` F" using F by (intro Min_in) auto
  then obtain C where C: "C \<in> F" "Min (Min ` F) = Min C" by blast
  then show "Min (Min ` F) \<in> \<Union> F" using B [OF C(1)] Min_in [of C] by (metis UnionI)
qed

lemma Max_Union: "finite F \<Longrightarrow> F \<noteq> {} \<Longrightarrow> (\<And>B. B \<in> F \<Longrightarrow> finite B \<and> B \<noteq> {}) \<Longrightarrow> Max (Max ` F) = Max (\<Union> F)"
  for F :: "int set set"
proof (rule Max_eqI [symmetric])
  assume F: "finite F" "F \<noteq> {}" and B: "\<And>B. B \<in> F \<Longrightarrow> finite B \<and> B \<noteq> {}"
  show "finite (\<Union> F)" using F B by blast
  show "y \<le> Max (Max ` F)" if y: "y \<in> \<Union> F" for y
  proof -
    obtain C where C: "C \<in> F" "y \<in> C" using y by blast
    have "y \<le> Max C" using B [OF C(1)] C(2) by (intro Max_ge) auto
    also have "\<dots> \<le> Max (Max ` F)" using F(1) C(1) by (intro Max_ge) auto
    finally show ?thesis .
  qed
  have "Max (Max ` F) \<in> Max ` F" using F by (intro Max_in) auto
  then obtain C where C: "C \<in> F" "Max (Max ` F) = Max C" by blast
  then show "Max (Max ` F) \<in> \<Union> F" using B [OF C(1)] Max_in [of C] by (metis UnionI)
qed

definition measured :: "monitor_result list \<Rightarrow> monitor_result list" where
  "measured rs = filter (\<lambda>r. measuredLatency (resStatus r)) rs"

lemma measured_simps:
  "latencyChecks (rollup_of (k, xs)) = int (length (measured xs))"
  "ruSumLatency (rollup_of (k, xs)) = sum_list (map resLatency (measured xs))"
  "measured xs \<noteq> [] \<Longrightarrow> ruMinLatency (rollup_of (k, xs)) = Min (resLatency ` set (measured xs))"
  "measured xs \<noteq> [] \<Longrightarrow> ruMaxLatency (rollup_of (k, xs)) = Max (resLatency ` set (measured xs))"
  "ruChecks (rollup_of (k, xs)) = int (length xs)"
proof -
  have "count_where (\<lambda>r. resStatus r = UP) xs + count_where (\<lambda>r. resStatus r = DEGRADED) xs = int (length (measured xs))"
  proof (induction xs)
    case (Cons r xs)
    then show ?case by (cases "resStatus r") (auto simp: count_where_def measured_def measuredLatency_def)
  qed (simp add: count_where_def measured_def)
  then show "latencyChecks (rollup_of (k, xs)) = int (length (measured xs))"
    by (simp add: latencyChecks_def rollup_of_def Let_def split: prod.splits)
qed (auto simp: rollup_of_def measured_def Let_def split: prod.splits)

lemma rollup_totals:
  "sum_list (map ruChecks (refresh_rollups rs)) = int (length rs)"
  "sum_list (map latencyChecks (refresh_rollups rs)) = int (length (measured rs))"
  "sum_list (map ruSumLatency (refresh_rollups rs)) = sum_list (map resLatency (measured rs))"
proof -
  have all: "sum_list (map (\<lambda>(k, xs). sum_list (map h xs)) (group_by result_key rs)) = sum_list (map h rs)" for h :: "monitor_result \<Rightarrow> int"
    using group_sum [of h "\<lambda>_. True" result_key rs] by (simp add: case_prod_beta)
  have m: "int (length (measured xs)) = sum_list (map (\<lambda>r. if measuredLatency (resStatus r) then 1 else 0) xs)"
      "sum_list (map resLatency (measured xs)) = sum_list (map (\<lambda>r. if measuredLatency (resStatus r) then resLatency r else 0) xs)" for xs
    by (induction xs) (auto simp: measured_def)
  note f = refresh_rollups_def o_def case_prod_beta
  have u: "map (\<lambda>g. f (rollup_of g)) gs = map (\<lambda>(k, xs). f (rollup_of (k, xs))) gs" for f :: "rollup \<Rightarrow> int" and gs by auto
  show "sum_list (map ruChecks (refresh_rollups rs)) = int (length rs)"
    using all [of "\<lambda>_. 1"] by (simp add: refresh_rollups_def o_def u measured_simps length_as_sum)
  show "sum_list (map latencyChecks (refresh_rollups rs)) = int (length (measured rs))"
    unfolding m(1) all [symmetric] by (simp add: refresh_rollups_def o_def u measured_simps m(1))
  show "sum_list (map ruSumLatency (refresh_rollups rs)) = sum_list (map resLatency (measured rs))"
    unfolding m(2) all [symmetric] by (simp add: refresh_rollups_def o_def u measured_simps m(2))
qed

text \<open>The rollups that hold a latency, and what they are grouped from.\<close>

lemma latency_rollups:
  "filter (\<lambda>r. latencyChecks r \<noteq> 0) (refresh_rollups rs) =
     map rollup_of (filter (\<lambda>(k, xs). measured xs \<noteq> []) (group_by result_key rs))"
  by (auto simp: refresh_rollups_def filter_map o_def measured_simps split_def intro!: arg_cong [where f = "map rollup_of"] filter_cong)

lemma latency_groups:
  "\<Union> ((\<lambda>(k, xs). resLatency ` set (measured xs)) ` set (filter (\<lambda>(k, xs). measured xs \<noteq> []) (group_by result_key rs))) =
     resLatency ` set (measured rs)"
proof (intro equalityI subsetI)
  fix l
  assume "l \<in> resLatency ` set (measured rs)"
  then obtain r where r: "r \<in> set (measured rs)" "l = resLatency r" by blast
  let ?g = "(result_key r, filter (\<lambda>x. result_key x = result_key r) rs)"
  have "r \<in> set rs" "measuredLatency (resStatus r)" using r(1) by (auto simp: measured_def)
  then have "?g \<in> set (group_by result_key rs)" "r \<in> set (measured (snd ?g))" by (simp_all add: in_group measured_def)
  moreover from this(2) have "measured (snd ?g) \<noteq> []" by auto
  ultimately have "?g \<in> set (filter (\<lambda>(k, xs). measured xs \<noteq> []) (group_by result_key rs))"
    "l \<in> (\<lambda>(k, xs). resLatency ` set (measured xs)) ?g" using r(2) by simp_all
  then show "l \<in> \<Union> ((\<lambda>(k, xs). resLatency ` set (measured xs)) ` set (filter (\<lambda>(k, xs). measured xs \<noteq> []) (group_by result_key rs)))"
    by blast
qed (auto simp: in_group measured_def)

lemma latency_extremes:
  assumes "measured rs \<noteq> []"
  defines "L \<equiv> set (filter (\<lambda>r. latencyChecks r \<noteq> 0) (refresh_rollups rs))"
  shows "L \<noteq> {}" "Min (ruMinLatency ` L) = Min (resLatency ` set (measured rs))"
    "Max (ruMaxLatency ` L) = Max (resLatency ` set (measured rs))"
proof -
  let ?G = "set (filter (\<lambda>(k, xs). measured xs \<noteq> []) (group_by result_key rs))"
  let ?F = "(\<lambda>(k, xs). resLatency ` set (measured xs)) ` ?G"
  have L: "L = rollup_of ` ?G" by (simp add: L_def latency_rollups)
  have "\<Union> ?F \<noteq> {}" using assms(1) by (simp only: latency_groups) simp
  then have ne: "?F \<noteq> {}" by (metis Union_empty)
  then have "?G \<noteq> {}" by (simp only: image_is_empty not_False_eq_True)
  then show "L \<noteq> {}" by (simp add: L)
  have B: "finite B \<and> B \<noteq> {}" if "B \<in> ?F" for B using that by auto
  have "ruMinLatency ` L = Min ` ?F" "ruMaxLatency ` L = Max ` ?F"
    unfolding L image_image by (rule image_cong; auto simp: measured_simps)+
  then show "Min (ruMinLatency ` L) = Min (resLatency ` set (measured rs))"
    "Max (ruMaxLatency ` L) = Max (resLatency ` set (measured rs))"
    using Min_Union [OF _ ne(1) B] Max_Union [OF _ ne(1) B] latency_groups [of rs] by simp_all
qed

definition aggregates :: "monitor_stats \<Rightarrow> int \<times> int \<times> rat \<times> int" where
  "aggregates s = (msMinLatency s, msMaxLatency s, msAvgLatency s, msTotalChecks s)"

lemma stats_of_aggregates:
  assumes "bucket_span since until \<noteq> 0"
  shows "map_option aggregates (stats_of checks xs since until) =
    (case fold lat_step xs (0, 0, 0, 0) of (mn, mx, sm, n) \<Rightarrow>
       Some (if n > 0 then (mn, mx, rat_of_int sm / rat_of_int n, checks) else (0, 0, 0, checks)))"
  using assms by (auto simp: stats_of_def aggregates_def no_stats_def Let_def split: prod.splits)

lemma samples_positive:
  "\<forall>x \<in> set (map result_sample rs). smCount x > 0"
  "\<forall>x \<in> set (map rollup_sample (filter (\<lambda>r. latencyChecks r \<noteq> 0) (refresh_rollups rs))). smCount x > 0"
  by (auto simp: result_sample_def rollup_sample_def refresh_rollups_def measured_simps split_def
      intro: measured_simps(1) [THEN ssubst])

lemma sample_folds:
  "fold lat_step (map rollup_sample (filter (\<lambda>r. latencyChecks r \<noteq> 0) (refresh_rollups rs))) (0, 0, 0, 0) =
   fold lat_step (map result_sample (measured rs)) (0, 0, 0, 0)"
proof (cases "measured rs = []")
  case True
  then have "\<forall>g \<in> set (group_by result_key rs). measured (snd g) = []"
    by (auto simp: in_group measured_def filter_empty_conv)
  then have "filter (\<lambda>r. latencyChecks r \<noteq> 0) (refresh_rollups rs) = []"
    by (auto simp: latency_rollups filter_empty_conv)
  then show ?thesis by (simp add: True)
next
  case False
  let ?L = "filter (\<lambda>r. latencyChecks r \<noteq> 0) (refresh_rollups rs)"
  have ne: "map rollup_sample ?L \<noteq> []" using latency_extremes(1) [OF False] by (simp only: map_is_Nil_conv set_empty simp_thms)
  have zero: "ruSumLatency r = 0" if "r \<in> set (refresh_rollups rs)" "latencyChecks r = 0" for r
    using that by (auto simp: refresh_rollups_def measured_simps)
  have "sum_list (map ruSumLatency ?L) = sum_list (map resLatency (measured rs))"
    "sum_list (map latencyChecks ?L) = int (length (measured rs))"
    using rollup_totals [of rs] zero by (subst sum_list_map_filter; auto)+
  then show ?thesis
    unfolding lat_fold [OF samples_positive(2) ne] using False latency_extremes(2,3) [OF False]
    by (subst lat_fold [OF samples_positive(1)])
      (simp_all add: image_image o_def result_sample_def rollup_sample_def length_as_sum)
qed

text \<open>The statistics of a window say the same whether they are computed from the raw checks or from the hourly rollups
  of those checks: the least, greatest and mean latency over the checks that answered, and the number of checks.\<close>

theorem rollups_match_raw:
  assumes "bucket_span since until \<noteq> 0"
  shows "\<exists>s t. computeStats rs since until = Some s \<and> computeStatsFromRollups (refresh_rollups rs) since until = Some t \<and>
    msMinLatency t = msMinLatency s \<and> msMaxLatency t = msMaxLatency s \<and> msAvgLatency t = msAvgLatency s \<and> msTotalChecks t = msTotalChecks s"
proof (cases "rs = []")
  case True
  then show ?thesis by (simp add: computeStats_def computeStatsFromRollups_def refresh_rollups_def group_by_def)
next
  case False
  have "map_option aggregates (computeStatsFromRollups (refresh_rollups rs) since until) =
      map_option aggregates (computeStats rs since until) \<and> map_option aggregates (computeStats rs since until) \<noteq> None"
    using False rollup_totals(1) [of rs] stats_of_aggregates [OF assms] sample_folds [of rs]
    by (auto simp: computeStats_def computeStatsFromRollups_def measured_def [symmetric] simp del: map_option_is_None
        option.map_disc_iff not_None_eq split: prod.splits if_splits)
  then show ?thesis by (auto simp: aggregates_def)
qed

subsection \<open>Availability counts every check once\<close>

definition tally :: "(daily_row \<Rightarrow> int) \<Rightarrow> daily_row list \<Rightarrow> string \<Rightarrow> string \<Rightarrow> int" where
  "tally f rows date g = sum_list (map f (filter (\<lambda>r. format_date (drDay r) = date \<and> drRegion r = g) rows))"

lemma tally_append [simp]: "tally f (xs @ ys) date g = tally f xs date g + tally f ys date g"
  by (simp add: tally_def)

lemma by_day_tally:
  assumes "\<forall>r \<in> set rows. drTotal r > 0"
  shows "by_day rows (date, g) = (if tally drTotal rows date g = 0 then None
    else Some (tally drAvailable rows date g, tally drTotal rows date g)) \<and> tally drTotal rows date g \<ge> 0 \<and>
    (by_day rows (date, g) = None \<longrightarrow> tally drAvailable rows date g = 0)"
  using assms
proof (induction rows rule: rev_induct)
  case (snoc r rows)
  have "by_day (rows @ [r]) = add_row r (by_day rows)" by (simp add: by_day_def)
  then show ?case using snoc by (auto simp: add_row_def Let_def tally_def split: if_splits option.splits)
qed (simp add: by_day_def tally_def)

lemma tally_rollup_days:
  "tally drTotal (rollup_days tz rows) date g =
     sum_list (map ruChecks (filter (\<lambda>r. format_date (local_day tz (ruBucket r)) = date \<and> ruRegion r = g) rows))"
  "tally drAvailable (rollup_days tz rows) date g =
     sum_list (map latencyChecks (filter (\<lambda>r. format_date (local_day tz (ruBucket r)) = date \<and> ruRegion r = g) rows))"
  using group_sum [of ruChecks "\<lambda>(d, g'). format_date d = date \<and> g' = g" "\<lambda>r. (local_day tz (ruBucket r), ruRegion r)" rows]
    group_sum [of latencyChecks "\<lambda>(d, g'). format_date d = date \<and> g' = g" "\<lambda>r. (local_day tz (ruBucket r), ruRegion r)" rows]
  by (simp_all add: tally_def rollup_days_def filter_map o_def split_def)

definition available :: "monitor_result \<Rightarrow> int" where
  "available r = (if resStatus r = UP \<or> resStatus r = DEGRADED then 1 else 0)"

lemma available_sum: "int (length (measured xs)) = sum_list (map available xs)"
proof (induction xs)
  case (Cons r xs)
  then show ?case by (cases "resStatus r") (auto simp: measured_def measuredLatency_def available_def)
qed (simp add: measured_def)

lemma tally_raw_days:
  "tally drTotal (raw_days tz rs) date g =
     sum_list (map (\<lambda>_. 1) (filter (\<lambda>r. format_date (local_day tz (resCheckedAt r)) = date \<and> resRegion r = g) rs))"
  "tally drAvailable (raw_days tz rs) date g =
     sum_list (map available (filter (\<lambda>r. format_date (local_day tz (resCheckedAt r)) = date \<and> resRegion r = g) rs))"
  using group_sum [of "\<lambda>_. 1" "\<lambda>(d, g'). format_date d = date \<and> g' = g" "\<lambda>r. (local_day tz (resCheckedAt r), resRegion r)" rs]
    group_sum [of available "\<lambda>(d, g'). format_date d = date \<and> g' = g" "\<lambda>r. (local_day tz (resCheckedAt r), resRegion r)" rs]
  by (simp_all only: tally_def raw_days_def length_as_sum count_as_sum available_def [symmetric])
    (simp_all add: filter_map o_def split_def)

text \<open>On the boundary of an hour the rollups and the checks split at the same place.\<close>

lemma trunc_hour_cut:
  assumes "hour dvd c"
  shows "c \<le> trunc_hour t \<longleftrightarrow> c \<le> t"
proof -
  obtain k where k: "c = k * hour" using assms by (elim dvdE) (simp add: mult.commute)
  have "k * d \<le> u div d * d \<longleftrightarrow> k * d \<le> u" if d: "0 < d" for u d :: int
  proof
    have "u div d * d \<le> u" using pos_mod_sign [OF d, of u] div_mult_mod_eq [of u d] by linarith
    then show "k * d \<le> u div d * d \<Longrightarrow> k * d \<le> u" by (rule order_trans [rotated])
    show "k * d \<le> u div d * d" if ku: "k * d \<le> u"
      using zdiv_mono1 [OF ku d] d by (simp add: mult_right_mono)
  qed
  then show ?thesis unfolding trunc_hour_def k by simp
qed

lemma hour_dvd_since: "60 dvd tz \<Longrightarrow> hour dvd uptime_since now days tz"
proof (elim dvdE)
  fix k
  assume k: "tz = 60 * k"
  have "uptime_since now days tz = ((now + hour * k) div day * 24 - (int days - 1) * 24 - k) * hour"
    by (simp add: uptime_since_def local_day_def k algebra_simps)
  then show ?thesis by (simp only: dvd_triv_right)
qed

lemma hour_dvd_cutoff: "hour dvd since \<Longrightarrow> hour dvd uptimeRawCutoff now since"
  by (auto simp: uptimeRawCutoff_def Let_def trunc_hour_def rawUptimeWindow_def intro!: dvd_diff)

lemma local_day_trunc:
  assumes "60 dvd tz"
  shows "local_day tz (trunc_hour t) = local_day tz t"
proof -
  obtain j where j: "tz = 60 * j" using assms by (elim dvdE)
  have shift: "local_day tz u = (u div hour + j) div 24 * day" for u
  proof -
    have "(u + tz * 60 * second) div day = (u + j * hour) div hour div 24"
      by (simp add: j flip: zdiv_zmult2_eq)
    also have "(u + j * hour) div hour = u div hour + j" using div_mult_self1 [of hour u j] by simp
    finally show ?thesis by (simp add: local_day_def)
  qed
  show ?thesis by (simp add: shift trunc_hour_def)
qed

definition window_checks :: "check_tables \<Rightarrow> ident \<Rightarrow> instant \<Rightarrow> monitor_result list" where
  "window_checks tb monitorId since = filter (\<lambda>r. resMonitorID r = monitorId \<and> since \<le> resCheckedAt r) (monitor_results tb)"

definition settled_rollups :: "check_tables \<Rightarrow> instant \<Rightarrow> bool" where
  "settled_rollups tb now \<longleftrightarrow> mset (filter (\<lambda>r. ruBucket r < trunc_hour now - rawUptimeWindow) (monitor_result_rollups tb)) =
     mset (filter (\<lambda>r. ruBucket r < trunc_hour now - rawUptimeWindow) (refresh_rollups (monitor_results tb)))"

lemma rollup_key [simp]:
  "ruMonitorID (rollup_of ((m, g, b), xs)) = m" "ruRegion (rollup_of ((m, g, b), xs)) = g" "ruBucket (rollup_of ((m, g, b), xs)) = b"
  by (simp_all add: rollup_of_def Let_def)

lemma refresh_sum:
  fixes h :: "monitor_result \<Rightarrow> int"
  assumes "\<And>k xs. f (rollup_of (k, xs)) = sum_list (map h xs)"
  shows "sum_list (map f (filter (\<lambda>r. P (ruMonitorID r, ruRegion r, ruBucket r)) (refresh_rollups rs))) =
    sum_list (map h (filter (\<lambda>r. P (result_key r)) rs))"
proof -
  have "(ruMonitorID (rollup_of g), ruRegion (rollup_of g), ruBucket (rollup_of g)) = fst g" "f (rollup_of g) = sum_list (map h (snd g))" for g
    using assms by (cases g; auto)+
  then show ?thesis
    using group_sum [of h P result_key rs] by (simp add: refresh_rollups_def filter_map o_def split_def)
qed

lemma settled_sum:
  assumes "settled_rollups tb now" "\<And>r. P r \<Longrightarrow> ruBucket r < trunc_hour now - rawUptimeWindow"
  shows "sum_list (map f (filter P (monitor_result_rollups tb))) = (sum_list (map f (filter P (refresh_rollups (monitor_results tb)))) :: int)"
proof -
  let ?Q = "\<lambda>r. ruBucket r < trunc_hour now - rawUptimeWindow"
  have two: "sum_list (map f (filter P xs)) = sum_mset (image_mset f (filter_mset P (mset (filter ?Q xs))))" for xs
  proof -
    have "filter P xs = filter P (filter ?Q xs)" unfolding filter_filter by (rule filter_cong) (use assms(2) in auto)
    then show ?thesis by (metis mset_filter mset_map sum_mset_sum_list)
  qed
  show ?thesis unfolding two using assms(1) by (simp only: settled_rollups_def)
qed

lemma legs_split:
  fixes h :: "monitor_result \<Rightarrow> int"
  assumes s: "settled_rollups tb later" and tz: "60 dvd tz" and f: "\<And>k xs. f (rollup_of (k, xs)) = sum_list (map h xs)"
    and since: "since = uptime_since now days tz" and cutoff: "cutoff = uptimeRawCutoff later since"
  shows "sum_list (map f (filter (\<lambda>r. format_date (local_day tz (ruBucket r)) = date \<and> ruRegion r = g)
      (filter (\<lambda>r. ruMonitorID r = m \<and> since \<le> ruBucket r \<and> ruBucket r < cutoff) (monitor_result_rollups tb)))) +
    sum_list (map h (filter (\<lambda>r. format_date (local_day tz (resCheckedAt r)) = date \<and> resRegion r = g)
      (filter (\<lambda>r. resMonitorID r = m \<and> cutoff \<le> resCheckedAt r) (monitor_results tb)))) =
    sum_list (map h (filter (\<lambda>r. format_date (local_day tz (resCheckedAt r)) = date \<and> resRegion r = g) (window_checks tb m since)))"
proof -
  define P where "P = (\<lambda>(m', g', b). m' = m \<and> since \<le> b \<and> b < cutoff \<and> format_date (local_day tz b) = date \<and> g' = g)"
  define Q where "Q r \<longleftrightarrow> resMonitorID r = m \<and> format_date (local_day tz (resCheckedAt r)) = date \<and> resRegion r = g" for r :: monitor_result
  have al: "hour dvd since" "hour dvd cutoff" using hour_dvd_since [OF tz] hour_dvd_cutoff since cutoff by auto
  have le: "since \<le> cutoff" "b < cutoff \<Longrightarrow> since \<le> b \<Longrightarrow> b < trunc_hour later - rawUptimeWindow" for b
    by (auto simp: cutoff uptimeRawCutoff_def Let_def split: if_splits)
  have key: "P (result_key r) \<longleftrightarrow> Q r \<and> since \<le> resCheckedAt r \<and> resCheckedAt r < cutoff" for r
    using trunc_hour_cut [OF al(1)] trunc_hour_cut [OF al(2), of "resCheckedAt r"] local_day_trunc [OF tz]
    by (auto simp: P_def Q_def result_key_def not_le [symmetric])
  have "sum_list (map f (filter (\<lambda>r. P (ruMonitorID r, ruRegion r, ruBucket r)) (monitor_result_rollups tb))) =
      sum_list (map h (filter (\<lambda>r. P (result_key r)) (monitor_results tb)))"
    unfolding refresh_sum [OF f, symmetric] by (rule settled_sum [OF s]) (auto simp: P_def le(2))
  moreover have "sum_list (map h (filter (\<lambda>r. P (result_key r)) xs)) + sum_list (map h (filter (\<lambda>r. Q r \<and> cutoff \<le> resCheckedAt r) xs)) =
      sum_list (map h (filter (\<lambda>r. Q r \<and> since \<le> resCheckedAt r) xs))" for xs
  proof (induction xs)
    case (Cons x xs)
    then show ?case using le(1) key [of x] by (cases "Q x"; cases "since \<le> resCheckedAt x"; cases "cutoff \<le> resCheckedAt x") simp_all
  qed simp
  moreover have "filter (\<lambda>r. format_date (local_day tz (ruBucket r)) = date \<and> ruRegion r = g)
      (filter (\<lambda>r. ruMonitorID r = m \<and> since \<le> ruBucket r \<and> ruBucket r < cutoff) (monitor_result_rollups tb)) =
    filter (\<lambda>r. P (ruMonitorID r, ruRegion r, ruBucket r)) (monitor_result_rollups tb)"
    unfolding filter_filter by (rule filter_cong) (auto simp: P_def)
  moreover have "filter (\<lambda>r. format_date (local_day tz (resCheckedAt r)) = date \<and> resRegion r = g)
      (filter (\<lambda>r. resMonitorID r = m \<and> t \<le> resCheckedAt r) (monitor_results tb)) =
    filter (\<lambda>r. Q r \<and> t \<le> resCheckedAt r) (monitor_results tb)" for t
    unfolding filter_filter by (rule filter_cong) (auto simp: Q_def)
  ultimately show ?thesis by (simp only: window_checks_def)
qed

lemma raw_days_positive: "\<forall>r \<in> set (raw_days tz rs). drTotal r > 0"
  by (auto simp: raw_days_def dest!: group_nonempty)

lemma rollup_days_positive: "\<forall>r \<in> set rows. ruChecks r > 0 \<Longrightarrow> \<forall>r \<in> set (rollup_days tz rows). drTotal r > 0"
  by (force simp: rollup_days_def dest!: group_nonempty intro!: sum_list_positive)

lemma refresh_positive: "r \<in> set (refresh_rollups rs) \<Longrightarrow> ruChecks r > 0"
  by (auto simp: refresh_rollups_def measured_simps dest!: group_nonempty)

lemma uptime_rows_positive:
  assumes "settled_rollups tb later"
  shows "\<forall>r \<in> set (uptime_rows tb m now later days tz). drTotal r > 0"
proof -
  let ?since = "uptime_since now days tz"
  have "ruChecks r > 0" if r: "r \<in> set (monitor_result_rollups tb)" "?since \<le> ruBucket r" "ruBucket r < uptimeRawCutoff later ?since" for r
  proof -
    have "ruBucket r < trunc_hour later - rawUptimeWindow" using r(2,3) by (auto simp: uptimeRawCutoff_def Let_def split: if_splits)
    then have "r \<in> set (refresh_rollups (monitor_results tb))"
      using r(1) assms by (simp add: settled_rollups_def) (metis (mono_tags, lifting) filter_mset_eq_conv mset_filter mem_Collect_eq set_filter set_mset_mset)
    then show ?thesis by (rule refresh_positive)
  qed
  then show ?thesis
    unfolding uptime_rows_def Let_def using raw_days_positive by (auto simp: ball_Un intro!: rollup_days_positive [rule_format])
qed

lemma by_day_merge:
  assumes s: "settled_rollups tb later" and tz: "60 dvd tz"
  shows "by_day (uptime_rows tb m now later days tz) = by_day (raw_days tz (window_checks tb m (uptime_since now days tz)))"
proof (rule ext)
  fix k :: "string \<times> string"
  obtain date g where k: "k = (date, g)" by (cases k)
  let ?since = "uptime_since now days tz"
  have eq: "tally drTotal (uptime_rows tb m now later days tz) date g = tally drTotal (raw_days tz (window_checks tb m ?since)) date g"
      "tally drAvailable (uptime_rows tb m now later days tz) date g = tally drAvailable (raw_days tz (window_checks tb m ?since)) date g"
    unfolding uptime_rows_def Let_def tally_append tally_rollup_days tally_raw_days
    by (rule legs_split [OF s tz _ refl refl], simp only: measured_simps length_as_sum)
      (rule legs_split [OF s tz _ refl refl], simp only: measured_simps available_sum)
  show "by_day (uptime_rows tb m now later days tz) k = by_day (raw_days tz (window_checks tb m ?since)) k"
    unfolding k by_day_tally [OF uptime_rows_positive [OF s], THEN conjunct1] by_day_tally [OF raw_days_positive, THEN conjunct1] eq ..
qed

text \<open>Nothing but the counts per date and region reaches the answer, whatever the order of the regions.\<close>

lemma by_day_region: "by_day rows (date, g) \<noteq> None \<Longrightarrow> g \<in> drRegion ` set rows"
proof (induction rows rule: rev_induct)
  case (snoc r rows)
  have "by_day (rows @ [r]) = add_row r (by_day rows)" by (simp add: by_day_def)
  then show ?case using snoc by (auto simp: add_row_def Let_def split: if_splits)
qed (simp add: by_day_def)

lemma reporting_set: "set (reporting rows date) = {(g, a). by_day rows (date, g) = Some a \<and> snd a \<noteq> 0}"
  using by_day_region [of rows date] by (force simp: reporting_def dedup_loop_set split: option.splits)

lemma reporting_distinct: "distinct (map fst (reporting rows date))"
proof -
  define f where "f g = [(g, a). a \<leftarrow> (case by_day rows (date, g) of None \<Rightarrow> [] | Some a \<Rightarrow> [a]), snd a \<noteq> 0]" for g
  have f: "f g = [] \<or> (\<exists>a. f g = [(g, a)])" for g by (auto simp: f_def split: option.splits)
  have "distinct (map fst (concat (map f gs))) \<and> fst ` set (concat (map f gs)) \<subseteq> set gs" if "distinct gs" for gs
    using that
  proof (induction gs)
    case (Cons g gs)
    then have ih: "distinct (map fst (concat (map f gs)))" "fst ` set (concat (map f gs)) \<subseteq> set gs" "g \<notin> set gs" by simp_all
    then have "g \<notin> fst ` set (concat (map f gs))" by blast
    then show ?case using f [of g] ih by (elim disjE exE) (simp_all, blast+)
  qed simp
  moreover have "reporting rows date = concat (map f (dedup_loop {} [] (map drRegion rows)))"
    unfolding reporting_def f_def ..
  moreover have "distinct (dedup_loop {} [] (map drRegion rows))" by (simp add: dedup_loop_distinct)
  ultimately show ?thesis by metis
qed

lemma reporting_cong: "by_day rows = by_day rows' \<Longrightarrow> mset (reporting rows date) = mset (reporting rows' date)"
  using reporting_distinct by (subst set_eq_iff_mset_eq_distinct [symmetric]) (auto simp: reporting_set distinct_map)

lemma mean_share_cong: "mset as = mset bs \<Longrightarrow> mean_share as = mean_share bs"
  by (simp add: mean_share_def flip: sum_mset_sum_list size_mset mset_zero_iff)

lemma group_totals_cong:
  fixes f :: "'k \<times> 'v \<Rightarrow> int"
  assumes "mset xs = mset ys"
  shows "mset (map (\<lambda>(k, zs). (k, sum_list (map f zs), sum_list (map f' zs))) (group_by fst xs)) =
    mset (map (\<lambda>(k, zs). (k, sum_list (map f zs), sum_list (map (f' :: _ \<Rightarrow> int) zs))) (group_by fst ys))"
proof -
  define t where "t zs k = (k, sum_mset (image_mset f (filter_mset (\<lambda>z. fst z = k) zs)), sum_mset (image_mset f' (filter_mset (\<lambda>z. fst z = k) zs)))"
    for zs :: "('k \<times> 'v) multiset" and k
  have t: "map (\<lambda>(k, zs). (k, sum_list (map f zs), sum_list (map f' zs))) (group_by fst zs) = map (t (mset zs)) (dedup_loop {} [] (map fst zs))" for zs
    by (simp add: group_by_def t_def o_def flip: sum_mset_sum_list mset_filter)
  have "set xs = set ys" using assms by (rule mset_eq_setD)
  then have "mset (dedup_loop {} [] (map fst xs)) = mset (dedup_loop {} [] (map fst ys))"
    by (subst set_eq_iff_mset_eq_distinct [symmetric]) (simp_all add: dedup_loop_distinct dedup_loop_set)
  then show ?thesis unfolding t assms by (metis mset_map)
qed

lemma uptime_cong:
  assumes "by_day rows = by_day rows'"
  shows "computeDailyUptime rows today days = computeDailyUptime rows' today days"
proof -
  have day: "daily_entry rows date = daily_entry rows' date" for date
    using mean_share_cong [of "map snd (reporting rows date)" "map snd (reporting rows' date)"] reporting_cong [OF assms, of date]
    by (simp add: daily_entry_def)
  define entries where "entries rs = concat (map (\<lambda>i. if i < 7 then reporting rs (date_before today i) else []) (rev [0..<days]))" for rs
  have e: "mset (entries rows) = mset (entries rows')"
    unfolding entries_def mset_concat map_map by (simp add: o_def if_distrib [of mset] reporting_cong [OF assms] cong: if_cong)
  have sd: "seven_day rs today days = map (\<lambda>(g, xs). (g, sum_list (map (fst \<circ> snd) xs), sum_list (map (snd \<circ> snd) xs))) (group_by fst (entries rs))" for rs
    by (simp add: seven_day_def entries_def Let_def if_distrib cong: if_cong)
  have "mset (seven_day rows today days) = mset (seven_day rows' today days)" unfolding sd by (rule group_totals_cong [OF e])
  then have "mean_share (filter (\<lambda>a. snd a \<noteq> 0) (map snd (seven_day rows today days))) =
      mean_share (filter (\<lambda>a. snd a \<noteq> 0) (map snd (seven_day rows' today days)))"
    by (intro mean_share_cong) simp
  then show ?thesis by (simp add: computeDailyUptime_def day)
qed

text \<open>C16: the availability of a window is the one its checks give, each counted once in the day and region it ran in. Reading
  the older hours from the rollups and the last 25 hours from the raw checks changes nothing, for a client at a whole
  number of hours from UTC, however stale the rollups of those last hours are.\<close>

theorem uptime_from_checks:
  assumes "settled_rollups tb later" "60 dvd tz"
  shows "GetMonitorUptime d tb monitorId userId now later days tz =
    (case select_monitor d monitorId userId of
       None \<Rightarrow> Inl ErrNotFound
     | Some _ \<Rightarrow> Inr (computeDailyUptime (raw_days tz (window_checks tb monitorId (uptime_since now days tz))) (local_day tz now) days))"
  unfolding GetMonitorUptime_def uptime_cong [OF by_day_merge [OF assms]] ..

subsection \<open>The shape of the series\<close>

definition fair :: "int \<times> int \<Rightarrow> bool" where
  "fair a \<longleftrightarrow> 0 \<le> fst a \<and> fst a \<le> snd a \<and> 0 < snd a"

definition row_counts :: "daily_row \<Rightarrow> int \<times> int" where
  "row_counts r = (drAvailable r, drTotal r)"

lemma share_bounds: "fair a \<Longrightarrow> 0 \<le> share a \<and> share a \<le> 100"
  by (auto simp: fair_def share_def field_simps)

lemma mean_share_bounds:
  assumes "\<forall>a \<in> set as. fair a" "mean_share as = Some p"
  shows "0 \<le> p \<and> p \<le> 100"
proof -
  have ne: "as \<noteq> []" and p: "p = sum_list (map share as) / rat_of_nat (length as)"
    using assms(2) by (auto simp: mean_share_def split: if_splits)
  have "0 \<le> sum_list (map share as) \<and> sum_list (map share as) \<le> 100 * rat_of_nat (length as)"
    using assms(1)
  proof (induction as)
    case (Cons a as)
    then show ?case using share_bounds [of a] by (auto simp: algebra_simps)
  qed simp
  then show ?thesis using ne by (simp add: p field_simps)
qed

lemma tally_fair:
  assumes "\<forall>r \<in> set rows. fair (row_counts r)" "tally drTotal rows date g \<noteq> 0"
  shows "fair (tally drAvailable rows date g, tally drTotal rows date g)"
proof -
  have "0 \<le> tally drAvailable rows date g \<and> tally drAvailable rows date g \<le> tally drTotal rows date g"
    using assms(1) by (induction rows) (auto simp: tally_def fair_def row_counts_def)
  then show ?thesis using assms(2) by (auto simp: fair_def)
qed

lemma reporting_fair:
  assumes "\<forall>r \<in> set rows. fair (row_counts r)" "(g, a) \<in> set (reporting rows date)"
  shows "fair a"
proof -
  have pos: "\<forall>r \<in> set rows. drTotal r > 0" using assms(1) by (simp add: fair_def row_counts_def)
  show ?thesis
    using assms(2) by_day_tally [OF pos, of date g] tally_fair [OF assms(1), of date g] by (auto simp: reporting_set split: if_splits)
qed

lemma reporting_empty:
  assumes "\<forall>r \<in> set rows. fair (row_counts r)"
  shows "reporting rows date = [] \<longleftrightarrow> (\<forall>r \<in> set rows. format_date (drDay r) \<noteq> date)"
proof -
  have pos: "\<forall>r \<in> set rows. drTotal r > 0" using assms by (simp add: fair_def row_counts_def)
  have zero: "tally drTotal rows date g = 0 \<longleftrightarrow> (\<forall>r \<in> set rows. \<not> (format_date (drDay r) = date \<and> drRegion r = g))" for g
    using sum_list_positive [of "filter (\<lambda>r. format_date (drDay r) = date \<and> drRegion r = g) rows" drTotal] pos
    by (fastforce simp: tally_def filter_empty_conv)
  have "reporting rows date = [] \<longleftrightarrow> (\<forall>g. tally drTotal rows date g = 0)"
    unfolding set_empty [symmetric] reporting_set using by_day_tally [OF pos, of date] by auto
  then show ?thesis by (auto simp: zero)
qed

lemma entry_shape:
  assumes "\<forall>r \<in> set rows. fair (row_counts r)"
  shows "duDate (daily_entry rows date) = date"
    "duMonitored (daily_entry rows date) \<longleftrightarrow> (\<exists>r \<in> set rows. format_date (drDay r) = date)"
    "duMonitored (daily_entry rows date) \<longleftrightarrow> duUptimePercent (daily_entry rows date) \<noteq> None"
    "duUptimePercent (daily_entry rows date) = Some p \<Longrightarrow> 0 \<le> p \<and> p \<le> 100"
proof -
  have "\<forall>a \<in> set (map snd (reporting rows date)). fair a" using reporting_fair [OF assms] by fastforce
  then show "duUptimePercent (daily_entry rows date) = Some p \<Longrightarrow> 0 \<le> p \<and> p \<le> 100"
    using mean_share_bounds [of "map snd (reporting rows date)"] by (simp add: daily_entry_def Let_def)
qed (use reporting_empty [OF assms, of date] in \<open>auto simp: daily_entry_def Let_def mean_share_def split: if_splits\<close>)

lemma seven_day_shape:
  assumes "\<forall>r \<in> set rows. fair (row_counts r)"
  shows "\<forall>x \<in> set (seven_day rows today days). fair (snd x)"
    "seven_day rows today days = [] \<longleftrightarrow> (\<forall>i < min 7 days. reporting rows (date_before today i) = [])"
proof -
  define entries where "entries = concat (map (\<lambda>i. if i < 7 then reporting rows (date_before today i) else []) (rev [0..<days]))"
  have sd: "seven_day rows today days =
      map (\<lambda>(g, xs). (g, sum_list (map (fst \<circ> snd) xs), sum_list (map (snd \<circ> snd) xs))) (group_by fst entries)"
    by (simp add: seven_day_def entries_def Let_def if_distrib cong: if_cong)
  have entry: "fair (snd x)" if "x \<in> set entries" for x
    using that reporting_fair [OF assms, of "fst x" "snd x"] by (auto simp: entries_def split: if_splits)
  have total: "fair (sum_list (map (fst \<circ> snd) xs), sum_list (map (snd \<circ> snd) xs))"
    if xs: "xs \<noteq> []" "set xs \<subseteq> set entries" for xs
  proof -
    have all: "\<forall>x \<in> set xs. fair (snd x)" using xs(2) entry by blast
    have "0 \<le> sum_list (map (fst \<circ> snd) xs)" using all by (intro sum_list_nonneg) (auto simp: fair_def)
    moreover have "sum_list (map (fst \<circ> snd) xs) \<le> sum_list (map (snd \<circ> snd) xs)"
      using all by (intro sum_list_mono) (auto simp: fair_def)
    moreover have "0 < sum_list (map (snd \<circ> snd) xs)" using all by (intro sum_list_positive [OF xs(1)]) (auto simp: fair_def)
    ultimately show ?thesis by (simp add: fair_def)
  qed
  show "\<forall>x \<in> set (seven_day rows today days). fair (snd x)"
    by (auto simp: sd simp del: o_apply dest!: group_nonempty intro: total)
  have "seven_day rows today days = [] \<longleftrightarrow> entries = []"
    using group_keys(1) [of fst entries] by (auto simp: sd group_by_def)
  then show "seven_day rows today days = [] \<longleftrightarrow> (\<forall>i < min 7 days. reporting rows (date_before today i) = [])"
    by (auto simp: entries_def split: if_splits)
qed

text \<open>Whatever the queries count, the series has one entry per requested day, oldest first and with pairwise different
  dates ending today; an entry is monitored exactly when some check ran that day and then has a percentage between 0 and
  100, and the seven-day figure is missing exactly when no check ran in the last seven of the days, and is between 0 and
  100 otherwise.\<close>

theorem uptime_series_shape:
  assumes "\<forall>r \<in> set rows. 0 \<le> drAvailable r \<and> drAvailable r \<le> drTotal r \<and> 0 < drTotal r"
    "computeDailyUptime rows today days = (series, week)"
  shows "map duDate series = map (date_before today) (rev [0..<days]) \<and> distinct (map duDate series) \<and>
    (\<forall>e \<in> set series. (duMonitored e \<longleftrightarrow> (\<exists>r \<in> set rows. format_date (drDay r) = duDate e)) \<and>
       (case duUptimePercent e of None \<Rightarrow> \<not> duMonitored e | Some p \<Rightarrow> duMonitored e \<and> 0 \<le> p \<and> p \<le> 100)) \<and>
    (case week of None \<Rightarrow> \<forall>i < min 7 days. \<forall>r \<in> set rows. format_date (drDay r) \<noteq> date_before today i
       | Some p \<Rightarrow> 0 \<le> p \<and> p \<le> 100 \<and> (\<exists>i < min 7 days. \<exists>r \<in> set rows. format_date (drDay r) = date_before today i))"
proof (intro conjI)
  have f: "\<forall>r \<in> set rows. fair (row_counts r)" using assms(1) by (simp add: fair_def row_counts_def)
  have series: "series = map (\<lambda>i. daily_entry rows (date_before today i)) (rev [0..<days])"
    and week: "week = mean_share (filter (\<lambda>a. snd a \<noteq> 0) (map snd (seven_day rows today days)))"
    using assms(2) by (auto simp: computeDailyUptime_def)
  have dates: "map duDate series = map (date_before today) (rev [0..<days])" by (simp add: series o_def entry_shape(1) [OF f])
  then show "map duDate series = map (date_before today) (rev [0..<days])" .
  have "inj (date_before today)"
    by (rule injI) (simp add: date_before_def format_date_inj day_number_def)
  then show "distinct (map duDate series)" unfolding dates by (simp add: distinct_map inj_on_def inj_def)
  show "\<forall>e \<in> set series. (duMonitored e \<longleftrightarrow> (\<exists>r \<in> set rows. format_date (drDay r) = duDate e)) \<and>
       (case duUptimePercent e of None \<Rightarrow> \<not> duMonitored e | Some p \<Rightarrow> duMonitored e \<and> 0 \<le> p \<and> p \<le> 100)"
  proof
    fix e
    assume "e \<in> set series"
    then obtain i where i: "e = daily_entry rows (date_before today i)" by (auto simp: series)
    show "(duMonitored e \<longleftrightarrow> (\<exists>r \<in> set rows. format_date (drDay r) = duDate e)) \<and>
       (case duUptimePercent e of None \<Rightarrow> \<not> duMonitored e | Some p \<Rightarrow> duMonitored e \<and> 0 \<le> p \<and> p \<le> 100)"
      unfolding i entry_shape(1) [OF f] entry_shape(3) [OF f, symmetric]
      using entry_shape(2-4) [OF f, where date = "date_before today i"] by (auto split: option.splits)
  qed
  have pos: "filter (\<lambda>a. snd a \<noteq> 0) (map snd (seven_day rows today days)) = map snd (seven_day rows today days)"
    unfolding filter_id_conv using seven_day_shape(1) [OF f, of today days] by (fastforce simp: fair_def)
  show "case week of None \<Rightarrow> \<forall>i < min 7 days. \<forall>r \<in> set rows. format_date (drDay r) \<noteq> date_before today i
       | Some p \<Rightarrow> 0 \<le> p \<and> p \<le> 100 \<and> (\<exists>i < min 7 days. \<exists>r \<in> set rows. format_date (drDay r) = date_before today i)"
  proof (cases week)
    case None
    then show ?thesis using seven_day_shape(2) [OF f] reporting_empty [OF f] by (simp add: week pos mean_share_def split: if_splits)
  next
    case (Some p)
    have "\<forall>a \<in> set (map snd (seven_day rows today days)). fair a" using seven_day_shape(1) [OF f] by simp
    then have "0 \<le> p \<and> p \<le> 100" using Some mean_share_bounds unfolding week pos by blast
    moreover have "seven_day rows today days \<noteq> []" using Some by (auto simp: week pos mean_share_def split: if_splits)
    ultimately show ?thesis using Some seven_day_shape(2) [OF f] reporting_empty [OF f] by auto
  qed
qed

subsection \<open>The series of latencies\<close>

definition sample_ok :: "int \<Rightarrow> int \<Rightarrow> sample \<Rightarrow> bool" where
  "sample_ok lo hi x \<longleftrightarrow> 0 < smCount x \<and> lo * smCount x \<le> smSum x \<and> smSum x \<le> hi * smCount x"

definition bucket_ok :: "int \<Rightarrow> int \<Rightarrow> int \<times> int \<Rightarrow> bool" where
  "bucket_ok lo hi b \<longleftrightarrow> 0 \<le> snd b \<and> lo * snd b \<le> fst b \<and> fst b \<le> hi * snd b"

definition times_ok :: "instant \<Rightarrow> instant \<Rightarrow> stat_point list \<Rightarrow> bool" where
  "times_ok since until ps \<longleftrightarrow> length ps \<le> statBuckets \<and> sorted_wrt (<) (map spTimestamp ps) \<and>
     (\<forall>p \<in> set ps. since \<le> spTimestamp p \<and> spTimestamp p \<le> until)"

definition averages_ok :: "int \<Rightarrow> int \<Rightarrow> stat_point list \<Rightarrow> bool" where
  "averages_ok lo hi ps \<longleftrightarrow> (\<forall>p \<in> set ps. rat_of_int lo \<le> spAvgLatency p \<and> spAvgLatency p \<le> rat_of_int hi)"

lemma fill_length: "length (fold (fill_bucket since dur) xs bs) = length bs"
  by (induction xs arbitrary: bs) (simp_all add: fill_bucket_def Let_def)

lemma bucket_index_bound: "bucket_index since dur t < statBuckets"
  by (auto simp: bucket_index_def Let_def statBuckets_def)

lemma buckets_ok:
  assumes "\<forall>x \<in> set xs. sample_ok lo hi x" "length bs = statBuckets" "list_all (bucket_ok lo hi) bs"
  shows "length (fold (fill_bucket since dur) xs bs) = statBuckets \<and> list_all (bucket_ok lo hi) (fold (fill_bucket since dur) xs bs)"
  using assms
proof (induction xs arbitrary: bs)
  case (Cons x xs)
  let ?i = "bucket_index since dur (smAt x)"
  have i: "?i < length bs" using bucket_index_bound Cons.prems(2) by simp
  have "bucket_ok lo hi (fst (bs ! ?i) + smSum x, snd (bs ! ?i) + smCount x)"
    using Cons.prems(1,3) i by (auto simp: list_all_length bucket_ok_def sample_ok_def distrib_left intro: add_mono)
  then have "list_all (bucket_ok lo hi) (fill_bucket since dur x bs)"
    using Cons.prems(3) i by (auto simp: fill_bucket_def Let_def list_all_length nth_list_update)
  moreover have "length (fill_bucket since dur x bs) = statBuckets" using Cons.prems(2) by (simp add: fill_bucket_def Let_def)
  ultimately show ?case using Cons.IH Cons.prems(1) by simp
qed simp

lemma bucket_points_alt: "bucket_points since dur bs =
  map (\<lambda>(i, s, n). \<lparr>spTimestamp = since + (int i * dur + dur sdiv 2), spAvgLatency = rat_of_int s / rat_of_int n\<rparr>)
    (filter (\<lambda>(i, s, n). n \<noteq> 0) (enumerate 0 bs))"
  unfolding bucket_points_def by (induction bs rule: rev_induct) (auto simp: enumerate_append_eq)

lemma sorted_enumerate_filter: "sorted_wrt (<) (map fst (filter P (enumerate k bs)))"
proof -
  have "sorted_wrt (<) (map fst (enumerate k bs))" by (simp add: enumerate_eq_zip)
  then show ?thesis unfolding sorted_wrt_map by (rule sorted_wrt_filter)
qed

lemma points_times:
  assumes "0 < dur" "length bs = statBuckets" "since + int statBuckets * dur \<le> until"
  shows "times_ok since until (bucket_points since dur bs)"
  unfolding times_ok_def
proof (intro conjI)
  show "length (bucket_points since dur bs) \<le> statBuckets"
    using length_filter_le [of _ "enumerate 0 bs"] assms(2) by (simp add: bucket_points_alt)
  have "sorted_wrt (\<lambda>x y. since + (int (fst x) * dur + dur sdiv 2) < since + (int (fst y) * dur + dur sdiv 2))
      (filter (\<lambda>(i, s, n). n \<noteq> 0) (enumerate 0 bs))"
    using sorted_enumerate_filter [unfolded sorted_wrt_map] by (rule sorted_wrt_mono_rel [rotated]) (use assms(1) in simp)
  then show "sorted_wrt (<) (map spTimestamp (bucket_points since dur bs))"
    by (simp add: bucket_points_alt sorted_wrt_map o_def split_def)
  have "since \<le> since + (int i * dur + dur sdiv 2) \<and> since + (int i * dur + dur sdiv 2) \<le> until"
    if "(i, s, n) \<in> set (enumerate 0 bs)" for i s n
  proof -
    have i: "i < statBuckets" using that assms(2) by (auto simp: in_set_enumerate_eq)
    have half: "0 \<le> dur sdiv 2" "dur sdiv 2 \<le> dur" using assms(1) by (auto simp: signed_divide_int_def)
    have "int i * dur + dur \<le> int statBuckets * dur"
      using i assms(1) mult_right_mono [of "int i + 1" "int statBuckets" dur] by (simp add: distrib_right)
    moreover have "0 \<le> int i * dur" using assms(1) by simp
    ultimately show ?thesis using half assms(3) by linarith
  qed
  then show "\<forall>p \<in> set (bucket_points since dur bs). since \<le> spTimestamp p \<and> spTimestamp p \<le> until"
    by (auto simp: bucket_points_alt)
qed

lemma points_averages:
  assumes "list_all (bucket_ok lo hi) bs"
  shows "averages_ok lo hi (bucket_points since dur bs)"
proof -
  have "rat_of_int lo \<le> rat_of_int s / rat_of_int n \<and> rat_of_int s / rat_of_int n \<le> rat_of_int hi"
    if b: "(i, s, n) \<in> set (enumerate 0 bs)" "n \<noteq> 0" for i s n
  proof -
    have "bucket_ok lo hi (s, n)" using b(1) assms by (auto simp: in_set_enumerate_eq list_all_length)
    then have n: "0 < n" "lo * n \<le> s" "s \<le> hi * n" using b(2) by (auto simp: bucket_ok_def)
    have "rat_of_int lo * rat_of_int n \<le> rat_of_int s" "rat_of_int s \<le> rat_of_int hi * rat_of_int n"
      using n(2,3) by (simp_all flip: of_int_mult)
    then show ?thesis using n(1) by (simp add: field_simps)
  qed
  then show ?thesis by (auto simp: averages_ok_def bucket_points_alt)
qed

lemma bucket_span_fits:
  assumes "0 < bucket_span since until" "since < until"
  shows "since + int statBuckets * bucket_span since until \<le> until"
proof -
  have span: "0 < time_sub until since" "time_sub until since \<le> until - since"
    using assms(2) by (auto simp: time_sub_def min_duration_def max_duration_def)
  then have "bucket_span since until = time_sub until since div 48"
    by (simp add: bucket_span_def Let_def statBuckets_def signed_divide_int_def)
  moreover have "48 * (time_sub until since div 48) \<le> time_sub until since" by simp
  ultimately show ?thesis using span(2) by (simp add: statBuckets_def)
qed

text \<open>When the points lie, whatever the samples hold; and what they show, when a sample's sum is between its
  count times its extremes.\<close>

lemma stats_of_times:
  assumes "0 < bucket_span since until" "since < until" "stats_of checks xs since until = Some s"
  shows "times_ok since until (msPoints s)"
proof -
  have "msPoints s = bucket_points since (bucket_span since until)
      (fold (fill_bucket since (bucket_span since until)) xs (replicate statBuckets (0, 0)))"
    using assms(3) by (auto simp: stats_of_def Let_def split: prod.splits if_splits)
  then show ?thesis
    using points_times [OF assms(1) _ bucket_span_fits [OF assms(1,2)]] by (simp add: fill_length)
qed

lemma stats_of_averages:
  assumes xs: "\<forall>x \<in> set xs. sample_ok (smMin x) (smMax x) x" and dur: "0 < bucket_span since until"
    and s: "stats_of checks xs since until = Some s"
  shows "averages_ok (msMinLatency s) (msMaxLatency s) (msPoints s)"
proof (cases "xs = []")
  case True
  have "bucket_points since dur (replicate n (0, 0)) = []" for dur n
    by (auto simp: bucket_points_alt filter_empty_conv in_set_enumerate_eq)
  then show ?thesis using s True by (auto simp: stats_of_def no_stats_def averages_ok_def Let_def split: if_splits)
next
  case False
  let ?lo = "Min (smMin ` set xs)" and ?hi = "Max (smMax ` set xs)" and ?dur = "bucket_span since until"
  define bs where "bs = fold (fill_bucket since ?dur) xs (replicate statBuckets (0, 0))"
  have pos: "\<forall>x \<in> set xs. smCount x > 0" using xs by (simp add: sample_ok_def)
  then have sum: "sum_list (map smCount xs) > 0" using sum_list_positive [OF False] by blast
  have "sample_ok ?lo ?hi x" if x: "x \<in> set xs" for x
  proof -
    have "?lo \<le> smMin x" "smMax x \<le> ?hi" using x by auto
    then have "?lo * smCount x \<le> smMin x * smCount x" "smMax x * smCount x \<le> ?hi * smCount x"
      using pos x by (simp_all add: mult_right_mono)
    then show ?thesis using bspec [OF xs x] unfolding sample_ok_def by (elim conjE, intro conjI) (assumption | linarith)+
  qed
  then have "length bs = statBuckets \<and> list_all (bucket_ok ?lo ?hi) bs"
    unfolding bs_def by (intro buckets_ok) (auto simp: bucket_ok_def list_all_length)
  then have "averages_ok ?lo ?hi (bucket_points since ?dur bs)" using points_averages by blast
  moreover have "msPoints s = bucket_points since ?dur bs" "msMinLatency s = ?lo" "msMaxLatency s = ?hi"
    using s sum dur unfolding stats_of_def lat_fold [OF pos False] bs_def by (auto simp: Let_def split: if_splits)
  ultimately show ?thesis by simp
qed

text \<open>A rollup whose sum is between its count times its extremes. Every rollup that \<^verbatim>\<open>refresh_rollups\<close> writes is one;
  hours that ended before the raw checks the migration \<^verbatim>\<open>20260909120000\<close> could still see keep a sum that counts the
  failed checks, and need not be.\<close>

definition rollup_ok :: "rollup \<Rightarrow> bool" where
  "rollup_ok r \<longleftrightarrow> 0 \<le> latencyChecks r \<and> ruMinLatency r * latencyChecks r \<le> ruSumLatency r \<and> ruSumLatency r \<le> ruMaxLatency r * latencyChecks r"

lemma sum_list_between:
  fixes lo hi :: int
  shows "\<forall>x \<in> set ys. lo \<le> x \<and> x \<le> hi \<Longrightarrow> lo * int (length ys) \<le> sum_list ys \<and> sum_list ys \<le> hi * int (length ys)"
  by (induction ys) (auto simp: distrib_left)

lemma refreshed_ok:
  assumes "r \<in> set (refresh_rollups rs)"
  shows "rollup_ok r"
proof -
  obtain k xs where r: "r = rollup_of (k, xs)" using assms by (auto simp: refresh_rollups_def)
  show ?thesis
  proof (cases "measured xs = []")
    case True
    then show ?thesis by (simp add: r rollup_ok_def measured_simps(1,2))
  next
    case False
    let ?ys = "map resLatency (measured xs)"
    have "\<forall>y \<in> set ?ys. Min (set ?ys) \<le> y \<and> y \<le> Max (set ?ys)" by simp
    from sum_list_between [OF this] show ?thesis using False by (simp add: r rollup_ok_def measured_simps)
  qed
qed

lemma stats_of_some: "0 < bucket_span since until \<Longrightarrow> \<exists>s. stats_of checks xs since until = Some s"
  by (auto simp: stats_of_def Let_def split: prod.splits)

lemma no_stats_series [simp]: "times_ok since until (msPoints no_stats)" "averages_ok lo hi (msPoints no_stats)"
  by (simp_all add: times_ok_def averages_ok_def no_stats_def)

lemma raw_stats_series:
  assumes "0 < bucket_span since until" "since < until"
  shows "\<exists>s. computeStats rs since until = Some s \<and> times_ok since until (msPoints s)
    \<and> averages_ok (msMinLatency s) (msMaxLatency s) (msPoints s)"
proof -
  let ?xs = "map result_sample (filter (\<lambda>r. measuredLatency (resStatus r)) rs)"
  have "\<forall>x \<in> set ?xs. sample_ok (smMin x) (smMax x) x" by (simp add: result_sample_def sample_ok_def)
  then show ?thesis
    using stats_of_some [OF assms(1), of "int (length rs)" ?xs] stats_of_times [OF assms] stats_of_averages [OF _ assms(1)]
    unfolding computeStats_def by (cases "rs = []") (simp, metis)
qed

lemma rollup_stats_series:
  assumes "0 < bucket_span since until" "since < until"
  shows "\<exists>s. computeStatsFromRollups rows since until = Some s \<and> times_ok since until (msPoints s)
    \<and> ((\<forall>r \<in> set rows. rollup_ok r) \<longrightarrow> averages_ok (msMinLatency s) (msMaxLatency s) (msPoints s))"
proof -
  let ?xs = "map rollup_sample (filter (\<lambda>r. latencyChecks r \<noteq> 0) rows)"
  have "(\<forall>r \<in> set rows. rollup_ok r) \<longrightarrow> (\<forall>x \<in> set ?xs. sample_ok (smMin x) (smMax x) x)"
    by (auto simp: rollup_sample_def sample_ok_def rollup_ok_def)
  then show ?thesis
    using stats_of_some [OF assms(1), of "sum_list (map ruChecks rows)" ?xs] stats_of_times [OF assms] stats_of_averages [OF _ assms(1)]
    unfolding computeStatsFromRollups_def Let_def by (cases "rows = [] \<or> sum_list (map ruChecks rows) = 0") (simp, metis)
qed

lemma region_name [simp]: "rgRegion (to_region_stats g x) = g"
  by (simp add: to_region_stats_def)

lemma with_regions_spec:
  assumes "\<And>g. \<exists>x. f g = Some x"
  shows "with_regions f gs s = Some (s\<lparr>msRegions := msRegions s @ map (\<lambda>g. to_region_stats g (the (f g))) gs\<rparr>)"
proof (induction gs arbitrary: s)
  case (Cons g gs)
  obtain x where "f g = Some x" using assms by blast
  then show ?case by (simp add: Cons)
qed simp

lemma stats_totals:
  "computeStats rs since until = Some s \<Longrightarrow> msTotalChecks s = int (length rs) \<and> msRegions s = []"
  "computeStatsFromRollups rows since until = Some s \<Longrightarrow> msTotalChecks s = sum_list (map ruChecks rows) \<and> msRegions s = []"
  by (auto simp: computeStats_def computeStatsFromRollups_def stats_of_def no_stats_def Let_def split: if_splits prod.splits)

definition regions_ok :: "instant \<Rightarrow> instant \<Rightarrow> monitor_stats \<Rightarrow> bool" where
  "regions_ok since until s \<longleftrightarrow> distinct (map rgRegion (msRegions s)) \<and> sum_list (map rgTotalChecks (msRegions s)) = msTotalChecks s"

text \<open>What the statistics of a window are like: the raw ones, and those from rollups.\<close>

lemma raw_window_ok:
  assumes dur: "0 < bucket_span since until" "since < until" and raw: "time_sub until since \<le> rawStatsWindow"
  shows "\<exists>s. stats_window tb m since until = Some s \<and> times_ok since until (msPoints s) \<and> regions_ok since until s
    \<and> averages_ok (msMinLatency s) (msMaxLatency s) (msPoints s)"
proof -
  define rs where "rs = sort_key resCheckedAt (filter (\<lambda>r. resMonitorID r = m \<and> resCheckedAt r \<ge> since) (monitor_results tb))"
  define f where "f g = computeStats (filter (\<lambda>r. resRegion r = g) rs) since until" for g
  have f: "\<exists>x. f g = Some x" for g unfolding f_def using raw_stats_series [OF dur] by blast
  obtain s where s: "computeStats rs since until = Some s" "times_ok since until (msPoints s)"
      "averages_ok (msMinLatency s) (msMaxLatency s) (msPoints s)" using raw_stats_series [OF dur] by blast
  have total: "rgTotalChecks (to_region_stats g (the (f g))) = sum_list (map (\<lambda>_. 1) (filter (\<lambda>r. resRegion r = g) rs))" for g
    using f [of g] stats_totals(1) [of "filter (\<lambda>r. resRegion r = g) rs"] by (auto simp: to_region_stats_def f_def length_as_sum)
  have "sum_list (map (\<lambda>g. sum_list (map (\<lambda>_. 1 :: int) (filter (\<lambda>r. resRegion r = g) rs))) (resultRegions rs)) = int (length rs)"
    by (subst sum_by_key) (simp_all add: resultRegions_def dedup_loop_distinct dedup_loop_set length_as_sum cong: filter_cong)
  then show ?thesis
    using raw s f stats_totals(1) [OF s(1)]
    by (auto simp: stats_window_def Let_def f_def [symmetric] rs_def [symmetric] with_regions_spec [OF f] regions_ok_def o_def total
        resultRegions_def dedup_loop_distinct)
qed

lemma rollup_window_ok:
  assumes dur: "0 < bucket_span since until" "since < until" and raw: "\<not> time_sub until since \<le> rawStatsWindow"
  shows "\<exists>s. stats_window tb m since until = Some s \<and> times_ok since until (msPoints s) \<and> regions_ok since until s
    \<and> ((\<forall>r \<in> set (monitor_result_rollups tb). ruMonitorID r = m \<longrightarrow> rollup_ok r) \<longrightarrow>
        averages_ok (msMinLatency s) (msMaxLatency s) (msPoints s))"
proof -
  define rows where "rows = sort_key ruBucket (filter (\<lambda>r. ruMonitorID r = m \<and> ruBucket r \<ge> trunc_hour since) (monitor_result_rollups tb))"
  define f where "f g = computeStatsFromRollups (filter (\<lambda>r. ruRegion r = g) rows) since until" for g
  have ok: "(\<forall>r \<in> set (monitor_result_rollups tb). ruMonitorID r = m \<longrightarrow> rollup_ok r) \<longrightarrow> (\<forall>r \<in> set rows. rollup_ok r)"
    by (simp add: rows_def)
  have f: "\<exists>x. f g = Some x" for g unfolding f_def using rollup_stats_series [OF dur] by blast
  obtain s where s: "computeStatsFromRollups rows since until = Some s" "times_ok since until (msPoints s)"
      "(\<forall>r \<in> set rows. rollup_ok r) \<longrightarrow> averages_ok (msMinLatency s) (msMaxLatency s) (msPoints s)"
    using rollup_stats_series [OF dur] by blast
  have total: "rgTotalChecks (to_region_stats g (the (f g))) = sum_list (map ruChecks (filter (\<lambda>r. ruRegion r = g) rows))" for g
    using f [of g] stats_totals(2) [of "filter (\<lambda>r. ruRegion r = g) rows"] by (auto simp: to_region_stats_def f_def)
  have "sum_list (map (\<lambda>g. sum_list (map ruChecks (filter (\<lambda>r. ruRegion r = g) rows))) (rollupRegions rows)) = sum_list (map ruChecks rows)"
    by (subst sum_by_key) (simp_all add: rollupRegions_def dedup_loop_distinct dedup_loop_set cong: filter_cong)
  then show ?thesis
    using raw s ok f stats_totals(2) [OF s(1)]
    by (auto simp: stats_window_def Let_def f_def [symmetric] rows_def [symmetric] with_regions_spec [OF f] regions_ok_def o_def total
        rollupRegions_def dedup_loop_distinct)
qed

subsection \<open>Witnesses\<close>

definition sample_check :: "instant \<Rightarrow> string \<Rightarrow> status \<Rightarrow> int \<Rightarrow> monitor_result" where
  "sample_check t region st latency = \<lparr>resID = ''r'', resMonitorID = ''m1'', resStatus = st, resLatency = latency, resStatusCode = None,
     resMessage = None, resRegion = region, resCheckedAt = t\<rparr>"

definition sample_checks :: "monitor_result list" where
  "sample_checks = [sample_check (2 * hour) ''ca-east'' UP 120, sample_check (2 * hour + second) ''ca-east'' DOWN 30000,
     sample_check (40 * hour) ''eu-west'' DEGRADED 900]"

definition sample_tables :: check_tables where
  "sample_tables = \<lparr>monitor_results = sample_checks, monitor_result_rollups = refresh_rollups sample_checks, incidents = []\<rparr>"

theorem rollups_match_raw_witness:
  "\<exists>t. computeStatsFromRollups (refresh_rollups sample_checks) 0 (48 * hour) = Some t \<and>
     msMinLatency t = 120 \<and> msMaxLatency t = 900 \<and> msAvgLatency t = 510 \<and> msTotalChecks t = 3"
proof -
  have "bucket_span 0 (48 * hour) \<noteq> 0"
    by (simp add: bucket_span_def Let_def statBuckets_def signed_divide_int_def time_sub_def min_duration_def max_duration_def)
  then obtain s t where st: "computeStats sample_checks 0 (48 * hour) = Some s"
      "computeStatsFromRollups (refresh_rollups sample_checks) 0 (48 * hour) = Some t"
      "msMinLatency t = msMinLatency s \<and> msMaxLatency t = msMaxLatency s \<and> msAvgLatency t = msAvgLatency s \<and> msTotalChecks t = msTotalChecks s"
    using rollups_match_raw by blast
  from st(1) have "msMinLatency s = 120 \<and> msMaxLatency s = 900 \<and> msAvgLatency s = 510 \<and> msTotalChecks s = 3"
    by (auto simp: computeStats_def stats_of_def sample_checks_def sample_check_def measuredLatency_def result_sample_def lat_step_def Let_def no_stats_def
        split: if_splits)
  then show ?thesis using st by simp
qed

theorem uptime_from_checks_witness:
  "settled_rollups sample_tables (48 * hour) \<and>
   GetMonitorUptime sample_db sample_tables ''m1'' ''ann'' (48 * hour) (48 * hour) 3 60 =
     Inr (computeDailyUptime (raw_days 60 (window_checks sample_tables ''m1'' (uptime_since (48 * hour) 3 60))) (local_day 60 (48 * hour)) 3)"
proof -
  have s: "settled_rollups sample_tables (48 * hour)" by (simp add: settled_rollups_def sample_tables_def)
  have "select_monitor sample_db ''m1'' ''ann'' \<noteq> None"
    by (simp add: select_monitor_def sample_db_def sample_monitor_def monitorAccessClause_def is_member_def)
  then show ?thesis using s uptime_from_checks [OF s, of 60 sample_db "''m1''" "''ann''" "48 * hour" 3] by (auto simp del: mult_numeral_left_semiring_numeral)
qed

theorem uptime_series_shape_witness:
  "let rows = [\<lparr>drDay = 0, drRegion = ''ca-east'', drAvailable = 1, drTotal = 2\<rparr>, \<lparr>drDay = day, drRegion = ''eu-west'', drAvailable = 1, drTotal = 1\<rparr>];
       r = computeDailyUptime rows (2 * day) 3
   in map duDate (fst r) = [''1970-01-01'', ''1970-01-02'', ''1970-01-03''] \<and> distinct (map duDate (fst r)) \<and> duMonitored (fst r ! 0) \<and> snd r \<noteq> None"
proof -
  define rows where "rows = [\<lparr>drDay = 0, drRegion = ''ca-east'', drAvailable = 1, drTotal = 2\<rparr>, \<lparr>drDay = day, drRegion = ''eu-west'', drAvailable = 1, drTotal = 1\<rparr>]"
  obtain series week where r: "computeDailyUptime rows (2 * day) 3 = (series, week)" by fastforce
  have ok: "\<forall>r \<in> set rows. 0 \<le> drAvailable r \<and> drAvailable r \<le> drTotal r \<and> 0 < drTotal r" by (simp add: rows_def)
  note shape = uptime_series_shape [OF ok r]
  have dates: "map (date_before (2 * day)) (rev [0..<3]) = [''1970-01-01'', ''1970-01-02'', ''1970-01-03'']"
    by (simp add: date_before_def upt_rec) code_simp
  have m: "map duDate series = [''1970-01-01'', ''1970-01-02'', ''1970-01-03'']" using shape [THEN conjunct1] dates by (rule trans)
  then have first: "series ! 0 \<in> set series" "duDate (series ! 0) = ''1970-01-01''" by (cases series; simp)+
  then have "duMonitored (series ! 0) \<longleftrightarrow> (\<exists>r \<in> set rows. format_date (drDay r) = ''1970-01-01'')"
    using shape [THEN conjunct2, THEN conjunct2, THEN conjunct1] by fastforce
  then have "duMonitored (series ! 0)" using format_date_samples(1) by (simp add: rows_def)
  moreover have "week \<noteq> None"
  proof
    assume "week = None"
    then have "\<forall>i < min 7 3. \<forall>r \<in> set rows. format_date (drDay r) \<noteq> date_before (2 * day) i"
      using shape [THEN conjunct2, THEN conjunct2, THEN conjunct2] by simp
    then show False by (force simp: rows_def date_before_def dest!: spec [where x = 2])
  qed
  ultimately show ?thesis using shape [THEN conjunct2, THEN conjunct1] m unfolding Let_def rows_def [symmetric] r fst_conv snd_conv by blast
qed

end
