(* ===== verification/Expiry.thy ===== *)
theory Expiry
  imports Worker Target Civil StoreLaws
begin

section \<open>Certificate and domain expiry\<close>

text \<open>
  The expiry sweeper (\<^verbatim>\<open>internal/scheduler/expiry.go\<close>), the queries that hand it work and record what
  it finds (\<^verbatim>\<open>ClaimDueExpiryChecks\<close> and \<^verbatim>\<open>RecordExpiryCheck\<close> of \<^verbatim>\<open>store_scheduler.go\<close>,
  \<^verbatim>\<open>GetMonitorExpiryStatus\<close> of \<^verbatim>\<open>store.go\<close>) and the domain lookup
  (\<^verbatim>\<open>internal/monitor/domaincheck.go\<close>). The TLS handshake, the RDAP request and the public suffix
  list are parameters. The answer of the database function \<^verbatim>\<open>maintenance.in_maintenance\<close> is an
  argument here and the calls of \<^verbatim>\<open>maintenance.enqueue_monitor_alerts\<close> are recorded, so that
  \<^emph>\<open>to alert\<close> means to request an alert; theory \<open>Incidents\<close> models both functions, and says what becomes
  of the request. A \<^verbatim>\<open>timestamptz\<close> column keeps microseconds; bun formats a Go time with six digits of
  fraction, which cuts the nanoseconds off.
\<close>

subsection \<open>Data\<close>

datatype expiry_kind = CERT | DOMAIN | OtherExpiry string

record expiry_row =
  exMonitorID :: ident
  exKind :: expiry_kind
  exExpiresAt :: "instant option"
  exCheckedAt :: instant
  exLastError :: "string option"
  exLastAlertBucket :: "int option"
  exAlertedExpiresAt :: "instant option"

record expiry_claim =
  ecMonitorID :: ident
  ecKind :: expiry_kind
  ecTarget :: string
  ecThresholdDays :: int

record expiry_state =
  expiry_status :: "expiry_row list"
  expiry_alerts :: "(ident \<times> status \<times> string) list"

definition ex_key :: "expiry_row \<Rightarrow> ident \<times> expiry_kind" where
  "ex_key r = (exMonitorID r, exKind r)"

definition pg_time :: "instant \<Rightarrow> instant" where
  "pg_time t = t div 1000 * 1000"

subsection \<open>Looking a domain up\<close>

definition RegistrableDomain ::
    "net_env \<Rightarrow> (string \<Rightarrow> string + string) \<Rightarrow> string \<Rightarrow> string + string" where
  "RegistrableDomain n etld target =
     (case nParseURL n target of
        None \<Rightarrow> Inl ''invalid target URL''
      | Some u \<Rightarrow>
          if uHostname u = [] then Inl ''invalid target URL''
          else if nParseIP n (uHostname u) \<noteq> None
          then Inl ''domain expiry requires a hostname target, not an IP address''
          else (case etld (uHostname u) of
                  Inl err \<Rightarrow> Inl (''no registrable domain: '' @ err)
                | Inr domain \<Rightarrow> Inr domain))"

text \<open>\<^verbatim>\<open>ParseRDAPExpiry\<close> on the decoded events; the zero \<^verbatim>\<open>time.Time\<close> is the first instant of the year 1.\<close>

definition zero_time :: instant where
  "zero_time = - 62135596800 * second"

definition ParseRDAPExpiry ::
    "('b \<Rightarrow> (string \<times> instant) list option) \<Rightarrow> 'b \<Rightarrow> string \<Rightarrow> string + instant" where
  "ParseRDAPExpiry unmarshal body domain =
     (case unmarshal body of
        None \<Rightarrow> Inl ''RDAP response parse''
      | Some events \<Rightarrow>
          (case find (\<lambda>(action, date). action = ''expiration'' \<and> date \<noteq> zero_time) events of
             None \<Rightarrow> Inl (''RDAP response for '' @ domain @ '' carries no expiration event'')
           | Some (_, date) \<Rightarrow> Inr date))"

text \<open>\<open>get\<close> is the HTTP request: an error, or the status code and the body.\<close>

definition fetchRDAPExpiry ::
    "(string \<Rightarrow> string + (nat \<times> 'b)) \<Rightarrow> ('b \<Rightarrow> (string \<times> instant) list option) \<Rightarrow> string \<Rightarrow> string + instant" where
  "fetchRDAPExpiry get unmarshal domain =
     (case get domain of
        Inl err \<Rightarrow> Inl (''RDAP request: '' @ err)
      | Inr (code, body) \<Rightarrow>
          if code \<noteq> 200 then Inl (''RDAP lookup for '' @ domain @ '' returned HTTP '' @ fmt_nat code)
          else ParseRDAPExpiry unmarshal body domain)"

definition CheckDomainExpiry ::
    "net_env \<Rightarrow> (string \<Rightarrow> string + string) \<Rightarrow> (nat \<Rightarrow> string \<Rightarrow> string + instant) \<Rightarrow> string \<Rightarrow> string + instant" where
  "CheckDomainExpiry n etld fetch target =
     (case RegistrableDomain n etld target of
        Inl err \<Rightarrow> Inl err
      | Inr domain \<Rightarrow>
          (case fetch 0 domain of
             Inr expiry \<Rightarrow> Inr expiry
           | Inl _ \<Rightarrow> fetch 1 domain))"

subsection \<open>Claiming\<close>



definition placeholder :: "ident \<times> expiry_kind \<Rightarrow> expiry_row" where
  "placeholder key = \<lparr>exMonitorID = fst key, exKind = snd key, exExpiresAt = None, exCheckedAt = 0, exLastError = None,
     exLastAlertBucket = None, exAlertedExpiresAt = None\<rparr>"





subsection \<open>Recording\<close>

definition expiryAlertContent ::
    "net_env \<Rightarrow> (string \<Rightarrow> string + string) \<Rightarrow> expiry_claim \<Rightarrow> instant \<Rightarrow> int \<Rightarrow> status \<times> string" where
  "expiryAlertContent n etld claim expiresAt daysLeft =
     (let subject = (if ecKind claim = DOMAIN
                     then (case RegistrableDomain n etld (ecTarget claim) of
                             Inr domain \<Rightarrow> ''Domain '' @ domain | Inl _ \<Rightarrow> ''Domain for '' @ ecTarget claim)
                     else ''TLS certificate for '' @ ecTarget claim);
          date = format_date expiresAt
      in if daysLeft < 0 then (DOWN, subject @ '' has expired ('' @ date @ '')'')
         else if daysLeft = 0 then (DEGRADED, subject @ '' expires today ('' @ date @ '')'')
         else if daysLeft = 1 then (DEGRADED, subject @ '' expires in 1 day ('' @ date @ '')'')
         else (DEGRADED, subject @ '' expires in '' @ fmt_nat (nat daysLeft) @ '' days ('' @ date @ '')''))"

definition expiry_bucket :: "expiry_claim \<Rightarrow> instant \<Rightarrow> instant \<Rightarrow> int option" where
  "expiry_bucket claim e now = ExpiryAlertBucket (ExpiryDaysLeft e now) (ecThresholdDays claim)"

text \<open>\<^verbatim>\<open>shouldAlert\<close> and the update of the row.\<close>

definition should_alert :: "int option \<Rightarrow> instant \<Rightarrow> expiry_row \<Rightarrow> bool" where
  "should_alert bucket e row = opt_any bucket (\<lambda>b.
     exAlertedExpiresAt row \<noteq> Some e \<or>
     (case exLastAlertBucket row of None \<Rightarrow> True | Some lb \<Rightarrow> b < lb))"

definition expiry_update :: "bool \<Rightarrow> int option \<Rightarrow> instant \<Rightarrow> expiry_row \<Rightarrow> expiry_row" where
  "expiry_update alert bucket e row =
     (let row' = row\<lparr>exExpiresAt := Some (pg_time e), exLastError := None\<rparr> in
      if alert then row'\<lparr>exLastAlertBucket := bucket, exAlertedExpiresAt := Some (pg_time e)\<rparr> else row')"

definition RecordExpiryCheck ::
    "net_env \<Rightarrow> (string \<Rightarrow> string + string) \<Rightarrow> instant \<Rightarrow> bool \<Rightarrow> bool \<Rightarrow> expiry_claim \<Rightarrow> instant option \<Rightarrow> string \<Rightarrow>
     expiry_state \<Rightarrow> (store_error + unit) \<times> expiry_state" where
  "RecordExpiryCheck n etld now inMaintenance bad claim expiresAt checkErr st =
     (let mine = (\<lambda>r. ex_key r = (ecMonitorID claim, ecKind claim)) in
      if checkErr \<noteq> [] then
        (if bad then (Inl ErrOther, st)
         else (Inr (), st\<lparr>expiry_status := update_where mine (\<lambda>r. r\<lparr>exLastError := Some checkErr\<rparr>) (expiry_status st)\<rparr>))
      else case expiresAt of
        None \<Rightarrow> (Inl ErrOther, st)
      | Some e \<Rightarrow>
          (case find mine (expiry_status st) of
             None \<Rightarrow> (Inl ErrOther, st)
           | Some row \<Rightarrow>
               if bad then (Inl ErrOther, st)
               else (let daysLeft = ExpiryDaysLeft e now;
                         bucket = ExpiryAlertBucket daysLeft (ecThresholdDays claim)
                     in (Inr (), st\<lparr>expiry_status := update_where mine (expiry_update (should_alert bucket e row) bucket e) (expiry_status st),
                              expiry_alerts := (if should_alert bucket e row \<and> \<not> inMaintenance
                                then expiry_alerts st @ [(ecMonitorID claim, expiryAlertContent n etld claim e daysLeft)]
                                else expiry_alerts st)\<rparr>))))"

subsection \<open>The sweep\<close>


record sweep_env =
  seDB :: db
  seNow :: instant
  seLocked :: "ident \<times> expiry_kind \<Rightarrow> bool"
  seBad :: "nat \<Rightarrow> bool"
  seNet :: net_env
  seETLD :: "string \<Rightarrow> string + string"
  seCert :: "string \<Rightarrow> string + instant"
  seFetch :: "nat \<Rightarrow> string \<Rightarrow> string + instant"
  seAt :: "expiry_claim \<Rightarrow> instant"
  seMaintenance :: "expiry_claim \<Rightarrow> bool"
  seFails :: "expiry_claim \<Rightarrow> bool"

definition runOne :: "sweep_env \<Rightarrow> expiry_claim \<Rightarrow> expiry_state \<Rightarrow> expiry_state" where
  "runOne e claim st =
     (case (case ecKind claim of
              CERT \<Rightarrow> Some (seCert e (ecTarget claim))
            | DOMAIN \<Rightarrow> Some (CheckDomainExpiry (seNet e) (seETLD e) (seFetch e) (ecTarget claim))
            | OtherExpiry _ \<Rightarrow> None) of
        None \<Rightarrow> st
      | Some outcome \<Rightarrow>
          snd (RecordExpiryCheck (seNet e) (seETLD e) (seAt e claim) (seMaintenance e claim) (seFails e claim) claim
                (case outcome of Inl _ \<Rightarrow> None | Inr t \<Rightarrow> Some t)
                (case outcome of Inl err \<Rightarrow> err | Inr _ \<Rightarrow> []) st))"



subsection \<open>Reading\<close>

record expiry_view =
  evKind :: expiry_kind
  evExpiresAt :: "instant option"
  evDaysLeft :: "int option"
  evCheckedAt :: instant
  evLastError :: "string option"

fun kind_name :: "expiry_kind \<Rightarrow> string" where
  "kind_name CERT = ''CERT''"
| "kind_name DOMAIN = ''DOMAIN''"
| "kind_name (OtherExpiry s) = s"

definition GetMonitorExpiryStatus :: "instant \<Rightarrow> expiry_state \<Rightarrow> ident \<Rightarrow> expiry_view list" where
  "GetMonitorExpiryStatus now st monitorId =
     map (\<lambda>r. \<lparr>evKind = exKind r, evExpiresAt = exExpiresAt r,
               evDaysLeft = map_option (\<lambda>t. ExpiryDaysLeft t now) (exExpiresAt r),
               evCheckedAt = exCheckedAt r, evLastError = exLastError r\<rparr>)
       (sort_key (\<lambda>r. if exKind r = CERT then 0 else (1 :: nat)) (filter (\<lambda>r. exMonitorID r = monitorId) (expiry_status st)))"


subsection \<open>Each bucket alerts once\<close>

text \<open>\<open>covers e r b\<close>: the row has alerted for the date \<open>e\<close> at bucket \<open>b\<close> or a deeper one. \<open>buckets_left\<close>
  counts the buckets that can still alert.\<close>

definition covers :: "instant \<Rightarrow> expiry_row \<Rightarrow> int \<Rightarrow> bool" where
  "covers e r b \<longleftrightarrow> exAlertedExpiresAt r = Some e \<and> (\<exists>lb. exLastAlertBucket r = Some lb \<and> lb \<le> b)"

definition buckets_left :: "int \<Rightarrow> instant \<Rightarrow> expiry_row \<Rightarrow> nat" where
  "buckets_left threshold e r = (if exAlertedExpiresAt r = Some e then
     (case exLastAlertBucket r of None \<Rightarrow> 4 | Some lb \<Rightarrow> card {b \<in> {0, 1, 3, threshold}. b < lb}) else 4)"

lemma bucket_range: "ExpiryAlertBucket d threshold = Some b \<Longrightarrow> b \<in> {0, 1, 3, threshold}"
  by (auto simp: ExpiryAlertBucket_def split: if_splits)

lemma card_below:
  fixes b threshold :: int
  assumes "b \<in> {0, 1, 3, threshold}"
  shows "card {x \<in> {0, 1, 3, threshold}. x < b} < 4"
    and "b < lb \<Longrightarrow> card {x \<in> {0, 1, 3, threshold}. x < b} < card {x \<in> {0, 1, 3, threshold}. x < lb}"
proof -
  have "card {x \<in> {0, 1, 3, threshold}. x < b} < card {0, 1, 3, threshold}"
    using assms by (intro psubset_card_mono) auto
  also have "\<dots> \<le> 4" by (simp add: card_insert_if)
  finally show "card {x \<in> {0, 1, 3, threshold}. x < b} < 4" .
  show "card {x \<in> {0, 1, 3, threshold}. x < b} < card {x \<in> {0, 1, 3, threshold}. x < lb}" if "b < lb"
    using assms that by (intro psubset_card_mono) auto
qed

lemma update_fields [simp]:
  "ex_key (expiry_update al bk e r) = ex_key r"
  "exCheckedAt (expiry_update al bk e r) = exCheckedAt r"
  "exAlertedExpiresAt (expiry_update al bk e r) = (if al then Some (pg_time e) else exAlertedExpiresAt r)"
  "exLastAlertBucket (expiry_update al bk e r) = (if al then bk else exLastAlertBucket r)"
  by (simp_all add: expiry_update_def ex_key_def Let_def)

lemma row_step:
  fixes r :: expiry_row
  assumes "pg_time e = e" "bk = ExpiryAlertBucket days threshold"
  defines "r' \<equiv> expiry_update (should_alert bk e r) bk e r"
  shows "covers e r b \<Longrightarrow> covers e r' b"
    and "bk = Some b \<Longrightarrow> covers e r' b"
    and "(if should_alert bk e r then 1 else 0) + buckets_left threshold e r' \<le> buckets_left threshold e r"
proof -
  show "covers e r b \<Longrightarrow> covers e r' b" "bk = Some b \<Longrightarrow> covers e r' b"
    using assms(1) by (auto simp: r'_def covers_def should_alert_def opt_any_iff split: option.splits)
  show "(if should_alert bk e r then 1 else 0) + buckets_left threshold e r' \<le> buckets_left threshold e r"
  proof (cases "should_alert bk e r")
    case True
    then obtain c where c: "bk = Some c" by (auto simp: should_alert_def opt_any_iff)
    note m = bucket_range [OF c [unfolded assms(2)]]
    have "buckets_left threshold e r' = card {x \<in> {0, 1, 3, threshold}. x < c}"
      using True c assms(1) by (simp add: r'_def buckets_left_def)
    moreover have "card {x \<in> {0, 1, 3, threshold}. x < c} < buckets_left threshold e r"
      using True c card_below [OF m] by (auto simp: buckets_left_def should_alert_def split: option.splits)
    ultimately show ?thesis using True by simp
  qed (simp add: r'_def buckets_left_def)
qed


lemma record_step:
  fixes now e :: instant and mnt :: bool and n :: net_env and etld :: "string \<Rightarrow> string + string"
  assumes "uniq ex_key (expiry_status st)" "r \<in> set (expiry_status st)" "ex_key r = (ecMonitorID claim, ecKind claim)"
  defines "bk \<equiv> ExpiryAlertBucket (ExpiryDaysLeft e now) (ecThresholdDays claim)"
    and "st' \<equiv> snd (RecordExpiryCheck n etld now mnt False claim (Some e) [] st)"
  shows "uniq ex_key (expiry_status st')"
    and "expiry_update (should_alert bk e r) bk e r \<in> set (expiry_status st')"
    and "expiry_alerts st' = expiry_alerts st @ (if should_alert bk e r \<and> \<not> mnt
       then [(ecMonitorID claim, expiryAlertContent n etld claim e (ExpiryDaysLeft e now))] else [])"
proof -
  have f: "find (\<lambda>r. ex_key r = (ecMonitorID claim, ecKind claim)) (expiry_status st) = Some r"
    using find_uniq [OF assms(1-3), of "\<lambda>_. True"] by simp
  have s: "expiry_status st' = update_where (\<lambda>r. ex_key r = (ecMonitorID claim, ecKind claim))
      (expiry_update (should_alert bk e r) bk e) (expiry_status st)"
    by (simp add: st'_def RecordExpiryCheck_def f Let_def bk_def)
  show "uniq ex_key (expiry_status st')" using assms(1) by (simp add: s uniq_update)
  show "expiry_update (should_alert bk e r) bk e r \<in> set (expiry_status st')"
    using assms(2,3) by (auto simp: s update_where_def image_iff)
  show "expiry_alerts st' = expiry_alerts st @ (if should_alert bk e r \<and> \<not> mnt
       then [(ecMonitorID claim, expiryAlertContent n etld claim e (ExpiryDaysLeft e now))] else [])"
    by (simp add: st'_def RecordExpiryCheck_def f Let_def bk_def)
qed

definition checks ::
    "net_env \<Rightarrow> (string \<Rightarrow> string + string) \<Rightarrow> expiry_claim \<Rightarrow> instant \<Rightarrow> (instant \<times> bool) list \<Rightarrow> expiry_state \<Rightarrow> expiry_state" where
  "checks n etld claim e = fold (\<lambda>(now, mnt) st. snd (RecordExpiryCheck n etld now mnt False claim (Some e) [] st))"

lemma checks_run:
  assumes "pg_time e = e" "uniq ex_key (expiry_status st)" "r \<in> set (expiry_status st)"
    "ex_key r = (ecMonitorID claim, ecKind claim)"
  shows "\<exists>r' \<in> set (expiry_status (checks n etld claim e ts st)). ex_key r' = ex_key r
    \<and> length (expiry_alerts (checks n etld claim e ts st)) + buckets_left (ecThresholdDays claim) e r'
        \<le> length (expiry_alerts st) + buckets_left (ecThresholdDays claim) e r
    \<and> (\<forall>b. covers e r b \<longrightarrow> covers e r' b)
    \<and> (\<forall>(now, mnt) \<in> set ts. \<forall>b. expiry_bucket claim e now = Some b \<longrightarrow> covers e r' b)"
  using assms(2-)
proof (induction ts arbitrary: st r)
  case Nil
  then show ?case by (auto simp: checks_def)
next
  case (Cons t ts)
  obtain now mnt where t: "t = (now, mnt)" by force
  let ?bk = "ExpiryAlertBucket (ExpiryDaysLeft e now) (ecThresholdDays claim)"
  let ?st1 = "snd (RecordExpiryCheck n etld now mnt False claim (Some e) [] st)"
  let ?r1 = "expiry_update (should_alert ?bk e r) ?bk e r"
  note s = record_step [OF Cons.prems, where e = e and now = now and n = n and etld = etld and mnt = mnt]
  have k: "ex_key ?r1 = (ecMonitorID claim, ecKind claim)" using Cons.prems(3) by simp
  have c: "checks n etld claim e (t # ts) st = checks n etld claim e ts ?st1" by (simp add: checks_def t)
  obtain r' where r': "r' \<in> set (expiry_status (checks n etld claim e ts ?st1))" "ex_key r' = ex_key ?r1"
      "length (expiry_alerts (checks n etld claim e ts ?st1)) + buckets_left (ecThresholdDays claim) e r'
        \<le> length (expiry_alerts ?st1) + buckets_left (ecThresholdDays claim) e ?r1"
      "\<forall>b. covers e ?r1 b \<longrightarrow> covers e r' b"
      "\<forall>(now, mnt) \<in> set ts. \<forall>b. expiry_bucket claim e now = Some b \<longrightarrow> covers e r' b"
    using Cons.IH [OF s(1,2) k] by blast
  note q = row_step [OF assms(1) refl, where r = r and days = "ExpiryDaysLeft e now" and threshold = "ecThresholdDays claim"]
  have "length (expiry_alerts ?st1) \<le> length (expiry_alerts st) + (if should_alert ?bk e r then 1 else 0)"
    unfolding s(3) by simp
  then have "length (expiry_alerts (checks n etld claim e ts ?st1)) + buckets_left (ecThresholdDays claim) e r'
      \<le> length (expiry_alerts st) + buckets_left (ecThresholdDays claim) e r"
    using r'(3) q(3) by linarith
  moreover have "\<forall>b. covers e r b \<longrightarrow> covers e r' b" using q(1) r'(4) by blast
  moreover have "\<forall>b. expiry_bucket claim e now = Some b \<longrightarrow> covers e r' b"
    using q(2) r'(4) by (simp add: expiry_bucket_def)
  ultimately show ?case unfolding c using r'(1,2,5) t by (intro bexI [of _ r']) auto
qed

text \<open>An expiry date alerts once per bucket. However often and whenever a certificate or domain
  with one expiry date is checked, at most four alerts are requested for that date; and no crossing is
  missed: afterwards the row has alerted (or was silenced by a maintenance window) at the deepest
  bucket any of the checks fell in.\<close>

theorem expiry_alerts_once_per_bucket:
  assumes "pg_time e = e" "uniq ex_key (expiry_status st)" "r \<in> set (expiry_status st)"
    "ex_key r = (ecMonitorID claim, ecKind claim)"
  shows "length (expiry_alerts (checks n etld claim e ts st)) \<le> length (expiry_alerts st) + 4
    \<and> (\<exists>r' \<in> set (expiry_status (checks n etld claim e ts st)). ex_key r' = ex_key r
        \<and> (\<forall>(now, mnt) \<in> set ts. \<forall>b. expiry_bucket claim e now = Some b \<longrightarrow> covers e r' b))"
proof -
  have "buckets_left (ecThresholdDays claim) e r \<le> 4"
  proof -
    have "card {b \<in> {0, 1, 3, ecThresholdDays claim}. b < lb} \<le> 4" for lb
    proof -
      have "card {b \<in> {0, 1, 3, ecThresholdDays claim}. b < lb} \<le> card {0, 1, 3, ecThresholdDays claim}"
        by (intro card_mono) auto
      also have "\<dots> \<le> 4" by (simp add: card_insert_if)
      finally show ?thesis .
    qed
    then show ?thesis by (simp add: buckets_left_def split: option.split)
  qed
  then show ?thesis using checks_run [OF assms, of n etld ts] by fastforce
qed

text \<open>The once-per-date rule compares the date of the check with the stored one, which keeps
  microseconds only. A date with a finer fraction (an RDAP date of seven digits, say) never
  matches: every check inside a bucket alerts again, whatever was alerted before.\<close>

theorem fine_dates_alert_every_time:
  assumes "pg_time e \<noteq> e" "uniq ex_key (expiry_status st)" "r \<in> set (expiry_status st)"
    "ex_key r = (ecMonitorID claim, ecKind claim)" "exAlertedExpiresAt r = map_option pg_time stored"
    "expiry_bucket claim e now \<noteq> None"
  shows "length (expiry_alerts (snd (RecordExpiryCheck n etld now False False claim (Some e) [] st))) =
    length (expiry_alerts st) + 1"
proof -
  have "pg_time (pg_time x) = pg_time x" for x by (simp add: pg_time_def)
  then have "exAlertedExpiresAt r \<noteq> Some e" using assms(1,5) by (metis map_option_eq_Some)
  then have "should_alert (ExpiryAlertBucket (ExpiryDaysLeft e now) (ecThresholdDays claim)) e r"
    using assms(6) by (auto simp: should_alert_def expiry_bucket_def)
  then show ?thesis
    using record_step(3) [OF assms(2-4), where e = e and now = now and n = n and etld = etld and mnt = False] by simp
qed

subsection \<open>The sweep ends and leaves every sub-check fresh\<close>

definition stamps :: "expiry_state \<Rightarrow> ((ident \<times> expiry_kind) \<times> instant) list" where
  "stamps st = map (\<lambda>r. (ex_key r, exCheckedAt r)) (expiry_status st)"

lemma record_stamps [simp]: "stamps (snd (RecordExpiryCheck n etld now mnt bad claim ex err st)) = stamps st"
proof -
  have "map (\<lambda>r. (ex_key r, exCheckedAt r)) (update_where P f tbl) = map (\<lambda>r. (ex_key r, exCheckedAt r)) tbl"
    if "\<And>r. ex_key (f r) = ex_key r \<and> exCheckedAt (f r) = exCheckedAt r" for P f tbl
    using that by (intro map_update_where) simp
  note u = this [of "expiry_update al bk e" for al bk e, simplified] this [of "\<lambda>r. r\<lparr>exLastError := Some err\<rparr>"]
  have "ex_key (r\<lparr>exLastError := Some err\<rparr>) = ex_key r" for r by (simp add: ex_key_def)
  then show ?thesis by (simp add: RecordExpiryCheck_def stamps_def Let_def u split: option.split)
qed

lemma run_stamps [simp]: "stamps (fold (runOne e) claims st) = stamps st"
proof (induction claims arbitrary: st)
  case (Cons c cs)
  have "stamps (runOne e c st) = stamps st" by (simp add: runOne_def split: option.split expiry_kind.split)
  then show ?case using Cons by simp
qed simp


lemma placeholder_key [simp]: "ex_key (placeholder key) = key" "ex_key \<circ> placeholder = id"
  by (auto simp: ex_key_def placeholder_def)

















subsection \<open>Witnesses\<close>

definition offline :: net_env where
  "offline = \<lparr>nParseURL = (\<lambda>_. None), nSplitHostPort = (\<lambda>_. None), nParseIP = (\<lambda>_. None), nLookupHost = (\<lambda>_. None)\<rparr>"

definition sample_expiry :: expiry_state where
  "sample_expiry = \<lparr>expiry_status = [placeholder (''m1'', CERT)], expiry_alerts = []\<rparr>"

definition sample_claim :: expiry_claim where
  "sample_claim = \<lparr>ecMonitorID = ''m1'', ecKind = CERT, ecTarget = ''https://example.com'', ecThresholdDays = 14\<rparr>"


lemma sample_expiry_uniq: "uniq ex_key (expiry_status sample_expiry)"
  by (simp add: uniq_def sample_expiry_def)

theorem expiry_alerts_once_per_bucket_witness:
  "length (expiry_alerts (checks offline (\<lambda>_. Inl ''none'') sample_claim (10 * day) [(0, False), (1, False), (9 * day, False)] sample_expiry)) \<le> 4
    \<and> expiry_bucket sample_claim (10 * day) (9 * day) = Some 1"
proof -
  have "pg_time (10 * day) = 10 * day" "placeholder (''m1'', CERT) \<in> set (expiry_status sample_expiry)"
    "ex_key (placeholder (''m1'', CERT)) = (ecMonitorID sample_claim, ecKind sample_claim)"
    by (simp_all add: pg_time_def sample_expiry_def sample_claim_def)
  from expiry_alerts_once_per_bucket [OF this(1) sample_expiry_uniq this(2,3), of offline "\<lambda>_. Inl ''none''" "[(0, False), (1, False), (9 * day, False)]"]
  have "length (expiry_alerts (checks offline (\<lambda>_. Inl ''none'') sample_claim (10 * day) [(0, False), (1, False), (9 * day, False)] sample_expiry)) \<le> 4"
    by (simp add: sample_expiry_def)
  then show ?thesis by (simp add: expiry_bucket_def ExpiryDaysLeft_floor time_sub_def min_duration_def max_duration_def
      sample_claim_def ExpiryAlertBucket_def)
qed

theorem fine_dates_alert_every_time_witness:
  "length (expiry_alerts (snd (RecordExpiryCheck offline (\<lambda>_. Inl ''none'') 0 False False sample_claim (Some (10 * day + 100)) []
     sample_expiry))) = 1"
proof -
  have "pg_time (10 * day + 100) \<noteq> 10 * day + 100" "placeholder (''m1'', CERT) \<in> set (expiry_status sample_expiry)"
    "ex_key (placeholder (''m1'', CERT)) = (ecMonitorID sample_claim, ecKind sample_claim)"
    "exAlertedExpiresAt (placeholder (''m1'', CERT)) = map_option pg_time None"
    "expiry_bucket sample_claim (10 * day + 100) 0 \<noteq> None"
    by (simp_all add: pg_time_def sample_expiry_def sample_claim_def placeholder_def expiry_bucket_def ExpiryDaysLeft_floor
        time_sub_def min_duration_def max_duration_def ExpiryAlertBucket_def ex_key_def)
  from fine_dates_alert_every_time [OF this(1) sample_expiry_uniq this(2-5), of offline "\<lambda>_. Inl ''none''"]
  show ?thesis by (simp add: sample_expiry_def)
qed


end
