(* ===== verification/Reads.thy ===== *)
theory Reads
  imports MonitorApi Stats Expiry Config
begin

section \<open>Reading checks, statistics and expiry over the API\<close>

text \<open>
  The handlers of \<^verbatim>\<open>internal/api/handlers/monitors.go\<close> that read what the schedulers wrote: results,
  incidents, statistics, availability and expiry. They parse their query with \<^verbatim>\<open>strconv.Atoi\<close>; an
  absent parameter is the empty string. \<open>None\<close> is a panic.
\<close>

subsection \<open>Queries\<close>

text \<open>\<^verbatim>\<open>x := def; if q != "" { if parsed, err := strconv.Atoi(q); err == nil && parsed > 0 && parsed <= max { x = parsed } }\<close>.\<close>

definition bounded_query :: "nat \<Rightarrow> nat \<Rightarrow> string \<Rightarrow> nat" where
  "bounded_query def mx q =
     (if q \<noteq> [] then (case Atoi q of None \<Rightarrow> def | Some n \<Rightarrow> if n > 0 \<and> n \<le> int mx then nat n else def) else def)"

definition DefaultUptimeDays :: nat where
  "DefaultUptimeDays = 31"

definition MaxUptimeDays :: nat where
  "MaxUptimeDays = 90"

definition maxTZOffsetMinutes :: int where
  "maxTZOffsetMinutes = 14 * 60"

definition periodToDuration :: "string \<Rightarrow> duration" where
  "periodToDuration period = (if period = ''7d'' then 7 * 24 * hour else if period = ''30d'' then 30 * 24 * hour else 24 * hour)"

subsection \<open>Handlers\<close>

definition GetMonitorResults_h ::
    "env \<Rightarrow> db \<Rightarrow> check_tables \<Rightarrow> ident option \<Rightarrow> ident \<Rightarrow> string \<Rightarrow> string \<Rightarrow> monitor_result list response" where
  "GetMonitorResults_h e d tb caller i l region =
     (case caller of None \<Rightarrow> Fail 401 ''Unauthorized'' | Some userId \<Rightarrow>
      if region \<noteq> [] \<and> \<not> ValidRegion region then Fail 400 ''unknown region''
      else case read_at e 1 (GetMonitorResults d tb i userId (bounded_query 100 1000 l) region) of
        Inl ErrNotFound \<Rightarrow> Fail 404 ''Monitor not found''
      | Inl _ \<Rightarrow> Fail 500 ''Failed to get results''
      | Inr rs \<Rightarrow> Ok 200 rs)"

definition uptime_offset :: "string \<Rightarrow> int option" where
  "uptime_offset o' =
     (if o' = [] then Some 0
      else case Atoi o' of
        None \<Rightarrow> None
      | Some p \<Rightarrow> if p < - maxTZOffsetMinutes \<or> p > maxTZOffsetMinutes then None else Some p)"

definition GetMonitorUptime_h ::
    "env \<Rightarrow> db \<Rightarrow> check_tables \<Rightarrow> ident option \<Rightarrow> ident \<Rightarrow> string \<Rightarrow> string \<Rightarrow> instant \<Rightarrow> (daily_uptime list \<times> rat option) response" where
  "GetMonitorUptime_h e d tb caller i daysQ offsetQ later =
     (case caller of None \<Rightarrow> Fail 401 ''Unauthorized'' | Some userId \<Rightarrow>
      case uptime_offset offsetQ of None \<Rightarrow> Fail 400 ''tzOffsetMinutes must be an integer within +/-840'' | Some tz \<Rightarrow>
      case read_at e 1 (GetMonitorUptime d tb i userId (eNow e) later (bounded_query DefaultUptimeDays MaxUptimeDays daysQ) tz) of
        Inl ErrNotFound \<Rightarrow> Fail 404 ''Monitor not found''
      | Inl _ \<Rightarrow> Fail 500 ''Failed to get uptime''
      | Inr u \<Rightarrow> Ok 200 u)"

definition GetMonitorIncidents ::
    "env \<Rightarrow> db \<Rightarrow> check_tables \<Rightarrow> ident option \<Rightarrow> ident \<Rightarrow> string \<Rightarrow> incident list response" where
  "GetMonitorIncidents e d tb caller i l =
     (case caller of None \<Rightarrow> Fail 401 ''Unauthorized'' | Some userId \<Rightarrow>
      case read_at e 1 (ListIncidents d tb i userId (bounded_query 100 1000 l)) of
        Inl ErrNotFound \<Rightarrow> Fail 404 ''Monitor not found''
      | Inl _ \<Rightarrow> Fail 500 ''Failed to get incidents''
      | Inr xs \<Rightarrow> Ok 200 xs)"

text \<open>\<open>until\<close>, like \<open>later\<close> above, is the second reading of the clock, in the store.\<close>

definition GetMonitorStats_h ::
    "env \<Rightarrow> db \<Rightarrow> check_tables \<Rightarrow> ident option \<Rightarrow> ident \<Rightarrow> string \<Rightarrow> instant \<Rightarrow> monitor_stats response option" where
  "GetMonitorStats_h e d tb caller i period until =
     (case caller of None \<Rightarrow> Some (Fail 401 ''Unauthorized'') | Some userId \<Rightarrow>
      map_option (\<lambda>r.
        case read_at e 1 r of
          Inl ErrNotFound \<Rightarrow> Fail 404 ''Monitor not found''
        | Inl _ \<Rightarrow> Fail 500 ''Failed to get stats''
        | Inr s \<Rightarrow> Ok 200 s)
      (GetMonitorStats d tb i userId (eNow e - periodToDuration period) until))"

definition GetMonitorExpiry ::
    "env \<Rightarrow> db \<Rightarrow> expiry_state \<Rightarrow> ident option \<Rightarrow> ident \<Rightarrow> expiry_view list response" where
  "GetMonitorExpiry e d st caller i =
     (case caller of None \<Rightarrow> Fail 401 ''Unauthorized'' | Some userId \<Rightarrow>
      case read_at e 1 (GetMonitor d i userId) of Inl _ \<Rightarrow> Fail 404 ''Monitor not found'' | Inr _ \<Rightarrow>
      case read_at e 2 (Inr (GetMonitorExpiryStatus (eNow e) st i)) of
        Inl _ \<Rightarrow> Fail 500 ''Failed to get expiry status'' | Inr views \<Rightarrow> Ok 200 views)"

subsection \<open>Properties\<close>

lemma long_window:
  assumes "eNow e \<le> until"
  shows "0 < bucket_span (eNow e - periodToDuration p) until" "eNow e - periodToDuration p < until"
proof -
  have p: "24 * hour \<le> periodToDuration p" by (simp add: periodToDuration_def)
  then show "eNow e - periodToDuration p < until" using assms by simp
  have "24 * hour \<le> time_sub until (eNow e - periodToDuration p)"
    using p assms by (simp add: time_sub_def min_duration_def max_duration_def)
  then have "24 * hour div 48 \<le> time_sub until (eNow e - periodToDuration p) div 48" by (rule zdiv_mono1) simp
  then show "0 < bucket_span (eNow e - periodToDuration p) until"
    using \<open>24 * hour \<le> time_sub until (eNow e - periodToDuration p)\<close>
    by (simp add: bucket_span_def Let_def statBuckets_def signed_divide_int_def)
qed

text \<open>C39: the statistics endpoint never divides by zero: for every period it answers, when the store reads its clock after
  the handler did. The statistics it answers with have at most 48 points, in strictly increasing order inside the window;
  the regions are different and their numbers of checks add up to the whole. Each point is between the least and the
  greatest latency when the period is read from the raw checks, and, when it is read from the rollups, if the
  monitor's rollups are some that \<^verbatim>\<open>refresh_rollups\<close> writes: rollups older than what the migration
  \<^verbatim>\<open>20260909120000\<close> rewrote keep the latencies of failed checks in their sums.\<close>

theorem stats_answer_sound:
  fixes e :: env and period :: string
  defines "since \<equiv> eNow e - periodToDuration period"
  assumes "eNow e \<le> until"
  shows "\<exists>r. GetMonitorStats_h e d tb caller i period until = Some r \<and>
    (case r of
       Fail code _ \<Rightarrow> code \<in> {401, 404, 500}
     | Ok code s \<Rightarrow> code = 200 \<and> length (msPoints s) \<le> 48 \<and> sorted_wrt (<) (map spTimestamp (msPoints s)) \<and>
         (\<forall>p \<in> set (msPoints s). since \<le> spTimestamp p \<and> spTimestamp p \<le> until) \<and>
         distinct (map rgRegion (msRegions s)) \<and> sum_list (map rgTotalChecks (msRegions s)) = msTotalChecks s \<and>
         (time_sub until since \<le> rawStatsWindow \<or>
            (\<forall>x \<in> set (monitor_result_rollups tb). ruMonitorID x = i \<longrightarrow> (\<exists>checks. x \<in> set (refresh_rollups checks))) \<longrightarrow>
          (\<forall>p \<in> set (msPoints s). rat_of_int (msMinLatency s) \<le> spAvgLatency p \<and> spAvgLatency p \<le> rat_of_int (msMaxLatency s))))"
proof -
  note dur = long_window [OF assms(2), of period, folded since_def]
  obtain s where s: "stats_window tb i since until = Some s" "times_ok since until (msPoints s)" "regions_ok since until s"
      "time_sub until since \<le> rawStatsWindow \<or> (\<forall>x \<in> set (monitor_result_rollups tb). ruMonitorID x = i \<longrightarrow> rollup_ok x) \<longrightarrow>
       averages_ok (msMinLatency s) (msMaxLatency s) (msPoints s)"
    using raw_window_ok [OF dur, of tb i] rollup_window_ok [OF dur, of tb i] by blast
  then have "time_sub until since \<le> rawStatsWindow \<or>
      (\<forall>x \<in> set (monitor_result_rollups tb). ruMonitorID x = i \<longrightarrow> (\<exists>checks. x \<in> set (refresh_rollups checks))) \<longrightarrow>
      averages_ok (msMinLatency s) (msMaxLatency s) (msPoints s)" using refreshed_ok by blast
  then show ?thesis
    using s(1-3)
    by (cases caller; cases "eFaulty e 1"; cases "select_monitor d i (the caller)")
      (simp_all add: GetMonitorStats_h_def GetMonitorStats_def read_at_def attempt_read_def times_ok_def regions_ok_def averages_ok_def
        statBuckets_def since_def [symmetric] Let_def)
qed

lemma bounded_query_bound: "def \<le> mx \<Longrightarrow> bounded_query def mx q \<le> mx"
  by (auto simp: bounded_query_def split: option.splits)

lemma read_at_Inr: "read_at e k r = Inr x \<Longrightarrow> r = Inr x"
  by (auto simp: read_at_def attempt_read_def split: if_splits)

lemma take_sorted:
  fixes f :: "'a \<Rightarrow> int"
  shows "sorted_wrt (\<lambda>x y. f x \<ge> f y) (take n (sort_key (\<lambda>x. - f x) xs))"
proof -
  have "sorted_wrt (\<lambda>x y. - f x \<le> - f y) (sort_key (\<lambda>x. - f x) xs)"
    using sorted_sort_key [of "\<lambda>x. - f x" xs] by (simp add: sorted_map)
  then show ?thesis by (simp add: sorted_wrt_take)
qed

lemma results_access:
  assumes "GetMonitorResults_h e d tb caller i l region = Ok c rs"
  shows "(\<exists>u. caller = Some u \<and> select_monitor d i u \<noteq> None) \<and> length rs \<le> 1000 \<and>
    (\<forall>r \<in> set rs. r \<in> set (monitor_results tb) \<and> resMonitorID r = i \<and> (region \<noteq> [] \<longrightarrow> resRegion r = region)) \<and>
    sorted_wrt (\<lambda>x y. resCheckedAt x \<ge> resCheckedAt y) rs"
proof -
  obtain u where u: "caller = Some u" using assms by (auto simp: GetMonitorResults_h_def split: option.splits)
  have "GetMonitorResults d tb i u (bounded_query 100 1000 l) region = Inr rs"
    using assms u by (auto simp: GetMonitorResults_h_def dest: read_at_Inr split: if_splits sum.splits store_error.splits)
  then show ?thesis
    using u bounded_query_bound [of 100 1000 l]
    by (auto simp: GetMonitorResults_def take_sorted dest: in_set_takeD split: option.splits)
qed

lemma incidents_access:
  assumes "GetMonitorIncidents e d tb caller i l = Ok c xs"
  shows "(\<exists>u. caller = Some u \<and> select_monitor d i u \<noteq> None) \<and> length xs \<le> 1000 \<and> (\<forall>x \<in> set xs. inMonitorID (icRow x) = i)"
proof -
  obtain u where u: "caller = Some u" using assms by (auto simp: GetMonitorIncidents_def split: option.splits)
  have "ListIncidents d tb i u (bounded_query 100 1000 l) = Inr xs"
    using assms u by (auto simp: GetMonitorIncidents_def dest: read_at_Inr split: if_splits sum.splits store_error.splits)
  then show ?thesis
    using u bounded_query_bound [of 100 1000 l] by (auto simp: ListIncidents_def dest!: in_set_takeD split: option.splits)
qed

lemma uptime_access:
  assumes "GetMonitorUptime_h e d tb caller i daysQ offsetQ later = Ok c up"
  shows "(\<exists>u. caller = Some u \<and> select_monitor d i u \<noteq> None) \<and> length (fst up) \<le> 90"
proof -
  obtain u tz where u: "caller = Some u" "uptime_offset offsetQ = Some tz"
    using assms by (auto simp: GetMonitorUptime_h_def split: option.splits)
  have "GetMonitorUptime d tb i u (eNow e) later (bounded_query DefaultUptimeDays MaxUptimeDays daysQ) tz = Inr up"
    using assms u by (auto simp: GetMonitorUptime_h_def dest: read_at_Inr split: if_splits sum.splits store_error.splits)
  then show ?thesis
    using u bounded_query_bound [of DefaultUptimeDays MaxUptimeDays daysQ]
    by (auto simp: GetMonitorUptime_def computeDailyUptime_def DefaultUptimeDays_def MaxUptimeDays_def split: option.splits)
qed

lemma stats_access:
  "GetMonitorStats_h e d tb caller i period until = Some (Ok c s) \<Longrightarrow> \<exists>u. caller = Some u \<and> select_monitor d i u \<noteq> None"
  by (auto simp: GetMonitorStats_h_def GetMonitorStats_def read_at_def attempt_read_def split: option.splits if_splits)

lemma expiry_access:
  "GetMonitorExpiry e d st caller i = Ok c vs \<Longrightarrow> \<exists>u. caller = Some u \<and> select_monitor d i u \<noteq> None"
  by (auto simp: GetMonitorExpiry_def GetMonitor_def read_at_def attempt_read_def split: option.splits if_splits)

text \<open>C40: nothing about a monitor is read by who may not see it. When the endpoint for results, incidents, availability,
  statistics or expiry answers with a body, the caller is signed in and the monitor is one of theirs or of an organization
  they belong to; the results are at most a thousand, of that monitor and of the region asked for.\<close>

theorem reads_need_access:
  shows "(GetMonitorResults_h e d tb caller i l region = Ok c1 rs \<longrightarrow>
       (\<exists>u. caller = Some u \<and> select_monitor d i u \<noteq> None) \<and> length rs \<le> 1000 \<and>
       (\<forall>r \<in> set rs. r \<in> set (monitor_results tb) \<and> resMonitorID r = i \<and> (region \<noteq> [] \<longrightarrow> resRegion r = region)) \<and>
       sorted_wrt (\<lambda>x y. resCheckedAt x \<ge> resCheckedAt y) rs) \<and>
    (GetMonitorIncidents e d tb caller i l = Ok c2 xs \<longrightarrow>
       (\<exists>u. caller = Some u \<and> select_monitor d i u \<noteq> None) \<and> length xs \<le> 1000 \<and> (\<forall>x \<in> set xs. inMonitorID (icRow x) = i)) \<and>
    (GetMonitorUptime_h e d tb caller i daysQ offsetQ later = Ok c3 up \<longrightarrow>
       (\<exists>u. caller = Some u \<and> select_monitor d i u \<noteq> None) \<and> length (fst up) \<le> 90) \<and>
    (GetMonitorStats_h e d tb caller i period until = Some (Ok c4 s) \<longrightarrow> (\<exists>u. caller = Some u \<and> select_monitor d i u \<noteq> None)) \<and>
    (GetMonitorExpiry e d st caller i = Ok c5 vs \<longrightarrow> (\<exists>u. caller = Some u \<and> select_monitor d i u \<noteq> None))"
  by (rule conjI | rule impI, (erule results_access | erule incidents_access | erule uptime_access | erule stats_access | erule expiry_access))+

subsection \<open>Witnesses\<close>

lemma sample_access: "select_monitor sample_db ''m1'' ''ann'' \<noteq> None"
  by (simp add: select_monitor_def sample_db_def sample_monitor_def monitorAccessClause_def is_member_def)

text \<open>Thirty days, read from rollups that \<^verbatim>\<open>refresh_rollups\<close> wrote.\<close>

theorem stats_answer_sound_witness:
  "\<exists>s. GetMonitorStats_h (sample_env\<lparr>eNow := 48 * hour\<rparr>) sample_db sample_tables (Some ''ann'') ''m1'' ''30d'' (48 * hour) = Some (Ok 200 s) \<and>
     length (msPoints s) \<le> 48 \<and>
     (\<forall>p \<in> set (msPoints s). rat_of_int (msMinLatency s) \<le> spAvgLatency p \<and> spAvgLatency p \<le> rat_of_int (msMaxLatency s))"
proof -
  let ?e = "sample_env\<lparr>eNow := 48 * hour\<rparr>"
  have ok: "GetMonitorStats_h ?e sample_db sample_tables (Some ''ann'') ''m1'' ''30d'' (48 * hour) \<noteq> Some (Fail code msg)" for code msg
    using sample_access by (auto simp: GetMonitorStats_h_def GetMonitorStats_def read_at_def attempt_read_def sample_env_def)
  have ru: "\<forall>x \<in> set (monitor_result_rollups sample_tables). ruMonitorID x = ''m1'' \<longrightarrow> (\<exists>checks. x \<in> set (refresh_rollups checks))"
    by (auto simp: sample_tables_def)
  have now: "eNow ?e \<le> 48 * hour" by simp
  note sound = stats_answer_sound [OF now, of sample_db sample_tables "Some ''ann''" "''m1''" "''30d''"]
  obtain r where r: "GetMonitorStats_h ?e sample_db sample_tables (Some ''ann'') ''m1'' ''30d'' (48 * hour) = Some r"
    using sound by blast
  then obtain code s where s: "r = Ok code s" using ok by (cases r) auto
  show ?thesis using sound ru unfolding r s by auto
qed

theorem reads_need_access_witness:
  "\<exists>rs. GetMonitorResults_h sample_env sample_db sample_tables (Some ''ann'') ''m1'' ''50'' ''ca-east'' = Ok 200 rs \<and>
     length rs \<le> 1000 \<and> (\<forall>r \<in> set rs. resRegion r = ''ca-east'')"
proof -
  have "\<exists>rs. GetMonitorResults_h sample_env sample_db sample_tables (Some ''ann'') ''m1'' ''50'' ''ca-east'' = Ok 200 rs"
    using sample_access
    by (auto simp: GetMonitorResults_h_def GetMonitorResults_def read_at_def attempt_read_def sample_env_def ValidRegion_def RegionByID_def Regions_def)
  then obtain rs where rs: "GetMonitorResults_h sample_env sample_db sample_tables (Some ''ann'') ''m1'' ''50'' ''ca-east'' = Ok 200 rs" ..
  then show ?thesis
    using reads_need_access [of sample_env sample_db sample_tables "Some ''ann''" "''m1''" "''50''" "''ca-east''" 200 rs] by auto
qed

end
