(* ===== verification/Alerts.thy ===== *)
theory Alerts
  imports Outbox Config
begin

section \<open>Sending alerts\<close>

text \<open>
  \<^verbatim>\<open>internal/alerter\<close>: the five channels behind \<^verbatim>\<open>Manager\<close>. What is outside is a field of
  \<open>alert_env\<close>: the HTTP client, the SendGrid client, and what \<^verbatim>\<open>json.Unmarshal\<close> makes of the error bodies
  of Telegram and Twilio. A string is its UTF-8 bytes. The body of a request is the value that is
  marshalled. \<^verbatim>\<open>deliver\<close> builds the monitor and the result from the outbox row, so a sender takes the row.
\<close>

subsection \<open>Text\<close>

definition ellipsis :: string where
  "ellipsis = [CHR 0xE2, CHR 0x80, CHR 0xA6]"

definition fmt_int :: "int \<Rightarrow> string" where
  "fmt_int x = (if x < 0 then CHR ''-'' # fmt_nat (nat (- x)) else fmt_nat (nat x))"

fun status_name :: "status \<Rightarrow> string" where
  "status_name UP = ''UP''"
| "status_name DOWN = ''DOWN''"
| "status_name DEGRADED = ''DEGRADED''"

fun type_name :: "monitor_type \<Rightarrow> string" where
  "type_name HTTP = ''HTTP''"
| "type_name PORT = ''PORT''"
| "type_name PING = ''PING''"
| "type_name (OtherType s) = s"

fun getEmojiForStatus :: "status \<Rightarrow> string" where
  "getEmojiForStatus UP = [CHR 0xE2, CHR 0x9C, CHR 0x85]"
| "getEmojiForStatus DOWN = [CHR 0xF0, CHR 0x9F, CHR 0x94, CHR 0xB4]"
| "getEmojiForStatus DEGRADED = [CHR 0xE2, CHR 0x9A, CHR 0xA0, CHR 0xEF, CHR 0xB8, CHR 0x8F]"

fun getColorForStatus :: "status \<Rightarrow> int" where
  "getColorForStatus UP = 0x00FF00"
| "getColorForStatus DOWN = 0xFF0000"
| "getColorForStatus DEGRADED = 0xFFA500"

definition formatLatency :: "outbox_row \<Rightarrow> string" where
  "formatLatency row = (if obStatus row = DOWN then ''n/a'' else fmt_int (obLatency row) @ ''ms'')"

text \<open>\<^verbatim>\<open>html.EscapeString\<close>.\<close>

definition escape_char :: "char \<Rightarrow> string" where
  "escape_char c =
     (if c = CHR ''&'' then ''&amp;'' else if c = CHR 0x27 then ''&#39;'' else if c = CHR ''<'' then ''&lt;''
      else if c = CHR ''>'' then ''&gt;'' else if c = CHR 0x22 then ''&#34;'' else [c])"

definition EscapeString :: "string \<Rightarrow> string" where
  "EscapeString s = concat (map escape_char s)"

subsection \<open>Requests and their failures\<close>

text \<open>A client error is a \<^verbatim>\<open>*url.Error\<close>, which carries the URL, around its cause, or another error.\<close>

record http_error =
  heURL :: "string option"
  heCause :: string

datatype http_result = BadRequest http_error | SendFailed http_error | Responded nat "string option"

record telegram_payload =
  tpChatID :: string
  tpText :: string
  tpParseMode :: string

record embed_field =
  efName :: string
  efValue :: string
  efInline :: bool

record discord_embed =
  deTitle :: string
  deDescription :: string
  deColor :: int
  deFields :: "embed_field list"

datatype slack_text = SlackText string string

record slack_block =
  sbType :: string
  sbText :: "slack_text option"
  sbFields :: "slack_text list"

datatype request_body =
    FormBody "(string \<times> string) list"
  | TelegramBody telegram_payload
  | DiscordBody "discord_embed list"
  | SlackBody "slack_block list"

record http_request =
  rqURL :: string
  rqAuth :: "(string \<times> string) option"
  rqBody :: request_body

record sendgrid_mail =
  smFromName :: string
  smFrom :: string
  smTo :: string
  smSubject :: string
  smText :: string

record alert_env =
  aeDo :: "http_request \<Rightarrow> http_result"
  aeSendGrid :: "string \<Rightarrow> sendgrid_mail \<Rightarrow> string + (nat \<times> string)"
  aeTelegramError :: "string \<Rightarrow> (string \<times> int) option"
  aeTwilioError :: "string \<Rightarrow> (int \<times> string \<times> string) option"

definition sanitizeTransportError :: "string \<Rightarrow> http_error \<Rightarrow> string" where
  "sanitizeTransportError op err = op @ '': '' @ heCause err"

text \<open>\<^verbatim>\<open>strings.Join\<close>, and cutting a string after a number of bytes.\<close>

fun Join :: "string \<Rightarrow> string list \<Rightarrow> string" where
  "Join sep [] = []"
| "Join sep [x] = x"
| "Join sep (x # y # xs) = x @ sep @ Join sep (y # xs)"

definition cut :: "nat \<Rightarrow> string \<Rightarrow> string" where
  "cut n s = (if length s > n then take n s @ ellipsis else s)"

definition describeTwilioError :: "alert_env \<Rightarrow> nat \<Rightarrow> string option \<Rightarrow> string" where
  "describeTwilioError e code raw =
     (let status = ''Twilio returned status '' @ fmt_nat code in
      case map_option (take 8192) raw of
        None \<Rightarrow> status
      | Some body \<Rightarrow>
          if body = [] then status
          else (case aeTwilioError e body of
                  None \<Rightarrow> status @ '': '' @ cut 200 body
                | Some (ecode, message, moreInfo) \<Rightarrow>
                    if message = [] then status @ '': '' @ cut 200 body
                    else (let details = (if ecode \<noteq> 0 then [''code '' @ fmt_int ecode] else []) @
                                (if moreInfo \<noteq> [] \<and> length moreInfo \<le> 200 then [''see '' @ moreInfo] else [])
                          in if details = [] then status @ '': '' @ cut 300 message
                             else status @ '': '' @ cut 300 message @ '' ('' @ Join '', '' details @ '')'')))"

definition describeTelegramError :: "alert_env \<Rightarrow> nat \<Rightarrow> string option \<Rightarrow> string" where
  "describeTelegramError e code raw =
     (let status = ''telegram API returned status '' @ fmt_nat code in
      case map_option (take 8192) raw of
        None \<Rightarrow> status
      | Some body \<Rightarrow>
          if body = [] then status
          else (case aeTelegramError e body of
                  None \<Rightarrow> status @ '': '' @ cut 200 body
                | Some (description, retryAfter) \<Rightarrow>
                    if description = [] then status @ '': '' @ cut 200 body
                    else if retryAfter > 0 then status @ '': '' @ description @ '' (retry after '' @ fmt_int retryAfter @ ''s)''
                    else status @ '': '' @ description))"

text \<open>The common end of the four HTTP senders: \<open>None\<close> is success.\<close>

definition outcome :: "string \<Rightarrow> (nat \<Rightarrow> string option \<Rightarrow> string) \<Rightarrow> http_result \<Rightarrow> string option" where
  "outcome op describe r =
     (case r of
        BadRequest err \<Rightarrow> Some (sanitizeTransportError ''failed to create request'' err)
      | SendFailed err \<Rightarrow> Some (sanitizeTransportError op err)
      | Responded code body \<Rightarrow> if code \<ge> 400 then Some (describe code body) else None)"

subsection \<open>The channels\<close>

definition nl :: string where
  "nl = [CHR 0x0A]"

definition sms_request :: "twilio_config \<Rightarrow> outbox_row \<Rightarrow> http_request" where
  "sms_request cfg row =
     \<lparr>rqURL = ''https://api.twilio.com/2010-04-01/Accounts/'' @ twAccountSID cfg @ ''/Messages.json'',
      rqAuth = Some (twAPIKeySID cfg, twAPIKeySecret cfg),
      rqBody = FormBody [(''To'', obTarget row), (''From'', twFromNumber cfg),
        (''Body'', getEmojiForStatus (obStatus row) @ '' Upguardly: '' @ obMonitorName row @ '' is '' @ status_name (obStatus row) @ nl @
           ''Target: '' @ obMonitorTarget row @ nl @ ''Latency: '' @ formatLatency row)]\<rparr>"

definition SMS_Send :: "twilio_config \<Rightarrow> alert_env \<Rightarrow> outbox_row \<Rightarrow> string option" where
  "SMS_Send cfg e row =
     (if twAccountSID cfg = [] \<or> twAPIKeySID cfg = [] \<or> twAPIKeySecret cfg = [] then Some ''Twilio not configured''
      else if obTarget row = [] then Some ''recipient phone number not set''
      else outcome ''failed to send SMS'' (describeTwilioError e) (aeDo e (sms_request cfg row)))"

definition telegram_text :: "outbox_row \<Rightarrow> string" where
  "telegram_text row =
     getEmojiForStatus (obStatus row) @ '' <b>Monitor Alert: '' @ EscapeString (obMonitorName row) @ ''</b>'' @ nl @
     ''Monitor <b>'' @ EscapeString (obMonitorName row) @ ''</b> is now <b>'' @ status_name (obStatus row) @ ''</b>'' @ nl @ nl @
     ''<b>Type:</b> '' @ type_name (obMonitorType row) @ nl @
     ''<b>Target:</b> '' @ EscapeString (obMonitorTarget row) @ nl @
     ''<b>Latency:</b> '' @ formatLatency row @ nl @
     ''<b>Message:</b> '' @ EscapeString (obMessage row)"

definition telegram_request :: "telegram_config \<Rightarrow> outbox_row \<Rightarrow> http_request" where
  "telegram_request cfg row =
     \<lparr>rqURL = ''https://api.telegram.org/bot'' @ tgBotToken cfg @ ''/sendMessage'', rqAuth = None,
      rqBody = TelegramBody \<lparr>tpChatID = obTarget row, tpText = telegram_text row, tpParseMode = ''HTML''\<rparr>\<rparr>"

definition Telegram_Send :: "telegram_config \<Rightarrow> alert_env \<Rightarrow> outbox_row \<Rightarrow> string option" where
  "Telegram_Send cfg e row =
     (if tgBotToken cfg = [] then Some ''telegram bot token not configured''
      else if obTarget row = [] then Some ''telegram chat ID not configured''
      else outcome ''failed to send telegram message'' (describeTelegramError e) (aeDo e (telegram_request cfg row)))"

definition discord_request :: "outbox_row \<Rightarrow> http_request" where
  "discord_request row =
     \<lparr>rqURL = obTarget row, rqAuth = None,
      rqBody = DiscordBody [\<lparr>deTitle = getEmojiForStatus (obStatus row) @ '' Monitor Alert: '' @ obMonitorName row,
        deDescription = ''Monitor **'' @ obMonitorName row @ ''** is now **'' @ status_name (obStatus row) @ ''**'',
        deColor = getColorForStatus (obStatus row),
        deFields = [\<lparr>efName = ''Type'', efValue = type_name (obMonitorType row), efInline = True\<rparr>,
          \<lparr>efName = ''Target'', efValue = obMonitorTarget row, efInline = True\<rparr>,
          \<lparr>efName = ''Latency'', efValue = formatLatency row, efInline = True\<rparr>,
          \<lparr>efName = ''Message'', efValue = obMessage row, efInline = False\<rparr>]\<rparr>]\<rparr>"

definition Discord_Send :: "alert_env \<Rightarrow> outbox_row \<Rightarrow> string option" where
  "Discord_Send e row =
     (if obTarget row = [] then Some ''discord webhook URL not configured''
      else outcome ''failed to send discord webhook'' (\<lambda>code _. ''discord webhook returned status '' @ fmt_nat code)
             (aeDo e (discord_request row)))"

definition slack_request :: "outbox_row \<Rightarrow> http_request" where
  "slack_request row =
     \<lparr>rqURL = obTarget row, rqAuth = None,
      rqBody = SlackBody [\<lparr>sbType = ''header'',
          sbText = Some (SlackText ''plain_text'' (getEmojiForStatus (obStatus row) @ '' Monitor Alert: '' @ obMonitorName row)), sbFields = []\<rparr>,
        \<lparr>sbType = ''section'',
          sbText = Some (SlackText ''mrkdwn'' (''Monitor *'' @ obMonitorName row @ ''* is now *'' @ status_name (obStatus row) @ ''*'')), sbFields = []\<rparr>,
        \<lparr>sbType = ''section'', sbText = None,
          sbFields = [SlackText ''mrkdwn'' (''*Type:*'' @ nl @ type_name (obMonitorType row)),
            SlackText ''mrkdwn'' (''*Target:*'' @ nl @ obMonitorTarget row),
            SlackText ''mrkdwn'' (''*Latency:*'' @ nl @ formatLatency row),
            SlackText ''mrkdwn'' (''*Message:*'' @ nl @ obMessage row)]\<rparr>]\<rparr>"

definition Slack_Send :: "alert_env \<Rightarrow> outbox_row \<Rightarrow> string option" where
  "Slack_Send e row =
     (if obTarget row = [] then Some ''slack webhook URL not configured''
      else outcome ''failed to send slack webhook'' (\<lambda>code _. ''slack webhook returned status '' @ fmt_nat code)
             (aeDo e (slack_request row)))"

definition alert_mail :: "sendgrid_config \<Rightarrow> outbox_row \<Rightarrow> sendgrid_mail" where
  "alert_mail cfg row =
     \<lparr>smFromName = sgFromName cfg, smFrom = sgFrom cfg, smTo = obTarget row,
      smSubject = ''Upguardly Alert: '' @ obMonitorName row @ '' is '' @ status_name (obStatus row),
      smText = ''Monitor Alert'' @ nl @ nl @ ''Monitor: '' @ obMonitorName row @ nl @ ''Status: '' @ status_name (obStatus row) @ nl @
        ''Type: '' @ type_name (obMonitorType row) @ nl @ ''Target: '' @ obMonitorTarget row @ nl @ ''Latency: '' @ formatLatency row @ nl @
        ''Message: '' @ obMessage row @ nl @ nl @ ''---'' @ nl @ ''Sent by Upguardly Monitoring'' @ nl\<rparr>"

definition Email_Send :: "sendgrid_config \<Rightarrow> alert_env \<Rightarrow> outbox_row \<Rightarrow> string option" where
  "Email_Send cfg e row =
     (if \<not> sgEnabled cfg then None
      else if sgAPIKey cfg = [] then Some ''SendGrid not configured''
      else if obTarget row = [] then Some ''recipient email not set''
      else (case aeSendGrid e (sgAPIKey cfg) (alert_mail cfg row) of
              Inl err \<Rightarrow> Some (''failed to send email: '' @ err)
            | Inr (code, body) \<Rightarrow> if code \<ge> 400 then Some (''SendGrid returned status '' @ fmt_nat code @ '': '' @ body) else None))"

fun NewManager :: "config \<Rightarrow> alert_env \<Rightarrow> senders" where
  "NewManager cfg e EMAIL = Some (Email_Send (cfSendGrid cfg) e)"
| "NewManager cfg e SMS = Some (SMS_Send (cfTwilio cfg) e)"
| "NewManager cfg e DISCORD = Some (Discord_Send e)"
| "NewManager cfg e SLACK = Some (Slack_Send e)"
| "NewManager cfg e TELEGRAM = Some (Telegram_Send (cfTelegram cfg) e)"
| "NewManager cfg e (OtherChannel _) = None"

subsection \<open>No markup from users\<close>

definition angle :: "char \<Rightarrow> bool" where
  "angle c \<longleftrightarrow> c = CHR ''<'' \<or> c = CHR ''>''"

lemma escape_angle: "filter angle (EscapeString s) = []"
  by (induction s) (auto simp: EscapeString_def escape_char_def angle_def)

lemma fmt_nat_digits: "c \<in> set (fmt_nat n) \<Longrightarrow> 48 \<le> (of_char c :: nat) \<and> (of_char c :: nat) \<le> 57"
proof (induction n rule: fmt_nat.induct)
  case (1 n)
  then show ?case by (subst (asm) (2) fmt_nat.simps) (auto split: if_splits)
qed

lemma fmt_int_angle: "filter angle (fmt_int x) = []"
  using fmt_nat_digits by (fastforce simp: fmt_int_def angle_def filter_empty_conv)

lemma latency_angle: "filter angle (formatLatency row) = []"
  by (simp add: formatLatency_def fmt_int_angle) (simp add: angle_def)

text \<open>Nobody can write markup into a Telegram message. Whatever the name, the target and the message of the monitor
  are, the angle brackets of the text are those of the fourteen tags of the template, in their order.\<close>

theorem telegram_markup_fixed:
  assumes "obMonitorType row \<in> {HTTP, PORT, PING}"
  shows "filter (\<lambda>c. c = CHR ''<'' \<or> c = CHR ''>'') (telegram_text row) = concat (replicate 14 ''<>'')"
proof -
  have e: "filter angle (getEmojiForStatus (obStatus row)) = []"
    by (cases "obStatus row") (simp_all add: angle_def)
  have s: "filter angle (status_name (obStatus row)) = []" by (cases "obStatus row") (simp_all add: angle_def)
  have t: "filter angle (type_name (obMonitorType row)) = []" using assms by (auto simp: angle_def)
  have "filter angle (telegram_text row) = concat (replicate 14 ''<>'')"
    unfolding telegram_text_def filter_append e s t escape_angle latency_angle
    by (simp add: angle_def nl_def numeral_eq_Suc)
  then show ?thesis by (simp add: angle_def [abs_def])
qed

subsection \<open>What an error tells\<close>

text \<open>The request that an alert makes, when its channel is configured; and an answer without the URL that the
  client's error carries.\<close>

definition request_of :: "config \<Rightarrow> outbox_row \<Rightarrow> http_request option" where
  "request_of cfg row =
     (if obTarget row = [] then None
      else case obChannel row of
        SMS \<Rightarrow> (let t = cfTwilio cfg in if twAccountSID t = [] \<or> twAPIKeySID t = [] \<or> twAPIKeySecret t = [] then None else Some (sms_request t row))
      | TELEGRAM \<Rightarrow> (if tgBotToken (cfTelegram cfg) = [] then None else Some (telegram_request (cfTelegram cfg) row))
      | DISCORD \<Rightarrow> Some (discord_request row)
      | SLACK \<Rightarrow> Some (slack_request row)
      | _ \<Rightarrow> None)"

fun without_url :: "http_result \<Rightarrow> http_result" where
  "without_url (BadRequest err) = BadRequest (err\<lparr>heURL := None\<rparr>)"
| "without_url (SendFailed err) = SendFailed (err\<lparr>heURL := None\<rparr>)"
| "without_url (Responded code body) = Responded code body"

lemma outcome_without_url: "outcome op f r = outcome op f (without_url r)"
  by (cases r) (simp_all add: outcome_def sanitizeTransportError_def)

lemma describe_cong:
  "aeTelegramError e = aeTelegramError e' \<Longrightarrow> describeTelegramError e = describeTelegramError e'"
  "aeTwilioError e = aeTwilioError e' \<Longrightarrow> describeTwilioError e = describeTwilioError e'"
  unfolding describeTelegramError_def [abs_def] describeTwilioError_def [abs_def] by (simp_all only:)

text \<open>C25: a failed delivery reports no credential. Take two alerts of the same HTTP channel, with any configurations,
  targets and texts: when their requests meet the same fate, the same response or an error with the same cause whatever
  URL it carries, the dispatcher gets the same error text. So no webhook URL, bot token, account or key reaches the log or
  the history, unless the other side puts it into its answer.\<close>

theorem delivery_errors_hide_credentials:
  assumes "obChannel r = obChannel r'" "request_of c r = Some q" "request_of c' r' = Some q'"
    and "without_url (aeDo e q) = without_url (aeDo e' q')"
    and "aeTelegramError e = aeTelegramError e'" "aeTwilioError e = aeTwilioError e'"
  shows "Send (NewManager c e) r = Send (NewManager c' e') r'"
proof -
  have o: "outcome op f (aeDo e q) = outcome op f (aeDo e' q')" for op f
    by (subst (1 2) outcome_without_url) (simp only: assms(4))
  show ?thesis
    using assms(1-3) o describe_cong(1) [OF assms(5)] describe_cong(2) [OF assms(6)]
    by (cases "obChannel r'")
      (auto simp: request_of_def Send_def SMS_Send_def Telegram_Send_def Discord_Send_def Slack_Send_def Let_def split: if_splits)
qed

lemma fmt_nat_length: "n < 10 ^ Suc k \<Longrightarrow> length (fmt_nat n) \<le> Suc k"
proof (induction k arbitrary: n)
  case 0
  then show ?case by (subst fmt_nat.simps) simp
next
  case (Suc k)
  then have "n div 10 < 10 ^ Suc k" by simp
  then show ?case using Suc.IH [of "n div 10"] by (subst fmt_nat.simps) auto
qed

lemma cut_length: "length (cut n s) \<le> n + 3"
  by (simp add: cut_def ellipsis_def)

text \<open>A Twilio error stays short, however long the response is.\<close>

lemma twilio_error_bounded:
  assumes "code < 1000" "\<And>b ec m i. aeTwilioError e b = Some (ec, m, i) \<Longrightarrow> \<bar>ec\<bar> < 10 ^ 19"
  shows "length (describeTwilioError e code raw) \<le> 600"
proof -
  have c: "length (fmt_nat code) \<le> 3" using fmt_nat_length [of code 2] assms(1) by simp
  have i: "length (fmt_int ec) \<le> 20" if ec: "\<bar>ec\<bar> < 10 ^ 19" for ec :: int
  proof -
    have "nat \<bar>ec\<bar> < 10 ^ Suc 18" using ec by (simp add: nat_less_iff)
    from fmt_nat_length [OF this] show ?thesis by (cases "ec < 0") (simp_all add: fmt_int_def)
  qed
  have j: "length (Join '', '' ((if ec \<noteq> 0 then [''code '' @ fmt_int ec] else []) @
      (if mi \<noteq> [] \<and> length mi \<le> 200 then [''see '' @ mi] else []))) \<le> 231" if "\<bar>ec\<bar> < 10 ^ 19" for ec :: int and mi
    using i [OF that] by auto
  define body where "body = map_option (take 8192) raw"
  have d: "length (''Twilio returned status '' @ fmt_nat code) \<le> 26" using c by simp
  have t: "length (''Twilio returned status '' @ fmt_nat code @ '': '' @ cut n x) \<le> n + 31" for n x
    using d cut_length [of n x] by simp
  show ?thesis
  proof (cases "body = None \<or> body = Some []")
    case True
    then show ?thesis using d by (auto simp: describeTwilioError_def body_def [symmetric] Let_def)
  next
    case False
    then obtain x where x: "body = Some x" "x \<noteq> []" by auto
    show ?thesis
    proof (cases "aeTwilioError e x")
      case None
      then show ?thesis using x t [of 200 x] by (simp add: describeTwilioError_def body_def [symmetric] Let_def)
    next
      case (Some p)
      obtain ec m mi where p: "p = (ec, m, mi)" by (cases p)
      have ec: "\<bar>ec\<bar> < 10 ^ 19" using assms(2) Some p by simp
      show ?thesis
        using x Some p t [of 200 x] t [of 300 m] j [OF ec, of mi]
        by (simp add: describeTwilioError_def body_def [symmetric] Let_def del: Join.simps)
    qed
  qed
qed

subsection \<open>A cut in the middle of a character\<close>

text \<open>Well-formed UTF-8, which PostgreSQL demands of a text value.\<close>

definition cont :: "char \<Rightarrow> bool" where
  "cont c \<longleftrightarrow> 0x80 \<le> (of_char c :: nat) \<and> (of_char c :: nat) \<le> 0xBF"

definition second_byte :: "nat \<Rightarrow> nat \<Rightarrow> bool" where
  "second_byte a b \<longleftrightarrow> (if a = 0xE0 then 0xA0 else if a = 0xF0 then 0x90 else 0x80) \<le> b \<and>
     b \<le> (if a = 0xED then 0x9F else if a = 0xF4 then 0x8F else 0xBF)"

fun valid_utf8 :: "string \<Rightarrow> bool" where
  "valid_utf8 [] = True"
| "valid_utf8 (a # r) =
     (let x = of_char a :: nat in
      if x < 0x80 then valid_utf8 r
      else case r of
        [] \<Rightarrow> False
      | b # r1 \<Rightarrow>
          if 0xC2 \<le> x \<and> x \<le> 0xDF then cont b \<and> valid_utf8 r1
          else (case r1 of
                  [] \<Rightarrow> False
                | c # r2 \<Rightarrow>
                    if 0xE0 \<le> x \<and> x \<le> 0xEF then second_byte x (of_char b) \<and> cont c \<and> valid_utf8 r2
                    else (case r2 of
                            [] \<Rightarrow> False
                          | d # r3 \<Rightarrow> 0xF0 \<le> x \<and> x \<le> 0xF4 \<and> second_byte x (of_char b) \<and> cont c \<and> cont d \<and> valid_utf8 r3)))"

lemma ascii_utf8: "\<forall>c \<in> set s. (of_char c :: nat) < 0x80 \<Longrightarrow> valid_utf8 (s @ t) = valid_utf8 t"
  by (induction s) (simp_all add: Let_def)

definition e_acute :: string where
  "e_acute = [CHR 0xC3, CHR 0xA9]"

text \<open>An alert that cannot be delivered may never leave the outbox. When Twilio, or a proxy before it, answers with a
  page whose 200th byte is the first of a character of two, such as an e with an acute accent, the reason is cut between the
  two: although the page is well-formed UTF-8, the text for the history is not. The store refuses it, so that the alert stays
  in the outbox past its last attempt and is tried again for ever.\<close>

theorem cut_reason_never_settles:
  assumes "\<forall>c \<in> set page. (of_char c :: nat) < 0x80" "length page = 199" "valid_utf8 rest" "400 \<le> code"
    and "request_of cfg row = Some q" "obChannel row = SMS"
    and "aeDo e q = Responded code (Some (page @ e_acute @ rest))" "\<forall>b. aeTwilioError e b = None"
    and "\<forall>i. fails i \<longleftrightarrow> \<not> valid_utf8 (ahMessage (record_of (NewManager cfg e) row))"
  shows "valid_utf8 (page @ e_acute @ rest) \<and> deliver (NewManager cfg e) fails row ob = ob"
proof -
  let ?status = "''Twilio returned status '' @ fmt_nat code"
  have tk: "take 8192 (page @ e_acute @ rest) = page @ [CHR 0xC3, CHR 0xA9] @ take 7991 rest" using assms(2) by (simp add: e_acute_def)
  have "cut 200 (take 8192 (page @ e_acute @ rest)) = page @ [CHR 0xC3] @ ellipsis" unfolding tk using assms(2) by (simp add: cut_def)
  moreover have "take 8192 (page @ e_acute @ rest) \<noteq> []" unfolding tk by simp
  ultimately have "describeTwilioError e code (Some (page @ e_acute @ rest)) = ?status @ '': '' @ page @ [CHR 0xC3] @ ellipsis"
    using assms(8) by (simp add: describeTwilioError_def Let_def)
  then have send: "Send (NewManager cfg e) row = Some (?status @ '': '' @ page @ [CHR 0xC3] @ ellipsis)"
    using assms(4-7) by (auto simp: Send_def SMS_Send_def request_of_def outcome_def Let_def split: if_splits)
  have dig: "\<forall>c \<in> set (fmt_nat n). (of_char c :: nat) < 0x80" for n using fmt_nat_digits by fastforce
  have "\<not> valid_utf8 ([CHR 0xC3] @ ellipsis)" by (simp add: ellipsis_def cont_def)
  moreover have "valid_utf8 (ahMessage (record_of (NewManager cfg e) row)) = valid_utf8 ([CHR 0xC3] @ ellipsis)"
  proof -
    let ?pre = "''delivery failed after '' @ fmt_nat (obAttempts row) @ '' attempts: '' @ ?status @ '': '' @ page"
    have "\<forall>c \<in> set ?pre. (of_char c :: nat) < 0x80" using dig assms(1) by auto
    moreover have "ahMessage (record_of (NewManager cfg e) row) = ?pre @ [CHR 0xC3] @ ellipsis" by (simp add: record_of_def send)
    ultimately show ?thesis by (simp only: ascii_utf8)
  qed
  ultimately have "deliver (NewManager cfg e) fails row ob = ob"
    using assms(9) by (simp add: deliver_def send finalize_def FinalizeOutboxAlert_def)
  moreover have "valid_utf8 (page @ e_acute @ rest)"
    using ascii_utf8 [OF assms(1)] assms(3) by (simp add: e_acute_def cont_def)
  ultimately show ?thesis by blast
qed

subsection \<open>Witnesses\<close>

definition sms_row :: outbox_row where
  "sms_row = \<lparr>obID = ''o1'', obAlertID = Some ''a1'', obChannelID = None, obOrgAlertRecipientID = None, obMonitorID = ''m1'',
     obChannel = SMS, obTarget = ''+15551234567'', obStatus = DOWN, obMessage = ''<b>Timeout</b>'', obStatusCode = None, obLatency = 30000,
     obMonitorName = ''shop'', obMonitorType = HTTP, obMonitorTarget = ''https://example.com/?a=1&b=2'', obAttempts = 9,
     obNextAttemptAt = 0\<rparr>"

definition sms_config :: config where
  "sms_config = (Load (\<lambda>_. []))\<lparr>cfTwilio := \<lparr>twAccountSID = ''AC1'', twAPIKeySID = ''SK1'', twAPIKeySecret = ''secret'', twFromNumber = ''+1''\<rparr>\<rparr>"

definition page_env :: "http_result \<Rightarrow> alert_env" where
  "page_env r = \<lparr>aeDo = (\<lambda>_. r), aeSendGrid = (\<lambda>_ _. Inr (202, [])), aeTelegramError = (\<lambda>_. None), aeTwilioError = (\<lambda>_. None)\<rparr>"

lemma sms_request_of: "request_of sms_config sms_row = Some (sms_request (cfTwilio sms_config) sms_row)" "obChannel sms_row = SMS"
  by (simp_all add: request_of_def sms_row_def sms_config_def)

theorem telegram_markup_fixed_witness:
  "filter (\<lambda>c. c = CHR ''<'' \<or> c = CHR ''>'') (telegram_text sms_row) = concat (replicate 14 ''<>'')"
  by (rule telegram_markup_fixed) (simp add: sms_row_def)

theorem delivery_errors_hide_credentials_witness:
  "let dead = (\<lambda>u. page_env (SendFailed \<lparr>heURL = Some u, heCause = ''connection refused''\<rparr>));
       other = sms_config\<lparr>cfTwilio := (cfTwilio sms_config)\<lparr>twAccountSID := ''AC2''\<rparr>\<rparr>
   in Send (NewManager sms_config (dead ''https://api.twilio.com/AC1'')) sms_row = Send (NewManager other (dead ''https://api.twilio.com/AC2'')) sms_row"
proof -
  define other where "other = sms_config\<lparr>cfTwilio := (cfTwilio sms_config)\<lparr>twAccountSID := ''AC2''\<rparr>\<rparr>"
  have q: "request_of other sms_row = Some (sms_request (cfTwilio other) sms_row)"
    by (simp add: request_of_def sms_row_def sms_config_def other_def)
  show ?thesis
    unfolding Let_def other_def [symmetric]
    by (rule delivery_errors_hide_credentials [OF refl sms_request_of(1) q]) (simp_all add: page_env_def)
qed

theorem cut_reason_never_settles_witness:
  "\<exists>fails. deliver (NewManager sms_config (page_env (Responded 502 (Some (replicate 199 CHR ''x'' @ e_acute @ ''!''))))) fails sms_row
     \<lparr>alert_outbox = [sms_row], alert_history = []\<rparr> = \<lparr>alert_outbox = [sms_row], alert_history = []\<rparr>"
proof -
  let ?e = "page_env (Responded 502 (Some (replicate 199 CHR ''x'' @ e_acute @ ''!'')))"
  have "valid_utf8 (replicate 199 CHR ''x'' @ e_acute @ ''!'') \<and>
    deliver (NewManager sms_config ?e) (\<lambda>_. \<not> valid_utf8 (ahMessage (record_of (NewManager sms_config ?e) sms_row))) sms_row
      \<lparr>alert_outbox = [sms_row], alert_history = []\<rparr> = \<lparr>alert_outbox = [sms_row], alert_history = []\<rparr>"
    by (rule cut_reason_never_settles [OF _ _ _ _ sms_request_of, where code = 502]) (simp_all add: page_env_def)
  then show ?thesis by blast
qed

end
