(* ===== verification/Incidents.thy ===== *)
theory Incidents
  imports Alerts Verifier Expiry Stats
begin

section \<open>Incidents: the quorum functions of the database\<close>

text \<open>
  The decision that a monitor is down is taken in PostgreSQL, by functions of the schema \<^verbatim>\<open>maintenance\<close> that
  the migrations of \<^verbatim>\<open>internal/database/bun/migrations\<close> create; each is modelled in its last version, with the
  methods of \<^verbatim>\<open>store_scheduler.go\<close> that call it. A function that raises an error returns \<open>None\<close>, and its
  transaction leaves the database as it was. The advisory lock makes the calls for one monitor a sequence. What
  PostgreSQL itself provides is a field of \<open>pg\<close>: the time of the transaction, wall clocks of time zones (of
  the session too, which is UTC), the reading of \<^verbatim>\<open>TIME\<close> values and \<^verbatim>\<open>gen_random_uuid\<close>.
\<close>

subsection \<open>Data\<close>

record pg =
  pgNow :: instant
  pgAtZone :: "string \<Rightarrow> instant \<Rightarrow> instant"
  pgTimeOfDay :: "string \<Rightarrow> duration"
  pgUUID :: "nat \<Rightarrow> ident"

datatype check_source = SCHEDULED | VERIFICATION

text \<open>The rows of \<^verbatim>\<open>monitor_region_status\<close> with the column that only these functions read, and incidents with
  the columns of the repeat sweep.\<close>

record region_report = region_status_row +
  rsSource :: check_source

record tracked_incident = incident_row +
  inRepeatsSent :: int
  inLastAlertAt :: "instant option"

record engine =
  enDB :: db
  enBeats :: "(string \<times> instant) list"
  enReports :: "region_report list"
  enRequests :: "verification_row list"
  enIncidents :: "tracked_incident list"
  enOutbox :: "outbox_row list"
  enDrawn :: nat

datatype transition = Unchanged | Opened | Escalated | Resolved

text \<open>\<^verbatim>\<open>TIMESTAMP(3)\<close> columns keep milliseconds.\<close>

definition pg_ms :: "instant \<Rightarrow> instant" where
  "pg_ms t = (t + 500000) div 1000000 * 1000000"

subsection \<open>Maintenance windows\<close>

definition dow :: "instant \<Rightarrow> int" where
  "dow t = (t div day + 4) mod 7"

definition weekly_hit :: "instant \<Rightarrow> int \<Rightarrow> duration \<Rightarrow> int \<Rightarrow> bool" where
  "weekly_hit local weekday start minutes \<longleftrightarrow>
     (let today_start = local div day * day + start; yday_start = local div day * day - day + start; len = minutes * 60 * second in
      (dow local = weekday \<and> local \<ge> today_start \<and> local < today_start + len) \<or>
      (dow (local - day) = weekday \<and> local \<ge> yday_start \<and> local < yday_start + len))"

definition in_window :: "pg \<Rightarrow> maintenance_window \<Rightarrow> bool" where
  "in_window p w =
     (case mwKind w of
        ONE_OFF \<Rightarrow> (case (mwStartsAt w, mwEndsAt w) of (Some s, Some e) \<Rightarrow> pgNow p \<ge> s \<and> pgNow p < e | _ \<Rightarrow> False)
      | WEEKLY \<Rightarrow> (case (mwWeekday w, mwStartTime w, mwDurationMinutes w, mwTimezone w) of
           (Some wd, Some st, Some mins, Some tz) \<Rightarrow> weekly_hit (pgAtZone p tz (pgNow p)) wd (pgTimeOfDay p st) mins
         | _ \<Rightarrow> False)
      | OtherKind _ \<Rightarrow> False)"

definition in_maintenance :: "pg \<Rightarrow> db \<Rightarrow> ident \<Rightarrow> bool" where
  "in_maintenance p d mid = list_ex (\<lambda>w. mwMonitorID w = mid \<and> in_window p w) (windows d)"

text \<open>C33: a weekly window is every week's. The test, which looks at today's occurrence and at yesterday's, holds exactly when
  the local time lies in the occurrence of some day with the window's weekday, from its start on and for its
  length, across midnight and the turn of the week.\<close>

theorem weekly_window_recurs:
  assumes "0 \<le> start" "start < day" "1 \<le> minutes" "minutes \<le> 1440"
  shows "weekly_hit local weekday start minutes \<longleftrightarrow>
    (\<exists>n. (n + 4) mod 7 = weekday \<and> n * day + start \<le> local \<and> local < n * day + start + minutes * 60 * second)"
proof -
  define L where "L = local div day"
  have l: "L * day \<le> local" "local < L * day + day" unfolding L_def by (simp_all add: algebra_simps minus_mod_eq_mult_div [symmetric])
  have y: "(local - day) div day = L - 1" unfolding L_def by simp
  have len: "minutes * 60 * second \<le> day" using assms(4) by simp
  have only: "n = L \<or> n = L - 1" if "n * day + start \<le> local" "local < n * day + start + minutes * 60 * second" for n
  proof -
    have "n \<le> L" by (rule ccontr) (use that(1) l(2) assms(1) in linarith)
    moreover have "L - 1 \<le> n" by (rule ccontr) (use that(2) l(1) len assms(2) in linarith)
    ultimately show ?thesis by linarith
  qed
  have "weekly_hit local weekday start minutes \<longleftrightarrow>
      (L + 4) mod 7 = weekday \<and> L * day + start \<le> local \<and> local < L * day + start + minutes * 60 * second \<or>
      ((L - 1) + 4) mod 7 = weekday \<and> (L - 1) * day + start \<le> local \<and> local < (L - 1) * day + start + minutes * 60 * second"
    unfolding weekly_hit_def dow_def Let_def y L_def [symmetric] by (simp add: algebra_simps)
  then show ?thesis using only by blast
qed

subsection \<open>Destinations of an alert\<close>

definition channel_on :: "db \<Rightarrow> ident \<Rightarrow> notification_channel \<Rightarrow> bool" where
  "channel_on d mid ch =
     (case find (\<lambda>s. mcsChannelID s = ncID ch \<and> mcsMonitorID s = mid) (settings d) of
        Some s \<Rightarrow> mcsEnabled s
      | None \<Rightarrow> ncEnabled ch)"

definition owner_channels :: "db \<Rightarrow> monitor_row \<Rightarrow> notification_channel list" where
  "owner_channels d m = filter (\<lambda>ch. ncUserID ch = billed_user d m \<and> channel_on d (mrID m) ch) (channels d)"

definition extra_recipients :: "db \<Rightarrow> monitor_row \<Rightarrow> org_alert_recipient list" where
  "extra_recipients d m =
     (case mrOrgID m of
        None \<Rightarrow> []
      | Some oid \<Rightarrow> filter (\<lambda>r. arOrgID r = oid \<and>
          \<not> list_ex (\<lambda>ch. ncChannel ch = arChannel r \<and> ncTarget ch = arTarget r) (owner_channels d m)) (recipients d))"

record destination =
  dsChannelID :: "ident option"
  dsRecipientID :: "ident option"
  dsChannel :: alert_channel
  dsTarget :: string

definition destinations :: "db \<Rightarrow> monitor_row \<Rightarrow> destination list" where
  "destinations d m =
     map (\<lambda>ch. \<lparr>dsChannelID = Some (ncID ch), dsRecipientID = None, dsChannel = ncChannel ch, dsTarget = ncTarget ch\<rparr>) (owner_channels d m) @
     map (\<lambda>r. \<lparr>dsChannelID = None, dsRecipientID = Some (arID r), dsChannel = arChannel r, dsTarget = arTarget r\<rparr>) (extra_recipients d m)"

definition alert_row :: "pg \<Rightarrow> monitor_row \<Rightarrow> status \<Rightarrow> string \<Rightarrow> int option \<Rightarrow> int \<Rightarrow> nat \<times> destination \<Rightarrow> outbox_row" where
  "alert_row p m st message code latency x =
     \<lparr>obID = pgUUID p (fst x), obAlertID = None, obChannelID = dsChannelID (snd x), obOrgAlertRecipientID = dsRecipientID (snd x),
      obMonitorID = mrID m, obChannel = dsChannel (snd x), obTarget = dsTarget (snd x), obStatus = st, obMessage = message,
      obStatusCode = code, obLatency = latency, obMonitorName = mrName m, obMonitorType = mrType m, obMonitorTarget = mrTarget m,
      obAttempts = 0, obNextAttemptAt = pg_ms (pgNow p)\<rparr>"

text \<open>\<^verbatim>\<open>message\<close> and \<^verbatim>\<open>latency\<close> of \<^verbatim>\<open>alert_outbox\<close> are \<^verbatim>\<open>NOT NULL\<close>: a row without one is refused, whatever the default
  of the column.\<close>

definition enqueue_monitor_alerts ::
    "pg \<Rightarrow> ident \<Rightarrow> status \<Rightarrow> string option \<Rightarrow> int option \<Rightarrow> int option \<Rightarrow> engine \<Rightarrow> (nat \<times> engine) option" where
  "enqueue_monitor_alerts p mid st message code latency s =
     (case find (\<lambda>m. mrID m = mid) (monitors (enDB s)) of
        None \<Rightarrow> Some (0, s)
      | Some m \<Rightarrow>
          (let dests = destinations (enDB s) m in
           if dests = [] then Some (0, s)
           else (case (message, latency) of
                   (Some t, Some l) \<Rightarrow>
                     Some (length dests, s\<lparr>enOutbox := enOutbox s @ map (alert_row p m st t code l) (enumerate (enDrawn s) dests),
                                           enDrawn := enDrawn s + length dests\<rparr>)
                 | _ \<Rightarrow> None)))"

subsection \<open>Quorum\<close>

definition effective_interval :: "int option \<Rightarrow> string \<Rightarrow> int" where
  "effective_interval i plan = (case i of Some v \<Rightarrow> v | None \<Rightarrow> if plan = ''FREE'' then 300 else 60)"

definition active_regions :: "instant \<Rightarrow> (string \<times> instant) list \<Rightarrow> string list" where
  "active_regions now beats = map fst (filter (\<lambda>b. snd b \<ge> now - 60 * second) beats)"

definition fresh_report :: "instant \<Rightarrow> duration \<Rightarrow> ident \<Rightarrow> region_report \<Rightarrow> bool" where
  "fresh_report now window mid r \<longleftrightarrow> rsMonitorID r = mid \<and>
     rsCheckedAt r \<ge> now - (case rsSource r of VERIFICATION \<Rightarrow> 120 * second | SCHEDULED \<Rightarrow> window)"

definition reporters :: "pg \<Rightarrow> int \<Rightarrow> engine \<Rightarrow> monitor_row \<Rightarrow> region_report list" where
  "reporters p mul s m =
     (let window = effective_interval (mrInterval m) (ownerPlanExpr (enDB s) m) * mul * second in
      filter (\<lambda>r. fresh_report (pgNow p) window (mrID m) r \<and>
        (rsRegion r \<in> set (active_regions (pgNow p) (enBeats s)) \<or> rsRegion r \<in> set (mrRegions m))) (enReports s))"

definition pending :: "pg \<Rightarrow> int \<Rightarrow> engine \<Rightarrow> monitor_row \<Rightarrow> verification_row list" where
  "pending p mul s m = filter (\<lambda>q. vrMonitorID q = mrID m \<and> vrExpiresAt q \<ge> pgNow p \<and>
     vrRegion q \<in> set (active_regions (pgNow p) (enBeats s)) \<and> vrRegion q \<notin> rsRegion ` set (reporters p mul s m)) (enRequests s)"

definition unhealthy :: "pg \<Rightarrow> int \<Rightarrow> engine \<Rightarrow> monitor_row \<Rightarrow> region_report list" where
  "unhealthy p mul s m = filter (\<lambda>r. rsStatus r \<noteq> UP) (reporters p mul s m)"

definition total :: "pg \<Rightarrow> int \<Rightarrow> engine \<Rightarrow> monitor_row \<Rightarrow> nat" where
  "total p mul s m = max 1 (length (reporters p mul s m) + length (pending p mul s m))"

definition worst :: "region_report list \<Rightarrow> status" where
  "worst rs = (if list_ex (\<lambda>r. rsStatus r = DOWN) rs then DOWN else DEGRADED)"

fun join_texts :: "string \<Rightarrow> string list \<Rightarrow> string" where
  "join_texts sep [] = []"
| "join_texts sep [x] = x"
| "join_texts sep (x # y # xs) = x @ sep @ join_texts sep (y # xs)"

definition regions_msg :: "region_report list \<Rightarrow> string" where
  "regions_msg rs = join_texts ''; '' (map (\<lambda>r. rsRegion r @ '' '' @ status_name (rsStatus r) @
     (case rsMessage r of None \<Rightarrow> [] | Some t \<Rightarrow> '': '' @ t)) (sort_key rsRegion rs))"

definition quorum_msg :: "pg \<Rightarrow> int \<Rightarrow> engine \<Rightarrow> monitor_row \<Rightarrow> string" where
  "quorum_msg p mul s m = fmt_nat (length (unhealthy p mul s m)) @ ''/'' @ fmt_nat (total p mul s m) @ '' regions unhealthy: '' @
     regions_msg (unhealthy p mul s m)"

definition open_incident :: "ident \<Rightarrow> engine \<Rightarrow> tracked_incident option" where
  "open_incident mid s = (case sort_key (\<lambda>i. - inStartedAt i) (filter (\<lambda>i. inMonitorID i = mid \<and> inResolvedAt i = None) (enIncidents s)) of
     [] \<Rightarrow> None | i # _ \<Rightarrow> Some i)"

text \<open>The end of the function: outside maintenance the transition is announced, and the incident remembers when
  something was queued.\<close>

definition announce ::
    "pg \<Rightarrow> ident \<Rightarrow> transition \<Rightarrow> ident \<Rightarrow> status \<Rightarrow> string option \<Rightarrow> int option \<Rightarrow> int option \<Rightarrow> engine \<Rightarrow>
     ((transition \<times> ident option) \<times> engine) option" where
  "announce p mid tr iid st message code latency s =
     (if in_maintenance p (enDB s) mid then Some ((tr, Some iid), s)
      else (case enqueue_monitor_alerts p mid st message code latency s of
              None \<Rightarrow> None
            | Some (n, s') \<Rightarrow> Some ((tr, Some iid),
                if n > 0 then s'\<lparr>enIncidents := update_where (\<lambda>i. inID i = iid) (\<lambda>i. i\<lparr>inLastAlertAt := Some (pgNow p)\<rparr>) (enIncidents s')\<rparr>
                else s')))"

definition new_incident :: "pg \<Rightarrow> ident \<Rightarrow> ident \<Rightarrow> status \<Rightarrow> int option \<Rightarrow> string \<Rightarrow> tracked_incident" where
  "new_incident p iid mid st code message =
     \<lparr>inID = iid, inMonitorID = mid, inStatus = st, inStartedAt = pg_ms (pgNow p), inResolvedAt = None, inStatusCode = code,
      inMessage = Some message, inCreatedAt = pg_ms (pgNow p), inRepeatsSent = 0, inLastAlertAt = None\<rparr>"

definition worsened :: "status \<Rightarrow> status \<Rightarrow> status" where
  "worsened old new = (if old = DOWN \<or> new = DOWN then DOWN else new)"

definition resolve :: "pg \<Rightarrow> ident \<Rightarrow> ident \<Rightarrow> engine \<Rightarrow> engine" where
  "resolve p mid iid s = s\<lparr>
     enIncidents := update_where (\<lambda>i. inID i = iid) (\<lambda>i. i\<lparr>inResolvedAt := Some (pg_ms (pgNow p))\<rparr>) (enIncidents s),
     enReports := delete_where (\<lambda>r. rsMonitorID r = mid \<and> rsSource r = VERIFICATION) (enReports s),
     enRequests := delete_where (\<lambda>q. vrMonitorID q = mid) (enRequests s)\<rparr>"

definition evaluate_monitor_quorum ::
    "pg \<Rightarrow> ident \<Rightarrow> int option \<Rightarrow> int option \<Rightarrow> string option \<Rightarrow> int \<Rightarrow> engine \<Rightarrow>
     ((transition \<times> ident option) \<times> engine) option" where
  "evaluate_monitor_quorum p mid code latency up_message mul s =
     (case find (\<lambda>m. mrID m = mid) (monitors (enDB s)) of
        None \<Rightarrow> Some ((Unchanged, None), s)
      | Some m \<Rightarrow>
          (let bad = unhealthy p mul s m; msg = quorum_msg p mul s m in
           if length bad * 2 > total p mul s m
           then (case open_incident mid s of
                   None \<Rightarrow>
                     (let iid = pgUUID p (enDrawn s) in
                      announce p mid Opened iid (worst bad) (Some msg) code latency
                        (s\<lparr>enIncidents := enIncidents s @ [new_incident p iid mid (worst bad) code msg], enDrawn := enDrawn s + 1\<rparr>))
                 | Some i \<Rightarrow>
                     (let st = worsened (inStatus i) (worst bad);
                          s' = s\<lparr>enIncidents := update_where (\<lambda>x. inID x = inID i)
                            (\<lambda>x. x\<lparr>inStatus := st, inMessage := Some msg,
                                   inStatusCode := (case code of None \<Rightarrow> inStatusCode x | Some c \<Rightarrow> Some c)\<rparr>) (enIncidents s)\<rparr>
                      in if st \<noteq> inStatus i then announce p mid Escalated (inID i) st (Some msg) code latency s'
                         else Some ((Unchanged, Some (inID i)), s')))
           else (case open_incident mid s of
                   None \<Rightarrow> Some ((Unchanged, None), s)
                 | Some i \<Rightarrow> announce p mid Resolved (inID i) UP up_message code latency (resolve p mid (inID i) s))))"

text \<open>A check is reported: the region's row is replaced, a failing scheduled check asks the other active regions
  that have not looked for thirty seconds, and the quorum decides.\<close>

definition put_report :: "pg \<Rightarrow> ident \<Rightarrow> string \<Rightarrow> status \<Rightarrow> int \<Rightarrow> int option \<Rightarrow> string \<Rightarrow> check_source \<Rightarrow> region_report list \<Rightarrow> region_report list" where
  "put_report p mid region st latency code message source rows =
     (let row = \<lparr>rsMonitorID = mid, rsRegion = region, rsStatus = st, rsLatency = latency, rsStatusCode = code,
                 rsMessage = Some message, rsCheckedAt = pg_ms (pgNow p), rsSource = source\<rparr> in
      if (mid, region) \<in> (\<lambda>r. (rsMonitorID r, rsRegion r)) ` set rows
      then update_where (\<lambda>r. (rsMonitorID r, rsRegion r) = (mid, region)) (\<lambda>_. row) rows
      else rows @ [row])"

definition to_ask :: "pg \<Rightarrow> ident \<Rightarrow> string \<Rightarrow> engine \<Rightarrow> string list" where
  "to_ask p mid region s = filter (\<lambda>r. r \<noteq> region \<and>
     \<not> list_ex (\<lambda>x. rsMonitorID x = mid \<and> rsRegion x = r \<and> rsCheckedAt x \<ge> pgNow p - 30 * second) (enReports s) \<and>
     \<not> list_ex (\<lambda>q. vrMonitorID q = mid \<and> vrRegion q = r) (enRequests s)) (active_regions (pgNow p) (enBeats s))"

definition ask_regions :: "pg \<Rightarrow> ident \<Rightarrow> string \<Rightarrow> engine \<Rightarrow> engine" where
  "ask_regions p mid region s =
     (let asked = to_ask p mid region s in
      s\<lparr>enRequests := enRequests s @ map (\<lambda>(k, r). \<lparr>vrID = pgUUID p k, vrMonitorID = mid, vrRegion = r,
           vrRequestedAt = pg_ms (pgNow p), vrExpiresAt = pg_ms (pgNow p + 60 * second), vrClaimedAt = None, vrClaimedBy = None\<rparr>)
         (enumerate (enDrawn s) asked),
        enDrawn := enDrawn s + length asked\<rparr>)"

definition with_report :: "pg \<Rightarrow> monitor_row \<Rightarrow> string \<Rightarrow> status \<Rightarrow> int \<Rightarrow> int option \<Rightarrow> string \<Rightarrow> check_source \<Rightarrow> engine \<Rightarrow> engine" where
  "with_report p m region st latency code message source s =
     (let s' = s\<lparr>enReports := put_report p (mrID m) region st latency code message
                   (if region \<in> set (mrRegions m) then SCHEDULED else VERIFICATION) (enReports s)\<rparr>
      in if source = SCHEDULED \<and> st \<noteq> UP then ask_regions p (mrID m) region s' else s')"

definition record_region_check ::
    "pg \<Rightarrow> ident \<Rightarrow> string \<Rightarrow> status \<Rightarrow> int \<Rightarrow> int option \<Rightarrow> string \<Rightarrow> int \<Rightarrow> check_source \<Rightarrow> engine \<Rightarrow>
     ((transition \<times> ident option) \<times> engine) option" where
  "record_region_check p mid region st latency code message mul source s =
     (case find (\<lambda>m. mrID m = mid) (monitors (enDB s)) of
        None \<Rightarrow> Some ((Unchanged, None), s)
      | Some m \<Rightarrow> evaluate_monitor_quorum p mid code (Some latency) (Some message) mul
                    (with_report p m region st latency code message source s))"

subsection \<open>Reminders\<close>

definition reminder_due :: "pg \<Rightarrow> db \<Rightarrow> tracked_incident \<Rightarrow> bool" where
  "reminder_due p d i \<longleftrightarrow> inResolvedAt i = None \<and>
     (case find (\<lambda>m. mrID m = inMonitorID i) (monitors d) of
        None \<Rightarrow> False
      | Some m \<Rightarrow>
          (case (mrRepeatAlertIntervalSecs m, mrRepeatAlertMaxCount m) of
             (Some interval, Some cap) \<Rightarrow> inRepeatsSent i < cap \<and>
               (case inLastAlertAt i of Some t \<Rightarrow> t | None \<Rightarrow> inStartedAt i) + interval * second \<le> pgNow p
           | _ \<Rightarrow> False)) \<and>
     \<not> in_maintenance p d (inMonitorID i)"

definition remind :: "pg \<Rightarrow> tracked_incident \<Rightarrow> engine \<Rightarrow> engine option" where
  "remind p i s =
     map_option (\<lambda>(_, s'). s'\<lparr>enIncidents := update_where (\<lambda>x. inID x = inID i)
         (\<lambda>x. x\<lparr>inRepeatsSent := inRepeatsSent x + 1, inLastAlertAt := Some (pgNow p)\<rparr>) (enIncidents s')\<rparr>)
       (enqueue_monitor_alerts p (inMonitorID i) (inStatus i)
         (Some (''Still '' @ status_name (inStatus i) @ (case inMessage i of None \<Rightarrow> [] | Some t \<Rightarrow> '': '' @ t)))
         (inStatusCode i) None s)"

fun remind_loop :: "pg \<Rightarrow> tracked_incident list \<Rightarrow> nat \<Rightarrow> engine \<Rightarrow> (nat \<times> engine) option" where
  "remind_loop p [] n s = Some (n, s)"
| "remind_loop p (i # is) n s = (case remind p i s of None \<Rightarrow> None | Some s' \<Rightarrow> remind_loop p is (n + 1) s')"

definition due_incidents :: "pg \<Rightarrow> (ident \<Rightarrow> bool) \<Rightarrow> engine \<Rightarrow> tracked_incident list" where
  "due_incidents p locked s = sort_key inStartedAt (filter (\<lambda>i. reminder_due p (enDB s) i \<and> \<not> locked (inID i)) (enIncidents s))"

definition enqueue_repeat_alerts :: "pg \<Rightarrow> (ident \<Rightarrow> bool) \<Rightarrow> engine \<Rightarrow> (nat \<times> engine) option" where
  "enqueue_repeat_alerts p locked s = remind_loop p (due_incidents p locked s) 0 s"

subsection \<open>The store methods\<close>

text \<open>\<open>down\<close>: the call does not reach the database.\<close>

definition RecordRegionCheck_db ::
    "pg \<Rightarrow> bool \<Rightarrow> ident \<Rightarrow> string \<Rightarrow> check_result \<Rightarrow> check_source \<Rightarrow> engine \<Rightarrow> (store_error + transition) \<times> engine" where
  "RecordRegionCheck_db p down mid region r source s =
     (if down then (Inl ErrOther, s)
      else (case record_region_check p mid region (ckStatus r) (ckLatency r) (ckStatusCode r) (ckMessage r) RegionStaleMultiplier source s of
              None \<Rightarrow> (Inl ErrOther, s)
            | Some ((tr, _), s') \<Rightarrow> (Inr tr, s')))"

definition EvaluateMonitorQuorum_db :: "pg \<Rightarrow> bool \<Rightarrow> ident \<Rightarrow> engine \<Rightarrow> (store_error + transition) \<times> engine" where
  "EvaluateMonitorQuorum_db p down mid s =
     (if down then (Inl ErrOther, s)
      else (case evaluate_monitor_quorum p mid None (Some 0) None 3 s of
              None \<Rightarrow> (Inl ErrOther, s)
            | Some ((tr, _), s') \<Rightarrow> (Inr tr, s')))"

definition EnqueueRepeatAlerts :: "pg \<Rightarrow> bool \<Rightarrow> (ident \<Rightarrow> bool) \<Rightarrow> engine \<Rightarrow> (store_error + nat) \<times> engine" where
  "EnqueueRepeatAlerts p down locked s =
     (if down then (Inl ErrOther, s)
      else (case enqueue_repeat_alerts p locked s of
              None \<Rightarrow> (Inl ErrOther, s)
            | Some (n, s') \<Rightarrow> (Inr n, s')))"

text \<open>The loop of \<^verbatim>\<open>repeater.go\<close> over its ticks; an error is logged and the next tick tries again.\<close>

definition repeater_loop :: "(pg \<times> bool \<times> (ident \<Rightarrow> bool)) list \<Rightarrow> engine \<Rightarrow> engine" where
  "repeater_loop = fold (\<lambda>(p, down, locked) s. snd (EnqueueRepeatAlerts p down locked s))"

text \<open>\<^verbatim>\<open>RecordExpiryCheck\<close> with its last statement: \<^verbatim>\<open>enqueue_monitor_alerts\<close> is called with a \<^verbatim>\<open>NULL\<close> status code
  and a \<^verbatim>\<open>NULL\<close> latency, and an error rolls the transaction back. The days left are counted from the process's
  clock, \<open>clock\<close>; the two database functions read the database's, in \<open>p\<close>.\<close>

definition expiry_announcement ::
    "net_env \<Rightarrow> (string \<Rightarrow> string + string) \<Rightarrow> instant \<Rightarrow> pg \<Rightarrow> expiry_claim \<Rightarrow> instant \<Rightarrow> engine \<Rightarrow> (nat \<times> engine) option" where
  "expiry_announcement n etld clock p claim e s =
     (case expiryAlertContent n etld claim e (ExpiryDaysLeft e clock) of
        (st, message) \<Rightarrow> enqueue_monitor_alerts p (ecMonitorID claim) st (Some message) None None s)"

definition announces_expiry :: "instant \<Rightarrow> pg \<Rightarrow> engine \<Rightarrow> expiry_claim \<Rightarrow> instant option \<Rightarrow> string \<Rightarrow> expiry_state \<Rightarrow> bool" where
  "announces_expiry clock p s claim expiresAt checkErr st \<longleftrightarrow> checkErr = [] \<and> opt_any expiresAt (\<lambda>e.
     opt_any (find (\<lambda>r. ex_key r = (ecMonitorID claim, ecKind claim)) (expiry_status st)) (\<lambda>row.
       should_alert (expiry_bucket claim e clock) e row \<and> \<not> in_maintenance p (enDB s) (ecMonitorID claim)))"

definition RecordExpiryCheck_db ::
    "net_env \<Rightarrow> (string \<Rightarrow> string + string) \<Rightarrow> instant \<Rightarrow> pg \<Rightarrow> bool \<Rightarrow> expiry_claim \<Rightarrow> instant option \<Rightarrow> string \<Rightarrow>
     expiry_state \<times> engine \<Rightarrow> (store_error + unit) \<times> (expiry_state \<times> engine)" where
  "RecordExpiryCheck_db n etld clock p down claim expiresAt checkErr x =
     (case x of (st, s) \<Rightarrow>
        let queued = (if announces_expiry clock p s claim expiresAt checkErr st
                      then expiry_announcement n etld clock p claim (the expiresAt) s else Some (0, s));
            (res, st') = RecordExpiryCheck n etld clock (in_maintenance p (enDB s) (ecMonitorID claim))
                           (down \<or> queued = None) claim expiresAt checkErr st
        in (res, (st', case (res, queued) of (Inr _, Some (_, s')) \<Rightarrow> s' | _ \<Rightarrow> s)))"

subsection \<open>One open incident per monitor\<close>

text \<open>What the invariant reads of an incident: its identity, its monitor, its severity and whether it is open.\<close>

type_synonym core = "ident \<times> ident \<times> status \<times> instant option"

definition inc_core :: "tracked_incident \<Rightarrow> core" where
  "inc_core i = (inID i, inMonitorID i, inStatus i, inResolvedAt i)"

definition cores :: "engine \<Rightarrow> core list" where
  "cores s = map inc_core (enIncidents s)"

definition cores_ok :: "(nat \<Rightarrow> ident) \<Rightarrow> nat \<Rightarrow> core list \<Rightarrow> bool" where
  "cores_ok uuid n cs \<longleftrightarrow> uniq fst cs \<and> (\<forall>c \<in> set cs. \<exists>k < n. fst c = uuid k) \<and>
     (\<forall>i mid st. (i, mid, st, None) \<in> set cs \<longrightarrow> st \<noteq> UP) \<and>
     (\<forall>i j mid st st'. (i, mid, st, None) \<in> set cs \<longrightarrow> (j, mid, st', None) \<in> set cs \<longrightarrow> i = j)"

definition engine_ok :: "(nat \<Rightarrow> ident) \<Rightarrow> engine \<Rightarrow> bool" where
  "engine_ok uuid s \<longleftrightarrow> cores_ok uuid (enDrawn s) (cores s) \<and> uniq fst (enBeats s) \<and>
     uniq (\<lambda>r. (rsMonitorID r, rsRegion r)) (enReports s) \<and> uniq (\<lambda>q. (vrMonitorID q, vrRegion q)) (enRequests s)"

inductive engine_step :: "(nat \<Rightarrow> ident) \<Rightarrow> engine \<Rightarrow> engine \<Rightarrow> bool" for uuid where
  report: "record_region_check p mid region st latency code message mul source s = Some (x, s') \<Longrightarrow> pgUUID p = uuid \<Longrightarrow> engine_step uuid s s'"
| reevaluate: "evaluate_monitor_quorum p mid code latency message mul s = Some (x, s') \<Longrightarrow> pgUUID p = uuid \<Longrightarrow> engine_step uuid s s'"
| sweep: "enqueue_repeat_alerts p locked s = Some (n, s') \<Longrightarrow> pgUUID p = uuid \<Longrightarrow> engine_step uuid s s'"
| expiry: "enqueue_monitor_alerts p mid st message code latency s = Some (n, s') \<Longrightarrow> pgUUID p = uuid \<Longrightarrow> engine_step uuid s s'"
| beat: "engine_step uuid s (s\<lparr>enBeats := UpsertRegionHeartbeat (pg_ms now) region (enBeats s)\<rparr>)"
| claim: "engine_step uuid s (s\<lparr>enRequests := snd (ClaimVerificationRequests (enDB s) now locked region n (enRequests s))\<rparr>)"
| complete: "engine_step uuid s (s\<lparr>enRequests := CompleteVerificationRequest i (enRequests s)\<rparr>)"
| expire: "engine_step uuid s (s\<lparr>enRequests := snd (ExpireVerificationRequests now locked (enRequests s))\<rparr>)"
| dispatch: "engine_step uuid s (s\<lparr>enOutbox := rows\<rparr>)"
| configure: "engine_step uuid s (s\<lparr>enDB := d,
      enIncidents := filter (\<lambda>i. inMonitorID i \<in> mrID ` set (monitors d)) (enIncidents s),
      enReports := filter (\<lambda>r. rsMonitorID r \<in> mrID ` set (monitors d)) (enReports s),
      enRequests := filter (\<lambda>q. vrMonitorID q \<in> mrID ` set (monitors d)) (enRequests s)\<rparr>)"

inductive engine_reachable :: "(nat \<Rightarrow> ident) \<Rightarrow> engine \<Rightarrow> bool" for uuid where
  fresh: "engine_reachable uuid \<lparr>enDB = d, enBeats = [], enReports = [], enRequests = [], enIncidents = [], enOutbox = [], enDrawn = 0\<rparr>"
| step: "engine_reachable uuid s \<Longrightarrow> engine_step uuid s s' \<Longrightarrow> engine_reachable uuid s'"

lemma enqueueD:
  assumes "enqueue_monitor_alerts p mid st message code latency s = Some (n, s')"
  shows "\<exists>rows. s' = s\<lparr>enOutbox := enOutbox s @ rows, enDrawn := enDrawn s + n\<rparr> \<and> length rows = n \<and>
    (n > 0 \<longrightarrow> message \<noteq> None \<and> latency \<noteq> None)"
proof -
  have "s = s\<lparr>enOutbox := enOutbox s @ [], enDrawn := enDrawn s + 0\<rparr>" by simp
  then show ?thesis using assms
    by (auto simp: enqueue_monitor_alerts_def Let_def split: option.splits if_splits)
qed

lemma cores_update:
  "(\<And>i. inc_core (f i) = inc_core i) \<Longrightarrow> map inc_core (update_where P f is) = map inc_core is"
  by (simp add: map_update_where)

lemma announceD:
  assumes "announce p mid tr iid st message code latency s = Some (x, s')"
  shows "cores s' = cores s \<and> enDrawn s \<le> enDrawn s' \<and> enBeats s' = enBeats s \<and> enReports s' = enReports s \<and>
    enRequests s' = enRequests s \<and> enDB s' = enDB s \<and> x = (tr, Some iid)"
proof (cases "in_maintenance p (enDB s) mid")
  case False
  then obtain n s1 where e: "enqueue_monitor_alerts p mid st message code latency s = Some (n, s1)"
    using assms by (auto simp: announce_def split: option.splits)
  obtain rows where s1: "s1 = s\<lparr>enOutbox := enOutbox s @ rows, enDrawn := enDrawn s + n\<rparr>" using enqueueD [OF e] by blast
  have c: "inc_core (i\<lparr>inLastAlertAt := t\<rparr>) = inc_core i" for i t by (simp add: inc_core_def)
  show ?thesis using assms False by (auto simp: announce_def e s1 cores_def cores_update c split: if_splits)
qed (use assms in \<open>auto simp: announce_def\<close>)

lemma sort_head:
  "(case sort_key f xs of [] \<Rightarrow> None | x # _ \<Rightarrow> Some x) = Some y \<Longrightarrow> y \<in> set xs"
  "(case sort_key f xs of [] \<Rightarrow> None | x # _ \<Rightarrow> Some x) = None \<Longrightarrow> xs = []"
proof -
  have s: "set (sort_key f xs) = set xs" by simp
  show "(case sort_key f xs of [] \<Rightarrow> None | x # _ \<Rightarrow> Some x) = Some y \<Longrightarrow> y \<in> set xs"
    by (cases "sort_key f xs") (use s in auto)
  show "(case sort_key f xs of [] \<Rightarrow> None | x # _ \<Rightarrow> Some x) = None \<Longrightarrow> xs = []"
    by (cases "sort_key f xs") (use s in simp_all)
qed

lemma open_incidentD:
  "open_incident mid s = Some i \<Longrightarrow> i \<in> set (enIncidents s) \<and> inMonitorID i = mid \<and> inResolvedAt i = None"
  using sort_head(1) [of "\<lambda>i. - inStartedAt i" "filter (\<lambda>i. inMonitorID i = mid \<and> inResolvedAt i = None) (enIncidents s)" i]
  by (simp add: open_incident_def)

lemma open_incident_None:
  "open_incident mid s = None \<Longrightarrow> i \<in> set (enIncidents s) \<Longrightarrow> inMonitorID i = mid \<Longrightarrow> inResolvedAt i \<noteq> None"
  using sort_head(2) [of "\<lambda>i. - inStartedAt i" "filter (\<lambda>i. inMonitorID i = mid \<and> inResolvedAt i = None) (enIncidents s)"]
  by (auto simp: open_incident_def filter_empty_conv)

lemma mem_inc_core: "(i, mid, st, res) \<in> set (map inc_core is) \<longleftrightarrow>
    (\<exists>x \<in> set is. inID x = i \<and> inMonitorID x = mid \<and> inStatus x = st \<and> inResolvedAt x = res)"
  by (auto simp: inc_core_def image_iff)

lemma cores_ok_weaken: "cores_ok uuid n cs \<Longrightarrow> n \<le> n' \<Longrightarrow> cores_ok uuid n' cs"
  unfolding cores_ok_def using order_less_le_trans by blast


lemma cores_ok_iff:
  "cores_ok uuid n (map inc_core is) \<longleftrightarrow> uniq inID is \<and> (\<forall>x \<in> set is. \<exists>k < n. inID x = uuid k) \<and>
     (\<forall>x \<in> set is. inResolvedAt x = None \<longrightarrow> inStatus x \<noteq> UP) \<and>
     (\<forall>x \<in> set is. \<forall>y \<in> set is. inResolvedAt x = None \<longrightarrow> inResolvedAt y = None \<longrightarrow> inMonitorID x = inMonitorID y \<longrightarrow> inID x = inID y)"
proof -
  have "uniq fst (map inc_core is) = uniq inID is" by (simp add: uniq_def inc_core_def o_def)
  moreover have "(\<forall>c \<in> set (map inc_core is). \<exists>k < n. fst c = uuid k) = (\<forall>x \<in> set is. \<exists>k < n. inID x = uuid k)"
    by (simp add: inc_core_def)
  moreover have "(\<forall>i mid st. (i, mid, st, None) \<in> set (map inc_core is) \<longrightarrow> st \<noteq> UP) =
      (\<forall>x \<in> set is. inResolvedAt x = None \<longrightarrow> inStatus x \<noteq> UP)"
    unfolding mem_inc_core by blast
  moreover have "(\<forall>i j mid st st'. (i, mid, st, None) \<in> set (map inc_core is) \<longrightarrow> (j, mid, st', None) \<in> set (map inc_core is) \<longrightarrow> i = j) =
      (\<forall>x \<in> set is. \<forall>y \<in> set is. inResolvedAt x = None \<longrightarrow> inResolvedAt y = None \<longrightarrow> inMonitorID x = inMonitorID y \<longrightarrow> inID x = inID y)"
    unfolding mem_inc_core by blast
  ultimately show ?thesis unfolding cores_ok_def by (simp only:)
qed

lemmas cores_okD = cores_ok_iff [THEN iffD1, THEN conjunct1] cores_ok_iff [THEN iffD1, THEN conjunct2, THEN conjunct1]
  cores_ok_iff [THEN iffD1, THEN conjunct2, THEN conjunct2, THEN conjunct1]
  cores_ok_iff [THEN iffD1, THEN conjunct2, THEN conjunct2, THEN conjunct2]

lemma cores_ok_subset: "cores_ok uuid n (map inc_core is) \<Longrightarrow> cores_ok uuid n (map inc_core (filter P is))"
  unfolding cores_ok_iff by (simp add: uniq_def distinct_map_filter)

lemma cores_ok_change:
  assumes ok: "cores_ok uuid n (map inc_core is)" and f: "\<And>x. inID (f x) = inID x" "\<And>x. inMonitorID (f x) = inMonitorID x"
    "\<And>x. inResolvedAt (f x) = None \<Longrightarrow> inResolvedAt x = None \<and> (inStatus x \<noteq> UP \<longrightarrow> inStatus (f x) \<noteq> UP)"
  shows "cores_ok uuid n (map inc_core (update_where P f is))"
proof -
  define g where "g x = (if P x then f x else x)" for x
  have g: "inID (g x) = inID x" "inMonitorID (g x) = inMonitorID x"
    "inResolvedAt (g x) = None \<Longrightarrow> inResolvedAt x = None \<and> (inStatus x \<noteq> UP \<longrightarrow> inStatus (g x) \<noteq> UP)" for x
    using f by (auto simp: g_def)
  have u: "update_where P f is = map g is" by (simp add: update_where_def g_def)
  note c = ok [unfolded cores_ok_iff]
  have "\<exists>k < n. inID (g x) = uuid k" if "x \<in> set is" for x using c that by (simp add: g)
  moreover have "inStatus (g x) \<noteq> UP" if "x \<in> set is" "inResolvedAt (g x) = None" for x using c g(3) [OF that(2)] that(1) by blast
  moreover have "inID (g x) = inID (g y)" if "x \<in> set is" "y \<in> set is" "inResolvedAt (g x) = None" "inResolvedAt (g y) = None"
      "inMonitorID (g x) = inMonitorID (g y)" for x y
    using c g(3) [OF that(3)] g(3) [OF that(4)] that(1,2,5) unfolding g(1,2) by blast
  moreover have "uniq inID (map g is)" using c by (simp add: uniq_def o_def g)
  ultimately show ?thesis unfolding u cores_ok_iff set_map ball_simps(9) by (intro conjI ballI impI)
qed

lemma cores_ok_open:
  assumes ok: "cores_ok uuid n (map inc_core is)" and "inj uuid" and "\<forall>x \<in> set is. inMonitorID x = inMonitorID y \<longrightarrow> inResolvedAt x \<noteq> None"
    and y: "inID y = uuid n" "inStatus y \<noteq> UP"
  shows "cores_ok uuid (n + 1) (map inc_core (is @ [y]))"
proof -
  note old = cores_okD [OF ok]
  have ne: "inID x \<noteq> uuid n" if x: "x \<in> set is" for x
  proof -
    obtain k where "k < n" "inID x = uuid k" using bspec [OF old(2) x] by blast
    then show ?thesis using injD [OF \<open>inj uuid\<close>, of k n] by auto
  qed
  have "inID y \<notin> inID ` set is" unfolding y(1) using ne by (metis imageE)
  then have "uniq inID (is @ [y])" using old(1) by (simp add: uniq_append)
  moreover have "\<exists>k < n + 1. inID x = uuid k" if "x \<in> set (is @ [y])" for x
  proof (cases "x = y")
    case False
    then have "x \<in> set is" using that by simp
    then obtain k where "k < n" "inID x = uuid k" using old(2) by blast
    then show ?thesis by (intro exI [of _ k]) simp
  qed (use y(1) in auto)
  moreover have "inID x = inID x'" if "x \<in> set (is @ [y])" "x' \<in> set (is @ [y])" "inResolvedAt x = None" "inResolvedAt x' = None"
      "inMonitorID x = inMonitorID x'" for x x'
  proof (cases "x = y \<or> x' = y")
    case True
    then show ?thesis using that assms(3) by auto
  next
    case False
    then have "x \<in> set is" "x' \<in> set is" using that by simp_all
    then show ?thesis using old(4) that(3-5) by blast
  qed
  moreover have "inStatus x \<noteq> UP" if "x \<in> set (is @ [y])" "inResolvedAt x = None" for x
    using that y(2) old(3) by auto
  ultimately show ?thesis unfolding cores_ok_iff by (intro conjI ballI impI)
qed

lemma evaluate_ok:
  assumes e: "evaluate_monitor_quorum p mid code latency message mul s = Some (x, s')" and uuid: "pgUUID p = uuid" "inj uuid"
    and ok: "engine_ok uuid s"
  shows "engine_ok uuid s'"
proof (cases "find (\<lambda>m. mrID m = mid) (monitors (enDB s))")
  case None
  then show ?thesis using e ok by (auto simp: evaluate_monitor_quorum_def)
next
  case (Some m)
  let ?bad = "unhealthy p mul s m"
  have w: "worst ?bad \<noteq> UP" by (simp add: worst_def)
  have c: "cores_ok uuid (enDrawn s) (map inc_core (enIncidents s))" using ok by (simp add: engine_ok_def cores_def)
  have fin: "engine_ok uuid s2"
    if a: "announce p mid tr iid st msg code latency s1 = Some (y, s2)" and c1: "cores_ok uuid (enDrawn s1) (cores s1)"
      and "enBeats s1 = enBeats s" "uniq (\<lambda>r. (rsMonitorID r, rsRegion r)) (enReports s1)"
      "uniq (\<lambda>q. (vrMonitorID q, vrRegion q)) (enRequests s1)" for tr iid st msg s1 y s2
    using announceD [OF a] cores_ok_weaken [OF c1] that ok by (simp add: engine_ok_def)
  show ?thesis
  proof (cases "length ?bad * 2 > total p mul s m")
    case down: True
    show ?thesis
    proof (cases "open_incident mid s")
      case None
      let ?s1 = "s\<lparr>enIncidents := enIncidents s @ [new_incident p (pgUUID p (enDrawn s)) mid (worst ?bad) code (quorum_msg p mul s m)],
        enDrawn := enDrawn s + 1\<rparr>"
      have "cores_ok uuid (enDrawn ?s1) (cores ?s1)" unfolding cores_def
        using cores_ok_open [OF c uuid(2)] open_incident_None [OF None] w by (simp add: new_incident_def uuid)
      then show ?thesis
        using e ok by (intro fin [of Opened _ _ _ ?s1]) (auto simp: evaluate_monitor_quorum_def Some None down Let_def engine_ok_def)
    next
      case i: (Some i)
      let ?st = "worsened (inStatus i) (worst ?bad)"
      let ?f = "\<lambda>x. x\<lparr>inStatus := ?st, inMessage := Some (quorum_msg p mul s m),
          inStatusCode := (case code of None \<Rightarrow> inStatusCode x | Some c \<Rightarrow> Some c)\<rparr>"
      let ?s1 = "s\<lparr>enIncidents := update_where (\<lambda>x. inID x = inID i) ?f (enIncidents s)\<rparr>"
      have "?st \<noteq> UP" using w by (simp add: worsened_def)
      then have c1: "cores_ok uuid (enDrawn ?s1) (cores ?s1)"
        using cores_ok_change [OF c, of ?f] by (simp add: cores_def)
      show ?thesis
      proof (cases "?st = inStatus i")
        case True
        then have "s' = ?s1" using e by (simp add: evaluate_monitor_quorum_def Some i down Let_def)
        then show ?thesis using c1 ok by (simp add: engine_ok_def)
      next
        case False
        then show ?thesis using e ok c1
          by (intro fin [of Escalated _ _ _ ?s1]) (auto simp: evaluate_monitor_quorum_def Some i down Let_def engine_ok_def)
      qed
    qed
  next
    case up: False
    show ?thesis
    proof (cases "open_incident mid s")
      case None
      then show ?thesis using e ok by (auto simp: evaluate_monitor_quorum_def Some up)
    next
      case i: (Some i)
      have "cores_ok uuid (enDrawn (resolve p mid (inID i) s)) (cores (resolve p mid (inID i) s))"
        using cores_ok_change [OF c, of "\<lambda>i. i\<lparr>inResolvedAt := Some (pg_ms (pgNow p))\<rparr>"] by (simp add: cores_def resolve_def)
      then show ?thesis using e ok
        by (intro fin [of Resolved _ _ _ "resolve p mid (inID i) s"])
          (auto simp: evaluate_monitor_quorum_def Some i up Let_def engine_ok_def resolve_def uniq_delete)
    qed
  qed
qed

lemma put_report_uniq:
  "uniq (\<lambda>r. (rsMonitorID r, rsRegion r)) rows \<Longrightarrow>
   uniq (\<lambda>r. (rsMonitorID r, rsRegion r)) (put_report p mid region st latency code message source rows)"
proof -
  assume u: "uniq (\<lambda>r. (rsMonitorID r, rsRegion r)) rows"
  let ?row = "\<lparr>rsMonitorID = mid, rsRegion = region, rsStatus = st, rsLatency = latency, rsStatusCode = code,
                 rsMessage = Some message, rsCheckedAt = pg_ms (pgNow p), rsSource = source\<rparr>"
  show ?thesis
  proof (cases "(mid, region) \<in> (\<lambda>r. (rsMonitorID r, rsRegion r)) ` set rows")
    case True
    have "uniq (\<lambda>r. (rsMonitorID r, rsRegion r)) (update_where (\<lambda>r. (rsMonitorID r, rsRegion r) = (mid, region)) (\<lambda>_. ?row) rows)"
      by (rule uniq_replace [OF u u]) auto
    then show ?thesis unfolding put_report_def Let_def if_P [OF True] .
  next
    case False
    then have "uniq (\<lambda>r. (rsMonitorID r, rsRegion r)) (rows @ [?row])" using u unfolding uniq_append by simp
    then show ?thesis unfolding put_report_def Let_def if_not_P [OF False] .
  qed
qed

lemma ask_regions_uniq:
  assumes "uniq fst (enBeats s)" "uniq (\<lambda>q. (vrMonitorID q, vrRegion q)) (enRequests s)"
  shows "uniq (\<lambda>q. (vrMonitorID q, vrRegion q)) (enRequests (ask_regions p mid region s))"
proof -
  let ?asked = "to_ask p mid region s"
  let ?new = "map (\<lambda>(k, r). \<lparr>vrID = pgUUID p k, vrMonitorID = mid, vrRegion = r, vrRequestedAt = pg_ms (pgNow p),
    vrExpiresAt = pg_ms (pgNow p + 60 * second), vrClaimedAt = None, vrClaimedBy = None\<rparr>) (enumerate (enDrawn s) ?asked)"
  have d: "distinct ?asked" using assms(1) by (simp add: to_ask_def active_regions_def uniq_def distinct_map_filter)
  have k: "map (\<lambda>q. (vrMonitorID q, vrRegion q)) ?new = map (Pair mid) ?asked"
  proof -
    have "map (\<lambda>q. (vrMonitorID q, vrRegion q)) ?new = map (Pair mid) (map snd (enumerate (enDrawn s) ?asked))"
      unfolding map_map by (rule map_cong) auto
    then show ?thesis by (simp only: map_snd_enumerate)
  qed
  have "(vrMonitorID q, vrRegion q) \<notin> Pair mid ` set ?asked" if "q \<in> set (enRequests s)" for q
    using that by (auto simp: to_ask_def list_ex_iff)
  then have "distinct (map (\<lambda>q. (vrMonitorID q, vrRegion q)) (enRequests s @ ?new))"
    using assms(2) d unfolding map_append k by (auto simp: uniq_def distinct_map inj_on_def)
  then show ?thesis by (simp add: uniq_def ask_regions_def Let_def)
qed

lemma with_report_frame:
  "enDB (with_report p m region st latency code message source s) = enDB s"
  "enBeats (with_report p m region st latency code message source s) = enBeats s"
  "enIncidents (with_report p m region st latency code message source s) = enIncidents s"
  "enOutbox (with_report p m region st latency code message source s) = enOutbox s"
  "enReports (with_report p m region st latency code message source s) =
     put_report p (mrID m) region st latency code message (if region \<in> set (mrRegions m) then SCHEDULED else VERIFICATION) (enReports s)"
  "enDrawn s \<le> enDrawn (with_report p m region st latency code message source s)"
  by (simp_all add: with_report_def ask_regions_def Let_def)

lemma with_report_ok:
  assumes "engine_ok uuid s"
  shows "engine_ok uuid (with_report p m region st latency code message source s)"
proof -
  let ?s = "with_report p m region st latency code message source s"
  have "uniq (\<lambda>q. (vrMonitorID q, vrRegion q)) (enRequests ?s)"
    using assms by (auto simp: with_report_def Let_def engine_ok_def intro!: ask_regions_uniq)
  moreover have "cores ?s = cores s" by (simp add: cores_def with_report_frame)
  moreover have "cores_ok uuid (enDrawn ?s) (cores s)"
    using assms cores_ok_weaken [OF _ with_report_frame(6)] by (simp add: engine_ok_def)
  ultimately show ?thesis using assms by (simp add: engine_ok_def with_report_frame put_report_uniq)
qed

lemma remind_ok:
  assumes "remind p i s = Some s'" "engine_ok uuid s"
  shows "engine_ok uuid s' \<and> enDB s' = enDB s"
proof -
  obtain n s1 where e: "enqueue_monitor_alerts p (inMonitorID i) (inStatus i)
         (Some (''Still '' @ status_name (inStatus i) @ (case inMessage i of None \<Rightarrow> [] | Some t \<Rightarrow> '': '' @ t)))
         (inStatusCode i) None s = Some (n, s1)"
    using assms(1) by (auto simp: remind_def)
  obtain rows where s1: "s1 = s\<lparr>enOutbox := enOutbox s @ rows, enDrawn := enDrawn s + n\<rparr>" using enqueueD [OF e] by blast
  have c: "inc_core (x\<lparr>inRepeatsSent := k, inLastAlertAt := t\<rparr>) = inc_core x" for x k t by (simp add: inc_core_def)
  have "cores s' = cores s \<and> enDrawn s \<le> enDrawn s' \<and> enDB s' = enDB s" using assms(1) unfolding remind_def e
    by (auto simp: s1 cores_def cores_update c)
  moreover have "enBeats s' = enBeats s" "enReports s' = enReports s" "enRequests s' = enRequests s"
    using assms(1) unfolding remind_def e by (auto simp: s1)
  ultimately show ?thesis using assms(2) cores_ok_weaken by (auto simp: engine_ok_def)
qed

lemma remind_loop_ok: "remind_loop p is n s = Some (k, s') \<Longrightarrow> engine_ok uuid s \<Longrightarrow> engine_ok uuid s'"
  by (induction p "is" n s rule: remind_loop.induct) (auto split: option.splits dest: remind_ok)

lemma beats_uniq: "uniq fst beats \<Longrightarrow> uniq fst (UpsertRegionHeartbeat now region beats)"
  unfolding UpsertRegionHeartbeat_def by (auto simp: uniq_append intro!: uniq_replace)

lemma engine_step_ok:
  assumes "engine_step uuid s s'" "inj uuid" "engine_ok uuid s"
  shows "engine_ok uuid s'"
  using assms(1)
proof cases
  case (report p mid region st latency code message mul source x)
  then show ?thesis
    using evaluate_ok [OF _ report(2) assms(2) with_report_ok [OF assms(3)]] assms(3)
    by (auto simp: record_region_check_def split: option.splits)
next
  case (reevaluate p mid code latency message mul x)
  then show ?thesis using evaluate_ok assms by blast
next
  case (sweep p locked n)
  then show ?thesis using remind_loop_ok assms(3) by (auto simp: enqueue_repeat_alerts_def)
next
  case (expiry p mid st message code latency n)
  obtain rows where "s' = s\<lparr>enOutbox := enOutbox s @ rows, enDrawn := enDrawn s + n\<rparr>" using enqueueD [OF expiry(1)] by blast
  then show ?thesis using assms(3) cores_ok_weaken by (auto simp: engine_ok_def cores_def)
next
  case (beat now region)
  then show ?thesis using assms(3) beats_uniq by (simp add: engine_ok_def cores_def)
next
  case (claim now locked region n)
  have "uniq (\<lambda>q. (vrMonitorID q, vrRegion q)) (enRequests s')" using assms(3) unfolding claim
    by (auto simp: engine_ok_def ClaimVerificationRequests_def Let_def claim_request_def intro!: uniq_update)
  then show ?thesis using assms(3) unfolding claim by (simp add: engine_ok_def cores_def)
next
  case (complete i)
  then show ?thesis using assms(3) by (simp add: engine_ok_def cores_def CompleteVerificationRequest_def uniq_delete)
next
  case (expire now locked)
  then show ?thesis using assms(3) by (simp add: engine_ok_def cores_def ExpireVerificationRequests_def uniq_delete)
next
  case (dispatch rows)
  then show ?thesis using assms(3) by (simp add: engine_ok_def cores_def)
next
  case (configure d)
  have u: "uniq k xs \<Longrightarrow> uniq k (filter P xs)" for k :: "'x \<Rightarrow> 'y" and xs P by (simp add: uniq_def distinct_map_filter)
  show ?thesis using assms(3) unfolding configure
    by (simp add: engine_ok_def cores_def cores_ok_subset u)
qed

lemma engine_reachable_ok: "engine_reachable uuid s \<Longrightarrow> inj uuid \<Longrightarrow> engine_ok uuid s"
proof (induction rule: engine_reachable.induct)
  case (fresh d)
  then show ?case by (simp add: engine_ok_def cores_ok_def cores_def uniq_def)
next
  case (step s s')
  then show ?case using engine_step_ok by blast
qed

text \<open>C3: however checks, re-evaluations, sweeps, deliveries and changes of the configuration interleave, a monitor
  has at most one open incident, and an open incident is never UP; a region has one report and at most one
  open confirmation request per monitor.\<close>

theorem one_open_incident:
  assumes "engine_reachable uuid s" "inj uuid"
  shows "(\<forall>i \<in> set (enIncidents s). \<forall>j \<in> set (enIncidents s).
      inMonitorID i = inMonitorID j \<longrightarrow> inResolvedAt i = None \<longrightarrow> inResolvedAt j = None \<longrightarrow> i = j) \<and>
    (\<forall>i \<in> set (enIncidents s). inResolvedAt i = None \<longrightarrow> inStatus i \<noteq> UP) \<and>
    uniq (\<lambda>r. (rsMonitorID r, rsRegion r)) (enReports s) \<and> uniq (\<lambda>q. (vrMonitorID q, vrRegion q)) (enRequests s)"
proof -
  have ok: "engine_ok uuid s" by (rule engine_reachable_ok [OF assms])
  then have "cores_ok uuid (enDrawn s) (map inc_core (enIncidents s))" by (simp add: engine_ok_def cores_def)
  note c = cores_okD [OF this]
  have "i = j" if "i \<in> set (enIncidents s)" "j \<in> set (enIncidents s)" "inMonitorID i = inMonitorID j"
    "inResolvedAt i = None" "inResolvedAt j = None" for i j
    using uniq_same [OF c(1) that(1,2)] c(4) that by blast
  then have "\<forall>i \<in> set (enIncidents s). \<forall>j \<in> set (enIncidents s).
      inMonitorID i = inMonitorID j \<longrightarrow> inResolvedAt i = None \<longrightarrow> inResolvedAt j = None \<longrightarrow> i = j" by (intro ballI impI)
  then show ?thesis using ok [unfolded engine_ok_def] c(3) by (elim conjE) (intro conjI)
qed

subsection \<open>The quorum decides\<close>

text \<open>The abstract machine of a monitor: no incident, or an open one of some severity; a verdict is the severity a
  strict majority agrees on, if one does. An open incident takes it, but never gets better than DOWN.\<close>

definition severity :: "engine \<Rightarrow> ident \<Rightarrow> status option" where
  "severity s mid = map_option inStatus (open_incident mid s)"

definition verdict :: "pg \<Rightarrow> int \<Rightarrow> engine \<Rightarrow> monitor_row \<Rightarrow> status option" where
  "verdict p mul s m = (if 2 * length (unhealthy p mul s m) > total p mul s m then Some (worst (unhealthy p mul s m)) else None)"

fun decided :: "status option \<Rightarrow> status option \<Rightarrow> status option" where
  "decided _ None = None"
| "decided None (Some w) = Some w"
| "decided (Some st) (Some w) = Some (if st = DOWN then DOWN else w)"

fun change_of :: "status option \<Rightarrow> status option \<Rightarrow> transition" where
  "change_of None None = Unchanged"
| "change_of None (Some _) = Opened"
| "change_of (Some _) None = Resolved"
| "change_of (Some a) (Some b) = (if a = b then Unchanged else Escalated)"

lemma severity_iff:
  assumes "cores_ok uuid n (cores s)"
  shows "severity s mid = Some st \<longleftrightarrow> (\<exists>x \<in> set (enIncidents s). inMonitorID x = mid \<and> inResolvedAt x = None \<and> inStatus x = st)"
proof
  show "severity s mid = Some st \<Longrightarrow> \<exists>x \<in> set (enIncidents s). inMonitorID x = mid \<and> inResolvedAt x = None \<and> inStatus x = st"
    by (auto simp: severity_def dest: open_incidentD)
next
  assume "\<exists>x \<in> set (enIncidents s). inMonitorID x = mid \<and> inResolvedAt x = None \<and> inStatus x = st"
  then obtain x where x: "x \<in> set (enIncidents s)" "inMonitorID x = mid" "inResolvedAt x = None" "inStatus x = st" by blast
  then obtain i where i: "open_incident mid s = Some i" using open_incident_None [of mid s x] by (cases "open_incident mid s") auto
  note c = cores_okD [OF assms [unfolded cores_def]]
  have "inID i = inID x" using c(4) x open_incidentD [OF i] by metis
  then have "i = x" using uniq_same [OF c(1) _ x(1)] open_incidentD [OF i] by blast
  then show "severity s mid = Some st" using i x by (simp add: severity_def)
qed

lemma option_ext: "(\<And>y. a = Some y \<longleftrightarrow> b = Some y) \<Longrightarrow> a = b"
  by (cases a; cases b) auto

lemma severity_cores:
  assumes "cores s' = cores s" "cores_ok uuid n (cores s)"
  shows "severity s' = severity s"
proof (rule ext, rule option_ext)
  fix mid st
  have "(\<exists>x \<in> set (enIncidents t). inMonitorID x = mid \<and> inResolvedAt x = None \<and> inStatus x = st) \<longleftrightarrow>
      (\<exists>i. (i, mid, st, None) \<in> set (cores t))" for t
    unfolding cores_def mem_inc_core by blast
  then show "severity s' mid = Some st \<longleftrightarrow> severity s mid = Some st"
    using severity_iff [of uuid n s mid st] severity_iff [of uuid n s' mid st] assms by simp
qed

lemma severity_append:
  assumes "cores_ok uuid n (cores s)" "cores_ok uuid n' (map inc_core (enIncidents s @ [y]))" "inResolvedAt y = None"
    and "severity s (inMonitorID y) = None" and "enIncidents s' = enIncidents s @ [y]"
  shows "severity s' = (severity s)(inMonitorID y \<mapsto> inStatus y)"
proof (rule ext, rule option_ext)
  fix mid st
  have c: "cores_ok uuid n' (cores s')" using assms(2,5) by (simp add: cores_def)
  have none: "\<not> (\<exists>x \<in> set (enIncidents s). inMonitorID x = inMonitorID y \<and> inResolvedAt x = None \<and> inStatus x = t)" for t
    using severity_iff [OF assms(1), of "inMonitorID y" t] assms(4) by simp
  show "severity s' mid = Some st \<longleftrightarrow> ((severity s)(inMonitorID y \<mapsto> inStatus y)) mid = Some st"
    unfolding severity_iff [OF c] using severity_iff [OF assms(1), of mid st] none [of st] assms(3,5)
    by (cases "mid = inMonitorID y") auto
qed

lemma severity_update:
  assumes ok: "cores_ok uuid n (cores s)" and ok': "cores_ok uuid n' (cores s')" and i: "open_incident mid s = Some i"
    and s': "enIncidents s' = update_where (\<lambda>x. inID x = inID i) f (enIncidents s)"
    and f: "\<And>x. inMonitorID (f x) = inMonitorID x" "inResolvedAt (f i) = r" "inStatus (f i) = w"
  shows "severity s' = (severity s)(mid := (if r = None then Some w else None))"
proof (rule ext, rule option_ext)
  fix m st
  note c = cores_okD [OF ok [unfolded cores_def]]
  have im: "i \<in> set (enIncidents s)" "inMonitorID i = mid" "inResolvedAt i = None" using open_incidentD [OF i] by simp_all
  have same: "x = i" if "x \<in> set (enIncidents s)" "inID x = inID i" for x using uniq_same [OF c(1) that(1) im(1)] that(2) by blast
  have only: "x = i" if "x \<in> set (enIncidents s)" "inMonitorID x = mid" "inResolvedAt x = None" for x
    using same [OF that(1)] c(4) that im by metis
  show "severity s' m = Some st \<longleftrightarrow> ((severity s)(mid := (if r = None then Some w else None))) m = Some st"
  proof (cases "m = mid")
    case True
    have "(\<exists>x \<in> set (enIncidents s'). inMonitorID x = mid \<and> inResolvedAt x = None \<and> inStatus x = st) \<longleftrightarrow> r = None \<and> w = st"
    proof
      assume "\<exists>x \<in> set (enIncidents s'). inMonitorID x = mid \<and> inResolvedAt x = None \<and> inStatus x = st"
      then obtain x where x: "x \<in> set (enIncidents s)" "inMonitorID (if inID x = inID i then f x else x) = mid"
          "inResolvedAt (if inID x = inID i then f x else x) = None" "inStatus (if inID x = inID i then f x else x) = st"
        by (auto simp: s' update_where_def)
      have "x = i" using x(1,2,3) same only f(1) by (cases "inID x = inID i") auto
      then show "r = None \<and> w = st" using x f by simp
    next
      assume "r = None \<and> w = st"
      then show "\<exists>x \<in> set (enIncidents s'). inMonitorID x = mid \<and> inResolvedAt x = None \<and> inStatus x = st"
        using im f by (intro bexI [of _ "f i"]) (auto simp: s' update_where_def)
    qed
    then show ?thesis unfolding severity_iff [OF ok'] True by auto
  next
    case False
    have "(\<exists>x \<in> set (enIncidents s'). inMonitorID x = m \<and> inResolvedAt x = None \<and> inStatus x = st) \<longleftrightarrow>
        (\<exists>x \<in> set (enIncidents s). inMonitorID x = m \<and> inResolvedAt x = None \<and> inStatus x = st)"
      using False same im(2) f(1) by (auto simp: s' update_where_def)
    then show ?thesis unfolding severity_iff [OF ok'] using False severity_iff [OF ok] by simp
  qed
qed

lemma evaluate_refines:
  assumes e: "evaluate_monitor_quorum p mid code latency message mul s = Some ((tr, iid), s')" and uuid: "pgUUID p = uuid" "inj uuid"
    and ok: "engine_ok uuid s" and m: "find (\<lambda>m. mrID m = mid) (monitors (enDB s)) = Some m"
  shows "severity s' = (severity s)(mid := decided (severity s mid) (verdict p mul s m)) \<and> tr = change_of (severity s mid) (severity s' mid)"
proof -
  let ?bad = "unhealthy p mul s m"
  have w: "worst ?bad \<noteq> UP" by (simp add: worst_def)
  have c: "cores_ok uuid (enDrawn s) (cores s)" using ok by (simp add: engine_ok_def)
  note c' = c [unfolded cores_def]
  have fin: "severity s2 = severity s1 \<and> y = (tr1, Some iid1)"
    if a: "announce p mid tr1 iid1 st msg code latency s1 = Some (y, s2)" and c1: "cores_ok uuid n (cores s1)" for tr1 iid1 st msg s1 y s2 n
    using announceD [OF a] severity_cores [OF _ c1] by blast
  show ?thesis
  proof (cases "length ?bad * 2 > total p mul s m")
    case down: True
    then have v: "verdict p mul s m = Some (worst ?bad)" by (simp add: verdict_def mult.commute)
    show ?thesis
    proof (cases "open_incident mid s")
      case None
      let ?y = "new_incident p (pgUUID p (enDrawn s)) mid (worst ?bad) code (quorum_msg p mul s m)"
      let ?s1 = "s\<lparr>enIncidents := enIncidents s @ [?y], enDrawn := enDrawn s + 1\<rparr>"
      have c1: "cores_ok uuid (enDrawn s + 1) (map inc_core (enIncidents s @ [?y]))"
        using open_incident_None [OF None] w by (intro cores_ok_open [OF c' uuid(2)]) (simp_all add: new_incident_def uuid)
      have c2: "cores_ok uuid (enDrawn s + 1) (cores ?s1)" using c1 by (simp add: cores_def)
      have "severity ?s1 = (severity s)(inMonitorID ?y \<mapsto> inStatus ?y)"
        by (rule severity_append [OF c c1]) (use None in \<open>simp_all add: new_incident_def severity_def\<close>)
      moreover have "severity s' = severity ?s1 \<and> (tr, iid) = (Opened, Some (pgUUID p (enDrawn s)))"
        using e by (intro fin [OF _ c2, of Opened "pgUUID p (enDrawn s)" "worst ?bad" "Some (quorum_msg p mul s m)"])
          (simp add: evaluate_monitor_quorum_def m None down Let_def)
      ultimately show ?thesis using None by (simp add: v severity_def new_incident_def)
    next
      case i: (Some i)
      let ?st = "worsened (inStatus i) (worst ?bad)"
      let ?f = "\<lambda>x. x\<lparr>inStatus := ?st, inMessage := Some (quorum_msg p mul s m),
          inStatusCode := (case code of None \<Rightarrow> inStatusCode x | Some c \<Rightarrow> Some c)\<rparr>"
      let ?s1 = "s\<lparr>enIncidents := update_where (\<lambda>x. inID x = inID i) ?f (enIncidents s)\<rparr>"
      have "?st \<noteq> UP" using w by (simp add: worsened_def)
      then have c1: "cores_ok uuid (enDrawn s) (cores ?s1)" using cores_ok_change [OF c', of ?f] by (simp add: cores_def)
      have "severity ?s1 = (severity s)(mid := (if inResolvedAt i = None then Some ?st else None))"
        by (rule severity_update [OF c c1 i, where f = ?f]) simp_all
      then have sev: "severity ?s1 = (severity s)(mid \<mapsto> ?st)" using open_incidentD [OF i] by simp
      have d: "decided (severity s mid) (verdict p mul s m) = Some ?st" "severity s mid = Some (inStatus i)"
        using i by (auto simp: severity_def v worsened_def worst_def)
      have "severity s' = severity ?s1 \<and> tr = (if ?st = inStatus i then Unchanged else Escalated)"
      proof (cases "?st = inStatus i")
        case True
        then show ?thesis using e by (simp add: evaluate_monitor_quorum_def m i down Let_def)
      next
        case False
        then have ann: "announce p mid Escalated (inID i) ?st (Some (quorum_msg p mul s m)) code latency ?s1 = Some ((tr, iid), s')"
          using e by (simp add: evaluate_monitor_quorum_def m i down Let_def)
        show ?thesis using fin [OF ann c1] False by simp
      qed
      then show ?thesis using sev d by auto
    qed
  next
    case up: False
    then have v: "verdict p mul s m = None" by (simp add: verdict_def mult.commute)
    show ?thesis
    proof (cases "open_incident mid s")
      case None
      then show ?thesis using e v by (auto simp: evaluate_monitor_quorum_def m up severity_def)
    next
      case i: (Some i)
      let ?s1 = "resolve p mid (inID i) s"
      let ?f = "\<lambda>i. i\<lparr>inResolvedAt := Some (pg_ms (pgNow p))\<rparr>"
      have c1: "cores_ok uuid (enDrawn s) (cores ?s1)" using cores_ok_change [OF c', of ?f] by (simp add: cores_def resolve_def)
      have "severity ?s1 = (severity s)(mid := (if Some (pg_ms (pgNow p)) = None then Some (inStatus i) else None))"
        by (rule severity_update [OF c c1 i, where f = ?f]) (simp_all add: resolve_def)
      moreover have "severity s' = severity ?s1 \<and> (tr, iid) = (Resolved, Some (inID i))"
        using e by (intro fin [OF _ c1, of Resolved "inID i" UP message]) (simp add: evaluate_monitor_quorum_def m i up Let_def)
      ultimately show ?thesis using i by (simp add: v severity_def)
    qed
  qed
qed

text \<open>C2: the quorum function implements the abstract machine. A report that the database accepts leaves the monitor
  with an open incident exactly when a strict majority of the regions taking part (those with a fresh report and
  those still to answer) is not UP; the severity and the answered transition are the machine's, and
  no other monitor is touched.\<close>

theorem quorum_refines:
  assumes "engine_reachable uuid s" "inj uuid" "pgUUID p = uuid" "find (\<lambda>m. mrID m = mid) (monitors (enDB s)) = Some m"
    and "record_region_check p mid region st latency code message mul source s = Some ((tr, iid), s')"
  defines "v \<equiv> verdict p mul (with_report p m region st latency code message source s) m"
  shows "severity s' = (severity s)(mid := decided (severity s mid) v) \<and> tr = change_of (severity s mid) (severity s' mid)"
proof -
  let ?s1 = "with_report p m region st latency code message source s"
  have ok: "engine_ok uuid s" by (rule engine_reachable_ok [OF assms(1,2)])
  have "severity ?s1 = severity s"
    using ok by (intro severity_cores [where uuid = uuid and n = "enDrawn s"]) (simp_all add: cores_def with_report_frame engine_ok_def)
  moreover have "evaluate_monitor_quorum p mid code (Some latency) (Some message) mul ?s1 = Some ((tr, iid), s')"
    "find (\<lambda>m. mrID m = mid) (monitors (enDB ?s1)) = Some m"
    using assms(4,5) by (simp_all add: record_region_check_def with_report_frame)
  ultimately show ?thesis using evaluate_refines [OF _ assms(3,2) with_report_ok [OF ok]] unfolding v_def by metis
qed

subsection \<open>Who is told\<close>

definition alert_targets :: "db \<Rightarrow> monitor_row \<Rightarrow> (alert_channel \<times> string) set" where
  "alert_targets d m =
     {(ncChannel ch, ncTarget ch) | ch. ch \<in> set (channels d) \<and> ncUserID ch = billed_user d m \<and> channel_on d (mrID m) ch} \<union>
     {(arChannel r, arTarget r) | r. r \<in> set (recipients d) \<and> mrOrgID m = Some (arOrgID r)}"

lemma destination_keys:
  assumes "keys_ok d"
  shows "distinct (map (\<lambda>x. (dsChannel x, dsTarget x)) (destinations d m))"
    and "set (map (\<lambda>x. (dsChannel x, dsTarget x)) (destinations d m)) = alert_targets d m"
proof -
  have k: "uniq chan_key (channels d)" "uniq recip_key (recipients d)" using assms by (simp_all add: keys_ok_def)
  have own: "distinct (map (\<lambda>ch. (ncChannel ch, ncTarget ch)) (owner_channels d m))"
  proof -
    have "inj_on (\<lambda>ch. (ncChannel ch, ncTarget ch)) (set (owner_channels d m))"
      using k(1) by (auto simp: owner_channels_def uniq_def distinct_map inj_on_def chan_key_def)
    moreover have "distinct (owner_channels d m)" using k(1) by (simp add: owner_channels_def uniq_def distinct_map)
    ultimately show ?thesis by (simp add: distinct_map)
  qed
  have rec: "distinct (map (\<lambda>r. (arChannel r, arTarget r)) (extra_recipients d m))"
  proof -
    have "inj_on (\<lambda>r. (arChannel r, arTarget r)) (set (extra_recipients d m))"
      using k(2) by (cases "mrOrgID m") (auto simp: extra_recipients_def uniq_def distinct_map inj_on_def recip_key_def)
    moreover have "distinct (extra_recipients d m)" using k(2) by (simp add: extra_recipients_def uniq_def distinct_map split: option.split)
    ultimately show ?thesis by (simp add: distinct_map)
  qed
  have keys: "map (\<lambda>x. (dsChannel x, dsTarget x)) (destinations d m) =
      map (\<lambda>ch. (ncChannel ch, ncTarget ch)) (owner_channels d m) @ map (\<lambda>r. (arChannel r, arTarget r)) (extra_recipients d m)"
    by (simp add: destinations_def o_def)
  have "\<not> (ncChannel ch = arChannel r \<and> ncTarget ch = arTarget r)" if "r \<in> set (extra_recipients d m)" "ch \<in> set (owner_channels d m)" for r ch
    using that by (auto simp: extra_recipients_def list_ex_iff split: option.splits)
  then show "distinct (map (\<lambda>x. (dsChannel x, dsTarget x)) (destinations d m))"
    unfolding keys using own rec by auto
  have "set (map (\<lambda>x. (dsChannel x, dsTarget x)) (destinations d m)) =
      (\<lambda>ch. (ncChannel ch, ncTarget ch)) ` set (owner_channels d m) \<union> (\<lambda>r. (arChannel r, arTarget r)) ` set (extra_recipients d m)"
    unfolding keys by simp
  also have "\<dots> = alert_targets d m"
    by (auto simp: alert_targets_def owner_channels_def extra_recipients_def list_ex_iff image_iff split: option.splits) metis
  finally show "set (map (\<lambda>x. (dsChannel x, dsTarget x)) (destinations d m)) = alert_targets d m" .
qed

definition tells :: "db \<Rightarrow> monitor_row \<Rightarrow> status \<Rightarrow> outbox_row list \<Rightarrow> bool" where
  "tells d m st rows \<longleftrightarrow> distinct (map (\<lambda>r. (obChannel r, obTarget r)) rows) \<and>
     set (map (\<lambda>r. (obChannel r, obTarget r)) rows) = alert_targets d m \<and>
     (\<forall>r \<in> set rows. obMonitorID r = mrID m \<and> obStatus r = st \<and> obAttempts r = 0)"

lemma enqueue_tells:
  assumes e: "enqueue_monitor_alerts p mid st message code latency s = Some (n, s')" and k: "keys_ok (enDB s)"
    and m: "find (\<lambda>m. mrID m = mid) (monitors (enDB s)) = Some m"
  shows "\<exists>rows. enOutbox s' = enOutbox s @ rows \<and> tells (enDB s) m st rows"
proof (cases "destinations (enDB s) m = []")
  case True
  then have "tells (enDB s) m st []" using destination_keys(2) [OF k, of m] by (simp add: tells_def)
  moreover have "enOutbox s' = enOutbox s @ []" using e m True by (simp add: enqueue_monitor_alerts_def)
  ultimately show ?thesis by blast
next
  case False
  then obtain t l where "message = Some t" "latency = Some l"
    using e m by (auto simp: enqueue_monitor_alerts_def Let_def split: option.splits)
  then have tl: "enOutbox s' = enOutbox s @ map (alert_row p m st t code l) (enumerate (enDrawn s) (destinations (enDB s) m))"
    using e m False by (auto simp: enqueue_monitor_alerts_def Let_def)
  let ?rows = "map (alert_row p m st t code l) (enumerate (enDrawn s) (destinations (enDB s) m))"
  have "map (\<lambda>r. (obChannel r, obTarget r)) ?rows =
      map (\<lambda>x. (dsChannel x, dsTarget x)) (map snd (enumerate (enDrawn s) (destinations (enDB s) m)))"
    unfolding map_map by (rule map_cong) (auto simp: alert_row_def)
  then have "map (\<lambda>r. (obChannel r, obTarget r)) ?rows = map (\<lambda>x. (dsChannel x, dsTarget x)) (destinations (enDB s) m)"
    by (simp only: map_snd_enumerate)
  moreover have "\<forall>r \<in> set ?rows. obMonitorID r = mrID m \<and> obStatus r = st \<and> obAttempts r = 0" by (auto simp: alert_row_def)
  ultimately have "tells (enDB s) m st ?rows" using destination_keys [OF k, of m] by (simp only: tells_def simp_thms)
  then show ?thesis using tl by blast
qed

lemma announce_tells:
  assumes a: "announce p mid tr iid st message code latency s = Some (x, s')" and k: "keys_ok (enDB s)"
    and m: "find (\<lambda>m. mrID m = mid) (monitors (enDB s)) = Some m"
  shows "\<exists>rows. enOutbox s' = enOutbox s @ rows \<and> (if in_maintenance p (enDB s) mid then rows = [] else tells (enDB s) m st rows)"
proof (cases "in_maintenance p (enDB s) mid")
  case False
  then obtain n s1 where e: "enqueue_monitor_alerts p mid st message code latency s = Some (n, s1)" "enOutbox s' = enOutbox s1"
    using a by (auto simp: announce_def split: option.splits if_splits)
  then show ?thesis using enqueue_tells [OF e(1) k m] False by simp
qed (use a in \<open>simp add: announce_def\<close>)

lemma evaluate_tells:
  assumes e: "evaluate_monitor_quorum p mid code latency message mul s = Some ((tr, iid), s')" and k: "keys_ok (enDB s)"
    and m: "find (\<lambda>m. mrID m = mid) (monitors (enDB s)) = Some m"
  defines "st \<equiv> (case decided (severity s mid) (verdict p mul s m) of None \<Rightarrow> UP | Some st \<Rightarrow> st)"
  shows "\<exists>rows. enOutbox s' = enOutbox s @ rows \<and>
    (if tr = Unchanged \<or> in_maintenance p (enDB s) mid then rows = [] else tells (enDB s) m st rows)"
proof -
  let ?bad = "unhealthy p mul s m"
  have fin: "\<exists>rows. enOutbox s' = enOutbox s @ rows \<and>
      (if tr = Unchanged \<or> in_maintenance p (enDB s) mid then rows = [] else tells (enDB s) m st rows)"
    if a: "announce p mid tr1 iid1 st1 msg code latency s1 = Some ((tr, iid), s')" and "enDB s1 = enDB s" "enOutbox s1 = enOutbox s"
      and "st1 = st" "tr1 \<noteq> Unchanged" for tr1 iid1 st1 msg s1
  proof -
    have "tr \<noteq> Unchanged" using announceD [OF a] that(5) by simp
    then show ?thesis using announce_tells [OF a] k m unfolding that(2-4) by (simp only: simp_thms)
  qed
  have same: ?thesis if "tr = Unchanged" "enOutbox s' = enOutbox s" using that by simp
  show ?thesis
  proof (cases "length ?bad * 2 > total p mul s m")
    case down: True
    then have v: "verdict p mul s m = Some (worst ?bad)" by (simp add: verdict_def mult.commute)
    show ?thesis
    proof (cases "open_incident mid s")
      case None
      have "announce p mid Opened (pgUUID p (enDrawn s)) (worst ?bad) (Some (quorum_msg p mul s m)) code latency
          (s\<lparr>enIncidents := enIncidents s @ [new_incident p (pgUUID p (enDrawn s)) mid (worst ?bad) code (quorum_msg p mul s m)],
             enDrawn := enDrawn s + 1\<rparr>) = Some ((tr, iid), s')"
        using e by (simp add: evaluate_monitor_quorum_def m None down Let_def)
      then show ?thesis by (rule fin) (simp_all add: st_def v severity_def None)
    next
      case i: (Some i)
      have d: "worsened (inStatus i) (worst ?bad) = st" using i by (auto simp: st_def v severity_def worsened_def worst_def)
      show ?thesis
      proof (cases "worsened (inStatus i) (worst ?bad) = inStatus i")
        case True
        then show ?thesis using e by (intro same) (auto simp: evaluate_monitor_quorum_def m i down Let_def)
      next
        case False
        let ?f = "\<lambda>x. x\<lparr>inStatus := worsened (inStatus i) (worst ?bad), inMessage := Some (quorum_msg p mul s m),
          inStatusCode := (case code of None \<Rightarrow> inStatusCode x | Some c \<Rightarrow> Some c)\<rparr>"
        have "announce p mid Escalated (inID i) (worsened (inStatus i) (worst ?bad)) (Some (quorum_msg p mul s m)) code latency
            (s\<lparr>enIncidents := update_where (\<lambda>x. inID x = inID i) ?f (enIncidents s)\<rparr>) = Some ((tr, iid), s')"
          using e False by (simp add: evaluate_monitor_quorum_def m i down Let_def)
        then show ?thesis by (rule fin [OF _ _ _ d]) simp_all
      qed
    qed
  next
    case up: False
    then have v: "verdict p mul s m = None" by (simp add: verdict_def mult.commute)
    show ?thesis
    proof (cases "open_incident mid s")
      case None
      then show ?thesis using e by (intro same) (auto simp: evaluate_monitor_quorum_def m up)
    next
      case i: (Some i)
      have "announce p mid Resolved (inID i) UP message code latency (resolve p mid (inID i) s) = Some ((tr, iid), s')"
        using e by (simp add: evaluate_monitor_quorum_def m i up Let_def)
      then show ?thesis by (rule fin) (simp_all add: st_def v resolve_def)
    qed
  qed
qed

text \<open>C8: a report announces exactly the transition it causes. Outside the monitor's maintenance windows a transition queues
  one alert for each destination that is on for the monitor: the enabled channels of the billing owner, with
  the monitor's own settings first, and the organization's recipients; nobody twice, with the new state of the monitor. A report
  without a transition, or inside a window, queues nothing.\<close>

theorem transition_alerts:
  assumes "engine_reachable uuid s" "inj uuid" "pgUUID p = uuid" "schema_ok (enDB s)"
    "find (\<lambda>m. mrID m = mid) (monitors (enDB s)) = Some m"
    "record_region_check p mid region st latency code message mul source s = Some ((tr, iid), s')"
  shows "\<exists>rows. enOutbox s' = enOutbox s @ rows \<and>
    (if tr = Unchanged \<or> in_maintenance p (enDB s) mid then rows = []
     else tells (enDB s) m (case severity s' mid of None \<Rightarrow> UP | Some st \<Rightarrow> st) rows)"
proof -
  let ?s1 = "with_report p m region st latency code message source s"
  have ok: "engine_ok uuid ?s1" by (rule with_report_ok [OF engine_reachable_ok [OF assms(1,2)]])
  have e: "evaluate_monitor_quorum p mid code (Some latency) (Some message) mul ?s1 = Some ((tr, iid), s')"
    "find (\<lambda>m. mrID m = mid) (monitors (enDB ?s1)) = Some m"
    using assms(5,6) by (simp_all add: record_region_check_def with_report_frame)
  have "keys_ok (enDB ?s1)" using assms(4) by (simp add: schema_ok_def with_report_frame)
  moreover have "severity s' mid = decided (severity ?s1 mid) (verdict p mul ?s1 m)"
    using evaluate_refines [OF e(1) assms(3,2) ok e(2)] by simp
  ultimately show ?thesis using evaluate_tells [OF e(1) _ e(2)] unfolding with_report_frame by (simp only:)
qed

subsection \<open>One region alone opens nothing\<close>

lemma length_two: "x \<in> set xs \<Longrightarrow> y \<in> set xs \<Longrightarrow> x \<noteq> y \<Longrightarrow> 2 \<le> length xs"
  by (cases xs; cases "tl xs") auto

lemma pg_ms_near: "t - 500000 \<le> pg_ms t" "pg_ms t \<le> t + 500000"
  by (simp_all add: pg_ms_def)

lemma put_report_set:
  "x \<in> set (put_report p mid region st latency code message source rows) \<Longrightarrow>
   (rsMonitorID x, rsRegion x) \<noteq> (mid, region) \<Longrightarrow> x \<in> set rows"
  by (auto simp: put_report_def Let_def update_where_def split: if_splits)

lemma put_report_mem:
  "\<exists>x \<in> set (put_report p mid region st latency code message source rows).
     rsMonitorID x = mid \<and> rsRegion x = region \<and> rsStatus x = st \<and> rsCheckedAt x = pg_ms (pgNow p) \<and> rsSource x = source"
proof (cases "(mid, region) \<in> (\<lambda>r. (rsMonitorID r, rsRegion r)) ` set rows")
  case True
  let ?row = "\<lparr>rsMonitorID = mid, rsRegion = region, rsStatus = st, rsLatency = latency, rsStatusCode = code,
                 rsMessage = Some message, rsCheckedAt = pg_ms (pgNow p), rsSource = source\<rparr>"
  obtain x where "x \<in> set rows" "(rsMonitorID x, rsRegion x) = (mid, region)" using True by force
  then have "?row \<in> set (update_where (\<lambda>r. (rsMonitorID r, rsRegion r) = (mid, region)) (\<lambda>_. ?row) rows)"
    unfolding set_update_where by (intro image_eqI [of _ _ x]) simp_all
  then show ?thesis unfolding put_report_def Let_def if_P [OF True] by (rule rev_bexI) simp
next
  case False
  show ?thesis unfolding put_report_def Let_def if_not_P [OF False] by simp
qed

text \<open>A region asked, or asked before, or heard from lately, takes part.\<close>

lemma asked_region_takes_part:
  assumes r: "r \<in> set (active_regions (pgNow p) (enBeats s))" "r \<noteq> region"
    and window: "30 \<le> effective_interval (mrInterval m) (ownerPlanExpr (enDB s) m) * mul"
    and unexpired: "\<forall>q \<in> set (enRequests s). vrMonitorID q = mrID m \<longrightarrow> vrExpiresAt q \<ge> pgNow p"
  defines "s1 \<equiv> ask_regions p (mrID m) region s"
  shows "r \<in> rsRegion ` set (reporters p mul s1 m) \<or> pending p mul s1 m \<noteq> []"
proof (rule ccontr)
  assume no: "\<not> ?thesis"
  have frame: "enDB s1 = enDB s" "enBeats s1 = enBeats s" "enReports s1 = enReports s" by (simp_all add: s1_def ask_regions_def Let_def)
  have nopend: "\<not> (vrMonitorID q = mrID m \<and> vrExpiresAt q \<ge> pgNow p \<and> vrRegion q = r)" if "q \<in> set (enRequests s1)" for q
    using no that r(1) by (auto simp: pending_def filter_empty_conv frame)
  have w: "pgNow p - effective_interval (mrInterval m) (ownerPlanExpr (enDB s) m) * mul * second \<le> t"
    if "pgNow p - 30 * second \<le> t" for t
    using mult_right_mono [OF window, of second] that by linarith
  have fresh: "x \<in> set (reporters p mul s1 m)" if "x \<in> set (enReports s)" "rsMonitorID x = mrID m" "rsRegion x = r"
      "rsCheckedAt x \<ge> pgNow p - 30 * second" for x
    using that r(1) w by (auto simp: reporters_def fresh_report_def frame Let_def split: check_source.split)
  have "\<not> list_ex (\<lambda>x. rsMonitorID x = mrID m \<and> rsRegion x = r \<and> rsCheckedAt x \<ge> pgNow p - 30 * second) (enReports s)"
    using fresh no by (auto simp: list_ex_iff)
  moreover have "\<not> list_ex (\<lambda>q. vrMonitorID q = mrID m \<and> vrRegion q = r) (enRequests s)"
    using nopend unexpired by (auto simp: list_ex_iff s1_def ask_regions_def Let_def)
  ultimately have "r \<in> set (to_ask p (mrID m) region s)" using r by (simp add: to_ask_def)
  then have "r \<in> snd ` set (enumerate (enDrawn s) (to_ask p (mrID m) region s))"
    by (simp only: set_map [symmetric] map_snd_enumerate)
  then obtain k where k: "(k, r) \<in> set (enumerate (enDrawn s) (to_ask p (mrID m) region s))" by auto
  let ?q = "\<lparr>vrID = pgUUID p k, vrMonitorID = mrID m, vrRegion = r, vrRequestedAt = pg_ms (pgNow p),
    vrExpiresAt = pg_ms (pgNow p + 60 * second), vrClaimedAt = None, vrClaimedBy = None\<rparr>"
  have "?q \<in> set (enRequests s1)" using k unfolding s1_def ask_regions_def Let_def by (simp add: rev_image_eqI)
  then have "\<not> pg_ms (pgNow p + 60 * second) \<ge> pgNow p" using nopend by fastforce
  then show False using pg_ms_near(1) [of "pgNow p + 60 * second"] by simp
qed

lemma bad_reporterD:
  assumes "x \<in> set (unhealthy p mul (with_report p m region st latency code message source s) m)"
    and "\<forall>x \<in> set (enReports s). rsMonitorID x = mrID m \<longrightarrow> rsRegion x \<noteq> region \<longrightarrow> rsStatus x = UP"
  shows "rsMonitorID x = mrID m \<and> rsRegion x = region"
proof (rule ccontr)
  assume no: "\<not> ?thesis"
  have x: "x \<in> set (put_report p (mrID m) region st latency code message (if region \<in> set (mrRegions m) then SCHEDULED else VERIFICATION) (enReports s))"
    "rsMonitorID x = mrID m" "rsStatus x \<noteq> UP"
    using assms(1) unfolding unhealthy_def reporters_def fresh_report_def with_report_frame Let_def by simp_all
  then have "rsRegion x \<noteq> region" using no by simp
  then have "x \<in> set (enReports s)" using put_report_set [OF x(1)] by simp
  then show False using assms(2) x(2,3) \<open>rsRegion x \<noteq> region\<close> by blast
qed

lemma region_row:
  assumes "uniq (\<lambda>r. (rsMonitorID r, rsRegion r)) (put_report p mid region st latency code message source rows)"
    "x \<in> set (put_report p mid region st latency code message source rows)" "rsMonitorID x = mid" "rsRegion x = region"
  shows "rsStatus x = st"
proof -
  obtain y where y: "y \<in> set (put_report p mid region st latency code message source rows)" "rsMonitorID y = mid" "rsRegion y = region"
      "rsStatus y = st" using put_report_mem [of p mid region st latency code message source rows] by blast
  have "x = y" by (rule uniq_same [OF assms(1,2) y(1)]) (simp add: assms(3,4) y(2,3))
  then show ?thesis using y(4) by simp
qed

lemma alone_is_no_majority:
  assumes ok: "engine_ok uuid s"
    and healthy: "\<forall>x \<in> set (enReports s). rsMonitorID x = mrID m \<longrightarrow> rsRegion x \<noteq> region \<longrightarrow> rsStatus x = UP"
    and other: "r \<in> set (active_regions (pgNow p) (enBeats s))" "r \<noteq> region"
    and unexpired: "\<forall>q \<in> set (enRequests s). vrMonitorID q = mrID m \<longrightarrow> vrExpiresAt q \<ge> pgNow p"
    and window: "30 \<le> effective_interval (mrInterval m) (ownerPlanExpr (enDB s) m) * mul"
  shows "verdict p mul (with_report p m region st latency code message SCHEDULED s) m = None"
proof (cases "unhealthy p mul (with_report p m region st latency code message SCHEDULED s) m")
  case Nil
  then show ?thesis by (simp add: verdict_def)
next
  case (Cons x xs)
  let ?s1 = "with_report p m region st latency code message SCHEDULED s"
  note one = bad_reporterD [OF _ healthy, of _ p mul st latency code message SCHEDULED]
  have ok1: "uniq (\<lambda>r. (rsMonitorID r, rsRegion r)) (enReports ?s1)" using with_report_ok [OF ok] by (simp add: engine_ok_def)
  have "uniq (\<lambda>r. (rsMonitorID r, rsRegion r)) (unhealthy p mul ?s1 m)"
    using ok1 by (simp add: uniq_def unhealthy_def reporters_def Let_def distinct_map_filter)
  then have xs: "xs = []" using one [of x] one [of "hd xs"] unfolding Cons by (cases xs) (auto simp: uniq_def)
  have x: "x \<in> set (reporters p mul ?s1 m)" "rsStatus x \<noteq> UP" using Cons by (auto simp: unhealthy_def filter_eq_Cons_iff)
  have k: "rsMonitorID x = mrID m" "rsRegion x = region" using one [of x] unfolding Cons by simp_all
  have "x \<in> set (enReports ?s1)" using x(1) by (simp add: reporters_def Let_def)
  then have "st \<noteq> UP" using region_row [OF ok1 [unfolded with_report_frame] _ k] x(2) by (simp add: with_report_frame)
  then have s1: "?s1 = ask_regions p (mrID m) region (s\<lparr>enReports := put_report p (mrID m) region st latency code message
      (if region \<in> set (mrRegions m) then SCHEDULED else VERIFICATION) (enReports s)\<rparr>)" by (simp add: with_report_def)
  have "r \<in> rsRegion ` set (reporters p mul ?s1 m) \<or> pending p mul ?s1 m \<noteq> []"
    unfolding s1 by (rule asked_region_takes_part) (use other unexpired window in simp_all)
  then have "2 \<le> total p mul ?s1 m"
  proof
    assume "r \<in> rsRegion ` set (reporters p mul ?s1 m)"
    then obtain y where "y \<in> set (reporters p mul ?s1 m)" "rsRegion y = r" by blast
    moreover from this have "x \<noteq> y" using k(2) other(2) by auto
    ultimately show ?thesis using length_two [OF x(1), of y] by (simp add: total_def)
  next
    assume "pending p mul ?s1 m \<noteq> []"
    then have "1 \<le> length (pending p mul ?s1 m)" by (simp add: Suc_leI)
    moreover have "1 \<le> length (reporters p mul ?s1 m)" using length_pos_if_in_set [OF x(1)] by linarith
    ultimately show ?thesis by (simp add: total_def)
  qed
  then show ?thesis unfolding verdict_def Cons xs by simp
qed

text \<open>C9: a single region's scheduled check does not raise an alarm while another region is alive. The monitor's interval
  is at least ten seconds (a create or an update asks for sixty). When the only report of the monitor
  that is not UP is the scheduled one being made, some other region has a heartbeat of the last minute and
  no confirmation request of the monitor has run out unswept, no incident opens: the other region has
  answered lately, or it has been asked and counts.\<close>

theorem one_region_opens_nothing:
  assumes "engine_reachable uuid s" "inj uuid" "pgUUID p = uuid" "find (\<lambda>m. mrID m = mid) (monitors (enDB s)) = Some m"
    and "record_region_check p mid region st latency code message RegionStaleMultiplier SCHEDULED s = Some ((tr, iid), s')"
    and healthy: "\<forall>x \<in> set (enReports s). rsMonitorID x = mid \<longrightarrow> rsRegion x \<noteq> region \<longrightarrow> rsStatus x = UP"
    and other: "r \<in> set (active_regions (pgNow p) (enBeats s))" "r \<noteq> region"
    and unexpired: "\<forall>q \<in> set (enRequests s). vrMonitorID q = mid \<longrightarrow> vrExpiresAt q \<ge> pgNow p"
    and interval: "10 \<le> effective_interval (mrInterval m) (ownerPlanExpr (enDB s) m)"
  shows "tr \<noteq> Opened \<and> severity s' mid = None"
proof -
  let ?s1 = "with_report p m region st latency code message SCHEDULED s"
  have ok: "engine_ok uuid s" by (rule engine_reachable_ok [OF assms(1,2)])
  have mid: "mid = mrID m" using find_SomeD [OF assms(4)] by simp
  have e: "evaluate_monitor_quorum p mid code (Some latency) (Some message) RegionStaleMultiplier ?s1 = Some ((tr, iid), s')"
    "find (\<lambda>m. mrID m = mid) (monitors (enDB ?s1)) = Some m"
    using assms(4,5) by (simp_all add: record_region_check_def with_report_frame)
  have "30 \<le> effective_interval (mrInterval m) (ownerPlanExpr (enDB s) m) * RegionStaleMultiplier"
    using interval by (simp add: RegionStaleMultiplier_def)
  note v = alone_is_no_majority [OF ok healthy [unfolded mid] other unexpired [unfolded mid] this]
  have "severity s' mid = None" "tr = change_of (severity ?s1 mid) None"
    using evaluate_refines [OF e(1) assms(3,2) with_report_ok [OF ok] e(2)] v by simp_all
  then show ?thesis by (cases "severity ?s1 mid") simp_all
qed

subsection \<open>Alerts that the database refuses\<close>

text \<open>Two callers of \<^verbatim>\<open>enqueue_monitor_alerts\<close> pass no latency and one passes no message.\<close>

lemma enqueue_no_latency:
  assumes "enqueue_monitor_alerts p mid st message code None s = Some (n, s')"
  shows "s' = s" and "find (\<lambda>m. mrID m = mid) (monitors (enDB s)) = Some m \<Longrightarrow> destinations (enDB s) m = []"
  using assms by (auto simp: enqueue_monitor_alerts_def Let_def split: option.splits if_splits)

lemma enqueue_refused:
  "find (\<lambda>m. mrID m = mid) (monitors (enDB s)) = Some m \<Longrightarrow> destinations (enDB s) m \<noteq> [] \<Longrightarrow> message = None \<or> latency = None \<Longrightarrow>
   enqueue_monitor_alerts p mid st message code latency s = None"
  by (auto simp: enqueue_monitor_alerts_def Let_def split: option.split)

lemma remind_frame: "remind p i s = Some s' \<Longrightarrow> enOutbox s' = enOutbox s \<and> enDB s' = enDB s"
  by (auto simp: remind_def dest: enqueue_no_latency(1))

lemma remind_loop_frame: "remind_loop p is n s = Some (k, s') \<Longrightarrow> enOutbox s' = enOutbox s"
  by (induction p "is" n s rule: remind_loop.induct) (auto split: option.splits dest: remind_frame)

lemma remind_refused:
  assumes "find (\<lambda>m. mrID m = inMonitorID i) (monitors (enDB s)) = Some m" "destinations (enDB s) m \<noteq> []"
  shows "remind p i s = None"
  using enqueue_refused [OF assms, where latency = None] by (simp add: remind_def)

lemma remind_loop_refused:
  assumes "i \<in> set is" "find (\<lambda>m. mrID m = inMonitorID i) (monitors (enDB s)) = Some m" "destinations (enDB s) m \<noteq> []"
  shows "remind_loop p is n s = None"
  using assms
proof (induction "is" arbitrary: n s)
  case (Cons j js)
  show ?case
  proof (cases "remind p j s")
    case (Some s1)
    then have "j \<noteq> i" "enDB s1 = enDB s" using remind_refused [OF Cons.prems(2,3)] remind_frame [OF Some] by auto
    then show ?thesis using Cons Some by simp
  qed simp
qed simp

text \<open>C10: no reminder is ever sent. The sweep passes a \<^verbatim>\<open>NULL\<close> latency to a column that takes none: one due
  incident of a monitor with a destination makes the whole sweep fail and change nothing, for every
  monitor; and over any ticks of any instance the repeater leaves the outbox as it was.\<close>

theorem reminders_never_queued:
  shows "enOutbox (repeater_loop ticks s) = enOutbox s \<and>
    (\<forall>i \<in> set (due_incidents p locked s). \<forall>m. find (\<lambda>m. mrID m = inMonitorID i) (monitors (enDB s)) = Some m \<longrightarrow>
       destinations (enDB s) m \<noteq> [] \<longrightarrow> EnqueueRepeatAlerts p down locked s = (Inl ErrOther, s))"
proof
  have "enOutbox (snd (EnqueueRepeatAlerts p down locked s)) = enOutbox s" for p down locked s
    by (auto simp: EnqueueRepeatAlerts_def enqueue_repeat_alerts_def split: option.split dest: remind_loop_frame)
  then show "enOutbox (repeater_loop ticks s) = enOutbox s"
    by (induction ticks arbitrary: s) (auto simp: repeater_loop_def)
  show "\<forall>i \<in> set (due_incidents p locked s). \<forall>m. find (\<lambda>m. mrID m = inMonitorID i) (monitors (enDB s)) = Some m \<longrightarrow>
       destinations (enDB s) m \<noteq> [] \<longrightarrow> EnqueueRepeatAlerts p down locked s = (Inl ErrOther, s)"
    by (simp add: EnqueueRepeatAlerts_def enqueue_repeat_alerts_def remind_loop_refused)
qed

text \<open>C11: no expiry alert is ever sent. Recording the date of a certificate or domain of a monitor with a
  destination fails when it should alert: the date is not stored, the bucket not marked, nothing is queued; and
  whatever is recorded, the outbox stays as it was.\<close>

theorem expiry_alerts_never_queued:
  shows "enOutbox (snd (snd (RecordExpiryCheck_db n etld clock p down claim expiresAt checkErr (st, s)))) = enOutbox s \<and>
    (announces_expiry clock p s claim expiresAt checkErr st \<longrightarrow>
     find (\<lambda>m. mrID m = ecMonitorID claim) (monitors (enDB s)) = Some m \<longrightarrow> destinations (enDB s) m \<noteq> [] \<longrightarrow>
     RecordExpiryCheck_db n etld clock p down claim expiresAt checkErr (st, s) = (Inl ErrOther, (st, s)))"
proof
  let ?queued = "if announces_expiry clock p s claim expiresAt checkErr st then expiry_announcement n etld clock p claim (the expiresAt) s else Some (0, s)"
  have same: "s' = s" if "?queued = Some (k, s')" for k s'
    using that by (auto simp: expiry_announcement_def split: prod.splits if_splits dest: enqueue_no_latency(1))
  show "enOutbox (snd (snd (RecordExpiryCheck_db n etld clock p down claim expiresAt checkErr (st, s)))) = enOutbox s"
    unfolding RecordExpiryCheck_db_def Let_def using same
    by (auto split: prod.split sum.split option.split simp del: if_split)
  show "announces_expiry clock p s claim expiresAt checkErr st \<longrightarrow>
     find (\<lambda>m. mrID m = ecMonitorID claim) (monitors (enDB s)) = Some m \<longrightarrow> destinations (enDB s) m \<noteq> [] \<longrightarrow>
     RecordExpiryCheck_db n etld clock p down claim expiresAt checkErr (st, s) = (Inl ErrOther, (st, s))"
  proof (intro impI)
    assume a: "announces_expiry clock p s claim expiresAt checkErr st" and m: "find (\<lambda>m. mrID m = ecMonitorID claim) (monitors (enDB s)) = Some m"
      "destinations (enDB s) m \<noteq> []"
    have q: "?queued = None" using a m by (simp add: expiry_announcement_def enqueue_refused split: prod.split)
    have "RecordExpiryCheck n etld now mnt True claim expiresAt checkErr st = (Inl ErrOther, st)" for now mnt
      by (simp add: RecordExpiryCheck_def Let_def split: option.split)
    then show "RecordExpiryCheck_db n etld clock p down claim expiresAt checkErr (st, s) = (Inl ErrOther, (st, s))"
      unfolding RecordExpiryCheck_db_def prod.case Let_def q by simp
  qed
qed

text \<open>C32: outside maintenance, the sweep of expired confirmation requests cannot close the incident of a monitor
  that has a destination. It re-evaluates the quorum without a message, so when the majority is gone
  the recovery alert is refused, and the incident with it stays as it was. In a maintenance window, or when the
  monitor has no destination, nothing is queued, and the same call resolves the incident.\<close>

theorem sweep_cannot_resolve:
  assumes "find (\<lambda>m. mrID m = mid) (monitors (enDB s)) = Some m" "severity s mid \<noteq> None" "verdict p 3 s m = None"
  shows "(destinations (enDB s) m \<noteq> [] \<and> \<not> in_maintenance p (enDB s) mid \<longrightarrow>
      EvaluateMonitorQuorum_db p down mid s = (Inl ErrOther, s))
    \<and> (destinations (enDB s) m = [] \<or> in_maintenance p (enDB s) mid \<longrightarrow>
      (\<exists>i. open_incident mid s = Some i \<and> EvaluateMonitorQuorum_db p False mid s = (Inr Resolved, resolve p mid (inID i) s)))"
proof -
  obtain i where i: "open_incident mid s = Some i" using assms(2) by (auto simp: severity_def)
  let ?s = "resolve p mid (inID i) s"
  have db: "enDB ?s = enDB s" by (simp add: resolve_def)
  have up: "\<not> length (unhealthy p 3 s m) * 2 > total p 3 s m" using assms(3) by (simp add: verdict_def mult.commute split: if_splits)
  have e: "evaluate_monitor_quorum p mid None (Some 0) None 3 s = announce p mid Resolved (inID i) UP None None (Some 0) ?s"
    using up by (simp add: evaluate_monitor_quorum_def assms(1) i Let_def)
  have "announce p mid Resolved (inID i) UP None None (Some 0) ?s = None"
    if "destinations (enDB s) m \<noteq> []" "\<not> in_maintenance p (enDB s) mid"
    using that enqueue_refused [of mid ?s m None "Some 0" p UP None] assms(1) by (simp add: announce_def db)
  moreover have "announce p mid Resolved (inID i) UP None None (Some 0) ?s = Some ((Resolved, Some (inID i)), ?s)"
    if "destinations (enDB s) m = [] \<or> in_maintenance p (enDB s) mid"
    using that assms(1) by (auto simp: announce_def enqueue_monitor_alerts_def db)
  ultimately show ?thesis using i by (auto simp: EvaluateMonitorQuorum_db_def e)
qed

subsection \<open>Witnesses\<close>

text \<open>A monitor with one destination and reminders, and the first failing check of its only region.\<close>

definition alarm_db :: db where
  "alarm_db = sample_db\<lparr>
     monitors := [(sample_monitor ''m1'' (Some ''org''))\<lparr>mrRepeatAlertIntervalSecs := Some 300, mrRepeatAlertMaxCount := Some 3\<rparr>],
     channels := [\<lparr>ncID = ''c1'', ncUserID = ''owner'', ncChannel = EMAIL, ncTarget = ''ops@example.com'', ncEnabled = True,
                   ncCreatedAt = 0, ncUpdatedAt = 0\<rparr>]\<rparr>"

definition tally_marks :: "nat \<Rightarrow> ident" where
  "tally_marks n = replicate n CHR ''i''"

definition alarm_pg :: "instant \<Rightarrow> pg" where
  "alarm_pg now = \<lparr>pgNow = now, pgAtZone = (\<lambda>_ t. t), pgTimeOfDay = (\<lambda>_. 0), pgUUID = tally_marks\<rparr>"

definition quiet_engine :: engine where
  "quiet_engine = \<lparr>enDB = alarm_db, enBeats = [], enReports = [], enRequests = [], enIncidents = [], enOutbox = [], enDrawn = 0\<rparr>"

definition alarm_outcome :: "((transition \<times> ident option) \<times> engine) option" where
  "alarm_outcome = record_region_check (alarm_pg 0) ''m1'' ''ca-east'' DOWN 12 None ''refused'' RegionStaleMultiplier SCHEDULED quiet_engine"

definition alarm_engine :: engine where
  "alarm_engine = (case alarm_outcome of Some (_, s) \<Rightarrow> s | None \<Rightarrow> quiet_engine)"

lemma tally_marks_inj: "inj tally_marks"
  by (rule injI) (metis tally_marks_def length_replicate)

lemma alarm_db_ok: "schema_ok alarm_db"
  by (simp add: schema_defs alarm_db_def sample_db_def sample_monitor_def uniq_def refs_def monitor_org_refs_def customers_uniq_def)

lemma alarm_monitor: "find (\<lambda>m. mrID m = ''m1'') (monitors alarm_db) = Some (hd (monitors alarm_db))"
  by (simp add: alarm_db_def sample_monitor_def)

lemma quiet_reachable: "engine_reachable tally_marks quiet_engine"
  unfolding quiet_engine_def by (rule engine_reachable.fresh)

lemma alarm_result:
  "alarm_outcome = Some ((Opened, Some ''''), alarm_engine)" "length (enIncidents alarm_engine) = 1" "length (enOutbox alarm_engine) = 1"
  by code_simp+

lemma alarm_recorded:
  "record_region_check (alarm_pg 0) ''m1'' ''ca-east'' DOWN 12 None ''refused'' RegionStaleMultiplier SCHEDULED quiet_engine =
     Some ((Opened, Some ''''), alarm_engine)"
  using alarm_result(1) by (simp add: alarm_outcome_def)

lemma alarm_reachable: "engine_reachable tally_marks alarm_engine"
  by (rule engine_reachable.step [OF quiet_reachable], rule engine_step.report [OF alarm_recorded]) (simp add: alarm_pg_def)

lemma quiet_monitor: "find (\<lambda>m. mrID m = ''m1'') (monitors (enDB quiet_engine)) = Some (hd (monitors alarm_db))"
  by (simp add: quiet_engine_def alarm_monitor)

lemma alarm_pg_uuid: "pgUUID (alarm_pg t) = tally_marks"
  by (simp add: alarm_pg_def)

lemma alarm_engine_db: "enDB alarm_engine = alarm_db"
  by code_simp

lemma alarm_destinations: "destinations alarm_db (hd (monitors alarm_db)) \<noteq> []"
  by code_simp

theorem weekly_window_recurs_witness:
  "\<exists>n. (n + 4) mod 7 = 3 \<and> n * day + 23 * hour \<le> 7 * day + 1 * hour \<and> 7 * day + 1 * hour < n * day + 23 * hour + 180 * 60 * second"
proof -
  have "weekly_hit (7 * day + 1 * hour) 3 (23 * hour) 180" by (simp add: weekly_hit_def dow_def)
  then show ?thesis by (subst (asm) weekly_window_recurs) simp_all
qed

theorem one_open_incident_witness:
  "length (enIncidents alarm_engine) = 1 \<and> uniq (\<lambda>q. (vrMonitorID q, vrRegion q)) (enRequests alarm_engine)"
  using one_open_incident [OF alarm_reachable tally_marks_inj] alarm_result(2) by blast

theorem quorum_refines_witness:
  "severity alarm_engine ''m1'' = Some DOWN \<and> severity alarm_engine ''m2'' = severity quiet_engine ''m2''"
proof -
  have v: "decided (severity quiet_engine ''m1'') (verdict (alarm_pg 0) RegionStaleMultiplier (with_report (alarm_pg 0) (hd (monitors alarm_db)) ''ca-east''
      DOWN 12 None ''refused'' SCHEDULED quiet_engine) (hd (monitors alarm_db))) = Some DOWN" by code_simp
  show ?thesis using quorum_refines [OF quiet_reachable tally_marks_inj alarm_pg_uuid quiet_monitor alarm_recorded] unfolding v by simp
qed

theorem transition_alerts_witness:
  "\<exists>rows. enOutbox alarm_engine = rows \<and> length rows = 1 \<and> tells alarm_db (hd (monitors alarm_db)) DOWN rows"
proof -
  have "schema_ok (enDB quiet_engine)" by (simp add: quiet_engine_def alarm_db_ok)
  note t = transition_alerts [OF quiet_reachable tally_marks_inj alarm_pg_uuid this quiet_monitor alarm_recorded]
  have s: "severity alarm_engine ''m1'' = Some DOWN" "enOutbox quiet_engine = []" "enDB quiet_engine = alarm_db"
      "\<not> in_maintenance (alarm_pg 0) alarm_db ''m1''" by code_simp+
  show ?thesis using t alarm_result(3) s(4) unfolding s(1-3) by simp
qed

definition watched_engine :: engine where
  "watched_engine = quiet_engine\<lparr>enBeats := UpsertRegionHeartbeat (pg_ms 0) ''eu-west'' (enBeats quiet_engine)\<rparr>"

theorem one_region_opens_nothing_witness:
  "map_option (\<lambda>(x, s'). (fst x, severity s' ''m1'')) (record_region_check (alarm_pg 0) ''m1'' ''ca-east'' DOWN 12 None ''refused''
     RegionStaleMultiplier SCHEDULED watched_engine) = Some (Unchanged, None) \<and> Unchanged \<noteq> Opened"
proof -
  have r: "engine_reachable tally_marks watched_engine" unfolding watched_engine_def
    by (rule engine_reachable.step [OF quiet_reachable engine_step.beat])
  have m: "find (\<lambda>m. mrID m = ''m1'') (monitors (enDB watched_engine)) = Some (hd (monitors alarm_db))"
    by (simp add: watched_engine_def quiet_monitor)
  have q: "enReports watched_engine = []" "enRequests watched_engine = []" "''eu-west'' \<in> set (active_regions (pgNow (alarm_pg 0)) (enBeats watched_engine))"
    "10 \<le> effective_interval (mrInterval (hd (monitors alarm_db))) (ownerPlanExpr (enDB watched_engine) (hd (monitors alarm_db)))" by code_simp+
  have o: "map_option (\<lambda>(x, s'). fst x) (record_region_check (alarm_pg 0) ''m1'' ''ca-east'' DOWN 12 None ''refused''
     RegionStaleMultiplier SCHEDULED watched_engine) = Some Unchanged" by code_simp
  then obtain iid s' where e: "record_region_check (alarm_pg 0) ''m1'' ''ca-east'' DOWN 12 None ''refused'' RegionStaleMultiplier SCHEDULED watched_engine =
      Some ((Unchanged, iid), s')" by auto
  have "severity s' ''m1'' = None"
    using one_region_opens_nothing [OF r tally_marks_inj alarm_pg_uuid m e _ q(3)] q by simp
  then show ?thesis unfolding e by simp
qed

theorem reminders_never_queued_witness:
  "EnqueueRepeatAlerts (alarm_pg (600 * second)) False (\<lambda>_. False) alarm_engine = (Inl ErrOther, alarm_engine)"
proof -
  have "map inMonitorID (due_incidents (alarm_pg (600 * second)) (\<lambda>_. False) alarm_engine) = [''m1'']" by code_simp
  then obtain i where i: "i \<in> set (due_incidents (alarm_pg (600 * second)) (\<lambda>_. False) alarm_engine)" "inMonitorID i = ''m1''" by auto
  have "find (\<lambda>m. mrID m = inMonitorID i) (monitors (enDB alarm_engine)) = Some (hd (monitors alarm_db))"
    unfolding i(2) alarm_engine_db by (rule alarm_monitor)
  then show ?thesis
    by (rule reminders_never_queued [THEN conjunct2, rule_format, OF i(1)]) (simp add: alarm_engine_db alarm_destinations)
qed

theorem expiry_alerts_never_queued_witness:
  "RecordExpiryCheck_db offline (\<lambda>_. Inl ''none'') 0 (alarm_pg 0) False sample_claim (Some (10 * day)) [] (sample_expiry, alarm_engine) =
     (Inl ErrOther, (sample_expiry, alarm_engine))"
proof -
  have a: "announces_expiry 0 (alarm_pg 0) alarm_engine sample_claim (Some (10 * day)) [] sample_expiry" by code_simp
  have "find (\<lambda>m. mrID m = ecMonitorID sample_claim) (monitors (enDB alarm_engine)) = Some (hd (monitors alarm_db))"
    by (simp add: alarm_engine_db alarm_monitor sample_claim_def)
  then show ?thesis
    by (rule expiry_alerts_never_queued [THEN conjunct2, rule_format, OF a]) (simp add: alarm_engine_db alarm_destinations)
qed

theorem sweep_cannot_resolve_witness:
  "EvaluateMonitorQuorum_db (alarm_pg (400 * second)) False ''m1'' alarm_engine = (Inl ErrOther, alarm_engine) \<and>
     severity alarm_engine ''m1'' \<noteq> None"
proof -
  have m: "find (\<lambda>m. mrID m = ''m1'') (monitors (enDB alarm_engine)) = Some (hd (monitors alarm_db))"
    unfolding alarm_engine_db by (rule alarm_monitor)
  have q: "\<not> in_maintenance (alarm_pg (400 * second)) (enDB alarm_engine) ''m1''" "severity alarm_engine ''m1'' \<noteq> None"
    "verdict (alarm_pg (400 * second)) 3 alarm_engine (hd (monitors alarm_db)) = None" by code_simp+
  show ?thesis using sweep_cannot_resolve [OF m q(2,3)] q(1,2) alarm_destinations unfolding alarm_engine_db by simp
qed

end
