(* ===== verification/Mailer.thy ===== *)
theory Mailer
  imports Alerts
begin

section \<open>Account mails\<close>

text \<open>
  \<^verbatim>\<open>internal/mailer\<close> and the two overrides of \<^verbatim>\<open>internal/auth/supertokens.go\<close> that send its mails: invitations,
  password resets and address verifications. The SendGrid client is a parameter that maps the key and the mail to
  an error or to the status and body of the answer. A call returns the mails handed to the client and its error.
\<close>

record account_mail = sendgrid_mail +
  amClickTracking :: bool

type_synonym mail_client = "string \<Rightarrow> account_mail \<Rightarrow> string + (nat \<times> string)"

definition dash :: string where
  "dash = [CHR 0xE2, CHR 0x80, CHR 0x94]"

definition dryRun :: "sendgrid_config \<Rightarrow> bool" where
  "dryRun cfg \<longleftrightarrow> \<not> sgEnabled cfg"

definition disableClickTracking :: "account_mail \<Rightarrow> account_mail" where
  "disableClickTracking m = m\<lparr>amClickTracking := False\<rparr>"

definition single_email :: "sendgrid_config \<Rightarrow> string \<Rightarrow> string \<Rightarrow> string \<Rightarrow> account_mail" where
  "single_email cfg subject to body = \<lparr>smFromName = sgFromName cfg, smFrom = sgFrom cfg, smTo = to, smSubject = subject, smText = body,
     amClickTracking = True\<rparr>"

text \<open>The end of the three methods: the request and what the answer means.\<close>

definition hand_over :: "sendgrid_config \<Rightarrow> mail_client \<Rightarrow> string \<Rightarrow> account_mail \<Rightarrow> account_mail list \<times> string option" where
  "hand_over cfg client what message =
     ([message],
      case client (sgAPIKey cfg) message of
        Inl err \<Rightarrow> Some (''failed to send '' @ what @ '' email: '' @ err)
      | Inr (code, body) \<Rightarrow> if code \<ge> 400 then Some (''SendGrid returned status '' @ fmt_nat code @ '': '' @ body) else None)"

definition invitation_body :: "string \<Rightarrow> string \<Rightarrow> string \<Rightarrow> string" where
  "invitation_body inviterName orgName acceptURL =
     ''Hi,'' @ nl @ nl @ inviterName @ '' has invited you to join the '' @ orgName @ '' organisation on Upguardly.'' @ nl @ nl @
     ''Click the link below to accept the invitation (expires in 7 days):'' @ nl @ nl @ acceptURL @ nl @ nl @
     ''If you did not expect this invitation, you can safely ignore this email.'' @ nl @ nl @ ''---'' @ nl @ ''Upguardly'' @ nl"

definition SendInvitation ::
    "sendgrid_config \<Rightarrow> mail_client \<Rightarrow> string \<Rightarrow> string \<Rightarrow> string \<Rightarrow> string \<Rightarrow> account_mail list \<times> string option" where
  "SendInvitation cfg client to orgName inviterName acceptURL =
     (if dryRun cfg then ([], None)
      else if sgAPIKey cfg = [] then ([], Some ''SendGrid not configured'')
      else hand_over cfg client ''invitation''
        (disableClickTracking (single_email cfg ([CHR ''Y'', CHR ''o'', CHR ''u'', CHR 0x27] @ ''ve been invited to join '' @ orgName @ '' on Upguardly'') to
          (invitation_body inviterName orgName acceptURL))))"

definition reset_body :: "string \<Rightarrow> string" where
  "reset_body resetURL =
     ''Hi,'' @ nl @ nl @ ''We received a request to reset the password for your Upguardly account.'' @ nl @
     ''Click the link below to choose a new password (this link expires shortly):'' @ nl @ nl @ resetURL @ nl @ nl @
     ''If you did not request a password reset, you can safely ignore this email '' @ dash @ nl @
     ''your password will not change.'' @ nl @ nl @ ''---'' @ nl @ ''Upguardly'' @ nl"

definition SendPasswordResetEmail :: "sendgrid_config \<Rightarrow> mail_client \<Rightarrow> string \<Rightarrow> string \<Rightarrow> account_mail list \<times> string option" where
  "SendPasswordResetEmail cfg client to resetURL =
     (if dryRun cfg then ([], None)
      else if sgAPIKey cfg = [] then ([], Some ''SendGrid not configured'')
      else hand_over cfg client ''password reset''
        (disableClickTracking (single_email cfg ''Reset your Upguardly password'' to (reset_body resetURL))))"

definition verification_body :: "string \<Rightarrow> string" where
  "verification_body verifyURL =
     ''Hi,'' @ nl @ nl @ ''Please confirm your email address to finish setting up your Upguardly account:'' @ nl @ nl @ verifyURL @ nl @ nl @
     ''If you did not create this account, you can safely ignore this email.'' @ nl @ nl @ ''---'' @ nl @ ''Upguardly'' @ nl"

definition SendVerificationEmail :: "sendgrid_config \<Rightarrow> mail_client \<Rightarrow> string \<Rightarrow> string \<Rightarrow> account_mail list \<times> string option" where
  "SendVerificationEmail cfg client to verifyURL =
     (if dryRun cfg then ([], None)
      else if sgAPIKey cfg = [] then ([], Some ''SendGrid not configured'')
      else hand_over cfg client ''verification''
        (disableClickTracking (single_email cfg ''Verify your Upguardly email address'' to (verification_body verifyURL))))"

text \<open>What SuperTokens hands to the two overrides; a missing part is a nil pointer, and \<open>None\<close> the panic.\<close>

record email_input =
  eiPasswordReset :: "(string \<times> string) option"
  eiEmailVerification :: "(string \<times> string) option"

definition password_override :: "sendgrid_config \<Rightarrow> mail_client \<Rightarrow> email_input \<Rightarrow> (account_mail list \<times> string option) option" where
  "password_override cfg client input = map_option (\<lambda>(email, link). SendPasswordResetEmail cfg client email link) (eiPasswordReset input)"

definition verification_override :: "sendgrid_config \<Rightarrow> mail_client \<Rightarrow> email_input \<Rightarrow> (account_mail list \<times> string option) option" where
  "verification_override cfg client input = map_option (\<lambda>(email, link). SendVerificationEmail cfg client email link) (eiEmailVerification input)"

subsection \<open>What a mail carries\<close>

definition carries :: "string \<Rightarrow> string \<Rightarrow> account_mail \<Rightarrow> bool" where
  "carries to link m \<longleftrightarrow> smTo m = to \<and> \<not> amClickTracking m \<and> (\<exists>before after. smText m = before @ nl @ nl @ link @ nl @ nl @ after)"

definition delivered :: "sendgrid_config \<Rightarrow> mail_client \<Rightarrow> string \<Rightarrow> string \<Rightarrow> account_mail list \<times> string option \<Rightarrow> bool" where
  "delivered cfg client to link out \<longleftrightarrow>
     (if \<not> sgEnabled cfg then out = ([], None)
      else if sgAPIKey cfg = [] then fst out = [] \<and> snd out \<noteq> None
      else \<exists>m. fst out = [m] \<and> carries to link m \<and>
        (snd out = None \<longleftrightarrow> (\<exists>code body. client (sgAPIKey cfg) m = Inr (code, body) \<and> code < 400)))"

lemma hand_over_ok:
  assumes "sgEnabled cfg" "sgAPIKey cfg \<noteq> []" "carries to link m"
  shows "delivered cfg client to link (hand_over cfg client what m)"
  using assms by (auto simp: delivered_def hand_over_def split: sum.split prod.split)

lemma carriesI: "body = before @ nl @ nl @ link @ nl @ nl @ after \<Longrightarrow> carries to link (disableClickTracking (single_email cfg subject to body))"
  by (auto simp: carries_def disableClickTracking_def single_email_def)

text \<open>With mail switched off the three methods send nothing and succeed; without a key they send nothing and
  fail; otherwise they hand exactly one mail to SendGrid, to the right address, with the link alone on its line as it was given and
  click tracking off, and succeed exactly when the answer is below 400.\<close>

theorem account_mails_delivered:
  shows "delivered cfg client to link (SendInvitation cfg client to orgName inviterName link) \<and>
    delivered cfg client to link (SendPasswordResetEmail cfg client to link) \<and>
    delivered cfg client to link (SendVerificationEmail cfg client to link)"
proof (cases "sgEnabled cfg \<and> sgAPIKey cfg \<noteq> []")
  case True
  have i: "carries to link (disableClickTracking (single_email cfg subject to (invitation_body inviterName orgName link)))" for subject
    by (rule carriesI [where before = "''Hi,'' @ nl @ nl @ inviterName @ '' has invited you to join the '' @ orgName @
        '' organisation on Upguardly.'' @ nl @ nl @ ''Click the link below to accept the invitation (expires in 7 days):''"])
      (simp add: invitation_body_def)
  have r: "carries to link (disableClickTracking (single_email cfg subject to (reset_body link)))" for subject
    by (rule carriesI [where before = "''Hi,'' @ nl @ nl @ ''We received a request to reset the password for your Upguardly account.'' @ nl @
        ''Click the link below to choose a new password (this link expires shortly):''"]) (simp add: reset_body_def)
  have v: "carries to link (disableClickTracking (single_email cfg subject to (verification_body link)))" for subject
    by (rule carriesI [where before = "''Hi,'' @ nl @ nl @ ''Please confirm your email address to finish setting up your Upguardly account:''"])
      (simp add: verification_body_def)
  show ?thesis using True hand_over_ok i r v
    by (simp add: SendInvitation_def SendPasswordResetEmail_def SendVerificationEmail_def dryRun_def)
next
  case False
  then show ?thesis by (auto simp: SendInvitation_def SendPasswordResetEmail_def SendVerificationEmail_def dryRun_def delivered_def)
qed

end
