(* ===== verification/Checkers.thy ===== *)
theory Checkers
  imports Runner Config
begin

section \<open>The checks\<close>

text \<open>
  \<^verbatim>\<open>internal/monitor\<close>: \<^verbatim>\<open>http.go\<close>, \<^verbatim>\<open>port.go\<close>, \<^verbatim>\<open>ping.go\<close> and \<^verbatim>\<open>certcheck.go\<close>, over a network that is an argument:
  what a name resolves to, which connections succeed, what a server answers, what \<^verbatim>\<open>ping\<close> prints, how
  much time has passed. Each check returns, next to its result, the addresses it tried to reach. Go's
  dialer runs its \<^verbatim>\<open>Control\<close> hook before each attempt to connect and goes on to the next address when
  the hook or the connection fails.
\<close>

subsection \<open>The network\<close>

text \<open>An error, with what \<^verbatim>\<open>errors.Is\<close> and \<^verbatim>\<open>errors.As\<close> say of it.\<close>

record go_error =
  geDeadline :: bool
  geOSTimeout :: bool
  geCanceled :: bool
  geDNS :: bool
  geTLSVerify :: bool
  geNetTimeout :: bool
  geText :: string

definition plain_error :: "string \<Rightarrow> go_error" where
  "plain_error s = \<lparr>geDeadline = False, geOSTimeout = False, geCanceled = False, geDNS = False, geTLSVerify = False,
     geNetTimeout = False, geText = s\<rparr>"

record network =
  nwAddrs :: "string \<Rightarrow> go_error + string list"
  nwConnect :: "string \<Rightarrow> go_error option"
  nwDialAddr :: "string \<Rightarrow> string option"
  nwServe :: "string \<Rightarrow> go_error + (nat \<times> string option)"
  nwLookupIP :: "string \<Rightarrow> (ip \<times> string) list option"
  nwPing :: "nat \<Rightarrow> ip \<Rightarrow> string + string"
  nwTLS :: "string \<Rightarrow> string \<Rightarrow> string + instant list"
  nwElapsedMs :: int

text \<open>\<^verbatim>\<open>SafeDialer().DialContext\<close>: the addresses tried, and the error of the first or the one connected to.\<close>

fun dial_addrs :: "net_env \<Rightarrow> network \<Rightarrow> go_error option \<Rightarrow> string list \<Rightarrow> string list \<times> (go_error + string)" where
  "dial_addrs n w first [] = ([], Inl (case first of Some e \<Rightarrow> e | None \<Rightarrow> plain_error ''missing address''))"
| "dial_addrs n w first (a # as) =
     (let keep = (\<lambda>e. case first of None \<Rightarrow> Some e | Some _ \<Rightarrow> first) in
      if \<not> dial_control n a
      then dial_addrs n w (keep (plain_error ''SSRF prevention: connection to private IP is blocked'')) as
      else (case nwConnect w a of
              None \<Rightarrow> ([a], Inr a)
            | Some e \<Rightarrow> (case dial_addrs n w (keep e) as of (tried, r) \<Rightarrow> (a # tried, r))))"

definition DialContext :: "net_env \<Rightarrow> network \<Rightarrow> string \<Rightarrow> string list \<times> (go_error + string)" where
  "DialContext n w target =
     (case nwAddrs w target of Inl e \<Rightarrow> ([], Inl e) | Inr addrs \<Rightarrow> dial_addrs n w None addrs)"

subsection \<open>HTTP\<close>

text \<open>\<^verbatim>\<open>strings.Contains\<close>.\<close>

fun Contains :: "string \<Rightarrow> string \<Rightarrow> bool" where
  "Contains [] sub = (sub = [])"
| "Contains (c # cs) sub = (take (length sub) (c # cs) = sub \<or> Contains cs sub)"

definition classifyHTTPError :: "go_error \<Rightarrow> string" where
  "classifyHTTPError e =
     (if geDeadline e \<or> geOSTimeout e then ''Timeout''
      else if geCanceled e then ''Check canceled''
      else if geDNS e then ''DNS lookup failed''
      else if geTLSVerify e then ''TLS certificate error''
      else if geNetTimeout e then ''Timeout''
      else if Contains (geText e) ''connection refused'' then ''Connection refused''
      else if Contains (geText e) ''no such host'' then ''DNS lookup failed''
      else if Contains (geText e) ''tls:'' \<or> Contains (geText e) ''x509:'' then ''TLS error''
      else ''Connection error'')"

text \<open>\<^verbatim>\<open>client.Do\<close>: it follows the redirects of the server while \<^verbatim>\<open>CheckRedirect\<close> lets it, with the
  number of redirects followed so far. Names may resolve and servers answer differently at each request, so the network is
  indexed by that number. The result: the URLs requested, the addresses tried and the status.\<close>

function do_request :: "net_env \<Rightarrow> (nat \<Rightarrow> network) \<Rightarrow> nat \<Rightarrow> string \<Rightarrow> string list \<times> string list \<times> (go_error + nat)" where
  "do_request n w via u =
     (case nwDialAddr (w via) u of
        None \<Rightarrow> ([u], [], Inl (plain_error ''unsupported protocol scheme''))
      | Some target \<Rightarrow>
          (case DialContext n (w via) target of
             (tried, Inl e) \<Rightarrow> ([u], tried, Inl e)
           | (tried, Inr _) \<Rightarrow>
               (case nwServe (w via) u of
                  Inl e \<Rightarrow> ([u], tried, Inl e)
                | Inr (code, None) \<Rightarrow> ([u], tried, Inr code)
                | Inr (code, Some next_url) \<Rightarrow>
                    if Suc via \<ge> 10 then ([u], tried, Inl (plain_error ''stopped after 10 redirects''))
                    else (case do_request n w (Suc via) next_url of (us, ts, r) \<Rightarrow> (u # us, tried @ ts, r)))))"
  by pat_completeness auto
termination by (relation "measure (\<lambda>(_, _, via, _). 10 - via)") auto

declare do_request.simps [simp del]

definition status_of :: "nat \<Rightarrow> status \<times> string" where
  "status_of code =
     (if code \<ge> 200 \<and> code < 300 then (UP, ''OK'')
      else if code \<ge> 300 \<and> code < 400 then (UP, ''Redirect'')
      else if code \<ge> 400 \<and> code < 500 then (DOWN, ''Client error'')
      else if code \<ge> 500 then (DOWN, ''Server error'')
      else (DEGRADED, ''Unexpected status''))"

text \<open>The elapsed time is that at the last request.\<close>

definition HTTP_Check :: "net_env \<Rightarrow> (nat \<Rightarrow> network) \<Rightarrow> string \<Rightarrow> string list \<times> check_result" where
  "HTTP_Check n w target =
     (case nParseURL n target of
        None \<Rightarrow> ([], \<lparr>ckStatus = DOWN, ckLatency = nwElapsedMs (w 0), ckStatusCode = None, ckMessage = ''Invalid request URL''\<rparr>)
      | Some _ \<Rightarrow>
          (case do_request n w 0 target of (us, tried, r) \<Rightarrow>
             (tried,
              case r of
                Inl e \<Rightarrow> \<lparr>ckStatus = DOWN, ckLatency = nwElapsedMs (w (length us - 1)), ckStatusCode = None, ckMessage = classifyHTTPError e\<rparr>
              | Inr code \<Rightarrow> \<lparr>ckStatus = fst (status_of code), ckLatency = nwElapsedMs (w (length us - 1)), ckStatusCode = Some (int code),
                             ckMessage = snd (status_of code)\<rparr>)))"

subsection \<open>Ports\<close>

definition PORT_Check :: "net_env \<Rightarrow> network \<Rightarrow> string \<Rightarrow> string list \<times> check_result" where
  "PORT_Check n w target =
     (case DialContext n w target of (tried, r) \<Rightarrow>
        (tried,
         case r of
           Inl e \<Rightarrow> \<lparr>ckStatus = DOWN, ckLatency = nwElapsedMs w, ckStatusCode = None, ckMessage = ''Connection failed: '' @ geText e\<rparr>
         | Inr _ \<Rightarrow> \<lparr>ckStatus = UP, ckLatency = nwElapsedMs w, ckStatusCode = None, ckMessage = ''Port is open''\<rparr>))"

subsection \<open>Ping\<close>

text \<open>\<^verbatim>\<open>strings.Split\<close>, \<^verbatim>\<open>strings.Fields(s)[0]\<close> with \<open>None\<close> for the panic of the index, \<^verbatim>\<open>strings.TrimSuffix\<close>,
  and \<^verbatim>\<open>strconv.ParseFloat\<close> on decimals (its exponents, hexadecimals and infinities count as errors).\<close>

fun split_sub :: "string \<Rightarrow> string \<Rightarrow> string \<Rightarrow> string list" where
  "split_sub sep acc [] = [rev acc]"
| "split_sub sep acc (c # cs) =
     (if sep \<noteq> [] \<and> take (length sep) (c # cs) = sep then rev acc # split_sub sep [] (drop (length sep - 1) cs)
      else split_sub sep (c # acc) cs)"

definition first_field :: "string \<Rightarrow> string option" where
  "first_field s = (let t = dropWhile is_space s in if t = [] then None else Some (takeWhile (\<lambda>c. \<not> is_space c) t))"

definition TrimSuffix :: "string \<Rightarrow> string \<Rightarrow> string" where
  "TrimSuffix s suf = (if length suf \<le> length s \<and> drop (length s - length suf) s = suf then take (length s - length suf) s else s)"

definition ParseFloat :: "string \<Rightarrow> rat option" where
  "ParseFloat s =
     (let neg = (s \<noteq> [] \<and> hd s = CHR ''-'');
          u = (if s \<noteq> [] \<and> (hd s = CHR ''-'' \<or> hd s = CHR ''+'') then tl s else s);
          whole = takeWhile is_digit u; r = dropWhile is_digit u;
          frac = (if r \<noteq> [] \<and> hd r = CHR ''.'' then tl r else [])
      in if whole @ frac = [] \<or> \<not> list_all is_digit frac \<or> (r \<noteq> [] \<and> hd r \<noteq> CHR ''.'') then None
         else let v = rat_of_nat (digits_val 0 (whole @ frac)) / 10 ^ length frac in Some (if neg then - v else v))"

fun latency_loop :: "string list \<Rightarrow> int option" where
  "latency_loop [] = Some 0"
| "latency_loop (line # lines) =
     (if Contains line ''time='' then
        (case split_sub ''time='' [] line of
           _ # part # _ \<Rightarrow>
             (case first_field part of
                None \<Rightarrow> None
              | Some f \<Rightarrow> (case ParseFloat (TrimSuffix f ''ms'') of Some ms \<Rightarrow> Some (trunc_rat ms) | None \<Rightarrow> latency_loop lines))
         | _ \<Rightarrow> latency_loop lines)
      else latency_loop lines)"

definition parseLatency :: "string \<Rightarrow> int option" where
  "parseLatency output = latency_loop (split_char (CHR 0x0A) output)"

fun ping_ip :: "(ip \<times> string) list \<Rightarrow> ip option \<Rightarrow> string + ip" where
  "ping_ip [] target = (case target of None \<Rightarrow> Inl ''No IP addresses found'' | Some a \<Rightarrow> Inr a)"
| "ping_ip ((a, _) # as) target =
     (if isPrivateIP a then Inl ''SSRF prevention: connection to private IP is blocked''
      else ping_ip as (case target of None \<Rightarrow> Some a | Some _ \<Rightarrow> target))"

definition ping_seconds :: "duration \<Rightarrow> nat" where
  "ping_seconds timeout = (let t = timeout sdiv second in if t < 1 then 1 else nat t)"

definition PING_Check :: "net_env \<Rightarrow> network \<Rightarrow> string \<Rightarrow> duration \<Rightarrow> ip list \<times> check_result option" where
  "PING_Check n w target timeout =
     (let down = (\<lambda>l msg. \<lparr>ckStatus = DOWN, ckLatency = l, ckStatusCode = None, ckMessage = msg\<rparr>);
          host = (case nSplitHostPort n target of Some (h, _) \<Rightarrow> h | None \<Rightarrow> target)
      in case nwLookupIP w host of
           None \<Rightarrow> ([], Some (down 0 ''DNS lookup failed''))
         | Some ips \<Rightarrow>
             (case ping_ip ips None of
                Inl msg \<Rightarrow> ([], Some (down 0 msg))
              | Inr a \<Rightarrow>
                  ([a],
                   case nwPing w (ping_seconds timeout) a of
                     Inl err \<Rightarrow> Some (down (nwElapsedMs w) (''Ping failed: '' @ err))
                   | Inr output \<Rightarrow>
                       map_option (\<lambda>l. \<lparr>ckStatus = UP, ckLatency = (if l > 0 then l else nwElapsedMs w), ckStatusCode = None,
                                        ckMessage = ''Host is reachable''\<rparr>) (parseLatency output))))"

subsection \<open>Certificates\<close>

definition JoinHostPort :: "string \<Rightarrow> string \<Rightarrow> string" where
  "JoinHostPort host port = (if CHR '':'' \<in> set host then ''['' @ host @ '']:'' @ port else host @ '':'' @ port)"

definition url_port :: "net_env \<Rightarrow> url \<Rightarrow> string" where
  "url_port n u = (case nSplitHostPort n (uHost u) of Some (_, p) \<Rightarrow> p | None \<Rightarrow> [])"

definition CheckCertExpiry :: "net_env \<Rightarrow> network \<Rightarrow> string \<Rightarrow> string list \<times> (string + instant)" where
  "CheckCertExpiry n w target =
     (case nParseURL n target of
        None \<Rightarrow> ([], Inl ''invalid target URL'')
      | Some u \<Rightarrow>
          if uHostname u = [] then ([], Inl ''invalid target URL'')
          else (let port = (if uScheme u = ''https'' \<and> url_port n u \<noteq> [] then url_port n u else ''443'') in
                case DialContext n w (JoinHostPort (uHostname u) port) of
                  (tried, Inl e) \<Rightarrow> (tried, Inl (''connect: '' @ geText e))
                | (tried, Inr a) \<Rightarrow>
                    (tried,
                     case nwTLS w a (uHostname u) of
                       Inl err \<Rightarrow> Inl (''TLS handshake: '' @ err)
                     | Inr [] \<Rightarrow> Inl ''no peer certificate presented''
                     | Inr (t # _) \<Rightarrow> Inr t)))"

subsection \<open>No check reaches a blocked address\<close>

lemma dial_addrs_allowed: "a \<in> set (fst (dial_addrs n w first as)) \<Longrightarrow> dial_control n a"
  by (induction n w first as rule: dial_addrs.induct) (auto simp: Let_def split: if_splits option.splits prod.splits)

lemma DialContext_allowed: "a \<in> set (fst (DialContext n w t)) \<Longrightarrow> dial_control n a"
  using dial_addrs_allowed by (fastforce simp: DialContext_def split: sum.splits)

lemma DialContext_tried: "DialContext n w t = (tried, r) \<Longrightarrow> \<forall>a \<in> set tried. dial_control n a"
  using DialContext_allowed [of _ n w t] by simp

lemma do_request_spec:
  "do_request n w via u = (us, tried, r) \<Longrightarrow> (\<forall>a \<in> set tried. dial_control n a) \<and> length us + via \<le> max 10 (Suc via)"
proof (induction n w via u arbitrary: us tried r rule: do_request.induct)
  case (1 n w via u)
  show ?case
  proof (cases "nwDialAddr (w via) u")
    case None
    then show ?thesis using "1.prems" by (subst (asm) do_request.simps) auto
  next
    case (Some target)
    obtain t c where d: "DialContext n (w via) target = (t, c)" by fastforce
    note ok = DialContext_tried [OF d]
    show ?thesis
    proof (cases "\<exists>a code nx. c = Inr a \<and> nwServe (w via) u = Inr (code, Some nx) \<and> \<not> Suc via \<ge> 10")
      case False
      then show ?thesis using "1.prems" ok Some d
        by (subst (asm) do_request.simps) (auto split: sum.splits option.splits if_splits)
    next
      case True
      then obtain a code nx where c: "c = Inr a" "nwServe (w via) u = Inr (code, Some nx)" "\<not> Suc via \<ge> 10" by blast
      obtain us' ts' r' where rec: "do_request n w (Suc via) nx = (us', ts', r')" by (cases "do_request n w (Suc via) nx") auto
      have ih: "(\<forall>a \<in> set ts'. dial_control n a) \<and> length us' + Suc via \<le> max 10 (Suc (Suc via))"
        using "1.IH" [OF Some d [symmetric] c(1) c(2) refl refl c(3) rec] .
      have "us = u # us'" "tried = t @ ts'" using "1.prems" Some d c rec by (subst (asm) do_request.simps, simp)+
      then show ?thesis using ih ok c(3) by auto
    qed
  qed
qed

lemma ping_ip_public: "ping_ip ips t = Inr a \<Longrightarrow> (\<forall>x. t = Some x \<longrightarrow> \<not> isPrivateIP x) \<Longrightarrow> \<not> isPrivateIP a"
proof (induction ips arbitrary: t)
  case Nil
  then show ?case by (cases t) auto
next
  case (Cons b ips)
  obtain ip z where b: "b = (ip, z)" by fastforce
  have p: "\<not> isPrivateIP ip" "ping_ip ips (case t of None \<Rightarrow> Some ip | Some _ \<Rightarrow> t) = Inr a"
    using Cons.prems(1) b by (auto split: if_splits)
  show ?case by (rule Cons.IH [OF p(2)]) (use p(1) Cons.prems(2) in \<open>auto split: option.splits\<close>)
qed

definition allowed :: "net_env \<Rightarrow> string \<Rightarrow> bool" where
  "allowed n a \<longleftrightarrow> (\<exists>h p. nSplitHostPort n a = Some (h, p) \<and> \<not> opt_any (nParseIP n h) isPrivateIP)"

lemma dial_control_allowed: "dial_control n a \<Longrightarrow> allowed n a"
  by (auto simp: dial_control_def allowed_def split: option.splits)

text \<open>C24: whatever names resolve to, whatever servers redirect to and however the answers change from one request to the next, no check tries to
  reach an address that parses and lies in a blocked range: neither an HTTP check on any of its at most ten requests, nor a port
  check, nor the look at a certificate; and nothing in a blocked range is pinged.\<close>

theorem checks_avoid_private:
  shows "(\<forall>a \<in> set (fst (HTTP_Check n turns target)). allowed n a) \<and>
    length (fst (do_request n turns 0 target)) \<le> 10 \<and>
    (\<forall>a \<in> set (fst (PORT_Check n w target)). allowed n a) \<and>
    (\<forall>a \<in> set (fst (CheckCertExpiry n w target)). allowed n a) \<and>
    (\<forall>a \<in> set (fst (PING_Check n w target timeout)). \<not> isPrivateIP a)"
proof (intro conjI)
  obtain us tried r where d: "do_request n turns 0 target = (us, tried, r)" by (cases "do_request n turns 0 target") auto
  show "\<forall>a \<in> set (fst (HTTP_Check n turns target)). allowed n a"
    using do_request_spec [OF d] dial_control_allowed by (auto simp: HTTP_Check_def d split: option.splits)
  show "length (fst (do_request n turns 0 target)) \<le> 10" using do_request_spec [OF d] d by simp
  show "\<forall>a \<in> set (fst (PORT_Check n w target)). allowed n a"
    using dial_control_allowed by (auto simp: PORT_Check_def dest: DialContext_tried split: prod.splits)
  show "\<forall>a \<in> set (fst (CheckCertExpiry n w target)). allowed n a"
    using dial_control_allowed
    by (auto simp: CheckCertExpiry_def Let_def dest: DialContext_tried split: option.splits if_splits prod.splits sum.splits)
  show "\<forall>a \<in> set (fst (PING_Check n w target timeout)). \<not> isPrivateIP a"
    using ping_ip_public by (fastforce simp: PING_Check_def Let_def split: option.splits sum.splits)
qed

text \<open>C31: the guard has a hole. \<^verbatim>\<open>net.ParseIP\<close> does not read an address with a zone, which the resolver hands back as
  it is. Such a target, in the blocked link-local range, passes the validation, and the check connects to it.\<close>

theorem zoned_address_is_dialed:
  assumes "nSplitHostPort n target = Some (host, port)" "port \<noteq> []" "host \<noteq> []" "nParseIP n host = None"
    and "nLookupHost n host = Some [host]" "nwAddrs w target = Inr [target]"
  shows "ValidateTarget n target PORT = None \<and> fst (PORT_Check n w target) = [target]"
  using assms
  by (auto simp: ValidateTarget_def target_host_def PORT_Check_def DialContext_def dial_control_def opt_any_def Let_def split: option.splits)

subsection \<open>The latency that ping prints\<close>

lemma Contains_take: "take (length sub) xs = sub \<Longrightarrow> Contains xs sub"
  by (cases xs) auto

lemma Contains_append: "Contains (xs @ sub @ ys) sub"
  by (induction xs) (simp_all add: Contains_take)

text \<open>The separator starts nowhere inside itself, so that its first occurrence is the first one seen.\<close>

lemma split_first:
  assumes "\<not> Contains l ''time=''"
  shows "split_sub ''time='' acc (l @ ''time='' @ r) = rev (rev l @ acc) # split_sub ''time='' [] r"
  using assms
proof (induction l arbitrary: acc)
  case (Cons c l)
  have "take 5 ((c # l) @ ''time='' @ r) \<noteq> ''time=''"
  proof
    assume t: "take 5 ((c # l) @ ''time='' @ r) = ''time=''"
    show False
    proof (cases "length l \<ge> 4")
      case True
      then have "take 5 (c # l) = ''time=''" using t by simp
      then show False using Cons.prems by (simp add: numeral_eq_Suc)
    next
      case False
      then have "length l = 0 \<or> length l = 1 \<or> length l = 2 \<or> length l = 3" by linarith
      then show False using t by (auto simp: length_Suc_conv numeral_eq_Suc)
    qed
  qed
  then show ?case using Cons by (simp add: numeral_eq_Suc)
qed simp

lemma digits_val_bound:
  "list_all is_digit fs \<Longrightarrow> digits_val v fs \<ge> v * 10 ^ length fs \<and> digits_val v fs < (v + 1) * 10 ^ length fs"
proof (induction fs arbitrary: v)
  case (Cons c fs)
  have c: "(of_char c :: nat) - 48 \<le> 9" using Cons.prems by (auto simp: is_digit_def)
  let ?w = "10 * v + (of_char c - 48)"
  have "v * 10 ^ length (c # fs) = (10 * v) * 10 ^ length fs" "(v + 1) * 10 ^ length (c # fs) = (10 * v + 10) * 10 ^ length fs"
    by (simp_all add: algebra_simps)
  moreover have "(10 * v) * 10 ^ length fs \<le> ?w * 10 ^ length fs" "(?w + 1) * 10 ^ length fs \<le> (10 * v + 10) * 10 ^ length fs"
    using c by (intro mult_le_mono1; simp)+
  moreover have "?w * 10 ^ length fs \<le> digits_val ?w fs" "digits_val ?w fs < (?w + 1) * 10 ^ length fs" using Cons by simp_all
  ultimately show ?case by (simp only: digits_val.simps) linarith
qed simp

lemma fmt_nat_digit: "list_all is_digit (fmt_nat n)"
proof (induction n rule: fmt_nat.induct)
  case (1 n)
  have d: "is_digit (char_of (48 + k))" if "k < 10" for k :: nat
  proof -
    have "list_all (\<lambda>k. is_digit (char_of (48 + k :: nat))) [0..<10]" by code_simp
    then show ?thesis using that by (simp add: list_all_iff)
  qed
  show ?case using 1 d by (subst fmt_nat.simps) auto
qed

lemma ParseFloat_decimal:
  assumes "list_all is_digit fs"
  shows "\<exists>v. ParseFloat (fmt_nat k @ ''.'' @ fs) = Some v \<and> trunc_rat v = int k"
proof -
  let ?s = "fmt_nat k @ ''.'' @ fs"
  have ne: "fmt_nat k \<noteq> []" using hd_digit by simp
  have hd: "hd ?s \<in> set (fmt_nat k)" "is_digit (hd ?s)" using ne fmt_nat_digit [of k] by (simp_all add: list_all_iff)
  have sign: "hd ?s \<noteq> CHR ''-''" "hd ?s \<noteq> CHR ''+''" using hd(2) by (auto simp: is_digit_def)
  have dot: "\<not> is_digit (CHR ''.'')" by (simp add: is_digit_def)
  have parts: "takeWhile is_digit ?s = fmt_nat k" "dropWhile is_digit ?s = ''.'' @ fs"
    using fmt_nat_digit [of k] dot by (simp_all add: takeWhile_append2 dropWhile_append2 list_all_iff)
  let ?v = "digits_val 0 (fmt_nat k @ fs)"
  have v: "?v = digits_val k fs" by (simp add: digits_val_append digits_val_fmt)
  have "k * 10 ^ length fs \<le> ?v" "?v < (k + 1) * 10 ^ length fs" using digits_val_bound [OF assms, of k] v by simp_all
  then have "?v div 10 ^ length fs = k" by (simp add: div_nat_eqI algebra_simps)
  then have "int ?v div 10 ^ length fs = int k" by (metis of_nat_numeral of_nat_power zdiv_int)
  moreover have "trunc_rat (rat_of_nat ?v / 10 ^ length fs) = int ?v div 10 ^ length fs"
    using trunc_rat_div [of "10 ^ length fs" "int ?v"] by simp
  moreover have "ParseFloat ?s = Some (rat_of_nat ?v / 10 ^ length fs)"
    using ne sign parts assms unfolding ParseFloat_def Let_def by simp
  ultimately show ?thesis by simp
qed

lemma split_char_nonempty: "split_char sep r \<noteq> []"
  by (cases r) (auto split: list.splits)

lemma split_char_line: "sep \<notin> set l \<Longrightarrow> split_char sep (l @ sep # r) = l # split_char sep r"
proof (induction l)
  case Nil
  then show ?case using split_char_nonempty [of sep r] by (cases "split_char sep r") auto
qed auto

lemma split_char_end: "sep \<notin> set l \<Longrightarrow> split_char sep l = [l]"
  by (induction l) auto

lemma split_sub_none: "CHR ''='' \<notin> set s \<Longrightarrow> split_sub ''time='' acc s = [rev acc @ s]"
proof (induction s arbitrary: acc)
  case (Cons c s)
  have "take 5 (c # s) \<noteq> ''time=''"
  proof
    assume "take 5 (c # s) = ''time=''"
    then have "CHR ''='' \<in> set (take 5 (c # s))" by simp
    then show False using Cons.prems in_set_takeD by metis
  qed
  then show ?case using Cons by (simp add: numeral_eq_Suc)
qed simp

lemma digit_class: "is_digit c \<Longrightarrow> \<not> is_space c \<and> c \<noteq> CHR ''='' \<and> c \<noteq> CHR ''s'' \<and> c \<noteq> CHR 0x0A"
  by (auto simp: is_digit_def is_space_def)

definition ping_time :: "nat \<Rightarrow> string \<Rightarrow> string" where
  "ping_time k fs = fmt_nat k @ ''.'' @ fs"

lemma ping_time_chars:
  assumes "list_all is_digit fs" "c \<in> set (ping_time k fs)"
  shows "is_digit c \<or> c = CHR ''.''"
  using assms fmt_nat_digit [of k] by (auto simp: ping_time_def list_all_iff)

lemma read_line:
  assumes l: "\<not> Contains l ''time=''" and fs: "list_all is_digit fs"
  shows "latency_loop ((l @ ''time='' @ ping_time k fs @ '' ms'') # lines) = Some (int k)"
proof -
  let ?p = "ping_time k fs"
  have ne: "?p \<noteq> []" by (simp add: ping_time_def)
  have sp: "\<forall>c \<in> set ?p. \<not> is_space c \<and> c \<noteq> CHR ''='' \<and> c \<noteq> CHR ''s''"
    using ping_time_chars [OF fs] digit_class by (fastforce simp: is_space_def)
  then have "split_sub ''time='' [] (?p @ '' ms'') = [?p @ '' ms'']" using split_sub_none [of "?p @ '' ms''" "[]"] by auto
  then have parts: "split_sub ''time='' [] (l @ ''time='' @ ?p @ '' ms'') = [l, ?p @ '' ms'']" using split_first [OF l, of "[]"] by simp
  have space: "is_space (CHR '' '')" by (simp add: is_space_def)
  have "dropWhile is_space (?p @ '' ms'') = ?p @ '' ms''" using ne sp by (cases ?p) auto
  moreover have "takeWhile (\<lambda>c. \<not> is_space c) (?p @ '' ms'') = ?p" using sp space by (simp add: takeWhile_append2)
  ultimately have field: "first_field (?p @ '' ms'') = Some ?p" using ne by (simp add: first_field_def)
  have "drop (length ?p - 2) ?p \<noteq> ''ms''"
  proof
    assume "drop (length ?p - 2) ?p = ''ms''"
    then have "CHR ''s'' \<in> set (drop (length ?p - 2) ?p)" by simp
    then show False using sp in_set_dropD by metis
  qed
  then have trim: "TrimSuffix ?p ''ms'' = ?p" by (simp add: TrimSuffix_def numeral_eq_Suc)
  obtain v where v: "ParseFloat ?p = Some v" "trunc_rat v = int k" using ParseFloat_decimal [OF fs] by (auto simp: ping_time_def)
  have "Contains (l @ ''time='' @ ?p @ '' ms'') ''time=''" by (rule Contains_append)
  then show ?thesis using parts field trim v by simp
qed

lemma skip_lines: "\<forall>l \<in> set ls. \<not> Contains l ''time='' \<Longrightarrow> latency_loop (ls @ r) = latency_loop r"
  by (induction ls) auto

text \<open>The latency of a ping is the one ping prints. When the output has a line with \<^verbatim>\<open>time=\<close>, a decimal number and the unit,
  after any lines without, the check reads the whole milliseconds of that number; on an output that ends after \<^verbatim>\<open>time=\<close>
  it panics.\<close>

theorem ping_latency_read:
  assumes "\<forall>x \<in> set (l # before). CHR 0x0A \<notin> set x \<and> \<not> Contains x ''time=''" "list_all is_digit fs"
    and "rest = [] \<or> hd rest = CHR 0x0A"
  shows "parseLatency (concat (map (\<lambda>x. x @ [CHR 0x0A]) before) @ l @ ''time='' @ fmt_nat k @ ''.'' @ fs @ '' ms'' @ rest) = Some (int k)
    \<and> parseLatency (l @ ''time='') = None"
proof -
  let ?nl = "CHR 0x0A" and ?line = "l @ ''time='' @ ping_time k fs @ '' ms''"
  have "\<forall>c \<in> set (ping_time k fs). c \<noteq> ?nl" using ping_time_chars [OF assms(2)] digit_class by fastforce
  then have nl: "?nl \<notin> set ?line" using assms(1) by auto
  obtain lines where split: "split_char ?nl (?line @ rest) = ?line # lines"
  proof (cases rest)
    case Nil
    then show ?thesis using split_char_end [OF nl] that by simp
  next
    case (Cons c r)
    then show ?thesis using split_char_line [OF nl, of r] assms(3) that by simp
  qed
  have "split_char ?nl (concat (map (\<lambda>x. x @ [?nl]) ls) @ s) = ls @ split_char ?nl s" if "\<forall>x \<in> set ls. ?nl \<notin> set x" for ls s
    using that by (induction ls) (simp_all add: split_char_line)
  then have "split_char ?nl (concat (map (\<lambda>x. x @ [?nl]) before) @ ?line @ rest) = before @ ?line # lines"
    using assms(1) split by simp
  then have "parseLatency (concat (map (\<lambda>x. x @ [?nl]) before) @ ?line @ rest) = latency_loop (before @ ?line # lines)"
    unfolding parseLatency_def by (simp only:)
  also have "\<dots> = Some (int k)" using skip_lines [of before] read_line assms(1,2) by simp
  finally have read: "parseLatency (concat (map (\<lambda>x. x @ [?nl]) before) @ ?line @ rest) = Some (int k)" .
  have "split_char ?nl (l @ ''time='') = [l @ ''time='']" using assms(1) by (intro split_char_end) auto
  moreover have "split_sub ''time='' [] (l @ ''time='') = [l, []]" using split_first [of l "[]" "[]"] assms(1) by simp
  moreover have "Contains (l @ ''time='') ''time=''" using Contains_append [of l "''time=''" "[]"] by simp
  ultimately have "parseLatency (l @ ''time='') = None" by (simp add: parseLatency_def first_field_def)
  then show ?thesis using read by (simp add: ping_time_def)
qed

subsection \<open>Witnesses\<close>

text \<open>A name server that first answers a private and a public address and then only the private one, a web server that
  redirects to its own name, and a link-local address with a zone.\<close>

definition split_plain :: "string \<Rightarrow> (string \<times> string) option" where
  "split_plain s = (if s = ''10.0.0.1:80'' then Some (''10.0.0.1'', ''80'') else if s = ''93.184.216.34:80'' then Some (''93.184.216.34'', ''80'')
     else if s = ''[fe80::1%eth0]:22'' then Some (''fe80::1%eth0'', ''22'') else None)"

definition trap_net :: net_env where
  "trap_net = sample_net\<lparr>nSplitHostPort := split_plain,
     nParseURL := (\<lambda>s. Some \<lparr>uScheme = ''http'', uHost = ''example.com'', uHostname = ''example.com''\<rparr>),
     nParseIP := (\<lambda>s. if s = ''10.0.0.1'' then Some (ip4 10 0 0 1) else if s = ''93.184.216.34'' then Some (ip4 93 184 216 34) else None),
     nLookupHost := (\<lambda>s. Some [s])\<rparr>"

definition trap_world :: network where
  "trap_world = \<lparr>nwAddrs = (\<lambda>t. if t = ''example.com:80'' then Inr [''10.0.0.1:80'', ''93.184.216.34:80''] else Inr [t]),
     nwConnect = (\<lambda>_. None), nwDialAddr = (\<lambda>_. Some ''example.com:80''),
     nwServe = (\<lambda>_. Inr (302, Some ''http://example.com'')), nwLookupIP = (\<lambda>_. Some [(ip4 93 184 216 34, [])]),
     nwPing = (\<lambda>_ _. Inr ''time=5.1 ms''), nwTLS = (\<lambda>_ _. Inr []), nwElapsedMs = 7\<rparr>"

definition trap_turns :: "nat \<Rightarrow> network" where
  "trap_turns k = (if k = 0 then trap_world else trap_world\<lparr>nwAddrs := (\<lambda>_. Inr [''10.0.0.1:80''])\<rparr>)"

theorem checks_avoid_private_witness:
  "fst (HTTP_Check trap_net trap_turns ''http://example.com'') = [''93.184.216.34:80''] \<and>
   allowed trap_net ''93.184.216.34:80''"
proof -
  have "isPrivateIP (ip4 10 0 0 1)" "\<not> isPrivateIP (ip4 93 184 216 34)"
    by (simp_all add: isPrivateIP_def privateRanges_def ip4_def)
  then have "fst (HTTP_Check trap_net trap_turns ''http://example.com'') = [''93.184.216.34:80'']"
    by (simp add: HTTP_Check_def do_request.simps DialContext_def dial_control_def opt_any_def trap_net_def trap_turns_def trap_world_def split_plain_def plain_error_def)
  then show ?thesis using checks_avoid_private [of trap_net trap_turns "''http://example.com''" trap_world 0] by simp
qed

theorem zoned_address_is_dialed_witness:
  "ValidateTarget trap_net ''[fe80::1%eth0]:22'' PORT = None \<and> fst (PORT_Check trap_net trap_world ''[fe80::1%eth0]:22'') = [''[fe80::1%eth0]:22'']"
  by (rule zoned_address_is_dialed [of _ _ "''fe80::1%eth0''" "''22''"]) (simp_all add: trap_net_def trap_world_def split_plain_def)

theorem ping_latency_read_witness:
  "parseLatency (''PING 1.1.1.1'' @ [CHR 0x0A] @ ''icmp_seq=1 ttl=57 time=5.12 ms'' @ [CHR 0x0A]) = Some 5 \<and>
   parseLatency ''icmp_seq=1 ttl=57 time='' = None"
proof -
  have five: "fmt_nat 5 = ''5''" by code_simp
  show ?thesis
    using ping_latency_read [of "''icmp_seq=1 ttl=57 ''" "[''PING 1.1.1.1'']" "''12''" "[CHR 0x0A]" 5] by (simp add: is_digit_def five)
qed

end
