(* ===== verification/Commands.thy ===== *)
theory Commands
  imports StoreLaws Access Config "HOL-Library.List_Lexorder" "HOL-Library.Char_ord"
begin

section \<open>The commands\<close>

text \<open>
  \<^verbatim>\<open>cmd/backfill\<close>, \<^verbatim>\<open>cmd/migrate\<close>, and what \<^verbatim>\<open>cmd/server\<close> and \<^verbatim>\<open>cmd/scheduler\<close> decide before they serve, with
  \<^verbatim>\<open>internal/redisclient\<close>. A command that ends in \<^verbatim>\<open>log.Fatalf\<close> is \<open>Inl\<close>; what the outside answers (the database, Redis,
  etcd, SuperTokens, bun's migrator) is an argument.
\<close>

subsection \<open>Backfill\<close>

definition effectivePlan_cmd :: "string \<Rightarrow> sub_status \<Rightarrow> string" where
  "effectivePlan_cmd plan status = (if status = CANCELED then ''FREE'' else plan)"

text \<open>The loop over the subscriptions, with the number of eligible accounts and of adjusted monitors.\<close>

fun backfill_loop ::
    "bool \<Rightarrow> instant \<Rightarrow> (ident \<Rightarrow> nat \<Rightarrow> bool) \<Rightarrow> subscription list \<Rightarrow> nat \<times> int \<times> db \<Rightarrow> nat \<times> int \<times> db" where
  "backfill_loop confirm now fails [] st = st"
| "backfill_loop confirm now fails (s # subs) (eligible, adjusted, d) =
     (let plan = effectivePlan_cmd (sPlan s) (sStatus s) in
      if plan = ''FREE'' then backfill_loop confirm now fails subs (eligible, adjusted, d)
      else if \<not> confirm then backfill_loop confirm now fails subs (eligible + 1, adjusted, d)
      else (case ReconcileMonitorsToPlan d now (fails (sUserID s)) (sUserID s) ''FREE'' plan of
              (n, failed, d') \<Rightarrow> backfill_loop confirm now fails subs (eligible + 1, if failed then adjusted else adjusted + n, d')))"

definition backfill_main ::
    "bool \<Rightarrow> bool \<Rightarrow> bool \<Rightarrow> instant \<Rightarrow> (ident \<Rightarrow> nat \<Rightarrow> bool) \<Rightarrow> db \<Rightarrow> (string + nat \<times> int) \<times> db" where
  "backfill_main confirm connectFails listFails now fails d =
     (if connectFails then (Inl ''Failed to connect to Bun database'', d)
      else if listFails then (Inl ''Failed to list subscriptions'', d)
      else (case backfill_loop confirm now fails (subscriptions d) (0, 0, d) of
              (eligible, adjusted, d') \<Rightarrow> (Inr (eligible, adjusted), d')))"

lemma effectivePlan_cmd_mirrors: "effectivePlan_cmd (sPlan s) (sStatus s) = effectivePlan (Some s)"
  by (simp add: effectivePlan_cmd_def effectivePlan_def)

lemma free_floor_highest: "MinInterval (LimitsForPlan plan) \<le> MinInterval (LimitsForPlan ''FREE'')"
  by (simp add: LimitsForPlan_def)

text \<open>A statement of the reconciliation keeps what its update keeps of every monitor.\<close>

definition keeps :: "(monitor_row \<Rightarrow> 'a) \<Rightarrow> rec_state \<Rightarrow> rec_state \<Rightarrow> bool" where
  "keeps k st st' \<longleftrightarrow> map k (monitors (snd (snd st'))) = map k (monitors (snd (snd st)))"

lemma keeps_step: "(\<And>m. k (f m) = k m) \<Longrightarrow> keeps k st (rec_step fails i guard u P f st)"
  by (auto simp: keeps_def rec_step_def scoped_update_def map_update_where split: prod.split)

lemma keeps_off: "\<not> guard \<Longrightarrow> keeps k st (rec_step fails i guard u P f st)"
  by (simp add: keeps_def rec_step_def split: prod.split)

lemma keeps_regions:
  "(\<And>m rs t. k (m\<lparr>mrRegions := rs, mrUpdatedAt := t\<rparr>) = k m) \<Longrightarrow> keeps k st (rec_regions fails now u n st)"
  by (auto simp: keeps_def rec_regions_def scoped_update_def clean_region_status_def map_update_where split: prod.split)

lemma keeps_trans: "keeps k st st1 \<Longrightarrow> keeps k st1 st2 \<Longrightarrow> keeps k st st2"
  by (simp add: keeps_def)

text \<open>The replayed upgrade keeps all that a plan limits except the regions.\<close>

definition settings_of :: "monitor_row \<Rightarrow> ident \<times> int option \<times> int option \<times> int option \<times> int option \<times> bool \<times> bool" where
  "settings_of m = (mrID m, mrInterval m, mrDegradedThresholdMs m, mrRepeatAlertIntervalSecs m, mrRepeatAlertMaxCount m,
     mrCertCheckEnabled m, mrDomainCheckEnabled m)"

lemma upgrade_keeps: "keeps settings_of (0, False, d) (ReconcileMonitorsToPlan d now fails u ''FREE'' plan)"
proof -
  have free: "\<not> MinInterval (LimitsForPlan plan) > MinInterval (LimitsForPlan ''FREE'')" "\<not> CustomDegradedThreshold (LimitsForPlan ''FREE'')"
    "\<not> SSLMonitoring (LimitsForPlan ''FREE'')" "\<not> DomainMonitoring (LimitsForPlan ''FREE'')" "\<not> MaxAlertRepeats (LimitsForPlan ''FREE'') > 0"
    by (simp_all add: LimitsForPlan_def)
  show ?thesis unfolding ReconcileMonitorsToPlan_def Let_def
    by (intro keeps_trans [OF keeps_trans [OF keeps_trans [OF keeps_trans [OF keeps_off keeps_regions] keeps_off] keeps_off] keeps_off])
      (use free in \<open>simp_all add: settings_of_def\<close>)
qed

lemma backfill_loop_keeps:
  "map settings_of (monitors (snd (snd (backfill_loop confirm now fails subs st)))) = map settings_of (monitors (snd (snd st)))"
proof (induction subs arbitrary: st)
  case (Cons s subs)
  obtain eligible adjusted d where st: "st = (eligible, adjusted, d)" by (cases st) auto
  obtain n failed d' where r: "ReconcileMonitorsToPlan d now (fails (sUserID s)) (sUserID s) ''FREE'' (effectivePlan_cmd (sPlan s) (sStatus s)) =
      (n, failed, d')" by (metis prod_cases3)
  have "map settings_of (monitors d') = map settings_of (monitors d)"
    using upgrade_keeps [of d now "fails (sUserID s)" "sUserID s" "effectivePlan_cmd (sPlan s) (sStatus s)"] by (simp add: r keeps_def)
  then show ?case
  proof (cases confirm)
    case True
    show ?thesis using \<open>map settings_of (monitors d') = _\<close> Cons.IH [unfolded True] True by (simp add: st Let_def r)
  next
    case False
    show ?thesis using Cons.IH False by (simp add: st Let_def)
  qed
qed simp

lemma backfill_dry: "snd (snd (backfill_loop False now fails subs st)) = snd (snd st) \<and>
    fst (snd (backfill_loop False now fails subs st)) = fst (snd st)"
proof (induction subs arbitrary: st)
  case (Cons s subs)
  then show ?case by (cases st) (simp add: Let_def)
qed simp

text \<open>The backfill does not repair what it was written for. Without \<^verbatim>\<open>-confirm\<close> it writes nothing, and with it no
  monitor's interval changes, whatever plan its owner has, since the reconciliation it replays as an upgrade from FREE
  only raises intervals and FREE has the highest floor; thresholds, reminders and expiry checks stay too.\<close>

theorem backfill_repairs_no_interval:
  shows "map settings_of (monitors (snd (backfill_main confirm connectFails listFails now fails d))) = map settings_of (monitors d) \<and>
    snd (backfill_main False connectFails listFails now fails d) = d"
  using backfill_loop_keeps [of confirm now fails "subscriptions d" "(0, 0, d)"] backfill_dry [of now fails "subscriptions d" "(0, 0, d)"]
  by (cases "backfill_loop confirm now fails (subscriptions d) (0, 0, d)"; cases "backfill_loop False now fails (subscriptions d) (0, 0, d)")
    (simp add: backfill_main_def)

subsection \<open>Migrations\<close>

text \<open>bun's bookkeeping: the applied migrations with their groups and the lock, a row with a unique key, so that taking
  it fails while it is held; and whether the monitors table exists.\<close>

record schema_state =
  scApplied :: "(string \<times> nat) list"
  scLocked :: bool
  scMonitors :: bool

record migrate_env =
  meConnectFails :: bool
  meInitFails :: bool
  meLockFails :: bool
  meUnlockFails :: bool
  meAppliedFails :: bool
  meExistsFails :: bool
  meMarkFails :: "string \<Rightarrow> bool"
  meMigrate :: "schema_state \<Rightarrow> (string + nat) \<times> schema_state"

definition BaselineCutoff :: string where
  "BaselineCutoff = ''20260703120000''"

fun mark_loop :: "(string \<Rightarrow> bool) \<Rightarrow> string list \<Rightarrow> schema_state \<Rightarrow> (string + unit) \<times> schema_state" where
  "mark_loop markFails [] s = (Inr (), s)"
| "mark_loop markFails (name # names) s =
     (if name > BaselineCutoff then mark_loop markFails names s
      else if markFails name then (Inl ''mark applied'', s)
      else mark_loop markFails names (s\<lparr>scApplied := scApplied s @ [(name, 1)]\<rparr>))"

definition baselineIfNeeded :: "migrate_env \<Rightarrow> string list \<Rightarrow> schema_state \<Rightarrow> (string + unit) \<times> schema_state" where
  "baselineIfNeeded e names s =
     (if meAppliedFails e then (Inl ''applied migrations'', s)
      else if scApplied s \<noteq> [] then (Inr (), s)
      else if meExistsFails e then (Inl ''to_regclass'', s)
      else if \<not> scMonitors s then (Inr (), s)
      else mark_loop (meMarkFails e) names s)"

definition runMigrations :: "migrate_env \<Rightarrow> string list \<Rightarrow> schema_state \<Rightarrow> (string + nat) \<times> schema_state" where
  "runMigrations e names s =
     (case baselineIfNeeded e names s of
        (Inl err, s') \<Rightarrow> (Inl (''baseline: '' @ err), s')
      | (Inr _, s') \<Rightarrow> meMigrate e s')"

definition migrate_dsn :: "environment \<Rightarrow> string" where
  "migrate_dsn env = (if env ''DIRECT_DATABASE_URL'' \<noteq> [] then env ''DIRECT_DATABASE_URL'' else cfDatabaseURL (Load env))"

definition migrate_main :: "migrate_env \<Rightarrow> string list \<Rightarrow> schema_state \<Rightarrow> (string + unit) \<times> schema_state" where
  "migrate_main e names s =
     (if meConnectFails e then (Inl ''migrate: failed to connect'', s)
      else if meInitFails e then (Inl ''migrate: init'', s)
      else if meLockFails e \<or> scLocked s then (Inl ''migrate: lock'', s)
      else (case runMigrations e names (s\<lparr>scLocked := True\<rparr>) of
              (outcome, s') \<Rightarrow>
                (case outcome of Inl err \<Rightarrow> Inl (''migrate: '' @ err) | Inr _ \<Rightarrow> Inr (),
                 if meUnlockFails e then s' else s'\<lparr>scLocked := False\<rparr>)))"

text \<open>The migrations up to the cutoff, and when the baseline ends with an error.\<close>

definition before_cutoff :: "string list \<Rightarrow> string list" where
  "before_cutoff names = filter (\<lambda>n. \<not> n > BaselineCutoff) names"

definition baseline_fails :: "migrate_env \<Rightarrow> string list \<Rightarrow> schema_state \<Rightarrow> bool" where
  "baseline_fails e names s \<longleftrightarrow> meAppliedFails e \<or>
     scApplied s = [] \<and> (meExistsFails e \<or> scMonitors s \<and> (\<exists>n \<in> set (before_cutoff names). meMarkFails e n))"

lemma mark_loop_marks:
  "mark_loop markFails names s =
    (if \<exists>n \<in> set (before_cutoff names). markFails n then Inl ''mark applied'' else Inr (),
     s\<lparr>scApplied := scApplied s @ map (\<lambda>n. (n, 1)) (takeWhile (\<lambda>n. \<not> markFails n) (before_cutoff names))\<rparr>)"
  by (induction names arbitrary: s) (auto simp: before_cutoff_def)

lemma baseline_ok:
  assumes "\<not> baseline_fails e names s"
  shows "baselineIfNeeded e names s = (Inr (), s\<lparr>scApplied := (if scApplied s = [] \<and> scMonitors s
    then map (\<lambda>n. (n, 1)) (before_cutoff names) else scApplied s)\<rparr>)"
proof (cases "scApplied s = [] \<and> scMonitors s")
  case True
  then have marks: "\<forall>n \<in> set (before_cutoff names). \<not> meMarkFails e n" using assms by (auto simp: baseline_fails_def)
  then have tw: "takeWhile (\<lambda>n. \<not> meMarkFails e n) (before_cutoff names) = before_cutoff names" by (simp add: takeWhile_eq_all_conv)
  have "\<not> meAppliedFails e" "\<not> meExistsFails e" using assms True by (simp_all add: baseline_fails_def)
  then have "baselineIfNeeded e names s = mark_loop (meMarkFails e) names s" using True by (simp add: baselineIfNeeded_def)
  then show ?thesis unfolding mark_loop_marks tw using True marks by simp
next
  case False
  then show ?thesis using assms by (cases s) (auto simp: baselineIfNeeded_def baseline_fails_def)
qed

lemma baseline_breaks:
  assumes "baseline_fails e names s"
  shows "\<exists>err. baselineIfNeeded e names s = (Inl err, s\<lparr>scApplied :=
    (if meAppliedFails e \<or> scApplied s \<noteq> [] \<or> meExistsFails e then scApplied s
     else map (\<lambda>n. (n, 1)) (takeWhile (\<lambda>n. \<not> meMarkFails e n) (before_cutoff names)))\<rparr>)"
proof (cases "meAppliedFails e \<or> meExistsFails e")
  case True
  then show ?thesis using assms by (cases s) (auto simp: baselineIfNeeded_def baseline_fails_def)
next
  case False
  then have "scApplied s = []" "scMonitors s" "\<exists>n \<in> set (before_cutoff names). meMarkFails e n"
    using assms by (auto simp: baseline_fails_def)
  then show ?thesis using False by (simp add: baselineIfNeeded_def mark_loop_marks del: One_nat_def)
qed

text \<open>C34: a run of the migrations that got the lock gives it back, whether the baseline or the migrations succeed or
  fail, unless giving it back fails; and a run that did not get it, because the connection, bun's tables or the
  lock failed or another run holds it, changes nothing and ends with an error. In between, when the baseline fails
  (the history or the tables cannot be read, or a migration cannot be marked) bun runs nothing, the run ends with an error,
  and at most the migrations marked before the failing one were added; otherwise bun runs on the history as it is, or, when there
  are tables and no history, on exactly the migrations up to the cutoff, and the run succeeds exactly when bun does.\<close>

theorem migrate_baselines_and_unlocks:
  assumes "migrate_main e names s = (outcome, s')"
  shows "if meConnectFails e \<or> meInitFails e \<or> meLockFails e \<or> scLocked s then s' = s \<and> (\<exists>err. outcome = Inl err)
    else \<exists>held. s' = (if meUnlockFails e then held else held\<lparr>scLocked := False\<rparr>) \<and>
      (if baseline_fails e names s
       then (\<exists>err. outcome = Inl err) \<and> held = s\<lparr>scLocked := True, scApplied :=
         (if meAppliedFails e \<or> scApplied s \<noteq> [] \<or> meExistsFails e then scApplied s
          else map (\<lambda>n. (n, 1)) (takeWhile (\<lambda>n. \<not> meMarkFails e n) (before_cutoff names)))\<rparr>
       else \<exists>answer. meMigrate e (s\<lparr>scLocked := True, scApplied :=
           (if scApplied s = [] \<and> scMonitors s then map (\<lambda>n. (n, 1)) (before_cutoff names) else scApplied s)\<rparr>) = (answer, held) \<and>
         (outcome = Inr () \<longleftrightarrow> (\<exists>g. answer = Inr g)))"
proof (cases "meConnectFails e \<or> meInitFails e \<or> meLockFails e \<or> scLocked s")
  case True
  then show ?thesis using assms by (auto simp: migrate_main_def split: if_splits)
next
  case False
  let ?l = "s\<lparr>scLocked := True\<rparr>"
  obtain answer held where r: "runMigrations e names ?l = (answer, held)" by force
  have m: "outcome = (case answer of Inl err \<Rightarrow> Inl (''migrate: '' @ err) | Inr _ \<Rightarrow> Inr ())"
    "s' = (if meUnlockFails e then held else held\<lparr>scLocked := False\<rparr>)"
    using assms False by (auto simp: migrate_main_def r)
  have out: "outcome = Inr () \<longleftrightarrow> (\<exists>g. answer = Inr g)" "(\<exists>err. answer = Inl err) \<longleftrightarrow> (\<exists>err. outcome = Inl err)"
    by (auto simp: m(1) split: sum.split)
  have l: "baseline_fails e names ?l = baseline_fails e names s" by (simp add: baseline_fails_def)
  show ?thesis
  proof (cases "baseline_fails e names s")
    case True
    then obtain err where b: "baselineIfNeeded e names ?l = (Inl err, ?l\<lparr>scApplied :=
        (if meAppliedFails e \<or> scApplied ?l \<noteq> [] \<or> meExistsFails e then scApplied ?l
         else map (\<lambda>n. (n, 1)) (takeWhile (\<lambda>n. \<not> meMarkFails e n) (before_cutoff names)))\<rparr>)"
      using baseline_breaks [of e names ?l] l by blast
    have "(\<exists>err. answer = Inl err) \<and> held = s\<lparr>scLocked := True, scApplied :=
         (if meAppliedFails e \<or> scApplied s \<noteq> [] \<or> meExistsFails e then scApplied s
          else map (\<lambda>n. (n, 1)) (takeWhile (\<lambda>n. \<not> meMarkFails e n) (before_cutoff names)))\<rparr>"
      using r unfolding runMigrations_def b by auto
    then show ?thesis using False True m(2) out(2) by auto
  next
    case nf: False
    have b: "baselineIfNeeded e names ?l = (Inr (), s\<lparr>scLocked := True, scApplied :=
        (if scApplied s = [] \<and> scMonitors s then map (\<lambda>n. (n, 1)) (before_cutoff names) else scApplied s)\<rparr>)"
      using baseline_ok [of e names ?l] nf l by simp
    have "meMigrate e (s\<lparr>scLocked := True, scApplied :=
        (if scApplied s = [] \<and> scMonitors s then map (\<lambda>n. (n, 1)) (before_cutoff names) else scApplied s)\<rparr>) = (answer, held)"
      using r unfolding runMigrations_def b by simp
    then show ?thesis using False nf m(2) out(1) by auto
  qed
qed

text \<open>A baseline that breaks off is taken for a history. When a migration cannot be marked after others were, the next
  run finds a history, does not baseline, and hands bun a database whose old migrations, from that one on, count as never
  applied although their tables exist.\<close>

theorem broken_baseline_is_history:
  assumes "names = marked @ bad # rest" "marked \<noteq> []" "\<forall>n \<in> set names. n \<le> BaselineCutoff" "distinct names"
    and "\<forall>n \<in> set marked. \<not> meMarkFails e n" "meMarkFails e bad" "\<not> meAppliedFails e" "\<not> meExistsFails e"
    and "scApplied s = []" "scMonitors s"
    and "baselineIfNeeded e names s = (outcome, s1)" "\<not> meAppliedFails e2"
  shows "outcome = Inl ''mark applied'' \<and> baselineIfNeeded e2 names s1 = (Inr (), s1) \<and>
    set (bad # rest) \<inter> fst ` set (scApplied s1) = {}"
proof -
  have loop: "mark_loop (meMarkFails e) (marked @ bad # rest) t = (Inl ''mark applied'', t\<lparr>scApplied := scApplied t @ map (\<lambda>n. (n, 1)) marked\<rparr>)" for t
    using assms(3,5,6) unfolding assms(1) by (induction marked arbitrary: t) auto
  have s1: "outcome = Inl ''mark applied''" "s1 = s\<lparr>scApplied := map (\<lambda>n. (n, 1)) marked\<rparr>"
    using assms(11) loop [of s] assms(7-10) by (auto simp: baselineIfNeeded_def assms(1))
  have "baselineIfNeeded e2 names s1 = (Inr (), s1)" using assms(2,12) by (simp add: baselineIfNeeded_def s1)
  moreover have "set (bad # rest) \<inter> fst ` set (scApplied s1) = {}" using assms(4) by (auto simp: s1 assms(1))
  ultimately show ?thesis using s1(1) by blast
qed

subsection \<open>Starting the server and the scheduler\<close>

text \<open>\<^verbatim>\<open>redisclient.New\<close>: whether there is a client, and the error.\<close>

definition redis_New :: "(string \<Rightarrow> bool) \<Rightarrow> bool \<Rightarrow> string \<Rightarrow> bool \<times> string option" where
  "redis_New parses answers url =
     (if url = [] then (False, None)
      else if \<not> parses url then (False, Some ''parse REDIS_URL'')
      else if \<not> answers then (True, Some ''ping redis'')
      else (True, None))"

record server_env =
  svAuthFails :: bool
  svConnectFails :: bool
  svRedisParses :: "string \<Rightarrow> bool"
  svRedisAnswers :: bool
  svSchedulerFails :: bool

text \<open>The server that is about to listen: its address, the budgets of its rate limiters and whether they count in Redis, and
  the region of the scheduler inside it, if it has one.\<close>

record running_server =
  runAddr :: string
  runBudgets :: "int \<times> int \<times> duration"
  runDistributed :: bool
  runEmbedded :: "string option"
  runOrigin :: string
  runRegions :: "string list"

definition server_main :: "config \<Rightarrow> server_env \<Rightarrow> string + running_server" where
  "server_main cfg e =
     (if svAuthFails e then Inl ''Failed to initialize SuperTokens''
      else if svConnectFails e then Inl ''Failed to connect to Bun database''
      else (case redis_New (svRedisParses e) (svRedisAnswers e) (rdURL (cfRedis cfg)) of
              (client, err) \<Rightarrow>
                if err \<noteq> None \<and> rcRequireRedis (cfRateLimit cfg)
                then Inl ''RATE_LIMIT_REQUIRE_REDIS is set but Redis is unavailable''
                else if err = None \<and> \<not> client \<and> rcRequireRedis (cfRateLimit cfg)
                then Inl ''RATE_LIMIT_REQUIRE_REDIS is set but REDIS_URL is empty''
                else if scEmbedded (cfScheduler cfg) \<and> svSchedulerFails e then Inl ''Failed to start scheduler''
                else Inr \<lparr>runAddr = '':'' @ cfPort cfg,
                          runBudgets = (rcDefaultPerMin (cfRateLimit cfg), rcStrictPerMin (cfRateLimit cfg), rcWindow (cfRateLimit cfg)),
                          runDistributed = (err = None \<and> client),
                          runEmbedded = (if scEmbedded (cfScheduler cfg) then Some (scRegion (cfScheduler cfg)) else None),
                          runOrigin = stWebsiteDomain (cfSuperTokens cfg), runRegions = cfAvailableRegions cfg\<rparr>))"

text \<open>A server that must share its rate limits does. With \<^verbatim>\<open>RATE_LIMIT_REQUIRE_REDIS\<close> it only starts when Redis answered, and
  then counts there; without it, it counts in Redis exactly when a URL is set, parses and answers.\<close>

theorem require_redis_fails_closed:
  assumes "server_main cfg e = Inr sv"
  shows "(rcRequireRedis (cfRateLimit cfg) \<longrightarrow> runDistributed sv) \<and>
    (runDistributed sv \<longleftrightarrow> rdURL (cfRedis cfg) \<noteq> [] \<and> svRedisParses e (rdURL (cfRedis cfg)) \<and> svRedisAnswers e)"
  using assms by (auto simp: server_main_def redis_New_def split: if_splits)

record scheduler_start_env =
  ssConnectFails :: bool
  ssCoordinatorFails :: bool
  ssRegisterFails :: bool
  ssStartFails :: bool

record running_scheduler =
  rnInstanceID :: string
  rnRegionID :: string
  rnLeaseTTL :: duration
  rnPartitionCount :: int
  rnSyncInterval :: duration

definition scheduler_main :: "config \<Rightarrow> scheduler_start_env \<Rightarrow> string + running_scheduler" where
  "scheduler_main cfg e =
     (let sc = cfScheduler cfg in
      if \<not> ValidRegion (scRegion sc) then Inl ''Invalid SCHEDULER_REGION''
      else if ssConnectFails e then Inl ''Failed to connect to Bun database''
      else if ssCoordinatorFails e then Inl ''Failed to create etcd coordinator''
      else if ssRegisterFails e then Inl ''Failed to register with etcd''
      else if ssStartFails e then Inl ''Failed to start distributed scheduler''
      else Inr \<lparr>rnInstanceID = scInstanceID sc, rnRegionID = scRegion sc, rnLeaseTTL = scLeaseTTL sc,
                rnPartitionCount = scPartitionCount sc, rnSyncInterval = scSyncInterval sc\<rparr>)"

lemma scheduler_region_known: "scheduler_main cfg e = Inr r \<Longrightarrow> ValidRegion (rnRegionID r)"
  by (auto simp: scheduler_main_def Let_def split: if_splits)

subsection \<open>Witnesses\<close>

definition migrate_ok :: migrate_env where
  "migrate_ok = \<lparr>meConnectFails = False, meInitFails = False, meLockFails = False, meUnlockFails = False, meAppliedFails = False,
     meExistsFails = False, meMarkFails = (\<lambda>_. False), meMigrate = (\<lambda>s. (Inl ''syntax error'', s))\<rparr>"

definition old_schema :: schema_state where
  "old_schema = \<lparr>scApplied = [], scLocked = False, scMonitors = True\<rparr>"

text \<open>One run in which bun fails, and one in which the baseline does.\<close>

theorem migrate_baselines_and_unlocks_witness:
  "snd (migrate_main migrate_ok [''20260528002800'', ''20260706120000''] old_schema) =
     \<lparr>scApplied = [(''20260528002800'', 1)], scLocked = False, scMonitors = True\<rparr> \<and>
   snd (migrate_main (migrate_ok\<lparr>meMarkFails := (\<lambda>n. n = ''20260607120000'')\<rparr>) [''20260528002800'', ''20260607120000''] old_schema) =
     \<lparr>scApplied = [(''20260528002800'', 1)], scLocked = False, scMonitors = True\<rparr>"
proof
  let ?names = "[''20260528002800'', ''20260706120000'']"
  obtain o1 s1 where m: "migrate_main migrate_ok ?names old_schema = (o1, s1)" by force
  have c: "before_cutoff ?names = [''20260528002800'']" "\<not> baseline_fails migrate_ok ?names old_schema"
    by (simp_all add: before_cutoff_def baseline_fails_def BaselineCutoff_def less_char_def migrate_ok_def)
  from migrate_baselines_and_unlocks [OF m] c
  show "snd (migrate_main migrate_ok ?names old_schema) = \<lparr>scApplied = [(''20260528002800'', 1)], scLocked = False, scMonitors = True\<rparr>"
    unfolding m snd_conv by (simp add: migrate_ok_def old_schema_def split: if_splits)
next
  let ?names = "[''20260528002800'', ''20260607120000'']" and ?e = "migrate_ok\<lparr>meMarkFails := (\<lambda>n. n = ''20260607120000'')\<rparr>"
  obtain o1 s1 where m: "migrate_main ?e ?names old_schema = (o1, s1)" by force
  have c: "before_cutoff ?names = ?names" "baseline_fails ?e ?names old_schema"
    by (simp_all add: before_cutoff_def baseline_fails_def BaselineCutoff_def less_char_def migrate_ok_def old_schema_def)
  from migrate_baselines_and_unlocks [OF m] c
  show "snd (migrate_main ?e ?names old_schema) = \<lparr>scApplied = [(''20260528002800'', 1)], scLocked = False, scMonitors = True\<rparr>"
    unfolding m snd_conv by (simp add: migrate_ok_def old_schema_def split: if_splits)
qed

theorem broken_baseline_is_history_witness:
  "\<exists>s1. baselineIfNeeded (migrate_ok\<lparr>meMarkFails := (\<lambda>n. n = ''20260607120000'')\<rparr>) [''20260528002800'', ''20260607120000''] old_schema =
      (Inl ''mark applied'', s1) \<and> baselineIfNeeded migrate_ok [''20260528002800'', ''20260607120000''] s1 = (Inr (), s1)"
proof -
  let ?e = "migrate_ok\<lparr>meMarkFails := (\<lambda>n. n = ''20260607120000'')\<rparr>" and ?names = "[''20260528002800'', ''20260607120000'']"
  obtain outcome s1 where b: "baselineIfNeeded ?e ?names old_schema = (outcome, s1)" by (cases "baselineIfNeeded ?e ?names old_schema") auto
  have "outcome = Inl ''mark applied'' \<and> baselineIfNeeded migrate_ok ?names s1 = (Inr (), s1) \<and>
      set (''20260607120000'' # []) \<inter> fst ` set (scApplied s1) = {}"
    by (rule broken_baseline_is_history [OF _ _ _ _ _ _ _ _ _ _ b, where marked = "[''20260528002800'']"])
      (simp_all add: migrate_ok_def old_schema_def BaselineCutoff_def)
  then show ?thesis using b by blast
qed

theorem require_redis_fails_closed_witness:
  "\<exists>sv. server_main (Load (\<lambda>k. if k = ''REDIS_URL'' then ''redis://cache:6379'' else if k = ''RATE_LIMIT_REQUIRE_REDIS'' then ''true'' else []))
     \<lparr>svAuthFails = False, svConnectFails = False, svRedisParses = (\<lambda>_. True), svRedisAnswers = True, svSchedulerFails = False\<rparr> = Inr sv \<and>
     runDistributed sv"
proof -
  let ?cfg = "Load (\<lambda>k. if k = ''REDIS_URL'' then ''redis://cache:6379'' else if k = ''RATE_LIMIT_REQUIRE_REDIS'' then ''true'' else [])"
  let ?e = "\<lparr>svAuthFails = False, svConnectFails = False, svRedisParses = (\<lambda>_. True), svRedisAnswers = True, svSchedulerFails = False\<rparr>"
  have c: "rdURL (cfRedis ?cfg) = ''redis://cache:6379''" "rcRequireRedis (cfRateLimit ?cfg)"
    by (simp_all add: Load_def getEnv_def getEnvBool_def ParseBool_def)
  obtain sv where sv: "server_main ?cfg ?e = Inr sv" by (auto simp: server_main_def redis_New_def c)
  then show ?thesis using require_redis_fails_closed [OF sv] c by blast
qed

end
