(* ===== verification/Routes.thy ===== *)
theory Routes
  imports Api Config
begin

section \<open>The route table\<close>

text \<open>
  \<^verbatim>\<open>NewRouter\<close> of \<^verbatim>\<open>internal/api/router.go\<close> as data: every route with its method, its path and the chain
  of middleware in front of its handler, in the order in which gin runs it, and a chain run on a
  request up to the first middleware that answers. gin, its CORS middleware and the session check of
  SuperTokens are outside the repository. gin's lookup of a route is an argument, \<open>gin\<close>, and \<open>gin_finds\<close>
  is what is asked of it: in a table in which no two routes meet, it finds the route that matches, with
  the parameters of the path, where a parameter stands for one segment that is not empty (the redirections of
  trailing slashes are left out). What the two others answer is an argument too.
  Theory \<open>Api\<close> states the same routes as one clause per request; here the two are shown to agree.
\<close>

subsection \<open>Middleware, handlers, routes\<close>

datatype http_method = GET | POST | PUT | DELETE

datatype segment = Lit string | Param string

datatype middleware =
    Logger | Recovery | SecurityHeaders | MetricsMiddleware | RateLimit | MetricsAuth | Cors
  | SuperTokens | AuthRequired | StrictRateLimit | WorkspaceOf | OrgRole org_role

text \<open>The handlers that theory \<open>Api\<close> runs, and the others by name.\<close>

datatype handler =
    H_CreateOrg | H_UpdateOrg | H_DeleteOrg | H_UpdateMemberRole | H_RemoveMember
  | H_CreateInvitation | H_RevokeInvitation | H_AcceptInvitation
  | H_CreateOrgAlertRecipient | H_DeleteOrgAlertRecipient
  | H_CreateMonitor | H_UpdateMonitor | H_DeleteMonitor
  | H_CreateMaintenanceWindow | H_DeleteMaintenanceWindow
  | H_CreateNotificationChannel | H_UpdateNotificationChannel | H_DeleteNotificationChannel
  | H_SetMonitorChannel | H_DeleteMonitorChannel
  | Endpoint string

record route =
  rtMethod :: http_method
  rtPath :: "segment list"
  rtChain :: "middleware list"
  rtHandler :: handler

text \<open>\<^verbatim>\<open>Group\<close> and \<^verbatim>\<open>Use\<close>: the routes of a group get its prefix and its middleware in front.\<close>

definition route_at :: "http_method \<Rightarrow> segment list \<Rightarrow> middleware list \<Rightarrow> handler \<Rightarrow> route" where
  "route_at m p c h = \<lparr>rtMethod = m, rtPath = p, rtChain = c, rtHandler = h\<rparr>"

definition group :: "segment list \<Rightarrow> middleware list \<Rightarrow> route list \<Rightarrow> route list" where
  "group p c rs = List.map (\<lambda>r. r\<lparr>rtPath := p @ rtPath r, rtChain := c @ rtChain r\<rparr>) rs"

definition monitor_routes :: "route list" where
  "monitor_routes =
     [route_at POST [] [StrictRateLimit, WorkspaceOf] H_CreateMonitor,
      route_at GET [] [WorkspaceOf] (Endpoint ''ListMonitors''),
      route_at GET [Param ''id''] [] (Endpoint ''GetMonitor''),
      route_at PUT [Param ''id''] [StrictRateLimit] H_UpdateMonitor,
      route_at DELETE [Param ''id''] [] H_DeleteMonitor,
      route_at GET [Param ''id'', Lit ''results''] [] (Endpoint ''GetMonitorResults''),
      route_at GET [Param ''id'', Lit ''incidents''] [] (Endpoint ''GetMonitorIncidents''),
      route_at GET [Param ''id'', Lit ''stats''] [] (Endpoint ''GetMonitorStats''),
      route_at GET [Param ''id'', Lit ''uptime''] [] (Endpoint ''GetMonitorUptime''),
      route_at GET [Param ''id'', Lit ''regions''] [] (Endpoint ''GetMonitorRegions''),
      route_at GET [Param ''id'', Lit ''expiry''] [] (Endpoint ''GetMonitorExpiry''),
      route_at GET [Param ''id'', Lit ''channels''] [] (Endpoint ''ListMonitorChannels''),
      route_at PUT [Param ''id'', Lit ''channels'', Param ''channelId''] [StrictRateLimit] H_SetMonitorChannel,
      route_at DELETE [Param ''id'', Lit ''channels'', Param ''channelId''] [StrictRateLimit] H_DeleteMonitorChannel,
      route_at GET [Param ''id'', Lit ''maintenance-windows''] [] (Endpoint ''ListMaintenanceWindows''),
      route_at POST [Param ''id'', Lit ''maintenance-windows''] [StrictRateLimit] H_CreateMaintenanceWindow,
      route_at DELETE [Param ''id'', Lit ''maintenance-windows'', Param ''windowId''] [StrictRateLimit]
        H_DeleteMaintenanceWindow]"

definition channel_routes :: "route list" where
  "channel_routes =
     [route_at POST [] [StrictRateLimit] H_CreateNotificationChannel,
      route_at GET [] [] (Endpoint ''ListNotificationChannels''),
      route_at PUT [Param ''id''] [StrictRateLimit] H_UpdateNotificationChannel,
      route_at DELETE [Param ''id''] [StrictRateLimit] H_DeleteNotificationChannel]"

definition org_routes :: "route list" where
  "org_routes =
     [route_at GET [] [OrgRole VIEWER] (Endpoint ''GetOrg''),
      route_at PUT [] [OrgRole ADMIN, StrictRateLimit] H_UpdateOrg,
      route_at DELETE [] [OrgRole OWNER] H_DeleteOrg,
      route_at GET [Lit ''members''] [OrgRole VIEWER] (Endpoint ''ListMembers''),
      route_at PUT [Lit ''members'', Param ''memberId''] [OrgRole ADMIN, StrictRateLimit] H_UpdateMemberRole,
      route_at DELETE [Lit ''members'', Param ''memberId''] [OrgRole MEMBER] H_RemoveMember,
      route_at POST [Lit ''invitations''] [OrgRole ADMIN, StrictRateLimit] H_CreateInvitation,
      route_at GET [Lit ''invitations''] [OrgRole ADMIN] (Endpoint ''ListInvitations''),
      route_at DELETE [Lit ''invitations'', Param ''invId''] [OrgRole ADMIN] H_RevokeInvitation,
      route_at GET [Lit ''alert-recipients''] [OrgRole VIEWER] (Endpoint ''ListOrgAlertRecipients''),
      route_at POST [Lit ''alert-recipients''] [OrgRole ADMIN, StrictRateLimit] H_CreateOrgAlertRecipient,
      route_at DELETE [Lit ''alert-recipients'', Param ''recipientId''] [OrgRole ADMIN, StrictRateLimit]
        H_DeleteOrgAlertRecipient]"

definition protected_routes :: "route list" where
  "protected_routes =
     [route_at GET [Lit ''me''] [] (Endpoint ''GetMe''),
      route_at GET [Lit ''regions''] [] (Endpoint ''ListRegions''),
      route_at GET [Lit ''subscription''] [] (Endpoint ''GetSubscription''),
      route_at POST [Lit ''subscription''] [StrictRateLimit] (Endpoint ''CreateCheckout''),
      route_at POST [Lit ''subscription'', Lit ''portal''] [StrictRateLimit] (Endpoint ''CreatePortal''),
      route_at DELETE [Lit ''subscription''] [StrictRateLimit] (Endpoint ''CancelSubscription''),
      route_at POST [Lit ''subscription'', Lit ''resume''] [StrictRateLimit] (Endpoint ''ResumeSubscription''),
      route_at POST [Lit ''invitations'', Param ''token'', Lit ''accept''] [StrictRateLimit] H_AcceptInvitation]
     @ group [Lit ''monitors''] [] monitor_routes
     @ group [Lit ''notification-channels''] [WorkspaceOf] channel_routes
     @ group [Lit ''organizations''] []
         ([route_at POST [] [StrictRateLimit] H_CreateOrg, route_at GET [] [] (Endpoint ''ListOrgs'')]
          @ group [Param ''id''] [] org_routes)"

definition v1_routes :: "route list" where
  "v1_routes =
     [route_at GET [Lit ''health''] [] (Endpoint ''Health''),
      route_at POST [Lit ''webhooks'', Lit ''stripe''] [StrictRateLimit] (Endpoint ''StripeWebhook''),
      route_at GET [Lit ''invitations'', Param ''token''] [StrictRateLimit] (Endpoint ''GetInvitationPreview'')]
     @ group [] [AuthRequired] protected_routes"

text \<open>gin's \<^verbatim>\<open>Use\<close> on the engine concerns the routes added after it, and the requests that match no
  route: \<^verbatim>\<open>/metrics\<close> is added before the CORS and session middleware. \<^verbatim>\<open>gin.Default\<close> brings a logger
  and a first \<^verbatim>\<open>Recovery\<close>.\<close>

definition engine_first :: "middleware list" where
  "engine_first = [Logger, Recovery, Recovery, SecurityHeaders, MetricsMiddleware, RateLimit]"

definition engine_chain :: "middleware list" where
  "engine_chain = engine_first @ [Cors, SuperTokens]"

definition NewRouter :: "route list" where
  "NewRouter =
     route_at GET [Lit ''metrics''] (engine_first @ [MetricsAuth]) (Endpoint ''metrics'')
     # group [Lit ''v1''] engine_chain v1_routes"

subsection \<open>Finding a route\<close>

text \<open>When a pattern of gin's matches a path, and the values of its parameters.\<close>

fun seg_match :: "segment \<Rightarrow> string \<Rightarrow> bool" where
  "seg_match (Lit x) s = (s = x)"
| "seg_match (Param _) s = (s \<noteq> [])"

definition matches :: "http_method \<Rightarrow> string list \<Rightarrow> route \<Rightarrow> bool" where
  "matches m p r \<longleftrightarrow> rtMethod r = m \<and> list_all2 seg_match (rtPath r) p"

fun params :: "segment list \<Rightarrow> string list \<Rightarrow> (string \<times> string) list" where
  "params (Param n # ss) (x # xs) = (n, x) # params ss xs"
| "params (Lit _ # ss) (_ # xs) = params ss xs"
| "params _ _ = []"

text \<open>Two routes clash when some path is matched by both.\<close>

fun seg_meet :: "segment \<Rightarrow> segment \<Rightarrow> bool" where
  "seg_meet (Lit x) (Lit y) \<longleftrightarrow> x = y"
| "seg_meet _ _ \<longleftrightarrow> True"

definition clash :: "route \<Rightarrow> route \<Rightarrow> bool" where
  "clash r s \<longleftrightarrow> rtMethod r = rtMethod s \<and> list_all2 seg_meet (rtPath r) (rtPath s)"

definition unambiguous :: "route list \<Rightarrow> bool" where
  "unambiguous rs \<longleftrightarrow> sorted_wrt (\<lambda>r s. \<not> clash r s) rs"

text \<open>gin's lookup: the route of a table and the parameters it gives the context.\<close>

type_synonym lookup = "route list \<Rightarrow> http_method \<Rightarrow> string list \<Rightarrow> (route \<times> (string \<times> string) list) option"

definition gin_finds :: "lookup \<Rightarrow> bool" where
  "gin_finds gin \<longleftrightarrow> (\<forall>rs m p r ps. unambiguous rs \<longrightarrow>
     (gin rs m p = Some (r, ps) \<longleftrightarrow> r \<in> set rs \<and> matches m p r \<and> ps = params (rtPath r) p))"

subsection \<open>Running a chain\<close>

text \<open>What the chain decides: the answers of the two rate limiters (theory \<open>RateLimit\<close>), of the CORS
  middleware and of the SuperTokens middleware when they answer themselves, and of the session check,
  which answers or gives the user id.\<close>

record gates =
  gAllowed :: bool
  gStrictAllowed :: bool
  gCors :: "nat option"
  gSuperTokens :: "nat option"
  gSession :: "nat + ident"
  gMetricsToken :: string
  gAuthorization :: string
  gWorkspaceHeader :: string

record gin_context =
  cxParams :: "(string \<times> string) list"
  cxHeaders :: "(string \<times> string) list"
  cxUser :: "ident option"
  cxOrg :: "(ident \<times> org_role) option"
  cxWorkspace :: "workspace option"

definition Param_of :: "gin_context \<Rightarrow> string \<Rightarrow> string" where
  "Param_of cx n = (case map_of (cxParams cx) n of Some v \<Rightarrow> v | None \<Rightarrow> [])"

definition securityHeaders :: "(string \<times> string) list" where
  "securityHeaders =
     [(''X-Content-Type-Options'', ''nosniff''), (''X-Frame-Options'', ''DENY''),
      (''X-XSS-Protection'', ''1; mode=block''), (''Referrer-Policy'', ''strict-origin-when-cross-origin''),
      (''Strict-Transport-Security'', ''max-age=31536000; includeSubDomains'')]"

definition metricsAuth :: "string \<Rightarrow> string \<Rightarrow> bool" where
  "metricsAuth token auth \<longleftrightarrow> token = [] \<or> auth = ''Bearer '' @ token"

fun apply_middleware :: "env \<Rightarrow> db \<Rightarrow> gates \<Rightarrow> middleware \<Rightarrow> gin_context \<Rightarrow> nat + gin_context" where
  "apply_middleware e d g Logger cx = Inr cx"
| "apply_middleware e d g Recovery cx = Inr cx"
| "apply_middleware e d g SecurityHeaders cx = Inr (cx\<lparr>cxHeaders := cxHeaders cx @ securityHeaders\<rparr>)"
| "apply_middleware e d g MetricsMiddleware cx = Inr cx"
| "apply_middleware e d g RateLimit cx = (if gAllowed g then Inr cx else Inl 429)"
| "apply_middleware e d g MetricsAuth cx =
     (if metricsAuth (gMetricsToken g) (gAuthorization g) then Inr cx else Inl 401)"
| "apply_middleware e d g Cors cx = (case gCors g of None \<Rightarrow> Inr cx | Some code \<Rightarrow> Inl code)"
| "apply_middleware e d g SuperTokens cx = (case gSuperTokens g of None \<Rightarrow> Inr cx | Some code \<Rightarrow> Inl code)"
| "apply_middleware e d g AuthRequired cx =
     (case gSession g of Inl code \<Rightarrow> Inl code | Inr u \<Rightarrow> Inr (cx\<lparr>cxUser := Some u\<rparr>))"
| "apply_middleware e d g StrictRateLimit cx = (if gStrictAllowed g then Inr cx else Inl 429)"
| "apply_middleware e d g WorkspaceOf cx =
     (case ResolveWorkspace e d (cxUser cx) (gWorkspaceHeader g) of
        Inl (code, _) \<Rightarrow> Inl code | Inr ws \<Rightarrow> Inr (cx\<lparr>cxWorkspace := Some ws\<rparr>))"
| "apply_middleware e d g (OrgRole role) cx =
     (case RequireOrgRole e d role (cxUser cx) (Param_of cx ''id'') of
        Inl (code, _) \<Rightarrow> Inl code | Inr og \<Rightarrow> Inr (cx\<lparr>cxOrg := Some og\<rparr>))"

primrec run_chain :: "env \<Rightarrow> db \<Rightarrow> gates \<Rightarrow> middleware list \<Rightarrow> gin_context \<Rightarrow> nat + gin_context" where
  "run_chain e d g [] cx = Inr cx"
| "run_chain e d g (m # ms) cx =
     (case apply_middleware e d g m cx of Inl code \<Rightarrow> Inl code | Inr cx' \<Rightarrow> run_chain e d g ms cx')"

subsection \<open>Handlers\<close>

text \<open>A request body is decoded by the handler that gets it: one field per type some handler decodes,
  \<open>None\<close> when the bytes do not decode to it.\<close>

record payload =
  pyOrg :: "string option"
  pyOrgUpdate :: "string option option"
  pyRole :: "org_role option"
  pyInvite :: "invite_request option"
  pyRecipient :: "(alert_channel \<times> string) option"
  pyMonitor :: "create_monitor_request option"
  pyMonitorUpdate :: "update_monitor_request option"
  pyWindow :: "create_window_request option"
  pyChannel :: "create_channel_request option"
  pyChannelUpdate :: "update_channel_request option"
  pyEnabled :: "bool option"

text \<open>What a handler reads from the context is what the middleware before it put there.\<close>

fun call ::
    "env \<Rightarrow> db \<Rightarrow> (string \<Rightarrow> gin_context \<Rightarrow> nat \<times> db) \<Rightarrow> handler \<Rightarrow> payload \<Rightarrow> gin_context \<Rightarrow> nat \<times> db" where
  "call e d other H_CreateOrg y cx = answer (CreateOrg e d (cxUser cx) (pyOrg y))"
| "call e d other H_UpdateOrg y cx = answer (UpdateOrg e d (fst (the (cxOrg cx))) (pyOrgUpdate y))"
| "call e d other H_DeleteOrg y cx = answer (DeleteOrg e d (fst (the (cxOrg cx))))"
| "call e d other H_UpdateMemberRole y cx =
     answer (UpdateMemberRole_h e d (fst (the (cxOrg cx))) (Param_of cx ''memberId'') (pyRole y))"
| "call e d other H_RemoveMember y cx =
     answer (RemoveMember_h e d (cxUser cx) (fst (the (cxOrg cx))) (Param_of cx ''memberId''))"
| "call e d other H_CreateInvitation y cx =
     answer (CreateInvitation_h e d (the (cxUser cx)) (fst (the (cxOrg cx))) (pyInvite y))"
| "call e d other H_RevokeInvitation y cx =
     answer (RevokeInvitation_h e d (fst (the (cxOrg cx))) (Param_of cx ''invId''))"
| "call e d other H_AcceptInvitation y cx = answer (AcceptInvitation_h e d (cxUser cx) (Param_of cx ''token''))"
| "call e d other H_CreateOrgAlertRecipient y cx =
     answer (CreateOrgAlertRecipient_h e d (fst (the (cxOrg cx))) (pyRecipient y))"
| "call e d other H_DeleteOrgAlertRecipient y cx =
     answer (DeleteOrgAlertRecipient_h e d (fst (the (cxOrg cx))) (Param_of cx ''recipientId''))"
| "call e d other H_CreateMonitor y cx = answer (CreateMonitor_h e d (cxUser cx) (the (cxWorkspace cx)) (pyMonitor y))"
| "call e d other H_UpdateMonitor y cx =
     answer (UpdateMonitor_h e d (cxUser cx) (Param_of cx ''id'') (pyMonitorUpdate y))"
| "call e d other H_DeleteMonitor y cx = answer (DeleteMonitor_h e d (cxUser cx) (Param_of cx ''id''))"
| "call e d other H_CreateMaintenanceWindow y cx =
     answer (CreateMaintenanceWindow_h e d (cxUser cx) (Param_of cx ''id'') (pyWindow y))"
| "call e d other H_DeleteMaintenanceWindow y cx =
     answer (DeleteMaintenanceWindow_h e d (cxUser cx) (Param_of cx ''id'') (Param_of cx ''windowId''))"
| "call e d other H_CreateNotificationChannel y cx =
     answer (CreateNotificationChannel_h e d (cxUser cx) (the (cxWorkspace cx)) (pyChannel y))"
| "call e d other H_UpdateNotificationChannel y cx =
     answer (UpdateNotificationChannel_h e d (cxUser cx) (the (cxWorkspace cx)) (Param_of cx ''id'') (pyChannelUpdate y))"
| "call e d other H_DeleteNotificationChannel y cx =
     answer (DeleteNotificationChannel_h e d (cxUser cx) (the (cxWorkspace cx)) (Param_of cx ''id''))"
| "call e d other H_SetMonitorChannel y cx =
     answer (SetMonitorChannel e d (cxUser cx) (Param_of cx ''id'') (Param_of cx ''channelId'') (pyEnabled y))"
| "call e d other H_DeleteMonitorChannel y cx =
     answer (DeleteMonitorChannel e d (cxUser cx) (Param_of cx ''id'') (Param_of cx ''channelId''))"
| "call e d other (Endpoint n) y cx = other n cx"

definition context0 :: "(string \<times> string) list \<Rightarrow> gin_context" where
  "context0 ps = \<lparr>cxParams = ps, cxHeaders = [], cxUser = None, cxOrg = None, cxWorkspace = None\<rparr>"

definition serve_http ::
    "lookup \<Rightarrow> env \<Rightarrow> gates \<Rightarrow> (string \<Rightarrow> gin_context \<Rightarrow> nat \<times> db) \<Rightarrow> http_method \<Rightarrow> string list \<Rightarrow> payload \<Rightarrow> db \<Rightarrow> nat \<times> db" where
  "serve_http gin e g other m p y d =
     (case gin NewRouter m p of
        None \<Rightarrow> (case run_chain e d g engine_chain (context0 []) of Inl code \<Rightarrow> (code, d) | Inr _ \<Rightarrow> (404, d))
      | Some (r, ps) \<Rightarrow>
          (case run_chain e d g (rtChain r) (context0 ps) of
             Inl code \<Rightarrow> (code, d)
           | Inr cx \<Rightarrow> call e d other (rtHandler r) y cx))"

text \<open>\<^verbatim>\<open>MetricsMiddleware\<close> counts a request under its method, its route (or its path when it has none) and
  the status of its response.\<close>

definition metrics_label :: "lookup \<Rightarrow> http_method \<Rightarrow> string list \<Rightarrow> segment list + string list" where
  "metrics_label gin m p = (case gin NewRouter m p of Some (r, _) \<Rightarrow> Inl (rtPath r) | None \<Rightarrow> Inr p)"

type_synonym request_counters = "http_method \<times> (segment list + string list) \<times> nat \<Rightarrow> nat"

definition count_request :: "lookup \<Rightarrow> http_method \<Rightarrow> string list \<Rightarrow> nat \<Rightarrow> request_counters \<Rightarrow> request_counters" where
  "count_request gin m p code c =
     (let k = (m, metrics_label gin m p, code) in c(k := c k + 1))"

subsection \<open>Trusted proxies\<close>

definition privateProxies :: "string list" where
  "privateProxies = [''10.0.0.0/8'', ''172.16.0.0/12'', ''192.168.0.0/16'', ''127.0.0.1/32'']"

definition cloudflareProxies :: "string list" where
  "cloudflareProxies =
     [''173.245.48.0/20'', ''103.21.244.0/22'', ''103.22.200.0/22'', ''103.31.4.0/22'',
      ''141.101.64.0/18'', ''108.162.192.0/18'', ''190.93.240.0/20'', ''188.114.96.0/20'',
      ''197.234.240.0/22'', ''198.41.128.0/17'', ''162.158.0.0/15'', ''104.16.0.0/13'',
      ''104.24.0.0/14'', ''172.64.0.0/13'', ''131.0.72.0/22'',
      ''2400:cb00::/32'', ''2606:4700::/32'', ''2803:f800::/32'', ''2405:b500::/32'',
      ''2405:8100::/32'', ''2a06:98c0::/29'', ''2c0f:f248::/32'']"

definition expand_proxy :: "string \<Rightarrow> string list" where
  "expand_proxy s =
     (let p = TrimSpace s in
      if p = [] then [] else if EqualFold p ''cloudflare'' then cloudflareProxies else [p])"

definition trustedProxies :: "string \<Rightarrow> string list" where
  "trustedProxies v =
     (if v = [] then privateProxies else concat (List.map expand_proxy (split_char (CHR '','') v)))"

text \<open>The list in force: \<open>valid\<close> is gin's \<^verbatim>\<open>SetTrustedProxies\<close>; without a valid list the process ends.\<close>

definition proxies_in_force :: "(string list \<Rightarrow> bool) \<Rightarrow> string \<Rightarrow> string list option" where
  "proxies_in_force valid v =
     (if valid (trustedProxies v) then Some (trustedProxies v)
      else if valid privateProxies then Some privateProxies else None)"

subsection \<open>The table is unambiguous\<close>

lemma routes_apart: "unambiguous NewRouter"
  by code_simp

lemma gin_NewRouter:
  "gin_finds gin \<Longrightarrow> gin NewRouter m p = Some (r, ps) \<longleftrightarrow> r \<in> set NewRouter \<and> matches m p r \<and> ps = params (rtPath r) p"
  using routes_apart by (simp add: gin_finds_def)

text \<open>A lookup with this property: the table from the front.\<close>

definition gin_scan :: lookup where
  "gin_scan rs m p = map_option (\<lambda>r. (r, params (rtPath r) p)) (List.find (matches m p) rs)"

lemma seg_match_meet: "seg_match a s \<Longrightarrow> seg_match b s \<Longrightarrow> seg_meet a b"
  by (cases a; cases b) auto

lemma matches_clash: "matches m p r \<Longrightarrow> matches m p s \<Longrightarrow> clash r s"
  by (auto simp: matches_def clash_def list_all2_conv_all_nth) (metis seg_match_meet)

lemma find_apart:
  "unambiguous rs \<Longrightarrow> r \<in> set rs \<Longrightarrow> matches m p r \<Longrightarrow> List.find (matches m p) rs = Some r"
  unfolding unambiguous_def by (induction rs) (auto dest: matches_clash)

lemma gin_scan_finds: "gin_finds gin_scan"
  unfolding gin_finds_def gin_scan_def using find_apart by (auto simp: find_Some_iff)

subsection \<open>The two descriptions of the API agree\<close>

text \<open>A request of theory \<open>Api\<close> as HTTP: the route it is for, its path below \<^verbatim>\<open>/v1\<close>, its body and its
  workspace header.\<close>

fun route_for :: "request \<Rightarrow> route" where
  "route_for (PostOrganization b) = route_at POST [Lit ''organizations'']
     [StrictRateLimit] H_CreateOrg"
| "route_for (PutOrganization i b) = route_at PUT [Lit ''organizations'', Param ''id'']
     [OrgRole ADMIN, StrictRateLimit] H_UpdateOrg"
| "route_for (DeleteOrganizationR i) = route_at DELETE [Lit ''organizations'', Param ''id'']
     [OrgRole OWNER] H_DeleteOrg"
| "route_for (PutMember i u b) = route_at PUT [Lit ''organizations'', Param ''id'', Lit ''members'', Param ''memberId'']
     [OrgRole ADMIN, StrictRateLimit] H_UpdateMemberRole"
| "route_for (DeleteMember i u) = route_at DELETE [Lit ''organizations'', Param ''id'', Lit ''members'', Param ''memberId'']
     [OrgRole MEMBER] H_RemoveMember"
| "route_for (PostInvitation i b) = route_at POST [Lit ''organizations'', Param ''id'', Lit ''invitations'']
     [OrgRole ADMIN, StrictRateLimit] H_CreateInvitation"
| "route_for (DeleteInvitation i v) = route_at DELETE [Lit ''organizations'', Param ''id'', Lit ''invitations'', Param ''invId'']
     [OrgRole ADMIN] H_RevokeInvitation"
| "route_for (PostAccept t) = route_at POST [Lit ''invitations'', Param ''token'', Lit ''accept'']
     [StrictRateLimit] H_AcceptInvitation"
| "route_for (PostRecipient i b) = route_at POST [Lit ''organizations'', Param ''id'', Lit ''alert-recipients'']
     [OrgRole ADMIN, StrictRateLimit] H_CreateOrgAlertRecipient"
| "route_for (DeleteRecipient i r) = route_at DELETE [Lit ''organizations'', Param ''id'', Lit ''alert-recipients'', Param ''recipientId'']
     [OrgRole ADMIN, StrictRateLimit] H_DeleteOrgAlertRecipient"
| "route_for (PostMonitor h b) = route_at POST [Lit ''monitors'']
     [StrictRateLimit, WorkspaceOf] H_CreateMonitor"
| "route_for (PutMonitor i b) = route_at PUT [Lit ''monitors'', Param ''id'']
     [StrictRateLimit] H_UpdateMonitor"
| "route_for (DeleteMonitorR i) = route_at DELETE [Lit ''monitors'', Param ''id'']
     [] H_DeleteMonitor"
| "route_for (PostWindow i b) = route_at POST [Lit ''monitors'', Param ''id'', Lit ''maintenance-windows'']
     [StrictRateLimit] H_CreateMaintenanceWindow"
| "route_for (DeleteWindow i w) = route_at DELETE [Lit ''monitors'', Param ''id'', Lit ''maintenance-windows'', Param ''windowId'']
     [StrictRateLimit] H_DeleteMaintenanceWindow"
| "route_for (PostChannel h b) = route_at POST [Lit ''notification-channels'']
     [WorkspaceOf, StrictRateLimit] H_CreateNotificationChannel"
| "route_for (PutChannel h i b) = route_at PUT [Lit ''notification-channels'', Param ''id'']
     [WorkspaceOf, StrictRateLimit] H_UpdateNotificationChannel"
| "route_for (DeleteChannel h i) = route_at DELETE [Lit ''notification-channels'', Param ''id'']
     [WorkspaceOf, StrictRateLimit] H_DeleteNotificationChannel"
| "route_for (PutMonitorChannel i c b) = route_at PUT [Lit ''monitors'', Param ''id'', Lit ''channels'', Param ''channelId'']
     [StrictRateLimit] H_SetMonitorChannel"
| "route_for (DeleteMonitorChannelR i c) = route_at DELETE [Lit ''monitors'', Param ''id'', Lit ''channels'', Param ''channelId'']
     [StrictRateLimit] H_DeleteMonitorChannel"

fun path_of :: "request \<Rightarrow> string list" where
  "path_of (PostOrganization b) = [''organizations'']"
| "path_of (PutOrganization i b) = [''organizations'', i]"
| "path_of (DeleteOrganizationR i) = [''organizations'', i]"
| "path_of (PutMember i u b) = [''organizations'', i, ''members'', u]"
| "path_of (DeleteMember i u) = [''organizations'', i, ''members'', u]"
| "path_of (PostInvitation i b) = [''organizations'', i, ''invitations'']"
| "path_of (DeleteInvitation i v) = [''organizations'', i, ''invitations'', v]"
| "path_of (PostAccept t) = [''invitations'', t, ''accept'']"
| "path_of (PostRecipient i b) = [''organizations'', i, ''alert-recipients'']"
| "path_of (DeleteRecipient i r) = [''organizations'', i, ''alert-recipients'', r]"
| "path_of (PostMonitor h b) = [''monitors'']"
| "path_of (PutMonitor i b) = [''monitors'', i]"
| "path_of (DeleteMonitorR i) = [''monitors'', i]"
| "path_of (PostWindow i b) = [''monitors'', i, ''maintenance-windows'']"
| "path_of (DeleteWindow i w) = [''monitors'', i, ''maintenance-windows'', w]"
| "path_of (PostChannel h b) = [''notification-channels'']"
| "path_of (PutChannel h i b) = [''notification-channels'', i]"
| "path_of (DeleteChannel h i) = [''notification-channels'', i]"
| "path_of (PutMonitorChannel i c b) = [''monitors'', i, ''channels'', c]"
| "path_of (DeleteMonitorChannelR i c) = [''monitors'', i, ''channels'', c]"

definition no_payload :: payload where
  "no_payload = \<lparr>pyOrg = None, pyOrgUpdate = None, pyRole = None, pyInvite = None, pyRecipient = None, pyMonitor = None,
     pyMonitorUpdate = None, pyWindow = None, pyChannel = None, pyChannelUpdate = None, pyEnabled = None\<rparr>"

fun body_is :: "request \<Rightarrow> payload \<Rightarrow> bool" where
  "body_is (PostOrganization b) y \<longleftrightarrow> pyOrg y = b"
| "body_is (PutOrganization i b) y \<longleftrightarrow> pyOrgUpdate y = b"
| "body_is (PutMember i u b) y \<longleftrightarrow> pyRole y = b"
| "body_is (PostInvitation i b) y \<longleftrightarrow> pyInvite y = b"
| "body_is (PostRecipient i b) y \<longleftrightarrow> pyRecipient y = b"
| "body_is (PostMonitor h b) y \<longleftrightarrow> pyMonitor y = b"
| "body_is (PutMonitor i b) y \<longleftrightarrow> pyMonitorUpdate y = b"
| "body_is (PostWindow i b) y \<longleftrightarrow> pyWindow y = b"
| "body_is (PostChannel h b) y \<longleftrightarrow> pyChannel y = b"
| "body_is (PutChannel h i b) y \<longleftrightarrow> pyChannelUpdate y = b"
| "body_is (PutMonitorChannel i ch b) y \<longleftrightarrow> pyEnabled y = b"
| "body_is _ y \<longleftrightarrow> True"

fun workspace_header :: "request \<Rightarrow> string option" where
  "workspace_header (PostMonitor h b) = Some h"
| "workspace_header (PostChannel h b) = Some h"
| "workspace_header (PutChannel h i b) = Some h"
| "workspace_header (DeleteChannel h i) = Some h"
| "workspace_header _ = None"

text \<open>Everything in front of the handlers lets the request through, and knows the caller.\<close>

definition lets_in :: "gates \<Rightarrow> ident \<Rightarrow> bool" where
  "lets_in g u \<longleftrightarrow> gAllowed g \<and> gStrictAllowed g \<and> gCors g = None \<and> gSuperTokens g = None \<and> gSession g = Inr u"

lemmas table_defs = protected_routes_def monitor_routes_def channel_routes_def org_routes_def group_def route_at_def

text \<open>The context in which the handlers behind the session check start.\<close>

definition entered :: "ident \<Rightarrow> (string \<times> string) list \<Rightarrow> gin_context" where
  "entered u ps = \<lparr>cxParams = ps, cxHeaders = securityHeaders, cxUser = Some u, cxOrg = None, cxWorkspace = None\<rparr>"

lemma run_engine:
  "lets_in g u \<Longrightarrow> run_chain e d g (engine_chain @ AuthRequired # c) (context0 ps) = run_chain e d g c (entered u ps)"
  by (simp add: lets_in_def engine_chain_def engine_first_def context0_def entered_def)

lemma protected_in_router:
  "x \<in> set protected_routes \<Longrightarrow>
     x\<lparr>rtPath := Lit ''v1'' # rtPath x, rtChain := engine_chain @ AuthRequired # rtChain x\<rparr> \<in> set NewRouter"
  by (auto simp: NewRouter_def v1_routes_def group_def image_iff)

lemma serve_found:
  assumes "gin_finds gin" "x \<in> set protected_routes" "list_all2 seg_match (rtPath x) p"
  shows "serve_http gin e g other (rtMethod x) (''v1'' # p) y d =
    (case run_chain e d g (engine_chain @ AuthRequired # rtChain x) (context0 (params (rtPath x) p)) of
       Inl code \<Rightarrow> (code, d) | Inr cx \<Rightarrow> call e d other (rtHandler x) y cx)"
proof -
  let ?r = "x\<lparr>rtPath := Lit ''v1'' # rtPath x, rtChain := engine_chain @ AuthRequired # rtChain x\<rparr>"
  have "gin NewRouter (rtMethod x) (''v1'' # p) = Some (?r, params (rtPath x) p)"
    unfolding gin_NewRouter [OF assms(1)]
    using protected_in_router [OF assms(2)] assms(3) by (cases x) (simp add: matches_def)
  then show ?thesis by (cases x) (simp add: serve_http_def split: sum.split)
qed

lemma serve_protected:
  assumes "gin_finds gin" "x \<in> set protected_routes" "lets_in g u" "list_all2 seg_match (rtPath x) p"
  shows "serve_http gin e g other (rtMethod x) (''v1'' # p) y d =
    (case run_chain e d g (rtChain x) (entered u (params (rtPath x) p)) of
       Inl code \<Rightarrow> (code, d) | Inr cx \<Rightarrow> call e d other (rtHandler x) y cx)"
  unfolding serve_found [OF assms(1,2,4)] run_engine [OF assms(3)] ..

text \<open>A chain that lets a request through does so too when the strict limiter would have let it.\<close>

lemma run_chain_strict:
  "run_chain e d g c cx = Inr cx' \<Longrightarrow> run_chain e d (g\<lparr>gStrictAllowed := True\<rparr>) c cx = Inr cx'"
proof (induction c arbitrary: cx)
  case (Cons m c)
  have "apply_middleware e d g m cx = Inr cx1 \<Longrightarrow> apply_middleware e d (g\<lparr>gStrictAllowed := True\<rparr>) m cx = Inr cx1" for cx1
    by (cases m) (auto split: if_splits)
  then show ?case using Cons by (auto split: sum.splits)
qed simp

lemma run_chain_passes:
  "run_chain e d g c cx = Inr cx' \<Longrightarrow> m \<in> set c \<Longrightarrow> \<exists>a b. apply_middleware e d g m a = Inr b"
  by (induction c arbitrary: cx) (auto split: sum.splits)

lemma changed_passed:
  assumes "run_chain e d g (engine_chain @ AuthRequired # c) cx = Inr cx'"
  shows "\<exists>u. gSession g = Inr u \<and> lets_in (g\<lparr>gStrictAllowed := True\<rparr>) u"
proof -
  note passes = run_chain_passes [OF assms]
  have "gAllowed g" using passes [of RateLimit] by (auto simp: engine_chain_def engine_first_def split: if_splits)
  moreover have "gCors g = None" using passes [of Cors] by (auto simp: engine_chain_def split: option.splits)
  moreover have "gSuperTokens g = None" using passes [of SuperTokens] by (auto simp: engine_chain_def split: option.splits)
  moreover have "\<exists>u. gSession g = Inr u" using passes [of AuthRequired] by (cases "gSession g") auto
  ultimately show ?thesis by (auto simp: lets_in_def)
qed

lemma route_for_protected: "route_for r \<in> set protected_routes"
  by (cases r) (simp_all add: table_defs)

lemma route_for_matches: "list_all (\<lambda>s. s \<noteq> []) (path_of r) \<Longrightarrow> list_all2 seg_match (rtPath (route_for r)) (path_of r)"
  by (cases r) (simp_all add: route_at_def)

lemma serve_api:
  assumes "gin_finds gin" "lets_in g u" "list_all (\<lambda>s. s \<noteq> []) (path_of r)" "body_is r y"
    and "\<forall>h. workspace_header r = Some h \<longrightarrow> h = gWorkspaceHeader g"
  shows "serve_http gin e g other (rtMethod (route_for r)) (''v1'' # path_of r) y d = api e (Some u) r d"
  unfolding serve_protected [OF assms(1) route_for_protected assms(2) route_for_matches [OF assms(3)]]
  using assms
  by (cases r) (simp_all add: route_at_def entered_def Param_of_def with_role_def with_workspace_def lets_in_def split: sum.split)

text \<open>C5: the route table serves the API of theory \<open>Api\<close>. Take one of its twenty requests (those that write
  organizations, members, invitations, recipients, monitors, windows and channels; the billing
  requests and the reads have no clause there), with identifiers in the path that are not empty. Sent over
  HTTP with its method, its path, its body and its workspace header, it is answered, and changes the
  database, as the clause of theory \<open>Api\<close> says for the caller of the session, when the rate limits, CORS and
  the session let it in; and in any case, when it changes the database, there is a session,
  and the answer and the change are those of that clause for its caller. So what is proved of the states that
  the API reaches holds for the server.\<close>

theorem routes_serve_api:
  fixes e :: env and d :: db and other :: "string \<Rightarrow> gin_context \<Rightarrow> nat \<times> db"
  assumes "gin_finds gin"
    and "list_all (\<lambda>s. s \<noteq> []) (path_of r)"
    and "body_is r y"
    and "\<forall>h. workspace_header r = Some h \<longrightarrow> h = gWorkspaceHeader g"
  defines "served \<equiv> serve_http gin e g other (rtMethod (route_for r)) (''v1'' # path_of r) y d"
  shows "(lets_in g u \<longrightarrow> served = api e (Some u) r d)
    \<and> (snd served \<noteq> d \<longrightarrow> (\<exists>caller. gSession g = Inr caller \<and> served = api e (Some caller) r d))"
proof (intro conjI impI)
  assume "lets_in g u"
  then show "served = api e (Some u) r d" unfolding served_def using assms by (intro serve_api)
next
  assume change: "snd served \<noteq> d"
  let ?g = "g\<lparr>gStrictAllowed := True\<rparr>" and ?x = "route_for r"
  let ?run = "\<lambda>g. run_chain e d g (engine_chain @ AuthRequired # rtChain ?x) (context0 (params (rtPath ?x) (path_of r)))"
  note found = serve_found [OF assms(1) route_for_protected route_for_matches [OF assms(2)]]
  obtain cx where cx: "?run g = Inr cx"
    using change unfolding served_def found by (auto split: sum.splits)
  obtain w where w: "gSession g = Inr w" "lets_in ?g w" using changed_passed [OF cx] by blast
  have "served = serve_http gin e ?g other (rtMethod ?x) (''v1'' # path_of r) y d"
    unfolding served_def found cx run_chain_strict [OF cx] ..
  also have "\<dots> = api e (Some w) r d" using assms(4) by (intro serve_api assms(1-3) w(2)) simp
  finally show "\<exists>caller. gSession g = Inr caller \<and> served = api e (Some caller) r d" using w(1) by blast
qed

definition open_gates :: gates where
  "open_gates = \<lparr>gAllowed = True, gStrictAllowed = True, gCors = None, gSuperTokens = None, gSession = Inr ''u1'',
     gMetricsToken = [], gAuthorization = [], gWorkspaceHeader = ''personal''\<rparr>"

theorem routes_serve_api_witness:
  "serve_http gin_scan sample_env open_gates (\<lambda>_ _. (200, empty_db)) DELETE [''v1'', ''organizations'', ''o1'', ''members'', ''u2''] no_payload empty_db
     = api sample_env (Some ''u1'') (DeleteMember ''o1'' ''u2'') empty_db"
proof -
  have "lets_in open_gates ''u1''" by (simp add: lets_in_def open_gates_def)
  then show ?thesis
    using routes_serve_api [OF gin_scan_finds, of "DeleteMember ''o1'' ''u2''" no_payload open_gates]
    by (simp add: route_at_def)
qed

subsection \<open>What stands in front of the handlers\<close>

text \<open>The four endpoints that ask for no session.\<close>

definition public_routes :: "(http_method \<times> segment list) list" where
  "public_routes =
     [(GET, [Lit ''metrics'']), (GET, [Lit ''v1'', Lit ''health'']), (POST, [Lit ''v1'', Lit ''webhooks'', Lit ''stripe'']),
      (GET, [Lit ''v1'', Lit ''invitations'', Param ''token''])]"

definition public_request :: "http_method \<Rightarrow> string list \<Rightarrow> bool" where
  "public_request m p \<longleftrightarrow>
     m = GET \<and> (p = [''metrics''] \<or> p = [''v1'', ''health''] \<or> length p = 3 \<and> take 2 p = [''v1'', ''invitations'']) \<or>
     m = POST \<and> p = [''v1'', ''webhooks'', ''stripe'']"

lemma public_or_protected:
  "list_all (\<lambda>r. AuthRequired \<in> set (rtChain r) \<or> (rtMethod r, rtPath r) \<in> set public_routes) NewRouter"
  by code_simp

lemma limited: "list_all (\<lambda>r. RateLimit \<in> set (rtChain r)) NewRouter"
  by code_simp

lemma posts_strict: "list_all (\<lambda>r. rtMethod r \<in> {POST, PUT} \<longrightarrow> StrictRateLimit \<in> set (rtChain r)) NewRouter"
  by code_simp

lemma match1: "list_all2 seg_match [a] p \<longleftrightarrow> (\<exists>x. p = [x] \<and> seg_match a x)"
  and match2: "list_all2 seg_match [a, b] p \<longleftrightarrow> (\<exists>x y. p = [x, y] \<and> seg_match a x \<and> seg_match b y)"
  and match3: "list_all2 seg_match [a, b, c] p \<longleftrightarrow> (\<exists>x y z. p = [x, y, z] \<and> seg_match a x \<and> seg_match b y \<and> seg_match c z)"
  by (auto simp: list_all2_Cons1)

lemma public_metrics: "list_all2 seg_match [Lit ''metrics''] p \<Longrightarrow> public_request GET p"
  unfolding match1 seg_match.simps public_request_def by blast

lemma public_health: "list_all2 seg_match [Lit ''v1'', Lit ''health''] p \<Longrightarrow> public_request GET p"
  unfolding match2 seg_match.simps public_request_def by blast

lemma public_webhook: "list_all2 seg_match [Lit ''v1'', Lit ''webhooks'', Lit ''stripe''] p \<Longrightarrow> public_request POST p"
  unfolding match3 seg_match.simps public_request_def by blast

lemma public_preview: "list_all2 seg_match [Lit ''v1'', Lit ''invitations'', Param ''token''] p \<Longrightarrow> public_request GET p"
  unfolding match3 seg_match.simps public_request_def by (elim exE conjE) simp

lemma public_routes_requests:
  assumes "(rtMethod r, rtPath r) \<in> set public_routes" "matches m p r"
  shows "public_request m p"
proof -
  have m: "rtMethod r = m" "list_all2 seg_match (rtPath r) p" using assms(2) by (simp_all add: matches_def)
  have "(m, rtPath r) = (GET, [Lit ''metrics'']) \<or> (m, rtPath r) = (GET, [Lit ''v1'', Lit ''health'']) \<or>
    (m, rtPath r) = (POST, [Lit ''v1'', Lit ''webhooks'', Lit ''stripe'']) \<or>
    (m, rtPath r) = (GET, [Lit ''v1'', Lit ''invitations'', Param ''token''])"
    using assms(1) unfolding public_routes_def m(1) set_simps insert_iff empty_iff simp_thms .
  then show ?thesis
    using m(2) public_metrics public_health public_webhook public_preview unfolding prod.inject by metis
qed

lemma serve_changes:
  assumes "gin_finds gin" "snd (serve_http gin e g other m p y d) \<noteq> d"
  obtains r cx where "r \<in> set NewRouter" "matches m p r"
    "run_chain e d g (rtChain r) (context0 (params (rtPath r) p)) = Inr cx"
proof (cases "gin NewRouter m p")
  case None
  then show thesis using assms(2) by (simp add: serve_http_def split: sum.splits)
next
  case (Some x)
  obtain a ps where x: "x = (a, ps)" by force
  have a: "a \<in> set NewRouter" "matches m p a" "ps = params (rtPath a) p"
    using Some gin_NewRouter [OF assms(1), of m p a ps] by (simp_all add: x)
  then obtain cx where "run_chain e d g (rtChain a) (context0 (params (rtPath a) p)) = Inr cx"
    using assms(2) by (auto simp: serve_http_def Some x split: sum.splits)
  then show thesis using a that by blast
qed

text \<open>C13: the handlers are behind their guards. A request that changes the database passed the global
  rate limit; when it is a \<^verbatim>\<open>POST\<close> or a \<^verbatim>\<open>PUT\<close> it passed the strict one; and it comes with a session
  unless it is itself a request of one of the four public endpoints: \<^verbatim>\<open>GET /metrics\<close>, \<^verbatim>\<open>GET /v1/health\<close>,
  \<^verbatim>\<open>POST /v1/webhooks/stripe\<close> and \<^verbatim>\<open>GET /v1/invitations/:token\<close>.\<close>

theorem writes_are_guarded:
  assumes "gin_finds gin" "snd (serve_http gin e g other m p y d) \<noteq> d"
  shows "gAllowed g \<and> (m \<in> {POST, PUT} \<longrightarrow> gStrictAllowed g) \<and> (isl (gSession g) \<longrightarrow> public_request m p)"
proof -
  obtain r cx where r: "r \<in> set NewRouter" "matches m p r"
    "run_chain e d g (rtChain r) (context0 (params (rtPath r) p)) = Inr cx"
    using assms by (rule serve_changes)
  note passes = run_chain_passes [OF r(3)]
  have m: "rtMethod r = m" using r(2) by (simp add: matches_def)
  have chain: "RateLimit \<in> set (rtChain r)" "m \<in> {POST, PUT} \<Longrightarrow> StrictRateLimit \<in> set (rtChain r)"
    "AuthRequired \<in> set (rtChain r) \<or> (rtMethod r, rtPath r) \<in> set public_routes"
    using limited posts_strict public_or_protected r(1) m by (auto simp: list_all_iff)
  have "gAllowed g" using passes [OF chain(1)] by (auto split: if_splits)
  moreover have "gStrictAllowed g" if "m \<in> {POST, PUT}"
    using passes [OF chain(2) [OF that]] by (auto split: if_splits)
  moreover have "\<not> isl (gSession g)" if "AuthRequired \<in> set (rtChain r)"
    using passes [OF that] by (cases "gSession g") auto
  ultimately show ?thesis using chain(3) public_routes_requests [OF _ r(2)] by blast
qed

text \<open>An ENTERPRISE user creates an organization.\<close>

definition paid_db :: db where
  "paid_db = snd (UpsertSubscription empty_db 1 ''s1'' enterprise_params)"

definition acme_payload :: payload where
  "acme_payload = no_payload\<lparr>pyOrg := Some ''Acme''\<rparr>"

lemma create_org_served:
  "serve_http gin_scan sample_env (open_gates\<lparr>gSession := Inr ''owner''\<rparr>) k POST [''v1'', ''organizations''] acme_payload paid_db
     = api sample_env (Some ''owner'') (PostOrganization (Some ''Acme'')) paid_db"
proof -
  have "lets_in (open_gates\<lparr>gSession := Inr ''owner''\<rparr>) ''owner''" by (simp add: lets_in_def open_gates_def)
  from serve_api [OF gin_scan_finds this, of "PostOrganization (Some ''Acme'')" acme_payload sample_env k paid_db]
  show ?thesis by (simp add: route_at_def acme_payload_def)
qed

theorem writes_are_guarded_witness:
  "snd (serve_http gin_scan sample_env (open_gates\<lparr>gSession := Inr ''owner''\<rparr>) (\<lambda>_ _. (200, paid_db)) POST
      [''v1'', ''organizations''] acme_payload paid_db) \<noteq> paid_db
    \<and> gStrictAllowed (open_gates\<lparr>gSession := Inr ''owner''\<rparr>)
    \<and> snd (serve_http gin_scan sample_env (open_gates\<lparr>gSession := Inl 401\<rparr>) (\<lambda>_ _. (200, empty_db)) POST
      [''v1'', ''organizations''] acme_payload paid_db) = paid_db"
proof -
  have "snd (api sample_env (Some ''owner'') (PostOrganization (Some ''Acme'')) paid_db) \<noteq> paid_db"
    using founded_members by (auto simp: founded_db_def paid_db_def UpsertSubscription_def empty_db_def Let_def)
  then have change: "snd (serve_http gin_scan sample_env (open_gates\<lparr>gSession := Inr ''owner''\<rparr>) (\<lambda>_ _. (200, paid_db)) POST
      [''v1'', ''organizations''] acme_payload paid_db) \<noteq> paid_db" unfolding create_org_served .
  have "\<not> public_request POST [''v1'', ''organizations'']" by (simp add: public_request_def)
  then show ?thesis
    using change writes_are_guarded [OF gin_scan_finds change]
      writes_are_guarded [OF gin_scan_finds, of sample_env "open_gates\<lparr>gSession := Inl 401\<rparr>" "\<lambda>_ _. (200, empty_db)" POST
        "[''v1'', ''organizations'']" acme_payload paid_db]
    by auto
qed

subsection \<open>Metrics labels and proxies\<close>

text \<open>A path that no route serves becomes a label of its own, so callers make as many time series as they
  like, where the routes have one label each.\<close>

lemma unknown_paths_make_series:
  assumes "gin_finds gin" "s \<noteq> ''v1''" "s \<noteq> ''metrics''"
  shows "metrics_label gin GET (s # p) = Inr (s # p)"
proof -
  have "list_all (\<lambda>r. hd (rtPath r) \<in> {Lit ''v1'', Lit ''metrics''} \<and> rtPath r \<noteq> []) NewRouter" by code_simp
  moreover have "r \<in> set NewRouter \<Longrightarrow> matches GET (s # p) r \<Longrightarrow> seg_match (hd (rtPath r)) s" for r
    by (cases "rtPath r") (auto simp: matches_def)
  ultimately have "\<not> (r \<in> set NewRouter \<and> matches GET (s # p) r)" for r
    using assms(2,3) by (fastforce simp: list_all_iff)
  then have "gin NewRouter GET (s # p) = None"
    using gin_NewRouter [OF assms(1), of GET "s # p"] by (cases "gin NewRouter GET (s # p)") auto
  then show ?thesis by (simp add: metrics_label_def)
qed

lemma cloudflare_replaces_private: "trustedProxies ''cloudflare'' = cloudflareProxies"
  by code_simp

lemma blank_trusts_nobody: "trustedProxies '' , '' = []"
  by code_simp

lemma proxies_never_everyone:
  "proxies_in_force valid v = Some ps \<Longrightarrow> ps = trustedProxies v \<or> ps = privateProxies"
  by (auto simp: proxies_in_force_def split: if_splits)

end
