(* ===== verification/Pacing.thy ===== *)
theory Pacing
  imports Runner Scheduler
begin

section \<open>The pace of the checks, and stopping\<close>

text \<open>
  The loop of a monitor's job (\<^verbatim>\<open>jobLoop\<close> of \<^verbatim>\<open>internal/scheduler/runner.go\<close>) over a clock, and the
  life of the loop that syncs the jobs (\<^verbatim>\<open>syncLoop\<close> and \<^verbatim>\<open>Stop\<close> of \<^verbatim>\<open>scheduler.go\<close>, \<^verbatim>\<open>run\<close> and \<^verbatim>\<open>Stop\<close>
  of \<^verbatim>\<open>distributed.go\<close>).
\<close>

subsection \<open>A ticker\<close>

text \<open>A ticker started at \<open>s\<close> fires at \<open>s + p\<close>, \<open>s + 2 * p\<close> and so on into a channel of one place; a tick
  that finds the place taken is dropped. A receiver that last received at \<open>seen\<close> and comes back at
  \<open>f\<close> gets the waiting tick at once, or waits for the next.\<close>

definition waiting :: "instant \<Rightarrow> duration \<Rightarrow> instant \<Rightarrow> instant \<Rightarrow> bool" where
  "waiting s p seen f \<longleftrightarrow> seen < s + (f - s) div p * p"

definition receive :: "instant \<Rightarrow> duration \<Rightarrow> instant \<Rightarrow> instant \<Rightarrow> instant" where
  "receive s p seen f = (if waiting s p seen f then f else s + ((f - s) div p + 1) * p)"

lemma multiple_step:
  fixes a n p :: int
  assumes "0 < p" "n * p < a * p"
  shows "(n + 1) * p \<le> a * p"
proof -
  have "n < a" using assms by simp
  then show ?thesis using assms(1) by (intro mult_right_mono) simp_all
qed

lemma div_bounds:
  fixes x p :: int
  assumes "0 < p"
  shows "x div p * p \<le> x" "x < (x div p + 1) * p"
proof -
  have "x div p * p + x mod p = x" by simp
  then show "x div p * p \<le> x" "x < (x div p + 1) * p"
    using pos_mod_sign [OF assms, of x] pos_mod_bound [OF assms, of x] unfolding distrib_right by linarith+
qed

lemma receive_late: "0 < p \<Longrightarrow> f \<le> receive s p seen f"
  using div_bounds(2) [of p "f - s"] by (simp add: receive_def)

text \<open>No two receives share a tick.\<close>

lemma receive_counts:
  assumes "0 < p" "s + n * p \<le> seen" "seen \<le> f"
  shows "s + (n + 1) * p \<le> receive s p seen f"
proof (cases "waiting s p seen f")
  case True
  have "n * p < (f - s) div p * p" using True assms(2) by (simp add: waiting_def)
  from multiple_step [OF assms(1) this] show ?thesis
    using True div_bounds(1) [OF assms(1), of "f - s"] by (simp add: receive_def)
next
  case False
  have "n * p < ((f - s) div p + 1) * p" using assms div_bounds(2) [OF assms(1), of "f - s"] by linarith
  from multiple_step [OF assms(1) this] show ?thesis using False by (simp add: receive_def)
qed

lemma receive_on_time:
  assumes "0 < p" "seen = s + n * p" "seen \<le> f" "f < seen + p"
  shows "receive s p seen f = seen + p"
proof -
  have "(f - s) div p = n"
    using assms by (intro int_div_pos_eq [of _ _ _ "f - seen"]) (simp_all add: algebra_simps)
  then show ?thesis using assms(2) by (simp add: receive_def waiting_def algebra_simps)
qed

subsection \<open>The loop of a job\<close>

text \<open>The times at which the checks of a job start. Each further round of the loop has the time its check
  takes and the choice of \<^verbatim>\<open>select\<close> when the context is done and a tick is there; \<open>stop\<close> is when the
  context is canceled.\<close>

fun tick_runs :: "instant \<Rightarrow> duration \<Rightarrow> instant option \<Rightarrow> instant \<Rightarrow> instant \<Rightarrow> (duration \<times> bool) list \<Rightarrow> instant list" where
  "tick_runs s p stop seen f [] = []"
| "tick_runs s p stop seen f ((took, lucky) # rest) =
     (let t = receive s p seen f in
      if opt_any stop (\<lambda>c. c < t \<and> f < t \<or> c \<le> t \<and> \<not> lucky) then []
      else t # tick_runs s p stop t (t + took) rest)"

definition jobLoop ::
    "monitor \<Rightarrow> instant \<Rightarrow> duration \<Rightarrow> duration \<Rightarrow> instant option \<Rightarrow> (duration \<times> bool) list \<Rightarrow> instant list" where
  "jobLoop m t0 took0 jitter stop rounds =
     (let interval = mInterval m * second; s = t0 + took0 + jitter in
      t0 # (if interval \<le> 0 then []
            else if opt_any stop (\<lambda>c. c < s) then []
            else tick_runs s interval stop s s rounds))"

text \<open>One check at a time: a check starts when the one before it is over.\<close>

lemma tick_runs_apart:
  assumes "0 < p" "i + 1 < length (tick_runs s p stop seen f rounds)"
  shows "tick_runs s p stop seen f rounds ! i + fst (rounds ! i) \<le> tick_runs s p stop seen f rounds ! (i + 1)"
  using assms(2)
proof (induction rounds arbitrary: seen f i)
  case (Cons r rest)
  obtain took lucky where r: "r = (took, lucky)" by force
  let ?t = "receive s p seen f"
  have run: "tick_runs s p stop seen f ((took, lucky) # rest) = ?t # tick_runs s p stop ?t (?t + took) rest"
    using Cons.prems by (auto simp: r Let_def split: if_splits)
  show ?case
  proof (cases i)
    case 0
    obtain r' rest' where rest: "rest = r' # rest'" using Cons.prems run by (cases rest) (auto simp: r simp del: tick_runs.simps(2))
    obtain took' lucky' where r': "r' = (took', lucky')" by force
    have "tick_runs s p stop ?t (?t + took) rest ! 0 = receive s p ?t (?t + took)"
      using Cons.prems run by (auto simp: r rest r' Let_def split: if_splits)
    then show ?thesis using receive_late [OF assms(1), of "?t + took"] by (simp add: r run 0 del: tick_runs.simps)
  next
    case (Suc j)
    then show ?thesis using Cons.IH [of j ?t "?t + took"] Cons.prems by (simp add: r run del: tick_runs.simps)
  qed
qed simp

text \<open>At most one check per tick.\<close>

lemma tick_runs_counts:
  assumes "0 < p" "list_all (\<lambda>r. 0 \<le> fst r) rounds" "s + n * p \<le> seen" "seen \<le> f"
    and "i < length (tick_runs s p stop seen f rounds)"
  shows "s + (n + 1 + int i) * p \<le> tick_runs s p stop seen f rounds ! i"
  using assms(2-)
proof (induction rounds arbitrary: seen f i n)
  case (Cons r rest)
  obtain took lucky where r: "r = (took, lucky)" by force
  let ?t = "receive s p seen f"
  have run: "tick_runs s p stop seen f ((took, lucky) # rest) = ?t # tick_runs s p stop ?t (?t + took) rest"
    using Cons.prems(4) by (auto simp: r Let_def split: if_splits)
  have first: "s + (n + 1) * p \<le> ?t" by (rule receive_counts [OF assms(1) Cons.prems(2,3)])
  show ?case
  proof (cases i)
    case 0
    then show ?thesis using first by (simp add: r run del: tick_runs.simps)
  next
    case (Suc j)
    have "?t \<le> ?t + took" "list_all (\<lambda>r. 0 \<le> fst r) rest" using Cons.prems(1) by (simp_all add: r)
    then show ?thesis using Cons.IH [of "n + 1" ?t "?t + took" j] first Cons.prems(4) Suc
      by (simp add: r run algebra_simps del: tick_runs.simps)
  qed
qed simp

text \<open>Checks that end within the interval keep the rhythm.\<close>

lemma tick_runs_rhythm:
  assumes "0 < p" "list_all (\<lambda>r. 0 \<le> fst r \<and> fst r < p) rounds" "seen = s + n * p" "seen \<le> f" "f < seen + p"
  shows "tick_runs s p None seen f rounds = map (\<lambda>i. s + (n + 1 + int i) * p) [0..<length rounds]"
  using assms(2-)
proof (induction rounds arbitrary: seen f n)
  case (Cons r rest)
  obtain took lucky where r: "r = (took, lucky)" by force
  have t: "receive s p seen f = s + (n + 1) * p"
    using receive_on_time [OF assms(1) Cons.prems(2-4)] Cons.prems(2) by (simp add: algebra_simps)
  have "tick_runs s p None (s + (n + 1) * p) (s + (n + 1) * p + took) rest
      = map (\<lambda>i. s + (n + 1 + 1 + int i) * p) [0..<length rest]"
    using Cons.IH [of "s + (n + 1) * p" "n + 1" "s + (n + 1) * p + took"] Cons.prems(1) by (simp add: r)
  then show ?case
    by (simp add: r t Let_def upt_conv_Cons map_Suc_upt [symmetric] del: upt_Suc)
qed simp

text \<open>The job of a monitor: a check at once, none before the first interval after the jitter is over, at
  most one per interval from then on, and, when every check ends within the interval, exactly one.
  The second check is up to two intervals away from the end of the first.\<close>

lemma jobLoop_unfold:
  "0 < mInterval m \<Longrightarrow> jobLoop m t0 took0 jitter None rounds
     = t0 # tick_runs (t0 + took0 + jitter) (mInterval m * second) None (t0 + took0 + jitter) (t0 + took0 + jitter) rounds"
  by (simp add: jobLoop_def Let_def zero_less_mult_iff)

lemma jobLoop_bad_interval: "mInterval m \<le> 0 \<Longrightarrow> jobLoop m t0 took0 jitter stop rounds = [t0]"
  by (simp add: jobLoop_def Let_def mult_le_0_iff)

theorem jobLoop_rhythm:
  assumes "0 < mInterval m" "list_all (\<lambda>r. 0 \<le> fst r \<and> fst r < mInterval m * second) rounds"
  shows "jobLoop m t0 took0 jitter None rounds
    = t0 # map (\<lambda>i. t0 + took0 + jitter + (1 + int i) * (mInterval m * second)) [0..<length rounds]"
  using tick_runs_rhythm [of "mInterval m * second" rounds "t0 + took0 + jitter" "t0 + took0 + jitter" 0 "t0 + took0 + jitter"] assms
  by (simp add: jobLoop_unfold zero_less_mult_iff)

theorem jobLoop_bounded:
  assumes "0 < mInterval m" "list_all (\<lambda>r. 0 \<le> fst r) rounds" "i < length rounds"
    and "i + 1 < length (jobLoop m t0 took0 jitter stop rounds)"
  shows "t0 + took0 + jitter + (1 + int i) * (mInterval m * second) \<le> jobLoop m t0 took0 jitter stop rounds ! (i + 1)"
proof -
  have p: "0 < mInterval m * second" using assms(1) by simp
  then show ?thesis
    using tick_runs_counts [OF p assms(2), of "t0 + took0 + jitter" 0 "t0 + took0 + jitter" "t0 + took0 + jitter" i stop] assms(4)
    by (auto simp: jobLoop_def Let_def split: if_splits)
qed

subsection \<open>Stopping\<close>

text \<open>The loop that syncs the jobs, against \<^verbatim>\<open>Stop\<close>. A round of the loop syncs with some monitors or stops the
  jobs of lost partitions; it can still come after \<^verbatim>\<open>stopCh\<close> is closed, because a round may be under way and
  because \<^verbatim>\<open>select\<close> may take the tick. \<^verbatim>\<open>Stop\<close> closes the channel, then cancels the jobs: the distributed
  scheduler waits for the loop to end before that (ten seconds at most), the embedded one does not
  (\<open>waits\<close>).\<close>

datatype stop_phase = Running | Asked | Canceled

record scheduler_life =
  slSched :: sched
  slLoop :: bool
  slPhase :: stop_phase

definition Start :: scheduler_life where
  "Start = \<lparr>slSched = NewScheduler, slLoop = True, slPhase = Running\<rparr>"

inductive life_step :: "bool \<Rightarrow> scheduler_life \<Rightarrow> scheduler_life \<Rightarrow> bool" for waits where
  sync: "slLoop h \<Longrightarrow> life_step waits h (h\<lparr>slSched := sync_jobs ms (slSched h)\<rparr>)"
| lose: "slLoop h \<Longrightarrow> life_step waits h (h\<lparr>slSched := stop_where P (slSched h)\<rparr>)"
| leave: "slLoop h \<Longrightarrow> life_step waits h (h\<lparr>slLoop := False\<rparr>)"
| ask: "slPhase h = Running \<Longrightarrow> life_step waits h (h\<lparr>slPhase := Asked\<rparr>)"
| cancel_all: "slPhase h = Asked \<Longrightarrow> waits \<longrightarrow> \<not> slLoop h \<Longrightarrow>
    life_step waits h (h\<lparr>slPhase := Canceled, slSched := Stop (slSched h)\<rparr>)"

inductive_cases life_stepE: "life_step waits h h'"

inductive life :: "bool \<Rightarrow> scheduler_life \<Rightarrow> bool" for waits where
  started: "life waits Start"
| moved: "life waits h \<Longrightarrow> life_step waits h h' \<Longrightarrow> life waits h'"

lemma sched_ok_fold: "sched_ok s \<Longrightarrow> sched_ok (fold reconcileJob ms s)"
  by (induction ms arbitrary: s) (simp_all add: sched_ok_reconcile)

lemma sched_ok_sync_jobs: "sched_ok s \<Longrightarrow> sched_ok (sync_jobs ms s)"
  by (simp add: sync_jobs_def sched_ok_stop sched_ok_fold)

lemma life_step_ok: "life_step waits h h' \<Longrightarrow> sched_ok (slSched h) \<Longrightarrow> sched_ok (slSched h')"
  by (erule life_stepE) (simp_all add: sched_ok_sync_jobs sched_ok_stop Stop_def)

lemma life_ok: "life waits h \<Longrightarrow> sched_ok (slSched h)"
proof (induction rule: life.induct)
  case started
  then show ?case by (simp add: Start_def sched_ok_New)
next
  case (moved h h')
  then show ?case by (rule_tac life_step_ok)
qed

lemma Stop_nothing: "sched_ok s \<Longrightarrow> live (Stop s) = []"
  using stop_live [of s "\<lambda>_. True"] by (simp add: Stop_def)

lemma waiting_stop_step:
  assumes "life_step True h h'" "sched_ok (slSched h)"
    and "slPhase h = Canceled \<longrightarrow> \<not> slLoop h \<and> live (slSched h) = []"
  shows "slPhase h' = Canceled \<longrightarrow> \<not> slLoop h' \<and> live (slSched h') = []"
  using assms(1) by (rule life_stepE) (use assms(2,3) in \<open>simp_all add: Stop_nothing\<close>)

text \<open>A \<^verbatim>\<open>Stop\<close> that waits for the loop leaves no check running, for good.\<close>

theorem distributed_stop_is_final: "life True h \<Longrightarrow> slPhase h = Canceled \<Longrightarrow> live (slSched h) = []"
proof -
  assume "life True h"
  then have "slPhase h = Canceled \<longrightarrow> \<not> slLoop h \<and> live (slSched h) = []"
  proof (induction rule: life.induct)
    case started
    then show ?case by (simp add: Start_def)
  next
    case (moved h h')
    then show ?case using waiting_stop_step life_ok by metis
  qed
  then show "slPhase h = Canceled \<Longrightarrow> live (slSched h) = []" by simp
qed

text \<open>The embedded scheduler's does not: the round that was under way starts a job after \<^verbatim>\<open>Stop\<close> canceled
  them all. Only the caller's context still ends it, where the comment in \<^verbatim>\<open>Stop\<close> says that closing the
  channel first rules this out, whether or not the caller cancels its context.\<close>

theorem embedded_stop_leaks:
  "\<exists>h. life False h \<and> slPhase h = Canceled \<and> \<not> slLoop h \<and> map (mID \<circ> snd) (live (slSched h)) = [mID m]" for m :: monitor
proof -
  let ?a = "Start\<lparr>slPhase := Asked\<rparr>"
  let ?b = "?a\<lparr>slPhase := Canceled, slSched := Stop (slSched ?a)\<rparr>"
  let ?c = "?b\<lparr>slSched := sync_jobs [m] (slSched ?b)\<rparr>"
  have "life False ?a" by (rule life.moved [OF life.started]) (rule life_step.ask, simp add: Start_def)
  then have "life False ?b" by (rule life.moved) (rule life_step.cancel_all, simp_all)
  then have "life False ?c" by (rule life.moved) (rule life_step.sync, simp add: Start_def)
  then have "life False (?c\<lparr>slLoop := False\<rparr>)" by (rule life.moved) (rule life_step.leave, simp add: Start_def)
  then show ?thesis
    by (intro exI [of _ "?c\<lparr>slLoop := False\<rparr>"]) (simp add: Start_def Stop_def NewScheduler_def sync_jobs_def stop_where_def
      reconcileJob_def startMonitorJob_def)
qed

end
