(* ===== verification/StripeClient.thy ===== *)
theory StripeClient
  imports Billing Config
begin

section \<open>The Stripe client\<close>

text \<open>
  The methods of \<^verbatim>\<open>internal/stripeservice/client.go\<close> over the calls of the Stripe SDK they make: the
  parameters of each call, the errors, and the warning about API versions. The SDK is the parameter
  \<open>stripe_api\<close>; \<open>client_sdk\<close> turns it into what theory \<open>Billing\<close>, whose handlers only see whether a
  call failed, takes for its Stripe.
\<close>

subsection \<open>Calls of the SDK\<close>

record customer_params =
  cuEmail :: "string option"
  cuMetadata :: "(string \<times> string) list"

record search_params =
  seaQuery :: string
  seaLimit :: nat

record checkout_session_params =
  csCustomer :: string
  csMode :: string
  csLineItems :: "(string \<times> int) list"
  csSuccessURL :: string
  csCancelURL :: string

record portal_session_params =
  psCustomer :: string
  psReturnURL :: string

record subscription_list_params =
  slCustomer :: string
  slStatus :: string
  slLimit :: nat

text \<open>A call returns the SDK's error text or its value; an iterator its items and the error it ended with.
  An event comes with the API version it was built for.\<close>

record stripe_api =
  saSearch :: "search_params \<Rightarrow> string list \<times> string option"
  saNewCustomer :: "customer_params \<Rightarrow> string + string"
  saList :: "subscription_list_params \<Rightarrow> stripe_subscription list \<times> string option"
  saCheckout :: "checkout_session_params \<Rightarrow> string + string"
  saPortal :: "portal_session_params \<Rightarrow> string + string"
  saCancel :: "string \<Rightarrow> string option"
  saUpdate :: "string \<Rightarrow> bool \<Rightarrow> string option"
  saGetCustomer :: "string \<Rightarrow> string + stripe_customer"
  saConstruct :: "string \<Rightarrow> string \<Rightarrow> string \<Rightarrow> bool \<Rightarrow> string + stripe_event \<times> string"
  saVersion :: string

text \<open>\<^verbatim>\<open>Client\<close>: the configuration, and the versions warned about.\<close>

record stripe_client =
  clConfig :: stripe_config
  clWarnedVersions :: "string list"

definition NewClient :: "stripe_config \<Rightarrow> stripe_client" where
  "NewClient cfg = \<lparr>clConfig = cfg, clWarnedVersions = []\<rparr>"

subsection \<open>Methods\<close>

definition wrapped :: "string \<Rightarrow> string + 'a \<Rightarrow> string + 'a" where
  "wrapped what r = (case r of Inl err \<Rightarrow> Inl (what @ '': '' @ err) | Inr x \<Rightarrow> Inr x)"

definition quote :: char where
  "quote = CHR 0x27"

definition backslash :: char where
  "backslash = CHR 0x5C"

definition escape_quotes :: "string \<Rightarrow> string" where
  "escape_quotes s = concat (map (\<lambda>c. if c = quote then [backslash, quote] else [c]) s)"

definition customer_query :: "ident \<Rightarrow> string" where
  "customer_query userID =
     ''metadata['' @ [quote] @ ''user_id'' @ [quote] @ '']:'' @ [quote] @ escape_quotes userID @ [quote]"

definition client_FindCustomerByUser :: "stripe_api \<Rightarrow> ident \<Rightarrow> string + string" where
  "client_FindCustomerByUser a userID =
     (case saSearch a \<lparr>seaQuery = customer_query userID, seaLimit = 1\<rparr> of
        (i # _, _) \<Rightarrow> Inr i
      | ([], Some err) \<Rightarrow> Inl (''failed to search customers: '' @ err)
      | ([], None) \<Rightarrow> Inr [])"

definition new_customer_params :: "ident \<Rightarrow> string \<Rightarrow> customer_params" where
  "new_customer_params userID email =
     \<lparr>cuEmail = (if email = [] then None else Some email), cuMetadata = [(''user_id'', userID)]\<rparr>"

definition client_EnsureCustomer :: "stripe_api \<Rightarrow> ident \<Rightarrow> string \<Rightarrow> string + string" where
  "client_EnsureCustomer a userID email =
     (case client_FindCustomerByUser a userID of
        Inl err \<Rightarrow> Inl err
      | Inr i \<Rightarrow>
          if i \<noteq> [] then Inr i
          else wrapped ''failed to create Stripe customer'' (saNewCustomer a (new_customer_params userID email)))"

definition CreateCheckoutSession :: "stripe_api \<Rightarrow> string \<Rightarrow> string \<Rightarrow> string \<Rightarrow> string \<Rightarrow> string + string" where
  "CreateCheckoutSession a customerID priceID successURL cancelURL =
     wrapped ''failed to create checkout session''
       (saCheckout a \<lparr>csCustomer = customerID, csMode = ''subscription'', csLineItems = [(priceID, 1)],
                      csSuccessURL = successURL, csCancelURL = cancelURL\<rparr>)"

definition CreatePortalSession :: "stripe_api \<Rightarrow> string \<Rightarrow> string \<Rightarrow> string + string" where
  "CreatePortalSession a customerID returnURL =
     wrapped ''failed to create portal session'' (saPortal a \<lparr>psCustomer = customerID, psReturnURL = returnURL\<rparr>)"

definition client_CancelSubscription :: "stripe_api \<Rightarrow> string \<Rightarrow> string option" where
  "client_CancelSubscription a subID = saCancel a subID"

definition SetCancelAtPeriodEnd :: "stripe_api \<Rightarrow> string \<Rightarrow> bool \<Rightarrow> string option" where
  "SetCancelAtPeriodEnd a subID c = saUpdate a subID c"

definition GetCustomer :: "stripe_api \<Rightarrow> string \<Rightarrow> string + stripe_customer" where
  "GetCustomer a customerID = saGetCustomer a customerID"

definition client_GetActiveSubscription :: "stripe_api \<Rightarrow> string \<Rightarrow> string + stripe_subscription option" where
  "client_GetActiveSubscription a customerID =
     (case saList a \<lparr>slCustomer = customerID, slStatus = ''all'', slLimit = 20\<rparr> of (ss, err) \<Rightarrow>
      case active_loop None ss of
        Inr s \<Rightarrow> Inr (Some s)
      | Inl fallback \<Rightarrow> (case err of Some x \<Rightarrow> Inl (''failed to list subscriptions: '' @ x) | None \<Rightarrow> Inr fallback))"

text \<open>\<^verbatim>\<open>ParseWebhook\<close>: the event or an error, the version it warned about, and the client.\<close>

definition ParseWebhook ::
    "stripe_api \<Rightarrow> string \<Rightarrow> string \<Rightarrow> stripe_client \<Rightarrow> ((string + stripe_event) \<times> string option) \<times> stripe_client" where
  "ParseWebhook a payload sig c =
     (case saConstruct a payload sig (spWebhookSecret (clConfig c)) True of
        Inl err \<Rightarrow> ((Inl (''webhook signature verification failed: '' @ err), None), c)
      | Inr (event, v) \<Rightarrow>
          if v \<noteq> [] \<and> v \<noteq> saVersion a \<and> v \<notin> set (clWarnedVersions c)
          then ((Inr event, Some v), c\<lparr>clWarnedVersions := v # clWarnedVersions c\<rparr>)
          else ((Inr event, None), c))"

subsection \<open>The client under the handlers\<close>

definition value_of :: "string + 'a \<Rightarrow> 'a option" where
  "value_of r = (case r of Inl _ \<Rightarrow> None | Inr x \<Rightarrow> Some x)"

definition client_sdk :: "stripe_api \<Rightarrow> stripe_client \<Rightarrow> sdk" where
  "client_sdk a c =
     \<lparr>skProPriceID = spProPriceID (clConfig c), skEnterprisePriceID = spEnterprisePriceID (clConfig c),
      skSearchCustomers = (\<lambda>u. case saSearch a \<lparr>seaQuery = customer_query u, seaLimit = 1\<rparr> of (is, err) \<Rightarrow> (is, err \<noteq> None)),
      skNewCustomer = (\<lambda>u m. value_of (saNewCustomer a (new_customer_params u m))),
      skListSubscriptions = (\<lambda>u. case saList a \<lparr>slCustomer = u, slStatus = ''all'', slLimit = 20\<rparr> of (ss, err) \<Rightarrow> (ss, err \<noteq> None)),
      skCheckout = (\<lambda>u p s x. value_of (CreateCheckoutSession a u p s x)),
      skPortal = (\<lambda>u r. value_of (CreatePortalSession a u r)),
      skSetCancel = (\<lambda>i b. SetCancelAtPeriodEnd a i b = None),
      skGetCustomer = (\<lambda>u. value_of (GetCustomer a u)),
      skEvent = (\<lambda>p g. value_of (fst (fst (ParseWebhook a p g c))))\<rparr>"

text \<open>What the handlers see of these methods is what theory \<open>Billing\<close> computes from \<open>client_sdk\<close>.\<close>

lemma client_FindCustomer: "FindCustomerByUser (client_sdk a c) u = value_of (client_FindCustomerByUser a u)"
  by (auto simp: FindCustomerByUser_def client_FindCustomerByUser_def client_sdk_def value_of_def
      split: prod.split list.split option.split)

lemma value_of_wrapped [simp]: "value_of (wrapped w r) = value_of r"
  by (simp add: value_of_def wrapped_def split: sum.split)

lemma client_Ensure: "EnsureCustomer (client_sdk a c) u m = value_of (client_EnsureCustomer a u m)"
  by (cases "client_FindCustomerByUser a u")
    (simp_all add: EnsureCustomer_def client_EnsureCustomer_def client_FindCustomer,
     simp_all add: value_of_def client_sdk_def wrapped_def split: sum.split)

lemma client_GetActive: "GetActiveSubscription (client_sdk a c) u = value_of (client_GetActiveSubscription a u)"
  by (auto simp: GetActiveSubscription_def client_GetActiveSubscription_def client_sdk_def value_of_def
      split: prod.split sum.split option.split)

text \<open>A user id without a backslash is quoted whole: reading the query back, up to the quote that no
  backslash protects, gives it.\<close>

fun unquote :: "string \<Rightarrow> (string \<times> string) option" where
  "unquote [] = None"
| "unquote (x # xs) =
     (if x = quote then Some ([], xs)
      else if x = backslash then (case xs of [] \<Rightarrow> None | y # ys \<Rightarrow> map_option (\<lambda>(s, r). (y # s, r)) (unquote ys))
      else map_option (\<lambda>(s, r). (x # s, r)) (unquote xs))"

lemma quotes_differ [simp]: "quote \<noteq> backslash" "backslash \<noteq> quote"
  by (simp_all add: quote_def backslash_def)

lemma escape_Cons: "escape_quotes (x # xs) = (if x = quote then [backslash, quote] else [x]) @ escape_quotes xs"
  by (simp add: escape_quotes_def)

lemma escape_Nil: "escape_quotes [] = []"
  by (simp add: escape_quotes_def)

lemma user_id_quoted: "backslash \<notin> set u \<Longrightarrow> unquote (escape_quotes u @ quote # rest) = Some (u, rest)"
  by (induction u) (auto simp: escape_Cons escape_Nil)

text \<open>Over any webhooks a version is warned about once, and never the client's own.\<close>

primrec webhooks :: "stripe_api \<Rightarrow> (string \<times> string) list \<Rightarrow> stripe_client \<Rightarrow> string list" where
  "webhooks a [] c = []"
| "webhooks a (r # rs) c =
     (case ParseWebhook a (fst r) (snd r) c of ((_, w), c') \<Rightarrow>
        (case w of None \<Rightarrow> [] | Some v \<Rightarrow> [v]) @ webhooks a rs c')"

lemma webhooks_fresh: "distinct (webhooks a rs c) \<and> set (webhooks a rs c) \<inter> (set (clWarnedVersions c) \<union> {[], saVersion a}) = {}"
proof (induction rs arbitrary: c)
  case (Cons r rs)
  obtain e w c' where p: "ParseWebhook a (fst r) (snd r) c = ((e, w), c')" by (metis prod.collapse)
  have "(w = None \<and> c' = c) \<or>
      (\<exists>v. w = Some v \<and> v \<notin> set (clWarnedVersions c) \<union> {[], saVersion a} \<and> clWarnedVersions c' = v # clWarnedVersions c)"
    using p by (auto simp: ParseWebhook_def split: sum.splits prod.splits if_splits)
  then show ?case using Cons.IH [of c'] by (auto simp: p)
qed simp

lemma version_warned_once: "distinct (webhooks a rs (NewClient cfg)) \<and> saVersion a \<notin> set (webhooks a rs (NewClient cfg))"
  using webhooks_fresh [of a rs "NewClient cfg"] by auto

end
