(* ===== verification/Spec2Isabelle.thy ===== *)
theory Spec2Isabelle
  imports BillingLaws MonitorLaws Coordinator Outbox Verifier RateLimit Reads Alerts Incidents Mailer
    Checkers Commands Routes Pacing StripeClient
begin

section \<open>UpGuardly server: a verification development\<close>

text \<open>
  The repository is the back end of an uptime monitor. An HTTP API (\<^verbatim>\<open>internal/api\<close>) lets users and
  organizations keep monitors, maintenance windows and notification channels in a PostgreSQL
  database (\<^verbatim>\<open>internal/database/bun\<close>), within the limits of a plan that Stripe bills
  (\<^verbatim>\<open>internal/api/handlers/subscriptions.go\<close>, \<^verbatim>\<open>internal/stripeservice\<close>). Schedulers
  (\<^verbatim>\<open>internal/scheduler\<close>), coordinated through etcd (\<^verbatim>\<open>internal/coordination\<close>), run the checks of
  \<^verbatim>\<open>internal/monitor\<close>, write their results, and dispatch the alerts that the database queues.

  \<^bold>\<open>The model.\<close> A struct is a record, an enumeration a datatype, a pointer that may be nil an option,
  an instant the number of nanoseconds since the epoch. A SQL table is the list of its rows and a
  store method is a function from the database to a result, an error or a value, and the new
  database; the text of each query is read as the selection, update or deletion it denotes. A handler
  takes the database, an environment (clock, fresh identifiers, network, mail, and which of its store
  calls fail) and the decoded request, and returns the response and the database. What is outside the
  repository is an argument: URL parsing, DNS, the Stripe SDK, the MD5 digest, the HTTP and mail
  clients, the network that checks run over, the etcd client, gin's lookup of a route, the TLS and RDAP lookups. The functions
  of the schema \<^verbatim>\<open>maintenance\<close> live in the migrations (\<^verbatim>\<open>internal/database/bun/migrations\<close>); the workers'
  theories record their calls, and \<open>Incidents\<close> models their bodies and puts the two together.

  \<^bold>\<open>The theories\<close>, in the order in which they build on each other:
  \<^item> \<open>Prelude\<close>: shared types, errors, Go's integer and time arithmetic, tables as lists.
  \<^item> \<open>Civil\<close>: calendar dates and their layout; distinct days have distinct dates.
  \<^item> \<open>Plans\<close> and \<open>Requests\<close> (\<^verbatim>\<open>internal/models\<close>): plan limits, channel caps, regions, the expiry
    arithmetic; validation of requests, with the bounds that hold after it.
  \<^item> \<open>Partition\<close> (\<^verbatim>\<open>coordination/partition.go\<close>): the partition of a monitor in Go and in SQL agrees;
    the instances of a list own every partition exactly once. The locale \<open>ownership\<close> is the contract.
  \<^item> \<open>Store\<close> and \<open>Accounts\<close> (\<^verbatim>\<open>database/bun/store.go\<close>): every method on monitors, windows, channels,
    settings, organizations, members, invitations, recipients and subscriptions.
  \<^item> \<open>Schema\<close>: the constraints of the database as an invariant, kept by every method. The locale
    \<open>store_method\<close> is interpreted once per method.
  \<^item> \<open>StoreLaws\<close>: quotas, seats, reconciliation with a plan, and the upserts (locale
    \<open>keyed_upsert\<close>).
  \<^item> \<open>Target\<close> (\<^verbatim>\<open>monitor/validate.go\<close>, \<^verbatim>\<open>handlers/validation.go\<close>): the guards against requests to
    private networks.
  \<^item> \<open>Access\<close>, \<open>OrgApi\<close>, \<open>MonitorApi\<close>, \<open>MonitorLaws\<close>, \<open>Api\<close> (\<^verbatim>\<open>internal/api\<close>): middleware, the
    handlers, the routes with their middleware; reachable states of the whole API keep one owner per
    organization, and monitors are created and changed within every limit of the plan (\<open>conforms\<close>), whatever
    store calls fail.
  \<^item> \<open>Routes\<close> (\<^verbatim>\<open>router.go\<close>): the route table as data with its middleware chain, over any lookup that finds the
    route a request matches (\<open>gin_finds\<close>), agrees with the writing requests of \<open>Api\<close>; every write passes its guards;
    the trusted proxies and the request counters.
  \<^item> \<open>Billing\<close> and \<open>BillingLaws\<close>: checkout, portal, cancellation and webhooks; the monitors keep
    fitting the plan while the reads and statements of a reconciliation work (\<open>reconciles\<close>) and do not when the
    previous record cannot be read; redelivered webhooks change nothing; the two events that misbehave;
    \<open>StripeClient\<close> (\<^verbatim>\<open>stripeservice/client.go\<close>): the SDK calls under them.
  \<^item> \<open>Scheduler\<close> (\<^verbatim>\<open>scheduler.go\<close>, \<^verbatim>\<open>distributed.go\<close>): jobs follow the configuration, and instances that
    process the same membership check every enabled monitor once.
  \<^item> \<open>Coordinator\<close> (\<^verbatim>\<open>coordination/coordinator.go\<close>): the instances of a region learn the same membership
    from etcd, through a channel that never blocks, so that their schedulers agree; the retries of a lost
    registration.
  \<^item> \<open>Config\<close> (\<^verbatim>\<open>internal/config\<close>): the environment as a configuration; the regions it offers.
  \<^item> \<open>Worker\<close>: claiming with \<^verbatim>\<open>SKIP LOCKED\<close> and draining a backlog, for the workers below; the locale
    \<open>draining\<close> makes a tick end, after the batches it names.
  \<^item> \<open>Outbox\<close> (\<^verbatim>\<open>dispatcher.go\<close>): what a batch does to each alert, and that a tick ends.
  \<^item> \<open>Alerts\<close> (\<^verbatim>\<open>internal/alerter\<close>): what each channel sends and reports; errors carry no credential, and one
    kind of error text keeps an alert in the outbox.
  \<^item> \<open>Checkers\<close> (\<^verbatim>\<open>internal/monitor\<close>): the checks reach no blocked address, but for those with a zone.
  \<^item> \<open>Runner\<close> (\<^verbatim>\<open>runner.go\<close>): classification of a check; the batching writer as a step relation that
    loses nothing; the panic of a check that outlives \<^verbatim>\<open>Stop\<close>; \<open>Pacing\<close>: when the checks of a job start, and which
    scheduler stops for good.
  \<^item> \<open>Verifier\<close> (\<^verbatim>\<open>verifier.go\<close>): a confirmation request is claimed and reported once, and none outlives
    its deadline; the requests of disabled monitors that hold up the others.
  \<^item> \<open>Expiry\<close> (\<^verbatim>\<open>expiry.go\<close>, \<^verbatim>\<open>domaincheck.go\<close>): an expiry date asks for an alert once per bucket, a sweep
    leaves every sub-check fresh unless its last claim failed, and the dates that escape the rule.
  \<^item> \<open>Incidents\<close> (the functions \<^verbatim>\<open>in_maintenance\<close>, \<^verbatim>\<open>enqueue_monitor_alerts\<close>, \<^verbatim>\<open>evaluate_monitor_quorum\<close>,
    \<^verbatim>\<open>record_region_check\<close>, \<^verbatim>\<open>enqueue_repeat_alerts\<close> in SQL, the store methods that call them, and
    \<^verbatim>\<open>repeater.go\<close>): the quorum refines a state machine with one open incident per monitor, in every
    reachable state of the engine; a transition puts one alert per channel and recipient in the outbox; and
    the alerts that the database refuses to queue.
  \<^item> \<open>Mailer\<close> (\<^verbatim>\<open>internal/mailer\<close>): the mails about accounts, and the overrides that send them.
  \<^item> \<open>Stats\<close> (the end of \<^verbatim>\<open>store.go\<close>): latency and availability from raw checks and from the hourly
    rollups agree, and what the series look like; \<open>Reads\<close> (\<^verbatim>\<open>handlers/monitors.go\<close>): the endpoints that read
    them answer without panic, and only to those who may see the monitor.
  \<^item> \<open>RateLimit\<close> (\<^verbatim>\<open>middleware/ratelimit.go\<close>): the locale \<open>fixed_window\<close> proves the guarantee once, for the
    counter in memory and for the Redis script.
  \<^item> \<open>Commands\<close> (\<^verbatim>\<open>cmd\<close>, \<^verbatim>\<open>internal/redisclient\<close>): the backfill, the migrations, which give their lock back
    whatever fails, with their baseline, and the order in which the server and the scheduler start.

  \<^bold>\<open>Totality.\<close> Every operation is a total function; loops that could run forever are
  \<open>partial_function (option)\<close> with a theorem that they return, and no fuel is used.

  \<^bold>\<open>Not modelled.\<close> The SQL that maintains partitions and rollups, Prometheus metrics,
  logging, signals and shutdown, the session check of SuperTokens, the settings of the connection pools; float
  rounding, where a quotient is an exact rational; timeouts of contexts, which appear as store calls
  that fail. The manifest names each part with its reason.
\<close>

end
